(* ===== verification/Prelude.thy ===== *)
theory Prelude
  imports
    Main
    "HOL-Library.Char_ord"
    "HOL-Library.List_Lexorder"
    "HOL-Library.State_Monad"
    "HOL-Library.Monad_Syntax"
begin

text \<open>
  What the components share. Three layers:
  \<^item> Go's byte strings and the functions of the packages \<open>strings\<close>, \<open>strconv\<close>,
    \<open>unicode/utf8\<close> and \<open>time\<close> that the code calls (a Go string is a list of bytes, so
    \<open>string\<close> fits; where the code converts to \<open>[]rune\<close> the model decodes UTF-8);
  \<^item> general lemmas about them, collected in \<open>gostr\<close>;
  \<^item> the weakest-precondition equations for the state monad in which the stateful
    components are written, collected in \<open>wp_simps\<close>.
\<close>

named_theorems gostr \<open>characterisations of the string functions\<close>
named_theorems wp_simps \<open>weakest preconditions of monadic programs\<close>

section \<open>Go strings\<close>

text \<open>Bytes that do not fit a string literal.\<close>

definition nl :: string where "nl = [CHR 0x0A]"
definition emdash :: string where "emdash = [CHR 0xE2, CHR 0x80, CHR 0x94]"
definition ellipsis :: string where "ellipsis = [CHR 0xE2, CHR 0x80, CHR 0xA6]"
definition return_sign :: string where "return_sign = [CHR 0xE2, CHR 0x8F, CHR 0x8E]"
definition backslash :: char where "backslash = CHR 0x5C"
definition dquote :: char where "dquote = CHR 0x22"

subsection \<open>Prefixes, suffixes, substrings\<close>

fun has_prefix :: "string \<Rightarrow> string \<Rightarrow> bool" where
  "has_prefix s [] = True"
| "has_prefix [] (p # ps) = False"
| "has_prefix (c # s) (p # ps) = (c = p \<and> has_prefix s ps)"

definition has_suffix :: "string \<Rightarrow> string \<Rightarrow> bool" where
  "has_suffix s suf = has_prefix (rev s) (rev suf)"

definition trim_prefix :: "string \<Rightarrow> string \<Rightarrow> string" where
  "trim_prefix s p = (if has_prefix s p then drop (length p) s else s)"

definition cut_suffix :: "string \<Rightarrow> string \<Rightarrow> string option" where
  "cut_suffix s suf =
     (if has_suffix s suf then Some (take (length s - length suf) s) else None)"

definition trim_suffix :: "string \<Rightarrow> string \<Rightarrow> string" where
  "trim_suffix s suf = (case cut_suffix s suf of None \<Rightarrow> s | Some t \<Rightarrow> t)"

fun str_index :: "string \<Rightarrow> string \<Rightarrow> nat option" where
  "str_index [] sub = (if sub = [] then Some 0 else None)"
| "str_index (c # s) sub =
     (if has_prefix (c # s) sub then Some 0 else map_option Suc (str_index s sub))"

fun str_contains :: "string \<Rightarrow> string \<Rightarrow> bool" where
  "str_contains [] sub = (sub = [])"
| "str_contains (c # s) sub = (has_prefix (c # s) sub \<or> str_contains s sub)"

text \<open>\<open>strings.Count\<close> of a non-empty separator: non-overlapping occurrences.\<close>

function str_count :: "string \<Rightarrow> string \<Rightarrow> nat" where
  "str_count s sub =
     (case str_index s sub of
        None \<Rightarrow> 0
      | Some i \<Rightarrow> if sub = [] then 0 else Suc (str_count (drop (i + length sub) s) sub))"
  by pat_completeness auto

lemma has_prefix_iff [gostr]: "has_prefix s p \<longleftrightarrow> (\<exists>t. s = p @ t)"
  by (induction s p rule: has_prefix.induct) auto

lemma has_prefix_append [simp]: "has_prefix (p @ s) p"
  by (auto simp: has_prefix_iff)

lemma has_prefix_take [gostr]: "has_prefix s p \<Longrightarrow> s = p @ drop (length p) s"
  by (auto simp: has_prefix_iff)

lemma has_suffix_iff [gostr]: "has_suffix s suf \<longleftrightarrow> (\<exists>t. s = t @ suf)"
proof -
  have "has_prefix (rev s) (rev suf) \<longleftrightarrow> (\<exists>t. rev s = rev suf @ t)"
    by (simp add: has_prefix_iff)
  also have "\<dots> \<longleftrightarrow> (\<exists>t. s = t @ suf)"
    by (metis rev_append rev_rev_ident)
  finally show ?thesis by (simp add: has_suffix_def)
qed

lemma cut_suffix_Some [gostr]: "cut_suffix s suf = Some t \<longleftrightarrow> s = t @ suf"
  by (auto simp: cut_suffix_def has_suffix_iff)

lemma cut_suffix_None [gostr]: "cut_suffix s suf = None \<longleftrightarrow> \<not> has_suffix s suf"
  by (simp add: cut_suffix_def)

lemma str_contains_iff [gostr]: "str_contains s sub \<longleftrightarrow> (\<exists>a b. s = a @ sub @ b)"
proof (induction s)
  case Nil
  then show ?case by auto
next
  case (Cons c s)
  show ?case (is "?l \<longleftrightarrow> ?r")
  proof
    assume ?l
    then consider t where "c # s = sub @ t" | a b where "s = a @ sub @ b"
      using Cons.IH by (auto simp: has_prefix_iff)
    then show ?r
    proof cases
      case 1
      then have "c # s = [] @ sub @ t" by simp
      then show ?thesis by blast
    next
      case 2
      then have "c # s = (c # a) @ sub @ b" by simp
      then show ?thesis by blast
    qed
  next
    assume ?r
    then obtain a b where ab: "c # s = a @ sub @ b" by auto
    show ?l
    proof (cases a)
      case Nil
      with ab have "has_prefix (c # s) sub" by (auto simp: has_prefix_iff)
      then show ?thesis by simp
    next
      case (Cons d a')
      with ab have "s = a' @ sub @ b" by simp
      then have "str_contains s sub" using Cons.IH by blast
      then show ?thesis by simp
    qed
  qed
qed

lemma str_index_Some [gostr]:
  "str_index s sub = Some i \<Longrightarrow> i + length sub \<le> length s \<and> s = take i s @ sub @ drop (i + length sub) s"
proof (induction s arbitrary: i)
  case Nil
  then show ?case by (simp split: if_splits)
next
  case (Cons c s)
  show ?case
  proof (cases "has_prefix (c # s) sub")
    case True
    with Cons.prems have "i = 0" by simp
    moreover from True obtain t where "c # s = sub @ t" by (auto simp: has_prefix_iff)
    ultimately show ?thesis by (metis add_0 append_Nil append_eq_conv_conj le_add1 length_append take0)
  next
    case False
    with Cons.prems obtain j where "str_index s sub = Some j" and "i = Suc j" by auto
    with Cons.IH [of j] show ?thesis by simp
  qed
qed

lemma str_index_None [gostr]: "str_index s sub = None \<longleftrightarrow> \<not> str_contains s sub"
  by (induction s) auto

termination str_count
  by (relation "measure (\<lambda>(s, sub). length s)")
     (auto dest!: str_index_Some simp: less_diff_conv2)

declare str_count.simps [simp del]

lemma str_contains_append1: "str_contains s sub \<Longrightarrow> str_contains (s @ t) sub"
  by (metis append_assoc str_contains_iff)

lemma str_contains_append2: "str_contains t sub \<Longrightarrow> str_contains (s @ t) sub"
  by (metis append_assoc str_contains_iff)

lemma str_contains_set: "str_contains s sub \<Longrightarrow> set sub \<subseteq> set s"
  by (auto simp: str_contains_iff)

lemma str_contains_nonempty: "str_contains s sub \<Longrightarrow> sub \<noteq> [] \<Longrightarrow> s \<noteq> []"
  by (auto simp: str_contains_iff)

subsection \<open>Cutting, splitting, joining\<close>

definition str_cut :: "string \<Rightarrow> string \<Rightarrow> string \<times> string \<times> bool" where
  "str_cut s sep =
     (case str_index s sep of
        None \<Rightarrow> (s, [], False)
      | Some i \<Rightarrow> (take i s, drop (i + length sep) s, True))"

definition str_last_index :: "string \<Rightarrow> char \<Rightarrow> nat option" where
  "str_last_index s c =
     (if c \<in> set s then Some (length s - 1 - length (takeWhile (\<lambda>x. x \<noteq> c) (rev s))) else None)"

text \<open>\<open>strings.Split\<close> at a one-byte separator, and its inverse \<open>strings.Join\<close>.\<close>

fun split_on :: "char \<Rightarrow> string \<Rightarrow> string list" where
  "split_on c [] = [[]]"
| "split_on c (x # xs) =
     (if x = c then [] # split_on c xs
      else (case split_on c xs of [] \<Rightarrow> [[x]] | w # ws \<Rightarrow> (x # w) # ws))"

fun str_join :: "string list \<Rightarrow> string \<Rightarrow> string" where
  "str_join [] sep = []"
| "str_join [w] sep = w"
| "str_join (w # v # ws) sep = w @ sep @ str_join (v # ws) sep"

lemma split_on_nonempty [simp]: "split_on c s \<noteq> []"
  by (induction s) (auto split: list.splits)

lemma str_join_Cons: "ws \<noteq> [] \<Longrightarrow> str_join (w # ws) sep = w @ sep @ str_join ws sep"
  by (cases ws) auto

lemma str_join_snoc: "ws \<noteq> [] \<Longrightarrow> str_join (ws @ [w]) sep = str_join ws sep @ sep @ w"
proof (induction ws)
  case Nil
  then show ?case by simp
next
  case (Cons a ws)
  then show ?case by (cases "ws = []") (simp_all add: str_join_Cons)
qed

lemma str_join_split_on: "str_join (split_on c s) [c] = s"
proof (induction s)
  case Nil
  then show ?case by simp
next
  case (Cons x xs)
  obtain w ws where ws: "split_on c xs = w # ws" by (cases "split_on c xs") auto
  show ?case
  proof (cases "x = c")
    case True
    with Cons.IH show ?thesis by (simp add: str_join_Cons)
  next
    case False
    with Cons.IH ws show ?thesis by (cases ws) auto
  qed
qed

lemma split_on_no_sep: "w \<in> set (split_on c s) \<Longrightarrow> c \<notin> set w"
proof (induction s arbitrary: w)
  case Nil
  then show ?case by simp
next
  case (Cons x xs)
  obtain v ws where ws: "split_on c xs = v # ws" by (cases "split_on c xs") auto
  with Cons show ?case by (auto split: if_splits)
qed

lemma split_on_word: "c \<notin> set w \<Longrightarrow> split_on c w = [w]"
  by (induction w) auto

lemma split_on_append: "c \<notin> set w \<Longrightarrow> split_on c (w @ c # s) = w # split_on c s"
  by (induction w) auto

lemma split_on_join:
  "ws \<noteq> [] \<Longrightarrow> \<forall>w \<in> set ws. c \<notin> set w \<Longrightarrow> split_on c (str_join ws [c]) = ws"
proof (induction ws)
  case Nil
  then show ?case by simp
next
  case (Cons w ws)
  show ?case
  proof (cases ws)
    case Nil
    with Cons.prems show ?thesis by (simp add: split_on_word)
  next
    case (Cons v vs)
    with Cons.prems Cons.IH show ?thesis by (simp add: split_on_append)
  qed
qed

subsection \<open>White space, case, fields\<close>

text \<open>The ASCII white space of \<open>unicode.IsSpace\<close>; the two Latin-1 spaces are multi-byte
  in UTF-8 and are not trimmed by the model.\<close>

definition is_space :: "char \<Rightarrow> bool" where
  "is_space c \<longleftrightarrow>
     c \<in> {CHR '' '', CHR 0x09, CHR 0x0A, CHR 0x0B, CHR 0x0C, CHR 0x0D}"

definition trim_left_by :: "(char \<Rightarrow> bool) \<Rightarrow> string \<Rightarrow> string" where
  "trim_left_by f s = dropWhile f s"

definition trim_right_by :: "(char \<Rightarrow> bool) \<Rightarrow> string \<Rightarrow> string" where
  "trim_right_by f s = rev (dropWhile f (rev s))"

definition trim_space :: "string \<Rightarrow> string" where
  "trim_space s = trim_right_by is_space (trim_left_by is_space s)"

definition lower_char :: "char \<Rightarrow> char" where
  "lower_char c =
     (if 65 \<le> (of_char c :: nat) \<and> (of_char c :: nat) \<le> 90 then char_of ((of_char c :: nat) + 32) else c)"

definition to_lower :: "string \<Rightarrow> string" where
  "to_lower s = map lower_char s"

definition equal_fold :: "string \<Rightarrow> string \<Rightarrow> bool" where
  "equal_fold a b = (to_lower a = to_lower b)"

function fields :: "string \<Rightarrow> string list" where
  "fields s =
     (let t = dropWhile is_space s
      in if t = [] then [] else takeWhile (\<lambda>c. \<not> is_space c) t # fields (dropWhile (\<lambda>c. \<not> is_space c) t))"
  by pat_completeness auto
termination
proof (relation "measure length")
  fix s t :: string
  assume t: "t = dropWhile is_space s" and ne: "t \<noteq> []"
  then obtain c t' where ct: "t = c # t'" by (metis list.exhaust)
  with t have "\<not> is_space c" by (metis hd_dropWhile list.sel(1) list.distinct(1))
  with ct have "length (dropWhile (\<lambda>c. \<not> is_space c) t) \<le> length t'"
    by (simp add: length_dropWhile_le)
  moreover have "length t \<le> length s" using t by (simp add: length_dropWhile_le)
  ultimately show "(dropWhile (\<lambda>c. \<not> is_space c) t, s) \<in> measure length" using ct by simp
qed simp

declare fields.simps [simp del]

lemma trim_right_by_snoc [simp]: "\<not> f c \<Longrightarrow> trim_right_by f (s @ [c]) = s @ [c]"
  by (simp add: trim_right_by_def)

lemma trim_right_by_append:
  "trim_right_by f (s @ t) = (if trim_right_by f t = [] then trim_right_by f s else s @ trim_right_by f t)"
  by (auto simp: trim_right_by_def dropWhile_append)

lemma trim_space_Nil [simp]: "trim_space [] = []"
  by (simp add: trim_space_def trim_left_by_def trim_right_by_def)

lemma trim_right_by_id: "s \<noteq> [] \<Longrightarrow> \<not> f (last s) \<Longrightarrow> trim_right_by f s = s"
  by (metis append_butlast_last_id trim_right_by_snoc)

lemma trim_space_id: "s \<noteq> [] \<Longrightarrow> \<not> is_space (hd s) \<Longrightarrow> \<not> is_space (last s) \<Longrightarrow> trim_space s = s"
proof -
  assume s: "s \<noteq> []" "\<not> is_space (hd s)" "\<not> is_space (last s)"
  then have "dropWhile is_space s = s" by (cases s) simp_all
  with s show ?thesis by (simp add: trim_space_def trim_left_by_def trim_right_by_id)
qed

subsection \<open>Numbers and quoting\<close>

fun nat_digits :: "nat \<Rightarrow> string" where
  "nat_digits n =
     (if n < 10 then [char_of (48 + n)] else nat_digits (n div 10) @ [char_of (48 + n mod 10)])"

declare nat_digits.simps [simp del]

definition itoa :: "int \<Rightarrow> string" where
  "itoa i = (if i < 0 then CHR ''-'' # nat_digits (nat (- i)) else nat_digits (nat i))"

definition is_digit :: "char \<Rightarrow> bool" where
  "is_digit c \<longleftrightarrow> 48 \<le> (of_char c :: nat) \<and> (of_char c :: nat) \<le> 57"

lemma nat_digits_digit: "c \<in> set (nat_digits n) \<Longrightarrow> is_digit c"
proof (induction n rule: nat_digits.induct)
  case (1 n)
  then show ?case
    by (auto simp: nat_digits.simps [of n] is_digit_def split: if_splits)
qed

lemma nat_digits_ne [simp]: "nat_digits n \<noteq> []"
  by (subst nat_digits.simps) auto

lemma nat_digits_0 [simp]: "nat_digits 0 = ''0''"
proof -
  have "(char_of (48 :: nat) :: char) = CHR ''0''" by code_simp
  then show ?thesis by (subst nat_digits.simps) simp
qed

fun digits_value :: "nat \<Rightarrow> string \<Rightarrow> nat" where
  "digits_value acc [] = acc"
| "digits_value acc (c # s) = digits_value (10 * acc + (of_char c - 48)) s"

lemma digits_value_append: "digits_value a (s @ t) = digits_value (digits_value a s) t"
  by (induction s arbitrary: a) auto

lemma digits_value_nat_digits: "digits_value 0 (nat_digits n) = n"
proof (induction n rule: nat_digits.induct)
  case (1 n)
  show ?case
  proof (cases "n < 10")
    case True
    then show ?thesis by (simp add: nat_digits.simps [of n])
  next
    case False
    with "1.IH" have "digits_value 0 (nat_digits (n div 10)) = n div 10" by simp
    moreover have "48 + n mod 10 < 256" by (rule less_trans [of _ 58]) simp_all
    ultimately show ?thesis
      using False by (simp add: nat_digits.simps [of n] digits_value_append)
  qed
qed

lemma nat_digits_inj: "nat_digits m = nat_digits n \<longleftrightarrow> m = n"
  by (metis digits_value_nat_digits)

lemma itoa_inj: "itoa i = itoa j \<longleftrightarrow> i = j"
proof -
  have minus: "CHR ''-'' \<notin> set (nat_digits n)" for n
    using nat_digits_digit [of "CHR ''-''" n] by (auto simp: is_digit_def)
  have hd: "nat_digits n \<noteq> CHR ''-'' # s" for n s
    using minus [of n] by (metis list.set_intros(1))
  show ?thesis
    using hd by (auto simp: itoa_def nat_digits_inj) (metis hd)+
qed

lemma itoa_0 [simp]: "itoa 0 = ''0''"
  by (simp add: itoa_def)

lemma itoa_chars: "c \<in> set (itoa i) \<Longrightarrow> is_digit c \<or> c = CHR ''-''"
  by (auto simp: itoa_def dest: nat_digits_digit split: if_splits)

text \<open>\<open>strconv.Quote\<close> (the verb \<open>%q\<close>) on ASCII and printable UTF-8 text.\<close>

definition hex_digit :: "nat \<Rightarrow> char" where
  "hex_digit n = (if n < 10 then char_of (48 + n) else char_of (87 + n))"

definition quote_char :: "char \<Rightarrow> string" where
  "quote_char c =
     (let n = (of_char c :: nat) in
      if c = dquote \<or> c = backslash then [backslash, c]
      else if n = 7 then backslash # ''a'' else if n = 8 then backslash # ''b''
      else if n = 9 then backslash # ''t'' else if n = 10 then backslash # ''n''
      else if n = 11 then backslash # ''v'' else if n = 12 then backslash # ''f''
      else if n = 13 then backslash # ''r''
      else if n < 32 \<or> n = 127 then [backslash, CHR ''x'', hex_digit (n div 16), hex_digit (n mod 16)]
      else [c])"

definition go_quote :: "string \<Rightarrow> string" where
  "go_quote s = dquote # concat (map quote_char s) @ [dquote]"

end
