(* ===== verification/GoPath.thy ===== *)
theory GoPath
  imports Prelude
begin

text \<open>
  The functions of the Go packages \<open>path\<close> and \<open>path/filepath\<close> (on Unix) that the
  code uses: \<open>Clean\<close>, \<open>Join\<close>, \<open>Dir\<close>, \<open>Base\<close>, \<open>IsAbs\<close> and the glob matcher
  \<open>Match\<close>. Globs are matched byte by byte, which is what Go does on ASCII text.
\<close>

definition slash :: char where "slash = CHR 0x2F"

lemma slash_code [code_unfold]: "slash = CHR 0x2F"
  by (simp add: slash_def)

section \<open>Cleaning paths\<close>

definition dot :: string where "dot = ''.''"
definition dotdot :: string where "dotdot = ''..''"

definition is_abs :: "string \<Rightarrow> bool" where "is_abs p = has_prefix p [slash]"

text \<open>One path element against the elements kept so far (last one first): a double dot
  removes the element before it, stays at the front of a relative path and disappears at
  the front of a rooted one.\<close>

definition clean_step :: "bool \<Rightarrow> string \<Rightarrow> string list \<Rightarrow> string list" where
  "clean_step rooted w st =
     (if w = dotdot then
        (case st of
           [] \<Rightarrow> if rooted then [] else [dotdot]
         | v # vs \<Rightarrow> if v = dotdot then dotdot # v # vs else vs)
      else w # st)"

definition path_elems :: "string \<Rightarrow> string list" where
  "path_elems p = filter (\<lambda>w. w \<noteq> [] \<and> w \<noteq> dot) (split_on slash p)"

definition clean_elems :: "bool \<Rightarrow> string list \<Rightarrow> string list" where
  "clean_elems rooted ws = rev (fold (clean_step rooted) ws [])"

definition render_path :: "bool \<Rightarrow> string list \<Rightarrow> string" where
  "render_path rooted ws =
     (if rooted then slash # str_join ws [slash]
      else if ws = [] then dot else str_join ws [slash])"

definition path_clean :: "string \<Rightarrow> string" where
  "path_clean p = render_path (is_abs p) (clean_elems (is_abs p) (path_elems p))"

text \<open>\<open>filepath.Join\<close> of two elements: empty ones are ignored.\<close>

definition path_join :: "string \<Rightarrow> string \<Rightarrow> string" where
  "path_join a b =
     (if a = [] then (if b = [] then [] else path_clean b)
      else if b = [] then path_clean a else path_clean (a @ slash # b))"

text \<open>\<open>filepath.Dir\<close>: everything up to the last slash, cleaned.\<close>

definition path_dir :: "string \<Rightarrow> string" where
  "path_dir p =
     (case str_last_index p slash of None \<Rightarrow> dot | Some i \<Rightarrow> path_clean (take (Suc i) p))"

text \<open>\<open>path.Base\<close>: the last element.\<close>

definition path_base :: "string \<Rightarrow> string" where
  "path_base p =
     (if p = [] then dot
      else let t = trim_right_by (\<lambda>c. c = slash) p in
        if t = [] then [slash] else last (split_on slash t))"

lemma path_elems_ok: "w \<in> set (path_elems p) \<Longrightarrow> w \<noteq> [] \<and> w \<noteq> dot \<and> slash \<notin> set w"
  by (auto simp: path_elems_def dest: split_on_no_sep)

text \<open>The elements of a cleaned path: double dots only at the front, and none at all when
  the path is rooted.\<close>

definition plain_elem :: "string \<Rightarrow> bool" where
  "plain_elem w \<longleftrightarrow> w \<noteq> [] \<and> w \<noteq> dot \<and> w \<noteq> dotdot \<and> slash \<notin> set w"

definition clean_form :: "bool \<Rightarrow> string list \<Rightarrow> bool" where
  "clean_form rooted ws \<longleftrightarrow>
     (\<exists>n us. ws = replicate n dotdot @ us \<and> (\<forall>u \<in> set us. plain_elem u) \<and> (rooted \<longrightarrow> n = 0))"

lemma clean_formI:
  "ws = replicate n dotdot @ us \<Longrightarrow> \<forall>u \<in> set us. plain_elem u \<Longrightarrow> (rooted \<longrightarrow> n = 0) \<Longrightarrow> clean_form rooted ws"
  unfolding clean_form_def by blast

lemma clean_form_Nil: "clean_form rooted []"
  by (rule clean_formI [of _ 0 "[]"]) auto

lemma clean_step_form:
  assumes "clean_form rooted (rev st)" and "w = dotdot \<or> plain_elem w"
  shows "clean_form rooted (rev (clean_step rooted w st))"
proof -
  obtain n us where st: "rev st = replicate n dotdot @ us" "\<forall>u \<in> set us. plain_elem u"
      "rooted \<longrightarrow> n = 0"
    using assms(1) by (auto simp: clean_form_def)
  have st': "st = rev us @ replicate n dotdot"
    using st(1) by (metis rev_append rev_replicate rev_rev_ident)
  show ?thesis
  proof (cases "w = dotdot")
    case False
    with assms(2) have w: "plain_elem w" by simp
    have "rev (clean_step rooted w st) = replicate n dotdot @ (us @ [w])"
      using False st' by (simp add: clean_step_def)
    then show ?thesis by (rule clean_formI) (use st w in auto)
  next
    case True
    show ?thesis
    proof (cases us rule: rev_cases)
      case Nil
      show ?thesis
      proof (cases n)
        case 0
        with Nil st' True have "rev (clean_step rooted w st) = replicate (if rooted then 0 else 1) dotdot @ []"
          by (simp add: clean_step_def)
        then show ?thesis by (rule clean_formI) auto
      next
        case (Suc m)
        with Nil st' True have "rev (clean_step rooted w st) = replicate (Suc n) dotdot @ []"
          by (simp add: clean_step_def replicate_append_same)
        then show ?thesis by (rule clean_formI) (use Suc st(3) in auto)
      qed
    next
      case (snoc vs v)
      with st(2) have "v \<noteq> dotdot" by (simp add: plain_elem_def)
      with snoc st' True have "rev (clean_step rooted w st) = replicate n dotdot @ vs"
        by (simp add: clean_step_def)
      then show ?thesis by (rule clean_formI) (use snoc st in auto)
    qed
  qed
qed

lemma clean_elems_form:
  assumes "\<forall>w \<in> set ws. w = dotdot \<or> plain_elem w"
  shows "clean_form rooted (clean_elems rooted ws)"
proof -
  have "clean_form rooted (rev st) \<Longrightarrow> clean_form rooted (rev (fold (clean_step rooted) ws st))" for st
    using assms
  proof (induction ws arbitrary: st)
    case Nil
    then show ?case by simp
  next
    case (Cons w ws)
    have "clean_form rooted (rev (clean_step rooted w st))"
      by (rule clean_step_form) (use Cons.prems in auto)
    then show ?case using Cons by simp
  qed
  then show ?thesis by (simp add: clean_elems_def clean_form_Nil)
qed

lemma path_elems_shape: "w \<in> set (path_elems p) \<Longrightarrow> w = dotdot \<or> plain_elem w"
  using path_elems_ok by (auto simp: plain_elem_def)

lemma clean_path_form: "clean_form rooted (clean_elems rooted (path_elems p))"
  by (rule clean_elems_form) (auto dest: path_elems_shape)

text \<open>On elements in clean form, cleaning does nothing; and the elements of a rendered path
  are the elements it was rendered from. Together: cleaning is idempotent.\<close>

lemma clean_step_dotdots: "\<not> rooted \<Longrightarrow> clean_step rooted dotdot (replicate k dotdot) = replicate (Suc k) dotdot"
  by (cases k) (auto simp: clean_step_def)

lemma clean_form_dotdots:
  "\<not> rooted \<Longrightarrow> fold (clean_step rooted) (replicate n dotdot) (replicate m dotdot) = replicate (m + n) dotdot"
proof (induction n arbitrary: m)
  case 0
  then show ?case by simp
next
  case (Suc n)
  have "fold (clean_step rooted) (replicate (Suc n) dotdot) (replicate m dotdot)
      = fold (clean_step rooted) (replicate n dotdot) (replicate (Suc m) dotdot)"
    unfolding replicate_Suc [of n] fold_simps(2) clean_step_dotdots [OF Suc.prems] by (rule refl)
  also have "\<dots> = replicate (Suc m + n) dotdot" by (rule Suc.IH [OF Suc.prems])
  finally show ?case by simp
qed

lemma clean_plain: "\<forall>u \<in> set us. plain_elem u \<Longrightarrow> fold (clean_step rooted) us st = rev us @ st"
  by (induction us arbitrary: st) (auto simp: plain_elem_def clean_step_def)

lemma clean_elems_id:
  assumes "clean_form rooted ws"
  shows "clean_elems rooted ws = ws"
proof -
  obtain n us where ws: "ws = replicate n dotdot @ us"
      and us: "\<forall>u \<in> set us. plain_elem u" and n: "rooted \<longrightarrow> n = 0"
    using assms unfolding clean_form_def by blast
  have dots: "fold (clean_step rooted) (replicate n dotdot) [] = replicate n dotdot"
  proof (cases rooted)
    case True
    then show ?thesis using n by simp
  next
    case False
    then show ?thesis using clean_form_dotdots [of rooted n 0] by simp
  qed
  have "fold (clean_step rooted) ws [] = fold (clean_step rooted) us (replicate n dotdot)"
    unfolding ws by (simp only: fold_append comp_apply dots)
  also have "\<dots> = rev us @ replicate n dotdot" by (rule clean_plain [OF us])
  finally have "rev (fold (clean_step rooted) ws []) = replicate n dotdot @ us" by simp
  then show ?thesis unfolding clean_elems_def ws .
qed

lemma clean_form_elem: "clean_form rooted ws \<Longrightarrow> w \<in> set ws \<Longrightarrow> w \<noteq> [] \<and> w \<noteq> dot \<and> slash \<notin> set w"
proof -
  assume "clean_form rooted ws" and w: "w \<in> set ws"
  then obtain n us where "ws = replicate n dotdot @ us" and us: "\<forall>u \<in> set us. plain_elem u"
    unfolding clean_form_def by blast
  with w have "w = dotdot \<or> w \<in> set us" by (auto dest: in_set_replicate [THEN iffD1])
  moreover have "dotdot \<noteq> [] \<and> dotdot \<noteq> dot \<and> slash \<notin> set dotdot"
    by (simp add: dotdot_def dot_def slash_def)
  ultimately show ?thesis using us by (auto simp: plain_elem_def)
qed

lemma path_elems_render:
  assumes "clean_form rooted ws"
  shows "path_elems (render_path rooted ws) = ws"
proof -
  have keep: "filter (\<lambda>w. w \<noteq> [] \<and> w \<noteq> dot) ws = ws"
    using clean_form_elem [OF assms] by (simp add: filter_id_conv)
  have split: "ws \<noteq> [] \<Longrightarrow> split_on slash (str_join ws [slash]) = ws"
    using clean_form_elem [OF assms] by (intro split_on_join) auto
  show ?thesis
  proof (cases "ws = []")
    case True
    then show ?thesis by (simp add: render_path_def path_elems_def dot_def slash_def)
  next
    case False
    with keep split show ?thesis by (simp add: render_path_def path_elems_def)
  qed
qed

lemma join_abs:
  assumes "clean_form False ws"
  shows "\<not> is_abs (render_path False ws)"
proof (cases ws)
  case Nil
  then show ?thesis by (simp add: render_path_def is_abs_def dot_def slash_def)
next
  case (Cons w vs)
  with clean_form_elem [OF assms, of w] obtain c w' where "w = c # w'" and "c \<noteq> slash"
    by (cases w) auto
  with Cons show ?thesis by (cases vs) (auto simp: render_path_def is_abs_def)
qed

lemma is_abs_render: "clean_form rooted ws \<Longrightarrow> is_abs (render_path rooted ws) = rooted"
  using join_abs by (cases rooted) (auto simp: render_path_def is_abs_def)

lemma path_clean_render: "clean_form rooted ws \<Longrightarrow> path_clean (render_path rooted ws) = render_path rooted ws"
  by (simp add: path_clean_def is_abs_render path_elems_render clean_elems_id)

lemma path_clean_idem: "path_clean (path_clean p) = path_clean p"
  unfolding path_clean_def [of p] by (rule path_clean_render) (rule clean_path_form)

lemma path_clean_elems: "path_elems (path_clean p) = clean_elems (is_abs p) (path_elems p)"
  unfolding path_clean_def by (rule path_elems_render) (rule clean_path_form)

lemma path_clean_nonempty: "path_clean p \<noteq> []"
proof -
  have "\<forall>w \<in> set (clean_elems False (path_elems p)). w \<noteq> []"
    using clean_form_elem [OF clean_path_form] by blast
  then show ?thesis
    by (cases "clean_elems False (path_elems p)") (auto simp: path_clean_def render_path_def dot_def str_join_Cons
        split: if_splits elim!: str_join.elims)
qed

lemma is_abs_clean: "is_abs (path_clean p) = is_abs p"
  unfolding path_clean_def by (rule is_abs_render) (rule clean_path_form)

text \<open>A cleaned relative path that neither is the double dot nor starts with one has no
  double dot anywhere: the lexical escape test of the fences.\<close>

definition escapes :: "string \<Rightarrow> bool" where
  "escapes c \<longleftrightarrow> c = dotdot \<or> has_prefix c (dotdot @ [slash])"

lemma escapes_iff:
  assumes "\<not> is_abs p"
  shows "escapes (path_clean p) \<longleftrightarrow> dotdot \<in> set (path_elems (path_clean p))"
proof -
  let ?ws = "clean_elems False (path_elems p)"
  have form: "clean_form False ?ws" by (rule clean_path_form)
  then obtain n us where ws: "?ws = replicate n dotdot @ us" "\<forall>u \<in> set us. plain_elem u"
    by (auto simp: clean_form_def)
  have el: "path_elems (path_clean p) = ?ws" using assms by (simp add: path_clean_elems)
  have cl: "path_clean p = (if ?ws = [] then dot else str_join ?ws [slash])"
    using assms by (simp add: path_clean_def render_path_def)
  show ?thesis
  proof (cases n)
    case (Suc m)
    then have "?ws = dotdot # (replicate m dotdot @ us)" using ws by simp
    then show ?thesis using el cl
      by (cases "replicate m dotdot @ us") (auto simp: escapes_def has_prefix_iff)
  next
    case 0
    then have no: "dotdot \<notin> set ?ws" using ws by (auto simp: plain_elem_def)
    have "\<not> escapes (path_clean p)"
    proof (cases ?ws)
      case Nil
      then show ?thesis using cl by (simp add: escapes_def dot_def dotdot_def)
    next
      case (Cons w vs)
      have w: "w \<noteq> dotdot" "slash \<notin> set w" using no Cons clean_form_elem [OF form, of w] by auto
      have c: "path_clean p = w \<or> (\<exists>t. path_clean p = w @ slash # t)"
        using cl Cons by (cases vs) auto
      have "split_on slash (path_clean p) = w # tl (split_on slash (path_clean p))"
        using c w by (auto simp: split_on_word split_on_append)
      moreover have "has_prefix (path_clean p) (dotdot @ [slash]) \<Longrightarrow> hd (split_on slash (path_clean p)) = dotdot"
      proof -
        assume "has_prefix (path_clean p) (dotdot @ [slash])"
        then obtain t where "path_clean p = dotdot @ slash # t" by (auto simp: has_prefix_iff)
        moreover have "slash \<notin> set dotdot" by (simp add: dotdot_def slash_def)
        ultimately show ?thesis by (simp add: split_on_append)
      qed
      moreover have "path_clean p = dotdot \<Longrightarrow> split_on slash (path_clean p) = [dotdot]"
        by (simp add: split_on_word dotdot_def slash_def)
      ultimately show ?thesis using w unfolding escapes_def by (metis list.sel(1))
    qed
    then show ?thesis using no el by simp
  qed
qed

text \<open>Cleaning a path joined below a rooted one keeps the root's elements, when the relative
  part does not escape.\<close>

lemma clean_step_keeps_dotdot: "dotdot \<in> set st \<Longrightarrow> dotdot \<in> set (fold (clean_step False) ws st)"
proof (induction ws arbitrary: st)
  case Nil
  then show ?case by simp
next
  case (Cons w ws)
  have "dotdot \<in> set (clean_step False w st)"
    using Cons.prems by (cases st) (auto simp: clean_step_def)
  then show ?case using Cons.IH by simp
qed

lemma clean_step_base:
  assumes "dotdot \<notin> set (fold (clean_step False) ws st)"
  shows "fold (clean_step True) ws (st @ base) = fold (clean_step False) ws st @ base"
  using assms
proof (induction ws arbitrary: st)
  case Nil
  then show ?case by simp
next
  case (Cons w ws)
  have no: "dotdot \<notin> set (clean_step False w st)"
    using Cons.prems clean_step_keeps_dotdot by auto
  have "clean_step True w (st @ base) = clean_step False w st @ base"
    using no by (cases st) (auto simp: clean_step_def split: if_splits)
  then show ?case using Cons by simp
qed

lemma path_elems_join: "path_elems (r @ slash # p) = path_elems r @ path_elems p"
proof -
  have "split_on slash (r @ slash # p) = split_on slash r @ split_on slash p"
    by (induction r) (auto split: list.splits)
  then show ?thesis by (simp add: path_elems_def)
qed

lemma render_path_append:
  assumes "ws \<noteq> []"
  shows "render_path True (ws @ us) = render_path True ws \<or>
     has_prefix (render_path True (ws @ us)) (render_path True ws @ [slash])"
proof (cases "us = []")
  case False
  with assms have "str_join (ws @ us) [slash] = str_join ws [slash] @ slash # str_join us [slash]"
  proof (induction ws)
    case (Cons w ws)
    then show ?case by (cases "ws = []") (auto simp: str_join_Cons)
  qed simp
  then show ?thesis by (simp add: render_path_def has_prefix_iff)
qed simp

lemma path_join_elems:
  assumes r: "is_abs r" "path_clean r = r" and p: "\<not> is_abs p" "p \<noteq> []" "\<not> escapes (path_clean p)"
  shows "path_join r p = render_path True (path_elems r @ path_elems (path_clean p))"
proof -
  have ne: "r \<noteq> []" using r(1) by (auto simp: is_abs_def)
  have ab: "is_abs (r @ slash # p)" using r(1) by (auto simp: is_abs_def has_prefix_iff)
  have er: "clean_form True (path_elems r)"
    using r clean_path_form [of True r] by (metis path_clean_elems)
  have rr: "fold (clean_step True) (path_elems r) [] = rev (path_elems r)"
    using clean_elems_id [OF er] by (metis clean_elems_def rev_rev_ident)
  have ep: "path_elems (path_clean p) = rev (fold (clean_step False) (path_elems p) [])"
    using p(1) by (simp add: path_clean_elems clean_elems_def)
  have "dotdot \<notin> set (path_elems (path_clean p))" using p escapes_iff by blast
  then have "dotdot \<notin> set (fold (clean_step False) (path_elems p) [])" using ep by simp
  from clean_step_base [OF this, of "rev (path_elems r)"]
  have "clean_elems True (path_elems r @ path_elems p) = path_elems r @ path_elems (path_clean p)"
    by (simp add: clean_elems_def rr ep)
  then show ?thesis using ne p(2) ab by (simp add: path_join_def path_clean_def path_elems_join)
qed

lemma path_join_below:
  assumes "is_abs r" "path_clean r = r" "r \<noteq> [slash]" and "\<not> is_abs p" "p \<noteq> []" "\<not> escapes (path_clean p)"
  shows "path_join r p = r \<or> has_prefix (path_join r p) (r @ [slash])"
proof -
  have rend: "render_path True (path_elems r) = r"
    using assms(1,2) by (metis path_clean_def path_clean_elems)
  have "path_elems r \<noteq> []" using rend assms(3) by (auto simp: render_path_def)
  from render_path_append [OF this, of "path_elems (path_clean p)"] show ?thesis
    by (simp add: path_join_elems [OF assms(1,2,4,5,6)] rend)
qed

end
