(* ===== verification/Sandbox.thy ===== *)
theory Sandbox
  imports GoPath
begin

text \<open>
  Package \<open>sandbox\<close> and its backends: the isolation scale and the records of one
  execution (\<open>sandbox/sandbox.go\<close>), the confirmation gate around \<open>Exec\<close>
  (\<open>sandbox/gated/gated.go\<close>) and the path fence of the local backend
  (\<open>sandbox/local/local.go\<close>). Running a process, asking the approver and resolving
  symbolic links are calls to the outside: arguments of the definitions that use them.
\<close>

section \<open>Isolation, commands, results\<close>

datatype isolation = IsolationNone | IsolationProcess | IsolationKernel | IsolationVM

fun isolation_rank :: "isolation \<Rightarrow> nat" where
  "isolation_rank IsolationNone = 0"
| "isolation_rank IsolationProcess = 1"
| "isolation_rank IsolationKernel = 2"
| "isolation_rank IsolationVM = 3"

lemma isolation_rank_inj: "isolation_rank a = isolation_rank b \<longleftrightarrow> a = b"
  by (cases a; cases b) auto

text \<open>The scale is ordered from weakest to strongest, so policy checks compare.\<close>

instantiation isolation :: linorder
begin

definition less_eq_isolation :: "isolation \<Rightarrow> isolation \<Rightarrow> bool" where
  "less_eq_isolation a b \<longleftrightarrow> isolation_rank a \<le> isolation_rank b"

definition less_isolation :: "isolation \<Rightarrow> isolation \<Rightarrow> bool" where
  "less_isolation a b \<longleftrightarrow> isolation_rank a < isolation_rank b"

instance
  by standard (auto simp: less_eq_isolation_def less_isolation_def isolation_rank_inj)

end

lemma isolation_none_least [simp]: "IsolationNone \<le> a"
  by (simp add: less_eq_isolation_def)

fun isolation_string :: "isolation \<Rightarrow> string" where
  "isolation_string IsolationNone = ''none''"
| "isolation_string IsolationProcess = ''process''"
| "isolation_string IsolationKernel = ''kernel''"
| "isolation_string IsolationVM = ''vm''"

record capabilities =
  cap_isolation :: isolation
  cap_network :: bool

record command =
  cmd_path :: string
  cmd_args :: "string list"
  cmd_dir :: string
  cmd_timeout :: int

record result =
  exit_code :: int
  stdout :: string
  stderr :: string
  duration :: int
  timed_out :: bool

record dir_entry =
  entry_name :: string
  entry_is_dir :: bool

section \<open>The confirmation gate\<close>

datatype verdict = Ask | Allow | Deny

definition display :: "command \<Rightarrow> string" where
  "display c =
     (if (cmd_path c = ''sh'' \<or> cmd_path c = ''bash'') \<and> length (cmd_args c) = 2
         \<and> cmd_args c ! 0 = ''-c'' then cmd_args c ! 1
      else if cmd_args c = [] then cmd_path c
      else cmd_path c @ '' '' @ str_join (cmd_args c) '' '')"

definition blocked :: "command \<Rightarrow> string \<Rightarrow> result" where
  "blocked c why =
     \<lparr> exit_code = 126, stdout = [], stderr = why @ '': '' @ display c, duration = 0, timed_out = False \<rparr>"

text \<open>\<open>Exec\<close> of the gated sandbox. The approver may be absent; an error of the approver
  denies. The inner sandbox and the approver act on the outside world.\<close>

definition gated_exec ::
  "(command \<Rightarrow> verdict) \<Rightarrow> (command \<Rightarrow> string \<Rightarrow> 'w \<Rightarrow> (string + bool) \<times> 'w) option
   \<Rightarrow> (command \<Rightarrow> 'w \<Rightarrow> (string + result) \<times> 'w) \<Rightarrow> command \<Rightarrow> 'w \<Rightarrow> (string + result) \<times> 'w"
where
  "gated_exec policy approver inner c w =
     (case policy c of
        Allow \<Rightarrow> inner c w
      | Deny \<Rightarrow> (Inr (blocked c ''blocked by policy''), w)
      | Ask \<Rightarrow>
          (case approver of
             None \<Rightarrow> (Inr (blocked c ''blocked: no approver to confirm with''), w)
           | Some approve \<Rightarrow>
               (case approve c (display c) w of
                  (Inl e, w') \<Rightarrow> (Inr (blocked c (''blocked: approval unavailable ('' @ e @ '')'')), w')
                | (Inr ok, w') \<Rightarrow>
                    if ok then inner c w' else (Inr (blocked c ''blocked: denied by user''), w'))))"

definition safe_prefixes :: "string list" where
  "safe_prefixes =
     [''go test'', ''go build'', ''go vet'', ''go doc'', ''go list'', ''go env'', ''gofmt'',
      ''ls'', ''cat'', ''head'', ''tail'', ''wc'', ''sha256sum'',
      ''pwd'', ''echo'', ''find'', ''tree'', ''stat'',
      ''grep'', ''rg'', ''ag'', ''which'', ''file'', ''diff'',
      ''git status'', ''git diff'', ''git log'', ''git show'', ''git branch'', ''git rev-parse'']"

definition chaining_tokens :: "string list" where
  "chaining_tokens = [''&&'', ''||'', '';'', ''|'', ''>'', ''<'', [CHR 0x60], ''$('', nl, ''&'']"

definition has_shell_chaining :: "string \<Rightarrow> bool" where
  "has_shell_chaining line = list_ex (str_contains line) chaining_tokens"

definition default_policy :: "command \<Rightarrow> verdict" where
  "default_policy c =
     (let line = trim_space (display c) in
      if has_shell_chaining line then Ask
      else if list_ex (\<lambda>p. line = p \<or> has_prefix line (p @ '' '')) safe_prefixes then Allow
      else Ask)"

definition ask_all :: "command \<Rightarrow> verdict" where "ask_all c = Ask"

text \<open>The gate fails closed: the inner sandbox runs only on Allow or on an approval, and
  every other outcome is an observation with exit code 126, never an error.\<close>

lemma gated_exec_blocked:
  assumes "policy c \<noteq> Allow"
    and "\<And>f w'. policy c = Ask \<Longrightarrow> approver = Some f \<Longrightarrow> f c (display c) w \<noteq> (Inr True, w')"
  shows "\<exists>why w'. gated_exec policy approver inner c w = (Inr (blocked c why), w')
      \<and> (\<forall>f. approver \<noteq> Some f \<or> policy c = Deny \<longrightarrow> w' = w \<or> approver \<noteq> None)"
proof (cases "policy c")
  case Allow
  with assms(1) show ?thesis by simp
next
  case Deny
  then show ?thesis by (auto simp: gated_exec_def)
next
  case Ask
  show ?thesis
  proof (cases approver)
    case None
    with Ask show ?thesis by (auto simp: gated_exec_def)
  next
    case (Some f)
    obtain r w' where f: "f c (display c) w = (r, w')" by fastforce
    show ?thesis
    proof (cases r)
      case (Inl e)
      with Ask Some f show ?thesis by (auto simp: gated_exec_def)
    next
      case (Inr ok)
      with assms(2) [OF Ask Some] f have "\<not> ok" by auto
      with Ask Some f Inr show ?thesis by (auto simp: gated_exec_def)
    qed
  qed
qed

lemma chaining_never_allowed: "has_shell_chaining (trim_space (display c)) \<Longrightarrow> default_policy c = Ask"
  by (simp add: default_policy_def)

lemma default_policy_Allow:
  "default_policy c = Allow \<longleftrightarrow>
     \<not> has_shell_chaining (trim_space (display c)) \<and>
     (\<exists>p \<in> set safe_prefixes. trim_space (display c) = p \<or> has_prefix (trim_space (display c)) (p @ '' ''))"
  by (auto simp: default_policy_def Let_def list_ex_iff)

section \<open>The path fence of the local backend\<close>

datatype symlink_error = NotExist | StatError string

datatype refusal =
    OutsideRoot string string
  | ThroughSymlink string string
  | Unverifiable string string
  | NoAncestor string

record local_sandbox =
  root :: string
  real_root :: string
  env_allowlist :: "string list option"
  mount_alias :: string

definition set_mount_alias :: "string \<Rightarrow> local_sandbox \<Rightarrow> local_sandbox" where
  "set_mount_alias p s = s\<lparr>mount_alias := trim_suffix p [slash]\<rparr>"

definition workdir :: "local_sandbox \<Rightarrow> string" where
  "workdir s = (if mount_alias s \<noteq> [] then mount_alias s else root s)"

definition under :: "string \<Rightarrow> string \<Rightarrow> bool" where
  "under r p \<longleftrightarrow> p = r \<or> has_prefix p (r @ [slash])"

text \<open>\<open>escapesViaSymlink\<close> climbs from the path to its first ancestor that exists. On the
  cleaned absolute paths it is called with, \<open>filepath.Dir\<close> removes the last element
  (lemma \<open>path_dir_render\<close>), so the climb is a recursion over the elements, last one
  first.\<close>

fun symlink_climb ::
  "(string \<Rightarrow> symlink_error + string) \<Rightarrow> string \<Rightarrow> string \<Rightarrow> string list \<Rightarrow> refusal option"
where
  "symlink_climb eval rr abs_path es =
     (case eval (render_path True (rev es)) of
        Inr real \<Rightarrow> if under rr real then None else Some (ThroughSymlink abs_path real)
      | Inl (StatError e) \<Rightarrow> Some (Unverifiable abs_path e)
      | Inl NotExist \<Rightarrow>
          (case es of [] \<Rightarrow> Some (NoAncestor abs_path) | _ # es' \<Rightarrow> symlink_climb eval rr abs_path es'))"

declare symlink_climb.simps [simp del]

definition escapes_via_symlink ::
  "(string \<Rightarrow> symlink_error + string) \<Rightarrow> local_sandbox \<Rightarrow> string \<Rightarrow> refusal option" where
  "escapes_via_symlink eval s abs_path = symlink_climb eval (real_root s) abs_path (rev (path_elems abs_path))"

definition strip_alias :: "string \<Rightarrow> string \<Rightarrow> string" where
  "strip_alias al p =
     (if al \<noteq> [] \<and> p = al then dot
      else if al \<noteq> [] \<and> has_prefix p (al @ [slash]) then drop (length al + 1) p
      else p)"

definition resolve ::
  "(string \<Rightarrow> symlink_error + string) \<Rightarrow> local_sandbox \<Rightarrow> string \<Rightarrow> refusal + string" where
  "resolve eval s path =
     (let p = strip_alias (mount_alias s) (if path = [] then dot else path);
          a = path_join (root s) p in
      if a \<noteq> root s \<and> \<not> has_prefix a (root s @ [slash]) then Inl (OutsideRoot p (root s))
      else (case escapes_via_symlink eval s a of Some e \<Rightarrow> Inl e | None \<Rightarrow> Inr a))"

text \<open>\<open>baseEnv\<close>: the ambient environment, restricted to the allowed names.\<close>

definition base_env :: "local_sandbox \<Rightarrow> string list \<Rightarrow> string list" where
  "base_env s ambient =
     (case env_allowlist s of
        None \<Rightarrow> ambient
      | Some names \<Rightarrow> filter (\<lambda>entry. fst (str_cut entry ''='') \<in> set names) ambient)"

lemma str_last_index_append:
  "slash \<notin> set w \<Longrightarrow> str_last_index (p @ slash # w) slash = Some (length p)"
  by (simp add: str_last_index_def takeWhile_append2 takeWhile_append)

lemma path_dir_render:
  assumes "clean_form True (ws @ [w])"
  shows "path_dir (render_path True (ws @ [w])) = render_path True ws"
proof -
  have w: "slash \<notin> set w" using clean_form_elem [OF assms, of w] by simp
  obtain us where us: "ws @ [w] = us" "\<forall>u \<in> set us. plain_elem u"
    using assms by (auto simp: clean_form_def)
  then have form: "clean_form True ws" by (intro clean_formI [where n = 0 and us = ws]) auto
  have snoc: "ws \<noteq> [] \<Longrightarrow> str_join (ws @ [w]) [slash] = str_join ws [slash] @ slash # w"
    by (simp add: str_join_snoc)
  show ?thesis
  proof (cases "ws = []")
    case True
    have "str_last_index (slash # w) slash = Some 0"
      using str_last_index_append [OF w, of "[]"] by simp
    with True show ?thesis
      by (simp add: path_dir_def render_path_def path_clean_def path_elems_def is_abs_def
          clean_elems_def)
  next
    case False
    let ?p = "slash # str_join ws [slash]"
    have r: "render_path True (ws @ [w]) = ?p @ slash # w" using snoc [OF False] by (simp add: render_path_def)
    have "path_dir (?p @ slash # w) = path_clean (?p @ [slash])"
      by (simp add: path_dir_def str_last_index_append [OF w] del: append_Cons)
    also have "path_clean (?p @ [slash]) = path_clean ?p"
    proof -
      have "split_on slash (str @ [slash]) = split_on slash str @ [[]]" for str
        by (induction str) (auto split: list.splits)
      then have "path_elems (?p @ [slash]) = path_elems ?p"
        by (simp add: path_elems_def del: append_Cons)
      moreover have "is_abs (?p @ [slash]) = is_abs ?p" by (simp add: is_abs_def)
      ultimately show ?thesis by (simp only: path_clean_def)
    qed
    also have "\<dots> = ?p" using path_clean_render [OF form] by (simp add: render_path_def)
    finally show ?thesis using r by (simp add: render_path_def)
  qed
qed

text \<open>What the fence promises: a resolved path lies lexically under the root, and the first
  ancestor of it that exists has its real target under the real root.\<close>

lemma symlink_climb_None:
  "symlink_climb eval rr a es = None \<Longrightarrow>
     \<exists>k real. k \<le> length es \<and> eval (render_path True (rev (drop k es))) = Inr real \<and> under rr real
       \<and> (\<forall>j < k. eval (render_path True (rev (drop j es))) = Inl NotExist)"
proof (induction es)
  case Nil
  then show ?case
    by (auto simp: symlink_climb.simps [of _ _ _ "[]"] split: sum.splits symlink_error.splits if_splits)
next
  case (Cons e es)
  show ?case
  proof (cases "eval (render_path True (rev (e # es)))")
    case (Inr real)
    with Cons.prems have "under rr real"
      by (simp add: symlink_climb.simps [of _ _ _ "e # es"] split: if_splits)
    with Inr show ?thesis by (intro exI [of _ 0]) simp
  next
    case (Inl err)
    with Cons.prems have err: "err = NotExist" and rec: "symlink_climb eval rr a es = None"
      by (auto simp: symlink_climb.simps [of _ _ _ "e # es"] split: symlink_error.splits)
    from Cons.IH [OF rec] obtain k real where
      k: "k \<le> length es" "eval (render_path True (rev (drop k es))) = Inr real" "under rr real"
        "\<forall>j < k. eval (render_path True (rev (drop j es))) = Inl NotExist" by blast
    have "\<forall>j < Suc k. eval (render_path True (rev (drop j (e # es)))) = Inl NotExist"
      using k(4) Inl err by (auto simp: less_Suc_eq_0_disj)
    with k show ?thesis by (intro exI [of _ "Suc k"]) auto
  qed
qed

lemma resolve_under: "resolve eval s p = Inr a \<Longrightarrow> under (root s) a"
  by (auto simp: resolve_def Let_def under_def split: if_splits option.splits)

lemma resolve_symlink: "resolve eval s p = Inr a \<Longrightarrow> escapes_via_symlink eval s a = None"
  by (auto simp: resolve_def Let_def split: if_splits option.splits)

lemma path_join_abs_elems:
  assumes "is_abs r"
  shows "is_abs (path_join r p)" "clean_form True (path_elems (path_join r p))"
proof -
  have r: "r \<noteq> []" using assms by (auto simp: is_abs_def)
  have ab: "is_abs (r @ slash # p)" using assms by (auto simp: is_abs_def has_prefix_iff)
  show "is_abs (path_join r p)"
    using r ab assms by (auto simp: path_join_def is_abs_clean)
  show "clean_form True (path_elems (path_join r p))"
    using r ab assms clean_path_form [of True] by (auto simp: path_join_def path_clean_elems)
qed

end
