(* ===== verification/Trust.thy ===== *)
theory Trust
  imports Sandbox
begin

text \<open>
  Package \<open>profile\<close>, the trust side: the six dimensions of a posture and their orders,
  the floors of the four trust profiles, \<open>Enforce\<close> (\<open>profile/posture.go\<close>,
  \<open>profile/profile.go\<close>), and the closed registry of approval policies with its two
  decision procedures, \<open>Allows\<close> on a parsed shell command and \<open>AllowsExec\<close> on the
  argument vector of the search tool. The shell parser is a library: its result, an abstract
  syntax tree, is an argument.
\<close>

section \<open>Trust profiles\<close>

type_synonym trust = string

definition trusted_local :: trust where "trusted_local = ''trusted-local''"
definition reviewed_local :: trust where "reviewed_local = ''reviewed-local''"
definition container :: trust where "container = ''container''"
definition untrusted :: trust where "untrusted = ''untrusted''"

lemmas trust_names = trusted_local_def reviewed_local_def container_def untrusted_def

datatype trust_error =
    UnknownTrust string
  | Violates trust string string
  | InvalidRequiredTrust string trust_error
  | ProfileRequires string trust string

definition parse_trust :: "string \<Rightarrow> trust_error + trust" where
  "parse_trust s =
     (if s = trusted_local \<or> s = reviewed_local \<or> s = container \<or> s = untrusted
      then Inr s else Inl (UnknownTrust s))"

section \<open>The dimensions of a posture\<close>

datatype sandbox_class = SandboxLocal | SandboxContainer

fun sandbox_class_rank :: "sandbox_class \<Rightarrow> nat" where
  "sandbox_class_rank SandboxLocal = 0"
| "sandbox_class_rank SandboxContainer = 1"

lemma sandbox_class_rank_inj [simp]: "sandbox_class_rank a = sandbox_class_rank b \<longleftrightarrow> a = b"
  by (cases a; cases b) auto

instantiation sandbox_class :: linorder
begin

definition less_eq_sandbox_class :: "sandbox_class \<Rightarrow> sandbox_class \<Rightarrow> bool" where
  "less_eq_sandbox_class a b \<longleftrightarrow> sandbox_class_rank a \<le> sandbox_class_rank b"

definition less_sandbox_class :: "sandbox_class \<Rightarrow> sandbox_class \<Rightarrow> bool" where
  "less_sandbox_class a b \<longleftrightarrow> sandbox_class_rank a < sandbox_class_rank b"

instance
  by standard (auto simp: less_eq_sandbox_class_def less_sandbox_class_def)

end

fun sandbox_class_string :: "sandbox_class \<Rightarrow> string" where
  "sandbox_class_string SandboxLocal = ''local''"
| "sandbox_class_string SandboxContainer = ''container''"

datatype worktree = WorktreeAuto | WorktreeRequired

fun worktree_rank :: "worktree \<Rightarrow> nat" where
  "worktree_rank WorktreeAuto = 0"
| "worktree_rank WorktreeRequired = 1"

lemma worktree_rank_inj [simp]: "worktree_rank a = worktree_rank b \<longleftrightarrow> a = b"
  by (cases a; cases b) auto

instantiation worktree :: linorder
begin

definition less_eq_worktree :: "worktree \<Rightarrow> worktree \<Rightarrow> bool" where
  "less_eq_worktree a b \<longleftrightarrow> worktree_rank a \<le> worktree_rank b"

definition less_worktree :: "worktree \<Rightarrow> worktree \<Rightarrow> bool" where
  "less_worktree a b \<longleftrightarrow> worktree_rank a < worktree_rank b"

instance
  by standard (auto simp: less_eq_worktree_def less_worktree_def)

end

fun worktree_string :: "worktree \<Rightarrow> string" where
  "worktree_string WorktreeAuto = ''auto''"
| "worktree_string WorktreeRequired = ''required''"

datatype secrets = SecretsAmbient | SecretsAllowlist | SecretsNone

fun secrets_rank :: "secrets \<Rightarrow> nat" where
  "secrets_rank SecretsAmbient = 0"
| "secrets_rank SecretsAllowlist = 1"
| "secrets_rank SecretsNone = 2"

lemma secrets_rank_inj [simp]: "secrets_rank a = secrets_rank b \<longleftrightarrow> a = b"
  by (cases a; cases b) auto

instantiation secrets :: linorder
begin

definition less_eq_secrets :: "secrets \<Rightarrow> secrets \<Rightarrow> bool" where
  "less_eq_secrets a b \<longleftrightarrow> secrets_rank a \<le> secrets_rank b"

definition less_secrets :: "secrets \<Rightarrow> secrets \<Rightarrow> bool" where
  "less_secrets a b \<longleftrightarrow> secrets_rank a < secrets_rank b"

instance
  by standard (auto simp: less_eq_secrets_def less_secrets_def)

end

fun secrets_string :: "secrets \<Rightarrow> string" where
  "secrets_string SecretsAmbient = ''ambient''"
| "secrets_string SecretsAllowlist = ''allowlist''"
| "secrets_string SecretsNone = ''none''"

datatype network = NetworkUnrestricted | NetworkAllowlisted | NetworkOff

fun network_rank :: "network \<Rightarrow> nat" where
  "network_rank NetworkUnrestricted = 0"
| "network_rank NetworkAllowlisted = 1"
| "network_rank NetworkOff = 2"

lemma network_rank_inj [simp]: "network_rank a = network_rank b \<longleftrightarrow> a = b"
  by (cases a; cases b) auto

instantiation network :: linorder
begin

definition less_eq_network :: "network \<Rightarrow> network \<Rightarrow> bool" where
  "less_eq_network a b \<longleftrightarrow> network_rank a \<le> network_rank b"

definition less_network :: "network \<Rightarrow> network \<Rightarrow> bool" where
  "less_network a b \<longleftrightarrow> network_rank a < network_rank b"

instance
  by standard (auto simp: less_eq_network_def less_network_def)

end

fun network_string :: "network \<Rightarrow> string" where
  "network_string NetworkUnrestricted = ''unrestricted''"
| "network_string NetworkAllowlisted = ''allowlisted''"
| "network_string NetworkOff = ''off''"

datatype approval =
    ApprovalNone | ApprovalRequired | ApprovalInteractive | ApprovalPolicyGated
  | ApprovalDenyAll | ApprovalClassifierGated

fun approval_string :: "approval \<Rightarrow> string" where
  "approval_string ApprovalNone = ''none''"
| "approval_string ApprovalRequired = ''required''"
| "approval_string ApprovalInteractive = ''interactive''"
| "approval_string ApprovalPolicyGated = ''policy-gated''"
| "approval_string ApprovalDenyAll = ''deny-all''"
| "approval_string ApprovalClassifierGated = ''classifier-gated''"

text \<open>The \<open>Satisfies\<close> methods.\<close>

definition sandbox_satisfies :: "sandbox_class \<Rightarrow> sandbox_class \<Rightarrow> bool" where
  "sandbox_satisfies c floor = (c \<ge> floor)"

definition isolation_satisfies :: "isolation \<Rightarrow> isolation \<Rightarrow> bool" where
  "isolation_satisfies c floor = (c \<ge> floor)"

definition worktree_satisfies :: "worktree \<Rightarrow> worktree \<Rightarrow> bool" where
  "worktree_satisfies c floor = (c \<ge> floor)"

definition secrets_satisfies :: "secrets \<Rightarrow> secrets \<Rightarrow> bool" where
  "secrets_satisfies c floor = (c \<ge> floor)"

definition network_satisfies :: "network \<Rightarrow> network \<Rightarrow> bool" where
  "network_satisfies c floor = (c \<ge> floor)"

definition approval_satisfies :: "approval \<Rightarrow> approval \<Rightarrow> bool" where
  "approval_satisfies a floor =
     (if a = ApprovalDenyAll \<or> floor = ApprovalNone then True
      else (case floor of
          ApprovalRequired \<Rightarrow> a = ApprovalRequired \<or> a = ApprovalInteractive \<or> a = ApprovalPolicyGated
        | ApprovalInteractive \<Rightarrow> a = floor
        | ApprovalPolicyGated \<Rightarrow> a = floor
        | ApprovalDenyAll \<Rightarrow> False
        | _ \<Rightarrow> False))"

section \<open>Postures and floors\<close>

record posture =
  p_sandbox :: sandbox_class
  p_min_isolation :: isolation
  p_worktree :: worktree
  p_approval :: approval
  p_secrets :: secrets
  p_network :: network

definition requires_network_off :: "posture \<Rightarrow> bool" where
  "requires_network_off p = network_satisfies (p_network p) NetworkOff"

definition mk_posture ::
  "sandbox_class \<Rightarrow> isolation \<Rightarrow> worktree \<Rightarrow> approval \<Rightarrow> secrets \<Rightarrow> network \<Rightarrow> posture" where
  "mk_posture sb mi wt ap se nw =
     \<lparr> p_sandbox = sb, p_min_isolation = mi, p_worktree = wt, p_approval = ap,
       p_secrets = se, p_network = nw \<rparr>"

definition zero_posture :: posture where
  "zero_posture = mk_posture SandboxLocal IsolationNone WorktreeAuto ApprovalNone SecretsAmbient NetworkUnrestricted"

definition floor_for :: "trust \<Rightarrow> posture" where
  "floor_for t =
     (if t = trusted_local then
        mk_posture SandboxLocal IsolationNone WorktreeAuto ApprovalNone SecretsAmbient NetworkUnrestricted
      else if t = reviewed_local then
        mk_posture SandboxLocal IsolationNone WorktreeAuto ApprovalRequired SecretsAllowlist NetworkUnrestricted
      else if t = container then
        mk_posture SandboxContainer IsolationProcess WorktreeRequired ApprovalNone SecretsAllowlist NetworkOff
      else if t = untrusted then
        mk_posture SandboxContainer IsolationProcess WorktreeRequired ApprovalPolicyGated SecretsNone NetworkOff
      else zero_posture)"

record descriptor =
  d_name :: string
  d_satisfies :: "posture \<Rightarrow> posture \<Rightarrow> bool"
  d_violation :: "posture \<Rightarrow> posture \<Rightarrow> string"

definition violation_text :: "string \<Rightarrow> string \<Rightarrow> string \<Rightarrow> string" where
  "violation_text name c f = name @ '' candidate '' @ c @ '' does not meet floor '' @ f"

definition descriptors :: "descriptor list" where
  "descriptors =
     [\<lparr> d_name = ''sandbox'',
        d_satisfies = (\<lambda>c f. sandbox_satisfies (p_sandbox c) (p_sandbox f)),
        d_violation = (\<lambda>c f. violation_text ''sandbox'' (sandbox_class_string (p_sandbox c)) (sandbox_class_string (p_sandbox f))) \<rparr>,
      \<lparr> d_name = ''min-isolation'',
        d_satisfies = (\<lambda>c f. isolation_satisfies (p_min_isolation c) (p_min_isolation f)),
        d_violation = (\<lambda>c f. violation_text ''min-isolation'' (isolation_string (p_min_isolation c)) (isolation_string (p_min_isolation f))) \<rparr>,
      \<lparr> d_name = ''worktree'',
        d_satisfies = (\<lambda>c f. worktree_satisfies (p_worktree c) (p_worktree f)),
        d_violation = (\<lambda>c f. violation_text ''worktree'' (worktree_string (p_worktree c)) (worktree_string (p_worktree f))) \<rparr>,
      \<lparr> d_name = ''approval'',
        d_satisfies = (\<lambda>c f. approval_satisfies (p_approval c) (p_approval f)),
        d_violation = (\<lambda>c f. violation_text ''approval'' (approval_string (p_approval c)) (approval_string (p_approval f))) \<rparr>,
      \<lparr> d_name = ''secrets'',
        d_satisfies = (\<lambda>c f. secrets_satisfies (p_secrets c) (p_secrets f)),
        d_violation = (\<lambda>c f. violation_text ''secrets'' (secrets_string (p_secrets c)) (secrets_string (p_secrets f))) \<rparr>,
      \<lparr> d_name = ''network'',
        d_satisfies = (\<lambda>c f. network_satisfies (p_network c) (p_network f)),
        d_violation = (\<lambda>c f. violation_text ''network'' (network_string (p_network c)) (network_string (p_network f))) \<rparr>]"

text \<open>The loop over the descriptors stops at the first one the candidate does not satisfy.\<close>

definition first_violation :: "posture \<Rightarrow> posture \<Rightarrow> descriptor option" where
  "first_violation candidate floor = find (\<lambda>d. \<not> d_satisfies d candidate floor) descriptors"

definition enforce :: "trust \<Rightarrow> posture \<Rightarrow> trust_error + unit" where
  "enforce t candidate =
     (case parse_trust t of
        Inl e \<Rightarrow> Inl e
      | Inr _ \<Rightarrow>
          (case first_violation candidate (floor_for t) of
             Some d \<Rightarrow> Inl (Violates t (d_name d) (d_violation d candidate (floor_for t)))
           | None \<Rightarrow> Inr ()))"

section \<open>The contract of a floor\<close>

text \<open>Every dimension promises the same: the weakest value is met by all, and a candidate that
  meets a floor meets every weaker floor. The integer dimensions are moreover total orders;
  approval is not.\<close>

locale floor_dim =
  fixes sat :: "'a \<Rightarrow> 'a \<Rightarrow> bool" and weakest :: 'a
  assumes sat_weakest: "sat a weakest"
    and sat_trans: "sat a b \<Longrightarrow> sat b c \<Longrightarrow> sat a c"
begin

lemma sat_all: "sat c d \<Longrightarrow> \<forall>f \<in> set fs. sat d f \<Longrightarrow> \<forall>f \<in> set fs. sat c f"
  using sat_trans by blast

lemma weakest_rejects: "\<not> sat weakest b \<Longrightarrow> sat a b \<Longrightarrow> \<not> sat weakest a"
  using sat_trans by blast

end

locale graded_dim = floor_dim +
  assumes sat_refl: "sat a a"
    and sat_total: "sat a b \<or> sat b a"
    and sat_antisym: "sat a b \<Longrightarrow> sat b a \<Longrightarrow> a = b"
begin

lemma sat_weakest_iff: "sat weakest a \<longleftrightarrow> a = weakest"
  using sat_antisym sat_refl sat_weakest by blast

end

interpretation sandbox_dim: graded_dim sandbox_satisfies SandboxLocal
  by unfold_locales (auto simp: sandbox_satisfies_def less_eq_sandbox_class_def)

interpretation isolation_dim: graded_dim isolation_satisfies IsolationNone
  by unfold_locales (auto simp: isolation_satisfies_def)

interpretation worktree_dim: graded_dim worktree_satisfies WorktreeAuto
  by unfold_locales (auto simp: worktree_satisfies_def less_eq_worktree_def)

interpretation secrets_dim: graded_dim secrets_satisfies SecretsAmbient
  by unfold_locales (auto simp: secrets_satisfies_def less_eq_secrets_def)

interpretation network_dim: graded_dim network_satisfies NetworkUnrestricted
  by unfold_locales (auto simp: network_satisfies_def less_eq_network_def)

interpretation approval_dim: floor_dim approval_satisfies ApprovalNone
  by unfold_locales (auto simp: approval_satisfies_def split: approval.splits if_splits)

text \<open>The posture itself: the product of its dimensions.\<close>

definition meets :: "posture \<Rightarrow> posture \<Rightarrow> bool" where
  "meets c f \<longleftrightarrow>
     sandbox_satisfies (p_sandbox c) (p_sandbox f) \<and>
     isolation_satisfies (p_min_isolation c) (p_min_isolation f) \<and>
     worktree_satisfies (p_worktree c) (p_worktree f) \<and>
     approval_satisfies (p_approval c) (p_approval f) \<and>
     secrets_satisfies (p_secrets c) (p_secrets f) \<and>
     network_satisfies (p_network c) (p_network f)"

interpretation posture_dim: floor_dim meets zero_posture
proof
  show "meets a zero_posture" for a
    by (simp add: meets_def zero_posture_def mk_posture_def sandbox_dim.sat_weakest
        isolation_dim.sat_weakest worktree_dim.sat_weakest approval_dim.sat_weakest
        secrets_dim.sat_weakest network_dim.sat_weakest)
  show "meets a b \<Longrightarrow> meets b c \<Longrightarrow> meets a c" for a b c
    unfolding meets_def
    using sandbox_dim.sat_trans isolation_dim.sat_trans worktree_dim.sat_trans
      approval_dim.sat_trans secrets_dim.sat_trans network_dim.sat_trans by blast
qed

lemma first_violation_None: "first_violation c f = None \<longleftrightarrow> meets c f"
  by (auto simp: first_violation_def descriptors_def meets_def find_None_iff)

lemma parse_trust_Inr: "parse_trust s = Inr t \<longleftrightarrow> s = t \<and> s \<in> {trusted_local, reviewed_local, container, untrusted}"
  by (auto simp: parse_trust_def)

abbreviation canonical_trusts :: "trust set" where
  "canonical_trusts \<equiv> {trusted_local, reviewed_local, container, untrusted}"

lemma parse_trust_good: "s \<in> canonical_trusts \<Longrightarrow> parse_trust s = Inr s"
  by (auto simp: parse_trust_def)

lemma parse_trust_bad: "s \<notin> canonical_trusts \<Longrightarrow> parse_trust s = Inl (UnknownTrust s)"
  by (auto simp: parse_trust_def)

lemma canonical_nonempty: "[] \<notin> canonical_trusts"
  by (simp add: trust_names)

lemma enforce_iff:
  "enforce t c = Inr () \<longleftrightarrow> t \<in> {trusted_local, reviewed_local, container, untrusted} \<and> meets c (floor_for t)"
  using first_violation_None [of c "floor_for t"]
  by (auto simp: enforce_def parse_trust_def split: option.splits)

lemma floor_for_simps [simp]:
  "floor_for trusted_local = zero_posture"
  "floor_for reviewed_local =
     mk_posture SandboxLocal IsolationNone WorktreeAuto ApprovalRequired SecretsAllowlist NetworkUnrestricted"
  "floor_for container =
     mk_posture SandboxContainer IsolationProcess WorktreeRequired ApprovalNone SecretsAllowlist NetworkOff"
  "floor_for untrusted =
     mk_posture SandboxContainer IsolationProcess WorktreeRequired ApprovalPolicyGated SecretsNone NetworkOff"
  by (simp_all add: floor_for_def trust_names zero_posture_def)

section \<open>Properties\<close>



text \<open>A rejected posture is rejected with the first dimension, in the order of the
  descriptors, that misses the floor; an unknown trust name is rejected as such.\<close>

theorem enforce_error:
  "enforce t c = Inl err \<longleftrightarrow>
     (t \<notin> canonical_trusts \<and> err = UnknownTrust t) \<or>
     (t \<in> canonical_trusts \<and>
      (\<exists>i < length descriptors.
         \<not> d_satisfies (descriptors ! i) c (floor_for t)
         \<and> (\<forall>j < i. d_satisfies (descriptors ! j) c (floor_for t))
         \<and> err = Violates t (d_name (descriptors ! i)) (d_violation (descriptors ! i) c (floor_for t))))"
proof (cases "t \<in> canonical_trusts")
  case False
  then show ?thesis using parse_trust_bad [OF False] by (auto simp: enforce_def)
next
  case True
  have "enforce t c = Inl err \<longleftrightarrow>
      (\<exists>d. first_violation c (floor_for t) = Some d \<and> err = Violates t (d_name d) (d_violation d c (floor_for t)))"
    using parse_trust_good [OF True] by (auto simp: enforce_def simp del: floor_for_simps split: option.splits)
  also have "\<dots> \<longleftrightarrow> (\<exists>i < length descriptors.
         \<not> d_satisfies (descriptors ! i) c (floor_for t)
         \<and> (\<forall>j < i. d_satisfies (descriptors ! j) c (floor_for t))
         \<and> err = Violates t (d_name (descriptors ! i)) (d_violation (descriptors ! i) c (floor_for t)))"
    unfolding first_violation_def find_Some_iff by blast
  finally show ?thesis using True by blast
qed

theorem enforce_error_witness:
  "d_name (descriptors ! 1) = ''min-isolation'' \<and>
   enforce container ((floor_for container)\<lparr>p_min_isolation := IsolationNone\<rparr>) =
     Inl (Violates container (d_name (descriptors ! 1))
       (d_violation (descriptors ! 1) ((floor_for container)\<lparr>p_min_isolation := IsolationNone\<rparr>) (floor_for container)))"
proof
  let ?c = "(floor_for container)\<lparr>p_min_isolation := IsolationNone\<rparr>"
  show "d_name (descriptors ! 1) = ''min-isolation''" by code_simp
  have t: "container \<in> canonical_trusts" by simp
  have i: "1 < length descriptors" by code_simp
  have bad: "\<not> d_satisfies (descriptors ! 1) ?c (floor_for container)" by code_simp
  have ok: "d_satisfies (descriptors ! 0) ?c (floor_for container)" by code_simp
  have "\<forall>j < 1. d_satisfies (descriptors ! j) ?c (floor_for container)" using ok by simp
  with t i bad show "enforce container ?c = Inl (Violates container (d_name (descriptors ! 1))
       (d_violation (descriptors ! 1) ?c (floor_for container)))"
    unfolding enforce_error by blast
qed

text \<open>Approval is transitive with ApprovalNone met by all and ApprovalDenyAll meeting
  all; interactive and policy-gated approval are incomparable, and classifier-gated approval
  meets no floor but ApprovalNone, not even itself: it is the one value at which the relation
  is not reflexive.\<close>

theorem approval_order:
  "(approval_satisfies a b \<and> approval_satisfies b c \<longrightarrow> approval_satisfies a c)
    \<and> approval_satisfies a ApprovalNone \<and> approval_satisfies ApprovalDenyAll a
    \<and> \<not> approval_satisfies ApprovalInteractive ApprovalPolicyGated
    \<and> \<not> approval_satisfies ApprovalPolicyGated ApprovalInteractive
    \<and> (approval_satisfies ApprovalClassifierGated a \<longleftrightarrow> a = ApprovalNone)
    \<and> (approval_satisfies a a \<longleftrightarrow> a \<noteq> ApprovalClassifierGated)"
  using approval_dim.sat_trans [of a b c]
  by (cases a) (auto simp: approval_satisfies_def)

theorem approval_order_witness:
  "approval_satisfies ApprovalDenyAll ApprovalRequired"
  using approval_order [of ApprovalDenyAll ApprovalPolicyGated ApprovalRequired]
  by (simp add: approval_satisfies_def)

end
