(* ===== verification/GoText.thy ===== *)
theory GoText
  imports Prelude
begin

text \<open>
  Runes and durations: UTF-8 decoding as \<open>[]rune(s)\<close> does it (package
  \<open>unicode/utf8\<close>), \<open>time.Duration\<close> rounding and printing, and the rune-based
  clipping of observations (\<open>clip\<close>, \<open>tailClip\<close>, \<open>oneLine\<close>, \<open>truncateRunes\<close> of
  package \<open>agent\<close>).
\<close>

section \<open>UTF-8\<close>

text \<open>A rune is kept as its encoding. An invalid byte decodes, with width one, to the
  replacement rune U+FFFD.\<close>

definition rune_error :: string where "rune_error = [CHR 0xEF, CHR 0xBF, CHR 0xBD]"

definition byte_in :: "nat \<Rightarrow> nat \<Rightarrow> char \<Rightarrow> bool" where
  "byte_in lo hi c \<longleftrightarrow> lo \<le> (of_char c :: nat) \<and> (of_char c :: nat) \<le> hi"

definition cont_byte :: "char \<Rightarrow> bool" where "cont_byte c = byte_in 0x80 0xBF c"

text \<open>The accepted range of the second byte depends on the first one
  (\<open>acceptRanges\<close> of \<open>unicode/utf8\<close>): no overlong forms, no surrogates, nothing above
  U+10FFFF.\<close>

definition second_ok :: "nat \<Rightarrow> char \<Rightarrow> bool" where
  "second_ok b1 c =
     (if b1 = 0xE0 then byte_in 0xA0 0xBF c
      else if b1 = 0xED then byte_in 0x80 0x9F c
      else if b1 = 0xF0 then byte_in 0x90 0xBF c
      else if b1 = 0xF4 then byte_in 0x80 0x8F c
      else cont_byte c)"

definition rune_width :: "nat \<Rightarrow> nat" where
  "rune_width b =
     (if b < 0x80 then 1 else if 0xC2 \<le> b \<and> b \<le> 0xDF then 2
      else if 0xE0 \<le> b \<and> b \<le> 0xEF then 3 else if 0xF0 \<le> b \<and> b \<le> 0xF4 then 4 else 0)"

definition decode_rune :: "char \<Rightarrow> string \<Rightarrow> string \<times> nat" where
  "decode_rune c s =
     (let b = (of_char c :: nat); w = rune_width b in
      if w = 1 then ([c], 1)
      else if 2 \<le> w \<and> w - 1 \<le> length s \<and> second_ok b (hd s) \<and> list_all cont_byte (tl (take (w - 1) s))
      then (c # take (w - 1) s, w)
      else (rune_error, 1))"

lemma decode_rune_width: "1 \<le> snd (decode_rune c s)"
  by (simp add: decode_rune_def Let_def)

function runes :: "string \<Rightarrow> string list" where
  "runes [] = []"
| "runes (c # s) = fst (decode_rune c s) # runes (drop (snd (decode_rune c s) - 1) s)"
  by pat_completeness auto
termination by (relation "measure length") auto

text \<open>\<open>string(r)\<close> of a rune slice.\<close>

definition of_runes :: "string list \<Rightarrow> string" where "of_runes r = concat r"

definition is_ascii :: "string \<Rightarrow> bool" where
  "is_ascii s \<longleftrightarrow> (\<forall>c \<in> set s. (of_char c :: nat) < 0x80)"

lemma decode_rune_ascii: "(of_char c :: nat) < 0x80 \<Longrightarrow> decode_rune c s = ([c], 1)"
  by (simp add: decode_rune_def rune_width_def)

lemma runes_ascii: "is_ascii s \<Longrightarrow> runes s = map (\<lambda>c. [c]) s"
  by (induction s) (auto simp: is_ascii_def decode_rune_ascii)

lemma of_runes_ascii: "is_ascii s \<Longrightarrow> of_runes (runes s) = s"
  by (simp add: runes_ascii of_runes_def)

lemma length_runes_le: "length (runes s) \<le> length s"
proof (induction s rule: runes.induct)
  case 1
  then show ?case by simp
next
  case (2 c s)
  then have "length (runes (drop (snd (decode_rune c s) - 1) s)) \<le> length s"
    by (rule le_trans) simp
  then show ?case by simp
qed

section \<open>Clipping\<close>

definition elided :: "int \<Rightarrow> string" where
  "elided n = ''...['' @ itoa n @ '' runes elided]...''"

definition clip :: "string \<Rightarrow> nat \<Rightarrow> string" where
  "clip s cap_runes =
     (let r = runes s in
      if length r \<le> cap_runes then s
      else let head = cap_runes * 2 div 3; tail = cap_runes - head in
        of_runes (take head r) @ nl @ elided (int (length r - head - tail)) @ nl
          @ of_runes (drop (length r - tail) r))"

definition tail_clip :: "string \<Rightarrow> nat \<Rightarrow> string" where
  "tail_clip s cap_runes =
     (let r = runes (trim_space s) in
      if length r \<le> cap_runes then of_runes r
      else elided (int (length r - cap_runes)) @ nl @ of_runes (drop (length r - cap_runes) r))"

definition truncate_runes :: "string \<Rightarrow> nat \<Rightarrow> string" where
  "truncate_runes s n = (let r = runes s in if length r \<le> n then s else of_runes (take n r))"

lemma clip_short: "length s \<le> n \<Longrightarrow> clip s n = s"
  using length_runes_le [of s] by (simp add: clip_def Let_def)

lemma clip_eq_Nil: "clip s n = [] \<longleftrightarrow> s = []"
  by (auto simp: clip_def Let_def nl_def)

text \<open>A clipped text keeps exactly the head and the tail of the runes, and together they
  are the cap.\<close>

lemma clip_long:
  assumes "n < length (runes s)"
  shows "\<exists>h t. clip s n = of_runes h @ nl @ elided (int (length (runes s) - n)) @ nl @ of_runes t
      \<and> (\<exists>mid. runes s = h @ mid @ t \<and> length mid = length (runes s) - n) \<and> length h + length t = n"
proof -
  let ?r = "runes s" and ?h = "n * 2 div 3"
  let ?t = "n - ?h"
  have le: "?h \<le> n" by simp
  define mid where "mid = take (length ?r - ?t - ?h) (drop ?h ?r)"
  have "?r = take ?h ?r @ mid @ drop (length ?r - ?t) ?r"
  proof -
    have "drop ?h ?r = mid @ drop (length ?r - ?t - ?h) (drop ?h ?r)"
      unfolding mid_def by (rule append_take_drop_id [symmetric])
    moreover have "drop (length ?r - ?t - ?h) (drop ?h ?r) = drop (length ?r - ?t) ?r"
    proof -
      have "length ?r - ?t - ?h + ?h = length ?r - ?t" using assms le by linarith
      then show ?thesis by (simp only: drop_drop)
    qed
    ultimately have "drop ?h ?r = mid @ drop (length ?r - ?t) ?r" by metis
    then show ?thesis by (metis append_take_drop_id)
  qed
  moreover have "length mid = length ?r - n"
    using assms le by (simp add: mid_def)
  moreover have "length (take ?h ?r) + length (drop (length ?r - ?t) ?r) = n"
    using assms le by simp
  moreover have "clip s n = of_runes (take ?h ?r) @ nl @ elided (int (length ?r - n)) @ nl
      @ of_runes (drop (length ?r - ?t) ?r)"
    using assms le by (simp add: clip_def Let_def)
  ultimately show ?thesis by blast
qed

section \<open>Durations\<close>

text \<open>A \<open>time.Duration\<close> is a count of nanoseconds.\<close>

definition millisecond :: int where "millisecond = 1000000"
definition second :: int where "second = 1000000000"
definition minute :: int where "minute = 60 * second"

text \<open>\<open>Duration.Round(time.Millisecond)\<close>, as a count of milliseconds: halves round away
  from zero.\<close>

definition round_ms :: "int \<Rightarrow> int" where
  "round_ms d = sgn d * ((\<bar>d\<bar> + millisecond div 2) div millisecond)"

definition strip_zeros :: "string \<Rightarrow> string" where
  "strip_zeros s = trim_right_by (\<lambda>c. c = CHR ''0'') s"

definition pad3 :: "nat \<Rightarrow> string" where
  "pad3 n = (if n < 10 then ''00'' else if n < 100 then ''0'' else []) @ nat_digits n"

definition frac_ms :: "nat \<Rightarrow> string" where
  "frac_ms f = (if f = 0 then [] else ''.'' @ strip_zeros (pad3 f))"

text \<open>\<open>Duration.String\<close> of a whole number of milliseconds.\<close>

definition dur_ms_abs :: "nat \<Rightarrow> string" where
  "dur_ms_abs m =
     (if m = 0 then ''0s''
      else if m < 1000 then nat_digits m @ ''ms''
      else let secs = m div 1000; mins = secs div 60; hours = mins div 60 in
        (if hours > 0 then nat_digits hours @ ''h'' else [])
        @ (if mins > 0 then nat_digits (mins mod 60) @ ''m'' else [])
        @ nat_digits (secs mod 60) @ frac_ms (m mod 1000) @ ''s'')"

definition dur_ms_string :: "int \<Rightarrow> string" where
  "dur_ms_string m = (if m < 0 then CHR ''-'' # dur_ms_abs (nat (- m)) else dur_ms_abs (nat m))"

definition dur_chars :: "char set" where
  "dur_chars = {c. is_digit c} \<union> {CHR ''-'', CHR ''.'', CHR ''h'', CHR ''m'', CHR ''s''}"

lemma set_strip_zeros: "set (strip_zeros s) \<subseteq> set s"
  by (auto simp: strip_zeros_def trim_right_by_def dest: set_dropWhileD)

lemma pad3_chars: "set (pad3 n) \<subseteq> {c. is_digit c}"
  by (auto simp: pad3_def is_digit_def dest: nat_digits_digit split: if_splits)

lemma frac_ms_chars: "set (frac_ms f) \<subseteq> dur_chars"
  using set_strip_zeros [of "pad3 f"] pad3_chars [of f] by (auto simp: frac_ms_def dur_chars_def)

lemma dur_ms_abs_chars: "set (dur_ms_abs m) \<subseteq> dur_chars"
  using frac_ms_chars
  by (auto simp: dur_ms_abs_def Let_def dur_chars_def is_digit_def dest: nat_digits_digit split: if_splits)

lemma dur_ms_string_chars: "set (dur_ms_string m) \<subseteq> dur_chars"
  using dur_ms_abs_chars by (auto simp: dur_ms_string_def dur_chars_def)

text \<open>\<open>Duration.String\<close> in general: the unit is the largest one that keeps the integral
  part nonzero; below a second the fraction has as many digits as the unit needs.\<close>

definition zero_pad :: "nat \<Rightarrow> nat \<Rightarrow> string" where
  "zero_pad k n = replicate (k - length (nat_digits n)) (CHR ''0'') @ nat_digits n"

definition frac_digits :: "nat \<Rightarrow> nat \<Rightarrow> string" where
  "frac_digits k f = (if f = 0 then [] else ''.'' @ strip_zeros (zero_pad k f))"

definition dur_abs :: "nat \<Rightarrow> string" where
  "dur_abs u =
     (if u = 0 then ''0s''
      else if u < 1000 then nat_digits u @ ''ns''
      else if u < 1000000 then nat_digits (u div 1000) @ frac_digits 3 (u mod 1000) @ [CHR 0xC2, CHR 0xB5] @ ''s''
      else if u < 1000000000 then nat_digits (u div 1000000) @ frac_digits 6 (u mod 1000000) @ ''ms''
      else let secs = u div 1000000000; mins = secs div 60; hours = mins div 60 in
        (if hours > 0 then nat_digits hours @ ''h'' else [])
        @ (if mins > 0 then nat_digits (mins mod 60) @ ''m'' else [])
        @ nat_digits (secs mod 60) @ frac_digits 9 (u mod 1000000000) @ ''s'')"

definition dur_string :: "int \<Rightarrow> string" where
  "dur_string d = (if d < 0 then CHR ''-'' # dur_abs (nat (- d)) else dur_abs (nat d))"

section \<open>One line\<close>

text \<open>\<open>oneLine\<close>: newlines become a return sign, and at most 120 runes are kept.\<close>


definition one_line :: "string \<Rightarrow> string" where
  "one_line s0 =
     (let s = concat (map (\<lambda>c. if c = CHR 0x0A then '' '' @ return_sign @ '' '' else [c]) (trim_space s0));
          r = runes s
      in if length r > 120 then of_runes (take 120 r) @ ellipsis else s)"

section \<open>Replacement\<close>

text \<open>\<open>strings.ReplaceAll\<close> of a non-empty text: occurrences from the left, not overlapping.\<close>

function replace_all :: "string \<Rightarrow> string \<Rightarrow> string \<Rightarrow> string" where
  "replace_all s old new =
     (case str_index s old of
        None \<Rightarrow> s
      | Some i \<Rightarrow> if old = [] then s else take i s @ new @ replace_all (drop (i + length old) s) old new)"
  by pat_completeness auto
termination
  by (relation "measure (\<lambda>(s, old, new). length s)")
     (auto dest!: str_index_Some simp: less_diff_conv2)

declare replace_all.simps [simp del]

lemma replace_all_none: "\<not> str_contains s old \<Longrightarrow> replace_all s old new = s"
  by (subst replace_all.simps) (simp add: str_index_None [THEN iffD2])

end
