(* ===== verification/ExecProfile.thy ===== *)
theory ExecProfile
  imports Trust GoText
begin

text \<open>
  Package \<open>profile\<close>, the execution side: the versioned execution profiles and their
  declarations (\<open>profile/exec.go\<close>), and \<open>Resolve\<close>, which merges a profile with the
  explicit flags under the worktree floor of the trust posture (\<open>profile/resolve.go\<close>).
  A Go value of type \<open>any\<close> is a \<open>pvalue\<close>; a failed type assertion panics, which is
  the result \<open>None\<close> of \<open>set_exec\<close> and of everything that calls it.
\<close>

section \<open>Profiles\<close>

datatype pvalue = VInt int | VBool bool | VStr string | VDur int

record exec =
  ex_name :: string
  ex_required_trust :: trust
  ex_max_iters :: int
  ex_max_tokens :: int
  ex_finish_nudge :: int
  ex_run_timeout :: int
  ex_effort :: string
  ex_worktree :: string
  ex_verify_continue :: bool
  ex_auto_verify :: bool
  ex_memory :: bool
  ex_boot_context :: bool
  ex_standing_context :: bool
  ex_batch_reads :: bool
  ex_auto_verify_soft :: bool
  ex_require_diff :: bool
  ex_read_window :: int
  ex_read_outline :: bool
  ex_churn_nudge_runs :: int
  ex_nav_spiral_window :: int
  ex_answer_nudge_window :: int

datatype field_id =
    MaxItersField | MaxTokensField | FinishNudgeField | RunTimeoutField
  | EffortField | WorktreeField | VerifyContinueField | AutoVerifyField
  | AutoVerifySoftField | MemoryField | BootContextField | StandingContextField
  | BatchReadsField | RequireDiffField | ReadWindowField | ReadOutlineField
  | ChurnNudgeRunsField | NavSpiralWindowField | AnswerNudgeWindowField

fun field_name :: "field_id \<Rightarrow> string" where
  "field_name MaxItersField = ''max_iters''"
| "field_name MaxTokensField = ''max_tokens''"
| "field_name FinishNudgeField = ''finish_nudge''"
| "field_name RunTimeoutField = ''run_timeout''"
| "field_name EffortField = ''effort''"
| "field_name WorktreeField = ''worktree''"
| "field_name VerifyContinueField = ''verify_continue''"
| "field_name AutoVerifyField = ''auto_verify''"
| "field_name AutoVerifySoftField = ''auto_verify_soft''"
| "field_name MemoryField = ''memory''"
| "field_name BootContextField = ''boot_context''"
| "field_name StandingContextField = ''standing_context''"
| "field_name BatchReadsField = ''batch_reads''"
| "field_name RequireDiffField = ''require_diff''"
| "field_name ReadWindowField = ''read_window''"
| "field_name ReadOutlineField = ''read_outline''"
| "field_name ChurnNudgeRunsField = ''churn_nudge_runs''"
| "field_name NavSpiralWindowField = ''nav_spiral_window''"
| "field_name AnswerNudgeWindowField = ''answer_nudge_window''"

definition profile_fields :: "field_id list" where
  "profile_fields =
     [MaxItersField, MaxTokensField, FinishNudgeField, RunTimeoutField,
      EffortField, WorktreeField, VerifyContinueField, AutoVerifyField,
      AutoVerifySoftField, MemoryField, BootContextField, StandingContextField,
      BatchReadsField, RequireDiffField, ReadWindowField, ReadOutlineField,
      ChurnNudgeRunsField, NavSpiralWindowField, AnswerNudgeWindowField]"

datatype stance = Default | Demand

record field_decl =
  decl_value :: pvalue
  decl_stance :: stance

text \<open>The type assertions \<open>v.(int)\<close> and so on, \<open>setExec\<close>, and the reads of the
  fields it writes.\<close>

fun as_int :: "pvalue \<Rightarrow> int option" where "as_int (VInt x) = Some x" | "as_int _ = None"
fun as_bool :: "pvalue \<Rightarrow> bool option" where "as_bool (VBool x) = Some x" | "as_bool _ = None"
fun as_str :: "pvalue \<Rightarrow> string option" where "as_str (VStr x) = Some x" | "as_str _ = None"
fun as_dur :: "pvalue \<Rightarrow> int option" where "as_dur (VDur x) = Some x" | "as_dur _ = None"

fun set_exec :: "exec \<Rightarrow> field_id \<Rightarrow> pvalue \<Rightarrow> exec option" where
  "set_exec e MaxItersField v = map_option (\<lambda>x. e\<lparr>ex_max_iters := x\<rparr>) (as_int v)"
| "set_exec e MaxTokensField v = map_option (\<lambda>x. e\<lparr>ex_max_tokens := x\<rparr>) (as_int v)"
| "set_exec e FinishNudgeField v = map_option (\<lambda>x. e\<lparr>ex_finish_nudge := x\<rparr>) (as_int v)"
| "set_exec e RunTimeoutField v = map_option (\<lambda>x. e\<lparr>ex_run_timeout := x\<rparr>) (as_dur v)"
| "set_exec e EffortField v = map_option (\<lambda>x. e\<lparr>ex_effort := x\<rparr>) (as_str v)"
| "set_exec e WorktreeField v = map_option (\<lambda>x. e\<lparr>ex_worktree := x\<rparr>) (as_str v)"
| "set_exec e VerifyContinueField v = map_option (\<lambda>x. e\<lparr>ex_verify_continue := x\<rparr>) (as_bool v)"
| "set_exec e AutoVerifyField v = map_option (\<lambda>x. e\<lparr>ex_auto_verify := x\<rparr>) (as_bool v)"
| "set_exec e AutoVerifySoftField v = map_option (\<lambda>x. e\<lparr>ex_auto_verify_soft := x\<rparr>) (as_bool v)"
| "set_exec e MemoryField v = map_option (\<lambda>x. e\<lparr>ex_memory := x\<rparr>) (as_bool v)"
| "set_exec e BootContextField v = map_option (\<lambda>x. e\<lparr>ex_boot_context := x\<rparr>) (as_bool v)"
| "set_exec e StandingContextField v = map_option (\<lambda>x. e\<lparr>ex_standing_context := x\<rparr>) (as_bool v)"
| "set_exec e BatchReadsField v = map_option (\<lambda>x. e\<lparr>ex_batch_reads := x\<rparr>) (as_bool v)"
| "set_exec e RequireDiffField v = map_option (\<lambda>x. e\<lparr>ex_require_diff := x\<rparr>) (as_bool v)"
| "set_exec e ReadWindowField v = map_option (\<lambda>x. e\<lparr>ex_read_window := x\<rparr>) (as_int v)"
| "set_exec e ReadOutlineField v = map_option (\<lambda>x. e\<lparr>ex_read_outline := x\<rparr>) (as_bool v)"
| "set_exec e ChurnNudgeRunsField v = map_option (\<lambda>x. e\<lparr>ex_churn_nudge_runs := x\<rparr>) (as_int v)"
| "set_exec e NavSpiralWindowField v = map_option (\<lambda>x. e\<lparr>ex_nav_spiral_window := x\<rparr>) (as_int v)"
| "set_exec e AnswerNudgeWindowField v = map_option (\<lambda>x. e\<lparr>ex_answer_nudge_window := x\<rparr>) (as_int v)"

fun get_exec :: "exec \<Rightarrow> field_id \<Rightarrow> pvalue" where
  "get_exec e MaxItersField = VInt (ex_max_iters e)"
| "get_exec e MaxTokensField = VInt (ex_max_tokens e)"
| "get_exec e FinishNudgeField = VInt (ex_finish_nudge e)"
| "get_exec e RunTimeoutField = VDur (ex_run_timeout e)"
| "get_exec e EffortField = VStr (ex_effort e)"
| "get_exec e WorktreeField = VStr (ex_worktree e)"
| "get_exec e VerifyContinueField = VBool (ex_verify_continue e)"
| "get_exec e AutoVerifyField = VBool (ex_auto_verify e)"
| "get_exec e AutoVerifySoftField = VBool (ex_auto_verify_soft e)"
| "get_exec e MemoryField = VBool (ex_memory e)"
| "get_exec e BootContextField = VBool (ex_boot_context e)"
| "get_exec e StandingContextField = VBool (ex_standing_context e)"
| "get_exec e BatchReadsField = VBool (ex_batch_reads e)"
| "get_exec e RequireDiffField = VBool (ex_require_diff e)"
| "get_exec e ReadWindowField = VInt (ex_read_window e)"
| "get_exec e ReadOutlineField = VBool (ex_read_outline e)"
| "get_exec e ChurnNudgeRunsField = VInt (ex_churn_nudge_runs e)"
| "get_exec e NavSpiralWindowField = VInt (ex_nav_spiral_window e)"
| "get_exec e AnswerNudgeWindowField = VInt (ex_answer_nudge_window e)"

definition zero_exec :: exec where
  "zero_exec =
     \<lparr> ex_name = [], ex_required_trust = [],
       ex_max_iters = 0,
       ex_max_tokens = 0,
       ex_finish_nudge = 0,
       ex_run_timeout = 0,
       ex_effort = [],
       ex_worktree = [],
       ex_verify_continue = False,
       ex_auto_verify = False,
       ex_memory = False,
       ex_boot_context = False,
       ex_standing_context = False,
       ex_batch_reads = False,
       ex_auto_verify_soft = False,
       ex_require_diff = False,
       ex_read_window = 0,
       ex_read_outline = False,
       ex_churn_nudge_runs = 0,
       ex_nav_spiral_window = 0,
       ex_answer_nudge_window = 0 \<rparr>"

definition mk_v1 ::
  "string \<Rightarrow> int \<Rightarrow> int \<Rightarrow> int \<Rightarrow> string \<Rightarrow> string \<Rightarrow> bool \<Rightarrow> exec" where
  "mk_v1 name iters tokens nudge eff wt standing =
     zero_exec\<lparr> ex_name := name, ex_max_iters := iters, ex_max_tokens := tokens,
       ex_finish_nudge := nudge, ex_run_timeout := 60 * second, ex_effort := eff, ex_worktree := wt,
       ex_verify_continue := True, ex_auto_verify := True, ex_memory := True,
       ex_standing_context := standing, ex_batch_reads := True \<rparr>"

definition v1_profiles :: "exec list" where
  "v1_profiles =
     [mk_v1 ''coding-v1'' 40 8192 0 ''low'' ''auto'' False,
      mk_v1 ''interactive-v1'' 0 32768 5 [] ''off'' True]"

text \<open>The declarations that \<open>init\<close> adds: one value per field, in the order of
  \<open>ProfileFields\<close>, all with the stance Default except the worktree of eval-swe-v1.\<close>

definition declare_all :: "pvalue list \<Rightarrow> (field_id \<times> field_decl) list" where
  "declare_all vals = zip profile_fields (map (\<lambda>v. \<lparr>decl_value = v, decl_stance = Default\<rparr>) vals)"

definition demand_field :: "field_id \<Rightarrow> (field_id \<times> field_decl) list \<Rightarrow> (field_id \<times> field_decl) list" where
  "demand_field f ds = map (\<lambda>(g, d). (g, if g = f then d\<lparr>decl_stance := Demand\<rparr> else d)) ds"

definition coding_v2_values :: "pvalue list" where
  "coding_v2_values =
     [VInt 40, VInt 8192, VInt 0, VDur (60 * second), VStr ''low'', VStr ''auto'', VBool True, VBool True,
      VBool False, VBool True, VBool False, VBool False, VBool True, VBool True, VInt 0, VBool False,
      VInt 0, VInt 4, VInt 0]"

definition interactive_v2_values :: "pvalue list" where
  "interactive_v2_values =
     [VInt 0, VInt 32768, VInt 5, VDur (60 * second), VStr [], VStr ''off'', VBool True, VBool True,
      VBool False, VBool True, VBool False, VBool True, VBool True, VBool False, VInt 0, VBool False,
      VInt 0, VInt 4, VInt 0]"

definition observe_v1_values :: "pvalue list" where
  "observe_v1_values =
     [VInt 40, VInt 8192, VInt 5, VDur (60 * second), VStr ''low'', VStr ''auto'', VBool True, VBool False,
      VBool False, VBool True, VBool False, VBool True, VBool True, VBool False, VInt 0, VBool False,
      VInt 0, VInt 4, VInt 0]"

definition eval_swe_v1_values :: "pvalue list" where
  "eval_swe_v1_values =
     [VInt 30, VInt 4096, VInt 0, VDur (60 * second), VStr [], VStr ''off'', VBool False, VBool False,
      VBool False, VBool False, VBool False, VBool False, VBool False, VBool False, VInt 0, VBool False,
      VInt 0, VInt 4, VInt 0]"

definition declarations :: "(string \<times> (field_id \<times> field_decl) list) list" where
  "declarations =
     [(''coding-v2'', declare_all coding_v2_values),
      (''interactive-v2'', declare_all interactive_v2_values),
      (''observe-v1'', declare_all observe_v1_values),
      (''eval-swe-v1'', demand_field WorktreeField (declare_all eval_swe_v1_values))]"

text \<open>\<open>add\<close> also registers the profile that the declared values describe.\<close>

fun set_all :: "exec \<Rightarrow> (field_id \<times> field_decl) list \<Rightarrow> exec option" where
  "set_all e [] = Some e"
| "set_all e ((f, d) # ds) =
     (case set_exec e f (decl_value d) of None \<Rightarrow> None | Some e' \<Rightarrow> set_all e' ds)"

definition exec_profiles :: "(string \<times> exec option) list" where
  "exec_profiles =
     map (\<lambda>e. (ex_name e, Some e)) v1_profiles
     @ map (\<lambda>(name, ds). (name, set_all (zero_exec\<lparr>ex_name := name\<rparr>) ds)) declarations"

definition exec_by_name :: "string \<Rightarrow> string + exec" where
  "exec_by_name name =
     (case map_of exec_profiles name of
        Some (Some e) \<Rightarrow> Inr e
      | _ \<Rightarrow> Inl (''unknown execution profile '' @ go_quote name))"

definition require_trust :: "exec \<Rightarrow> trust \<Rightarrow> trust_error + unit" where
  "require_trust e selected =
     (if ex_required_trust e = [] then Inr ()
      else (case parse_trust (ex_required_trust e) of
          Inl err \<Rightarrow> Inl (InvalidRequiredTrust (ex_name e) err)
        | Inr _ \<Rightarrow>
            (case parse_trust selected of
               Inl err \<Rightarrow> Inl err
             | Inr _ \<Rightarrow>
                 (case first_violation (floor_for selected) (floor_for (ex_required_trust e)) of
                    Some d \<Rightarrow> Inl (ProfileRequires (ex_name e) (ex_required_trust e)
                                 (d_violation d (floor_for selected) (floor_for (ex_required_trust e))))
                  | None \<Rightarrow> Inr ()))))"

section \<open>Resolving\<close>

record trust_posture =
  tp_selected :: trust
  tp_posture :: posture
  tp_surface :: string

record overrides =
  ov_max_iters :: "int option"
  ov_max_tokens :: "int option"
  ov_finish_nudge :: "int option"
  ov_run_timeout :: "int option"
  ov_effort :: "string option"
  ov_worktree :: "string option"
  ov_verify_continue :: "bool option"
  ov_auto_verify :: "bool option"
  ov_auto_verify_soft :: "bool option"
  ov_memory :: "bool option"
  ov_boot_context :: "bool option"
  ov_standing_context :: "bool option"
  ov_batch_reads :: "bool option"
  ov_require_diff :: "bool option"
  ov_read_window :: "int option"
  ov_read_outline :: "bool option"
  ov_churn_nudge_runs :: "int option"
  ov_nav_spiral_window :: "int option"
  ov_answer_nudge_window :: "int option"
  ov_cli_only :: "(string \<times> pvalue) list"

text \<open>\<open>pointed(overrideFor(ov, f))\<close>: the value of the flag, when it was given.\<close>

fun override_for :: "overrides \<Rightarrow> field_id \<Rightarrow> pvalue option" where
  "override_for ov MaxItersField = map_option VInt (ov_max_iters ov)"
| "override_for ov MaxTokensField = map_option VInt (ov_max_tokens ov)"
| "override_for ov FinishNudgeField = map_option VInt (ov_finish_nudge ov)"
| "override_for ov RunTimeoutField = map_option VDur (ov_run_timeout ov)"
| "override_for ov EffortField = map_option VStr (ov_effort ov)"
| "override_for ov WorktreeField = map_option VStr (ov_worktree ov)"
| "override_for ov VerifyContinueField = map_option VBool (ov_verify_continue ov)"
| "override_for ov AutoVerifyField = map_option VBool (ov_auto_verify ov)"
| "override_for ov AutoVerifySoftField = map_option VBool (ov_auto_verify_soft ov)"
| "override_for ov MemoryField = map_option VBool (ov_memory ov)"
| "override_for ov BootContextField = map_option VBool (ov_boot_context ov)"
| "override_for ov StandingContextField = map_option VBool (ov_standing_context ov)"
| "override_for ov BatchReadsField = map_option VBool (ov_batch_reads ov)"
| "override_for ov RequireDiffField = map_option VBool (ov_require_diff ov)"
| "override_for ov ReadWindowField = map_option VInt (ov_read_window ov)"
| "override_for ov ReadOutlineField = map_option VBool (ov_read_outline ov)"
| "override_for ov ChurnNudgeRunsField = map_option VInt (ov_churn_nudge_runs ov)"
| "override_for ov NavSpiralWindowField = map_option VInt (ov_nav_spiral_window ov)"
| "override_for ov AnswerNudgeWindowField = map_option VInt (ov_answer_nudge_window ov)"

fun v1_value :: "exec \<Rightarrow> field_id \<Rightarrow> pvalue" where
  "v1_value e MaxItersField = VInt (ex_max_iters e)"
| "v1_value e MaxTokensField = VInt (ex_max_tokens e)"
| "v1_value e FinishNudgeField = VInt (ex_finish_nudge e)"
| "v1_value e RunTimeoutField = VDur (ex_run_timeout e)"
| "v1_value e EffortField = VStr (ex_effort e)"
| "v1_value e WorktreeField = VStr (ex_worktree e)"
| "v1_value e VerifyContinueField = VBool (ex_verify_continue e)"
| "v1_value e AutoVerifyField = VBool (ex_auto_verify e)"
| "v1_value e AutoVerifySoftField = VBool False"
| "v1_value e MemoryField = VBool (ex_memory e)"
| "v1_value e BootContextField = VBool (ex_boot_context e)"
| "v1_value e StandingContextField = VBool (ex_standing_context e)"
| "v1_value e BatchReadsField = VBool (ex_batch_reads e)"
| "v1_value e RequireDiffField = VBool False"
| "v1_value e ReadWindowField = VInt 0"
| "v1_value e ReadOutlineField = VBool False"
| "v1_value e ChurnNudgeRunsField = VInt 0"
| "v1_value e NavSpiralWindowField = VInt 4"
| "v1_value e AnswerNudgeWindowField = VInt 0"

definition v1_declarations :: "exec \<Rightarrow> (field_id \<times> field_decl) list" where
  "v1_declarations e = map (\<lambda>f. (f, \<lparr>decl_value = v1_value e f, decl_stance = Default\<rparr>)) profile_fields"

datatype source = SourceProfile | SourceCLI | SourceTrust

record trace =
  tr_fields :: "string \<Rightarrow> (pvalue \<times> source) option"
  tr_canonical :: bool
  tr_selected :: trust
  tr_required :: trust

record normalized =
  n_exec :: exec
  n_cli_only :: "(string \<times> pvalue) list"

datatype resolve_error =
    TrustError trust_error
  | OmitsField string field_id
  | CliConflict string
  | DemandConflict string

definition worktree_value :: "string \<Rightarrow> worktree" where
  "worktree_value s = (if s = ''required'' then WorktreeRequired else WorktreeAuto)"

text \<open>The loop over the profile fields.\<close>

fun resolve_fields ::
  "string \<Rightarrow> (field_id \<times> field_decl) list \<Rightarrow> overrides \<Rightarrow> field_id list \<Rightarrow> exec \<times> trace
   \<Rightarrow> (resolve_error + exec \<times> trace) option"
where
  "resolve_fields name ds ov [] (e, tr) = Some (Inr (e, tr))"
| "resolve_fields name ds ov (f # fs) (e, tr) =
     (case map_of ds f of
        None \<Rightarrow> Some (Inl (OmitsField name f))
      | Some d \<Rightarrow>
          (let (v, src, canon) =
                 (case override_for ov f of
                    Some x \<Rightarrow> (x, SourceCLI, False)
                  | None \<Rightarrow> (decl_value d, SourceProfile, tr_canonical tr))
           in case set_exec e f v of
                None \<Rightarrow> None
              | Some e' \<Rightarrow>
                  resolve_fields name ds ov fs
                    (e', tr\<lparr>tr_canonical := canon, tr_fields := (tr_fields tr)(field_name f \<mapsto> (v, src))\<rparr>)))"

definition exec_declarations :: "exec \<Rightarrow> (field_id \<times> field_decl) list" where
  "exec_declarations e =
     (case map_of declarations (ex_name e) of Some ds \<Rightarrow> ds | None \<Rightarrow> v1_declarations e)"

text \<open>The worktree is the one field the posture constrains.\<close>

definition worktree_floor ::
  "worktree \<Rightarrow> (field_id \<times> field_decl) list \<Rightarrow> overrides \<Rightarrow> exec \<times> trace \<Rightarrow> resolve_error + normalized \<times> trace"
where
  "worktree_floor floor ds ov = (\<lambda>(e, tr).
     if \<not> worktree_satisfies (worktree_value (ex_worktree e)) floor then
       (if (case tr_fields tr (field_name WorktreeField) of Some (_, src) \<Rightarrow> src = SourceCLI | None \<Rightarrow> False)
        then Inl (CliConflict (ex_worktree e))
        else if (case map_of ds WorktreeField of Some d \<Rightarrow> decl_stance d = Demand | None \<Rightarrow> False)
        then Inl (DemandConflict (ex_worktree e))
        else Inr (\<lparr>n_exec = e\<lparr>ex_worktree := ''required''\<rparr>, n_cli_only = ov_cli_only ov\<rparr>,
                  tr\<lparr>tr_fields := (tr_fields tr)(field_name WorktreeField \<mapsto> (VStr ''required'', SourceTrust))\<rparr>))
     else Inr (\<lparr>n_exec = e, n_cli_only = ov_cli_only ov\<rparr>, tr))"

definition resolve_profile ::
  "trust_posture \<Rightarrow> exec \<Rightarrow> overrides \<Rightarrow> (resolve_error + normalized \<times> trace) option"
where
  "resolve_profile post e ov =
     (case require_trust e (tp_selected post) of
        Inl err \<Rightarrow> Some (Inl (TrustError err))
      | Inr _ \<Rightarrow>
          (let ds = exec_declarations e;
               tr0 = \<lparr>tr_fields = Map.empty, tr_canonical = True,
                      tr_selected = tp_selected post, tr_required = ex_required_trust e\<rparr>
           in case resolve_fields (ex_name e) ds ov profile_fields (e, tr0) of
                None \<Rightarrow> None
              | Some (Inl err) \<Rightarrow> Some (Inl err)
              | Some (Inr (e', tr)) \<Rightarrow>
                  let tr' = tr\<lparr>tr_fields := tr_fields tr ++ map_of (map (\<lambda>(k, v). (k, (v, SourceCLI))) (ov_cli_only ov))\<rparr>
                  in Some (worktree_floor (p_worktree (tp_posture post)) ds ov (e', tr'))))"

section \<open>Type safety of the field updates\<close>

text \<open>Two values have the same Go type.\<close>

fun same_type :: "pvalue \<Rightarrow> pvalue \<Rightarrow> bool" where
  "same_type (VInt _) (VInt _) = True"
| "same_type (VBool _) (VBool _) = True"
| "same_type (VStr _) (VStr _) = True"
| "same_type (VDur _) (VDur _) = True"
| "same_type _ _ = False"

lemma same_type_as:
  "same_type v (VInt x) \<longleftrightarrow> as_int v \<noteq> None" "same_type v (VBool b) \<longleftrightarrow> as_bool v \<noteq> None"
  "same_type v (VStr s) \<longleftrightarrow> as_str v \<noteq> None" "same_type v (VDur y) \<longleftrightarrow> as_dur v \<noteq> None"
  by (cases v; simp)+

lemma as_Some:
  "as_int v = Some i \<longleftrightarrow> v = VInt i" "as_bool v = Some b \<longleftrightarrow> v = VBool b"
  "as_str v = Some s \<longleftrightarrow> v = VStr s" "as_dur v = Some i \<longleftrightarrow> v = VDur i"
  by (cases v; simp)+

lemma set_exec_typed: "same_type v (get_exec e f) \<longleftrightarrow> (\<exists>e'. set_exec e f v = Some e')"
  by (cases f) (auto simp: same_type_as)

lemma get_set_same: "set_exec e f v = Some e' \<Longrightarrow> get_exec e' f = v"
  by (cases f) (auto simp: as_Some)

lemma set_exec_name: "set_exec e f v = Some e' \<Longrightarrow> ex_name e' = ex_name e \<and> ex_required_trust e' = ex_required_trust e"
  by (cases f) auto

lemma get_set_other: "set_exec e f v = Some e' \<Longrightarrow> g \<noteq> f \<Longrightarrow> get_exec e' g = get_exec e g"
  by (cases f; clarsimp; cases g; simp)

lemma override_typed: "override_for ov f = Some v \<Longrightarrow> same_type v (get_exec e f)"
  by (cases f) auto

lemma same_type_get: "same_type v (get_exec e f) = same_type v (get_exec e' f)"
  by (cases f; cases v) auto

section \<open>What resolving yields\<close>

lemma profile_fields_all: "f \<in> set profile_fields" "distinct profile_fields"
  by (cases f; simp add: profile_fields_def) (simp add: profile_fields_def)

lemma field_name_inj: "field_name f = field_name g \<longleftrightarrow> f = g"
proof -
  have "distinct (map field_name profile_fields)" by code_simp
  then have "inj_on field_name (set profile_fields)" by (simp add: distinct_map)
  then show ?thesis using profile_fields_all(1) by (auto dest: inj_onD)
qed

text \<open>The value of a field after merging: the flag when it was given, else the profile's.\<close>

definition merged :: "(field_id \<times> field_decl) list \<Rightarrow> overrides \<Rightarrow> field_id \<Rightarrow> pvalue" where
  "merged ds ov f =
     (case override_for ov f of Some v \<Rightarrow> v | None \<Rightarrow> decl_value (the (map_of ds f)))"

definition merged_source :: "overrides \<Rightarrow> field_id \<Rightarrow> source" where
  "merged_source ov f = (if override_for ov f = None then SourceProfile else SourceCLI)"

definition declared_for :: "exec \<Rightarrow> (field_id \<times> field_decl) list \<Rightarrow> bool" where
  "declared_for e ds \<longleftrightarrow>
     (\<forall>f. \<exists>d. map_of ds f = Some d \<and> same_type (decl_value d) (get_exec e f))"

lemma declared_forI:
  assumes "list_all (\<lambda>f. case map_of ds f of None \<Rightarrow> False | Some d \<Rightarrow> same_type (decl_value d) (get_exec zero_exec f)) profile_fields"
  shows "declared_for e ds"
  unfolding declared_for_def
proof
  fix f
  show "\<exists>d. map_of ds f = Some d \<and> same_type (decl_value d) (get_exec e f)"
    using assms profile_fields_all(1) [of f]
    by (auto simp: list_all_iff same_type_get [of _ e f zero_exec] split: option.splits)
qed

lemma v1_declarations_of: "map_of (v1_declarations e) f = Some \<lparr>decl_value = v1_value e f, decl_stance = Default\<rparr>"
  unfolding v1_declarations_def by (rule map_of_map_restrict [THEN fun_cong, THEN trans])
     (simp add: profile_fields_all restrict_map_def)

lemma declarations_declared: "(name, ds) \<in> set declarations \<Longrightarrow> declared_for e ds"
proof -
  have "list_all (\<lambda>(name, ds). list_all (\<lambda>f. case map_of ds f of None \<Rightarrow> False
      | Some d \<Rightarrow> same_type (decl_value d) (get_exec zero_exec f)) profile_fields) declarations"
    by code_simp
  then show "(name, ds) \<in> set declarations \<Longrightarrow> declared_for e ds"
    by (intro declared_forI) (auto simp only: list_all_iff)
qed

lemma exec_declarations_declared: "declared_for e (exec_declarations e)"
proof (cases "map_of declarations (ex_name e)")
  case None
  have "same_type (v1_value e f) (get_exec e f)" for f by (cases f) simp_all
  with None show ?thesis
    by (simp add: exec_declarations_def declared_for_def v1_declarations_of)
next
  case (Some ds)
  then show ?thesis using declarations_declared [OF map_of_SomeD [OF Some]]
    by (simp add: exec_declarations_def)
qed

lemma resolve_fields_spec:
  assumes "declared_for e ds" and "distinct fs"
  shows "\<exists>e' tr'. resolve_fields name ds ov fs (e, tr) = Some (Inr (e', tr'))
      \<and> (\<forall>f. get_exec e' f = (if f \<in> set fs then merged ds ov f else get_exec e f))
      \<and> (\<forall>f. tr_fields tr' (field_name f) =
            (if f \<in> set fs then Some (merged ds ov f, merged_source ov f) else tr_fields tr (field_name f)))
      \<and> tr_canonical tr' = (tr_canonical tr \<and> (\<forall>f \<in> set fs. override_for ov f = None))
      \<and> tr_selected tr' = tr_selected tr \<and> tr_required tr' = tr_required tr \<and> ex_name e' = ex_name e"
  using assms
proof (induction fs arbitrary: e tr)
  case Nil
  then show ?case by simp
next
  case (Cons f fs)
  from Cons.prems(1) obtain d where d: "map_of ds f = Some d" "same_type (decl_value d) (get_exec e f)"
    unfolding declared_for_def by blast
  have "same_type (merged ds ov f) (get_exec e f)"
    using d by (auto simp: merged_def override_typed split: option.split)
  then obtain e1 where e1: "set_exec e f (merged ds ov f) = Some e1"
    using set_exec_typed by blast
  define tr1 where "tr1 = tr\<lparr>tr_canonical := (override_for ov f = None \<and> tr_canonical tr),
      tr_fields := (tr_fields tr)(field_name f \<mapsto> (merged ds ov f, merged_source ov f))\<rparr>"
  have step: "resolve_fields name ds ov (f # fs) (e, tr) = resolve_fields name ds ov fs (e1, tr1)"
    using d e1 by (cases "override_for ov f") (simp_all add: merged_def merged_source_def tr1_def)
  have decl1: "declared_for e1 ds"
    using Cons.prems(1) by (simp add: declared_for_def same_type_get [of _ e1 _ e])
  obtain e2 tr2 where rec: "resolve_fields name ds ov fs (e1, tr1) = Some (Inr (e2, tr2))"
      "\<And>g. get_exec e2 g = (if g \<in> set fs then merged ds ov g else get_exec e1 g)"
      "\<And>g. tr_fields tr2 (field_name g) =
            (if g \<in> set fs then Some (merged ds ov g, merged_source ov g) else tr_fields tr1 (field_name g))"
      "tr_canonical tr2 = (tr_canonical tr1 \<and> (\<forall>g \<in> set fs. override_for ov g = None))"
      "tr_selected tr2 = tr_selected tr1" "tr_required tr2 = tr_required tr1" "ex_name e2 = ex_name e1"
    using Cons.IH [OF decl1, of tr1] Cons.prems(2) by auto
  show ?case
    unfolding step rec(1) using rec(2-7) get_set_same [OF e1] get_set_other [OF e1] set_exec_name [OF e1]
    by (auto simp: tr1_def field_name_inj)
qed

lemma resolve_profile_cases:
  "resolve_profile post e ov = (case require_trust e (tp_selected post) of
      Inl err \<Rightarrow> Some (Inl (TrustError err))
    | Inr _ \<Rightarrow> resolve_profile post e ov)"
  by (simp add: resolve_profile_def split: sum.split)

lemma resolve_profile_shape:
  assumes "require_trust e (tp_selected post) = Inr u"
  obtains e' tr' where
    "resolve_profile post e ov =
       Some (worktree_floor (p_worktree (tp_posture post)) (exec_declarations e) ov (e', tr'))"
    "\<And>f. get_exec e' f = merged (exec_declarations e) ov f"
    "\<And>f. tr_fields tr' (field_name f) =
       (case map_of (ov_cli_only ov) (field_name f) of
          Some v \<Rightarrow> Some (v, SourceCLI)
        | None \<Rightarrow> Some (merged (exec_declarations e) ov f, merged_source ov f))"
    "tr_canonical tr' \<longleftrightarrow> (\<forall>f. override_for ov f = None)"
proof -
  let ?tr0 = "\<lparr>tr_fields = Map.empty, tr_canonical = True,
                      tr_selected = tp_selected post, tr_required = ex_required_trust e\<rparr>"
  obtain e' tr where r: "resolve_fields (ex_name e) (exec_declarations e) ov profile_fields (e, ?tr0) = Some (Inr (e', tr))"
      "\<And>f. get_exec e' f = merged (exec_declarations e) ov f"
      "\<And>f. tr_fields tr (field_name f) = Some (merged (exec_declarations e) ov f, merged_source ov f)"
      "tr_canonical tr \<longleftrightarrow> (\<forall>f. override_for ov f = None)"
    using profile_fields_all(1) resolve_fields_spec [OF exec_declarations_declared [of e] profile_fields_all(2),
        where name = "ex_name e" and ov = ov and tr = ?tr0]
    by auto
  let ?m = "map_of (map (\<lambda>(k, v). (k, (v, SourceCLI))) (ov_cli_only ov))"
  have m: "?m k = map_option (\<lambda>v. (v, SourceCLI)) (map_of (ov_cli_only ov) k)" for k
    by (simp add: map_of_map)
  show ?thesis
    by (rule that [of e' "tr\<lparr>tr_fields := tr_fields tr ++ ?m\<rparr>"])
       (use assms r in \<open>auto simp: resolve_profile_def Let_def m map_add_def split: option.splits\<close>)
qed

section \<open>Properties\<close>

lemma worktree_floor_Inr:
  assumes "worktree_floor floor ds ov (e, tr) = Inr (n, tr')"
  shows "n_cli_only n = ov_cli_only ov \<and> tr_canonical tr' = tr_canonical tr
    \<and> worktree_satisfies (worktree_value (ex_worktree (n_exec n))) floor
    \<and> (n_exec n = e \<or> n_exec n = e\<lparr>ex_worktree := ''required''\<rparr>)"
proof -
  have "worktree_satisfies (worktree_value ''required'') floor"
    by (cases floor) (simp_all add: worktree_value_def worktree_satisfies_def less_eq_worktree_def)
  with assms show ?thesis by (auto simp: worktree_floor_def split: if_splits)
qed

lemma get_exec_worktree: "f \<noteq> WorktreeField \<Longrightarrow> get_exec (e\<lparr>ex_worktree := w\<rparr>) f = get_exec e f"
  by (cases f) auto

text \<open>The worktree alone: at the floor, and the flag's value when there was a flag.\<close>

lemma resolve_profile_worktree:
  assumes "resolve_profile post e ov = Some (Inr (n, tr))"
  shows "worktree_satisfies (worktree_value (ex_worktree (n_exec n))) (p_worktree (tp_posture post))"
    and "ov_worktree ov = Some w \<Longrightarrow> ov_cli_only ov = [] \<Longrightarrow> ex_worktree (n_exec n) = w"
proof -
  obtain u where "require_trust e (tp_selected post) = Inr u"
    using assms by (cases "require_trust e (tp_selected post)") (auto simp: resolve_profile_def)
  from resolve_profile_shape [OF this, of ov] obtain e' tr' where r:
    "resolve_profile post e ov =
       Some (worktree_floor (p_worktree (tp_posture post)) (exec_declarations e) ov (e', tr'))"
    "\<And>f. get_exec e' f = merged (exec_declarations e) ov f"
    "\<And>f. tr_fields tr' (field_name f) =
       (case map_of (ov_cli_only ov) (field_name f) of
          Some v \<Rightarrow> Some (v, SourceCLI)
        | None \<Rightarrow> Some (merged (exec_declarations e) ov f, merged_source ov f))" by metis
  have wf: "worktree_floor (p_worktree (tp_posture post)) (exec_declarations e) ov (e', tr') = Inr (n, tr)"
    using assms r(1) by simp
  show "worktree_satisfies (worktree_value (ex_worktree (n_exec n))) (p_worktree (tp_posture post))"
    using worktree_floor_Inr [OF wf] by blast
  assume w: "ov_worktree ov = Some w" "ov_cli_only ov = []"
  have "ex_worktree e' = w" using r(2) [of WorktreeField] w by (simp add: merged_def)
  moreover have "tr_fields tr' ''worktree'' = Some (VStr w, SourceCLI)"
    using r(3) [of WorktreeField] w by (simp add: merged_source_def merged_def)
  ultimately show "ex_worktree (n_exec n) = w"
    using wf by (auto simp: worktree_floor_def split: if_splits)
qed

text \<open>What \<open>Resolve\<close> yields, whatever the profile, flags and posture: every field
  other than the worktree has the flag's value if the flag was given and the profile's
  otherwise; the worktree is the merged one or raised to required, and in any case meets the
  floor of the posture; and the run is canonical exactly if no flag was given.\<close>

theorem resolve_precedence:
  assumes "resolve_profile post e ov = Some (Inr (n, tr))"
  shows "(\<forall>f. f \<noteq> WorktreeField \<longrightarrow> get_exec (n_exec n) f = merged (exec_declarations e) ov f)
    \<and> (ex_worktree (n_exec n) = ''required'' \<or>
       VStr (ex_worktree (n_exec n)) = merged (exec_declarations e) ov WorktreeField)
    \<and> worktree_satisfies (worktree_value (ex_worktree (n_exec n))) (p_worktree (tp_posture post))
    \<and> (tr_canonical tr \<longleftrightarrow> (\<forall>f. override_for ov f = None))"
proof -
  obtain u where "require_trust e (tp_selected post) = Inr u"
    using assms by (cases "require_trust e (tp_selected post)") (auto simp: resolve_profile_def)
  from resolve_profile_shape [OF this, of ov] obtain e' tr' where r:
    "resolve_profile post e ov =
       Some (worktree_floor (p_worktree (tp_posture post)) (exec_declarations e) ov (e', tr'))"
    "\<And>f. get_exec e' f = merged (exec_declarations e) ov f"
    "tr_canonical tr' \<longleftrightarrow> (\<forall>f. override_for ov f = None)" by metis
  have wf: "worktree_floor (p_worktree (tp_posture post)) (exec_declarations e) ov (e', tr') = Inr (n, tr)"
    using assms r(1) by simp
  show ?thesis
    using worktree_floor_Inr [OF wf] r(2) [symmetric] r(3) by (auto simp: get_exec_worktree)
qed

definition no_overrides :: overrides where
  "no_overrides =
     \<lparr> ov_max_iters = None, ov_max_tokens = None, ov_finish_nudge = None, ov_run_timeout = None,
       ov_effort = None, ov_worktree = None, ov_verify_continue = None, ov_auto_verify = None,
       ov_auto_verify_soft = None, ov_memory = None, ov_boot_context = None, ov_standing_context = None,
       ov_batch_reads = None, ov_require_diff = None, ov_read_window = None, ov_read_outline = None,
       ov_churn_nudge_runs = None, ov_nav_spiral_window = None, ov_answer_nudge_window = None,
       ov_cli_only = [] \<rparr>"

definition coding_v2_container :: "(resolve_error + normalized \<times> trace) option" where
  "coding_v2_container =
     resolve_profile \<lparr>tp_selected = container, tp_posture = floor_for container, tp_surface = ''cli''\<rparr>
       (zero_exec\<lparr>ex_name := ''coding-v2''\<rparr>) (no_overrides\<lparr>ov_max_iters := Some 7\<rparr>)"

lemma coding_v2_container_ok: "case coding_v2_container of Some (Inr _) \<Rightarrow> True | _ \<Rightarrow> False"
  by code_simp

theorem resolve_precedence_witness:
  "\<exists>n tr. coding_v2_container = Some (Inr (n, tr))
     \<and> get_exec (n_exec n) MaxItersField = VInt 7 \<and> get_exec (n_exec n) RequireDiffField = VBool True
     \<and> worktree_value (ex_worktree (n_exec n)) = WorktreeRequired \<and> \<not> tr_canonical tr"
proof -
  obtain n tr where r: "coding_v2_container = Some (Inr (n, tr))"
    using coding_v2_container_ok by (auto split: option.splits sum.splits)
  let ?ov = "no_overrides\<lparr>ov_max_iters := Some 7\<rparr>"
  have m: "merged (exec_declarations (zero_exec\<lparr>ex_name := ''coding-v2''\<rparr>)) ?ov MaxItersField = VInt 7"
      "merged (exec_declarations (zero_exec\<lparr>ex_name := ''coding-v2''\<rparr>)) ?ov RequireDiffField = VBool True"
      "override_for ?ov MaxItersField \<noteq> None"
    by code_simp+
  have w: "worktree_satisfies w WorktreeRequired \<Longrightarrow> w = WorktreeRequired" for w
    by (cases w) (auto simp: worktree_satisfies_def less_eq_worktree_def)
  note p = resolve_precedence [OF r [unfolded coding_v2_container_def]]
  have "get_exec (n_exec n) MaxItersField = VInt 7" "get_exec (n_exec n) RequireDiffField = VBool True"
    using p [THEN conjunct1] m(1,2) by (simp_all only: field_id.distinct simp_thms)
  moreover have "worktree_value (ex_worktree (n_exec n)) = WorktreeRequired"
    using p [THEN conjunct2, THEN conjunct2, THEN conjunct1] by (intro w) (simp add: mk_posture_def)
  moreover have "\<not> tr_canonical tr"
    using p [THEN conjunct2, THEN conjunct2, THEN conjunct2] m(3) by metis
  ultimately show ?thesis using r by blast
qed

text \<open>\<open>Resolve\<close> never panics on a type assertion and always finds a declaration for
  every field; with the flag map free of the key worktree it fails in exactly three ways: the
  trust required by the profile is not met, an explicit worktree flag contradicts the floor,
  or the profile demands a worktree mode below the floor.\<close>

theorem resolve_outcome:
  assumes "map_of (ov_cli_only ov) ''worktree'' = None"
  shows "resolve_profile post e ov \<noteq> None \<and>
    (\<forall>err. resolve_profile post e ov = Some (Inl err) \<longleftrightarrow>
      (\<exists>x. require_trust e (tp_selected post) = Inl x \<and> err = TrustError x) \<or>
      (require_trust e (tp_selected post) = Inr () \<and>
       (\<exists>wt d. merged (exec_declarations e) ov WorktreeField = VStr wt
          \<and> map_of (exec_declarations e) WorktreeField = Some d
          \<and> \<not> worktree_satisfies (worktree_value wt) (p_worktree (tp_posture post))
          \<and> (if ov_worktree ov \<noteq> None then err = CliConflict wt
             else decl_stance d = Demand \<and> err = DemandConflict wt))))"
proof (cases "require_trust e (tp_selected post)")
  case (Inl x)
  then show ?thesis by (auto simp: resolve_profile_def)
next
  case (Inr u)
  from resolve_profile_shape [OF this, of ov] obtain e' tr' where r:
    "resolve_profile post e ov =
       Some (worktree_floor (p_worktree (tp_posture post)) (exec_declarations e) ov (e', tr'))"
    "\<And>f. get_exec e' f = merged (exec_declarations e) ov f"
    "\<And>f. tr_fields tr' (field_name f) =
       (case map_of (ov_cli_only ov) (field_name f) of
          Some v \<Rightarrow> Some (v, SourceCLI)
        | None \<Rightarrow> Some (merged (exec_declarations e) ov f, merged_source ov f))" by metis
  have wt: "merged (exec_declarations e) ov WorktreeField = VStr (ex_worktree e')"
    using r(2) [of WorktreeField] by simp
  obtain d where d: "map_of (exec_declarations e) WorktreeField = Some d"
    using exec_declarations_declared [of e] by (auto simp: declared_for_def)
  have src: "tr_fields tr' ''worktree'' = Some (VStr (ex_worktree e'), if ov_worktree ov = None then SourceProfile else SourceCLI)"
    using r(3) [of WorktreeField] assms wt by (simp add: merged_source_def)
  show ?thesis
    unfolding r(1) using Inr wt d src by (auto simp: worktree_floor_def)
qed

theorem resolve_outcome_witness:
  "resolve_profile \<lparr>tp_selected = untrusted, tp_posture = floor_for untrusted, tp_surface = ''cli''\<rparr>
     (zero_exec\<lparr>ex_name := ''eval-swe-v1''\<rparr>) no_overrides = Some (Inl (DemandConflict ''off''))"
proof -
  let ?e = "zero_exec\<lparr>ex_name := ''eval-swe-v1''\<rparr>"
  have a: "map_of (ov_cli_only no_overrides) ''worktree'' = None" by code_simp
  have b: "require_trust ?e untrusted = Inr ()" by code_simp
  have c: "merged (exec_declarations ?e) no_overrides WorktreeField = VStr ''off''" by code_simp
  have d: "map_of (exec_declarations ?e) WorktreeField = Some \<lparr>decl_value = VStr ''off'', decl_stance = Demand\<rparr>"
    by code_simp
  have f: "\<not> worktree_satisfies (worktree_value ''off'') (p_worktree (floor_for untrusted))" by code_simp
  show ?thesis
    using resolve_outcome [OF a, of "\<lparr>tp_selected = untrusted, tp_posture = floor_for untrusted, tp_surface = ''cli''\<rparr>" ?e]
      b c d f by (simp add: no_overrides_def del: floor_for_simps)
qed

text \<open>The trust lattice of execution profiles: a profile that requires a trust runs
  under that trust, under untrusted, and under anything canonical when it requires
  trusted-local; in particular reviewed-local and container do not stand in for each other.\<close>

theorem require_trust_lattice:
  "require_trust e selected = Inr () \<longleftrightarrow>
     ex_required_trust e = [] \<or>
     (ex_required_trust e \<in> {trusted_local, reviewed_local, container, untrusted} \<and>
      selected \<in> {trusted_local, reviewed_local, container, untrusted} \<and>
      (ex_required_trust e = selected \<or> ex_required_trust e = trusted_local \<or> selected = untrusted))"
proof -
  have m: "\<forall>r \<in> {trusted_local, reviewed_local, container, untrusted}.
      \<forall>s \<in> {trusted_local, reviewed_local, container, untrusted}.
        meets (floor_for s) (floor_for r) \<longleftrightarrow> r = s \<or> r = trusted_local \<or> s = untrusted"
    by code_simp
  show ?thesis
  proof (cases "ex_required_trust e \<in> canonical_trusts")
    case req: True
    then have ne: "ex_required_trust e \<noteq> []" using canonical_nonempty by metis
    show ?thesis
    proof (cases "selected \<in> canonical_trusts")
      case True
      have "require_trust e selected = Inr () \<longleftrightarrow> meets (floor_for selected) (floor_for (ex_required_trust e))"
        using first_violation_None [of "floor_for selected" "floor_for (ex_required_trust e)"]
          parse_trust_good [OF req] parse_trust_good [OF True] ne
        by (auto simp: require_trust_def simp del: floor_for_simps split: option.split)
      then show ?thesis using m True req ne by blast
    next
      case False
      have "require_trust e selected \<noteq> Inr ()"
        using parse_trust_good [OF req] parse_trust_bad [OF False] ne by (simp add: require_trust_def)
      then show ?thesis using False ne by blast
    qed
  next
    case False
    show ?thesis using parse_trust_bad [OF False] False
      by (cases "ex_required_trust e = []") (simp_all add: require_trust_def)
  qed
qed

end
