(* ===== verification/Runspec.thy ===== *)
theory Runspec
  imports Complex_Main ExecProfile
begin

text \<open>
  Package \<open>runspec\<close>: the request of a run with presence preserved, the complete policy,
  and \<open>Resolve\<close>, which applies the trust floor, the execution profile, the explicit
  overrides, the aliases and the defaults in that order and then validates. Numbers of type
  float64 are reals; the two digests (SHA-256 over JSON) are arguments.
\<close>

section \<open>Policies\<close>

definition default_max_iterations :: int where "default_max_iterations = 8"
definition default_max_tokens :: int where "default_max_tokens = 8192"
definition default_run_timeout :: int where "default_run_timeout = 30 * second"
definition default_review_rounds :: int where "default_review_rounds = 2"

record termination_policy =
  tp_version :: string
  tp_max_repeats :: int
  tp_max_reasoning_repeats :: int
  tp_max_stagnant :: int
  tp_nav_spiral_window :: int
  tp_wander_multiple :: int
  tp_frontier_cap :: int
  tp_green_repeat_threshold :: int

definition default_termination_policy :: termination_policy where
  "default_termination_policy =
     \<lparr> tp_version = ''tp-2026-07-10'', tp_max_repeats = 2, tp_max_reasoning_repeats = 6,
       tp_max_stagnant = 3, tp_nav_spiral_window = 4, tp_wander_multiple = 4,
       tp_frontier_cap = 64, tp_green_repeat_threshold = 3 \<rparr>"

record memory_scope =
  sc_user :: string
  sc_agent :: string
  sc_run :: string

definition zero_scope :: memory_scope where
  "zero_scope = \<lparr> sc_user = [], sc_agent = [], sc_run = [] \<rparr>"

record requested_config =
  rq_trust_profile :: "string option"
  rq_exec_profile :: "string option"
  rq_effective_protocol :: "string option"
  rq_disable_memory_store :: "bool option"
  rq_memory :: "bool option"
  rq_persona :: "string option"
  rq_memory_scope :: "memory_scope option"
  rq_boot_context :: "bool option"
  rq_standing_context :: "bool option"
  rq_stream :: "bool option"
  rq_min_isolation :: "isolation option"
  rq_require_network_off :: "bool option"
  rq_max_iterations :: "int option"
  rq_max_tokens :: "int option"
  rq_run_timeout :: "int option"
  rq_verify_timeout :: "int option"
  rq_reasoning_effort :: "string option"
  rq_prompt_profile :: "string option"
  rq_code_act :: "bool option"
  rq_repro_first :: "bool option"
  rq_repro_gate :: "bool option"
  rq_batch_reads :: "bool option"
  rq_read_window :: "int option"
  rq_read_outline :: "bool option"
  rq_max_wall_clock :: "int option"
  rq_max_total_tokens :: "int option"
  rq_max_total_cost_usd :: "real option"
  rq_allow_unpriced_spend :: "bool option"
  rq_solver_model :: "string option"
  rq_verify_cmd :: "string option"
  rq_auto_verify :: "bool option"
  rq_auto_verify_soft :: "bool option"
  rq_skip_verify_baseline :: "bool option"
  rq_abort_on_red_baseline :: "bool option"
  rq_verify_last_run :: "bool option"
  rq_churn_nudge_runs :: "int option"
  rq_verify_continue :: "bool option"
  rq_test_fence :: "(string list) option"
  rq_diff_scope :: "(string list) option"
  rq_review_policy :: "int option"
  rq_require_diff :: "bool option"
  rq_review_unverified :: "bool option"
  rq_review_rounds :: "int option"
  rq_finish_nudge_window :: "int option"
  rq_diagnose_cmd :: "string option"
  rq_diagnose_after_edits :: "int option"
  rq_termination :: "termination_policy option"
  rq_answer_nudge_window :: "int option"
  rq_finish_tool :: "string option"
  rq_finish_tool_trusts_caller :: "bool option"
  rq_worktree :: "string option"
  rq_nav_spiral_window :: "int option"

record policy_value =
  pv_effective_protocol :: string
  pv_disable_memory_store :: bool
  pv_memory :: bool
  pv_persona :: string
  pv_memory_scope :: memory_scope
  pv_boot_context :: bool
  pv_standing_context :: bool
  pv_stream :: bool
  pv_min_isolation :: isolation
  pv_require_network_off :: bool
  pv_max_iterations :: int
  pv_max_tokens :: int
  pv_run_timeout :: int
  pv_verify_timeout :: int
  pv_reasoning_effort :: string
  pv_prompt_profile :: string
  pv_code_act :: bool
  pv_repro_first :: bool
  pv_repro_gate :: bool
  pv_batch_reads :: bool
  pv_read_window :: int
  pv_read_outline :: bool
  pv_max_wall_clock :: int
  pv_max_total_tokens :: int
  pv_max_total_cost_usd :: real
  pv_allow_unpriced_spend :: bool
  pv_solver_model :: string
  pv_verify_cmd :: string
  pv_auto_verify :: bool
  pv_auto_verify_soft :: bool
  pv_skip_verify_baseline :: bool
  pv_abort_on_red_baseline :: bool
  pv_verify_last_run :: bool
  pv_churn_nudge_runs :: int
  pv_verify_continue :: bool
  pv_test_fence :: "string list"
  pv_diff_scope :: "string list"
  pv_review_policy :: int
  pv_require_diff :: bool
  pv_review_unverified :: bool
  pv_review_rounds :: int
  pv_finish_nudge_window :: int
  pv_diagnose_cmd :: string
  pv_diagnose_after_edits :: int
  pv_termination :: termination_policy
  pv_answer_nudge_window :: int
  pv_finish_tool :: string
  pv_finish_tool_trusts_caller :: bool
  pv_worktree :: string

text \<open>The policy \<open>Resolve\<close> starts from.\<close>

definition base_policy :: policy_value where
  "base_policy =
     \<lparr> pv_effective_protocol = [], pv_disable_memory_store = False, pv_memory = False,
       pv_persona = [], pv_memory_scope = zero_scope, pv_boot_context = False,
       pv_standing_context = False, pv_stream = False, pv_min_isolation = IsolationNone,
       pv_require_network_off = False, pv_max_iterations = default_max_iterations, pv_max_tokens = default_max_tokens,
       pv_run_timeout = default_run_timeout, pv_verify_timeout = 0, pv_reasoning_effort = [],
       pv_prompt_profile = [], pv_code_act = False, pv_repro_first = False,
       pv_repro_gate = False, pv_batch_reads = False, pv_read_window = 0,
       pv_read_outline = False, pv_max_wall_clock = 0, pv_max_total_tokens = 0,
       pv_max_total_cost_usd = 0, pv_allow_unpriced_spend = False, pv_solver_model = [],
       pv_verify_cmd = [], pv_auto_verify = False, pv_auto_verify_soft = False,
       pv_skip_verify_baseline = False, pv_abort_on_red_baseline = False, pv_verify_last_run = False,
       pv_churn_nudge_runs = 0, pv_verify_continue = False, pv_test_fence = [],
       pv_diff_scope = [], pv_review_policy = 0, pv_require_diff = False,
       pv_review_unverified = False, pv_review_rounds = default_review_rounds, pv_finish_nudge_window = 0,
       pv_diagnose_cmd = [], pv_diagnose_after_edits = 0, pv_termination = default_termination_policy,
       pv_answer_nudge_window = 0, pv_finish_tool = [], pv_finish_tool_trusts_caller = False,
       pv_worktree = [] \<rparr>"

definition no_request :: requested_config where
  "no_request =
     \<lparr> rq_trust_profile = None, rq_exec_profile = None, rq_effective_protocol = None, rq_disable_memory_store = None,
       rq_memory = None, rq_persona = None, rq_memory_scope = None, rq_boot_context = None,
       rq_standing_context = None, rq_stream = None, rq_min_isolation = None, rq_require_network_off = None,
       rq_max_iterations = None, rq_max_tokens = None, rq_run_timeout = None, rq_verify_timeout = None,
       rq_reasoning_effort = None, rq_prompt_profile = None, rq_code_act = None, rq_repro_first = None,
       rq_repro_gate = None, rq_batch_reads = None, rq_read_window = None, rq_read_outline = None,
       rq_max_wall_clock = None, rq_max_total_tokens = None, rq_max_total_cost_usd = None, rq_allow_unpriced_spend = None,
       rq_solver_model = None, rq_verify_cmd = None, rq_auto_verify = None, rq_auto_verify_soft = None,
       rq_skip_verify_baseline = None, rq_abort_on_red_baseline = None, rq_verify_last_run = None, rq_churn_nudge_runs = None,
       rq_verify_continue = None, rq_test_fence = None, rq_diff_scope = None, rq_review_policy = None,
       rq_require_diff = None, rq_review_unverified = None, rq_review_rounds = None, rq_finish_nudge_window = None,
       rq_diagnose_cmd = None, rq_diagnose_after_edits = None, rq_termination = None, rq_answer_nudge_window = None,
       rq_finish_tool = None, rq_finish_tool_trusts_caller = None, rq_worktree = None, rq_nav_spiral_window = None \<rparr>"

section \<open>The trace\<close>

datatype spec_value =
    SvStr string | SvBool bool | SvInt int | SvReal real | SvStrs "string list"
  | SvScope memory_scope | SvIsolation isolation | SvTermination termination_policy
  | SvProfile pvalue | SvTrust trust

record spec_trace =
  st_fields :: "string \<Rightarrow> (string \<times> spec_value) option"
  st_trust_profile :: string
  st_exec_profile :: string
  st_canonical :: bool
  st_profile :: "trace option"
  st_hash :: string

record resolved_spec =
  rs_policy :: policy_value
  rs_hash :: string
  rs_trace :: spec_trace

definition mark :: "string \<Rightarrow> string \<Rightarrow> spec_value \<Rightarrow> spec_trace \<Rightarrow> spec_trace" where
  "mark name source v t = t\<lparr>st_fields := (st_fields t)(name \<mapsto> (source, v))\<rparr>"

text \<open>The generic function \<open>set\<close>: an override replaces the field and ends canonicality.\<close>

definition set_opt ::
  "('a \<Rightarrow> policy_value \<Rightarrow> policy_value) \<Rightarrow> string \<Rightarrow> ('a \<Rightarrow> spec_value) \<Rightarrow> 'a option
   \<Rightarrow> policy_value \<times> spec_trace \<Rightarrow> policy_value \<times> spec_trace" where
  "set_opt upd name tag src s =
     (case src of
        None \<Rightarrow> s
      | Some v \<Rightarrow> (upd v (fst s), (mark name ''override'' (tag v) (snd s))\<lparr>st_canonical := False\<rparr>))"

text \<open>The fence and the scope are copied and marked, but leave the canonical flag alone.\<close>

definition set_globs ::
  "(string list \<Rightarrow> policy_value \<Rightarrow> policy_value) \<Rightarrow> string \<Rightarrow> string list option
   \<Rightarrow> policy_value \<times> spec_trace \<Rightarrow> policy_value \<times> spec_trace" where
  "set_globs upd name src s =
     (case src of
        None \<Rightarrow> s
      | Some v \<Rightarrow> (upd v (fst s), mark name ''override'' (SvStrs v) (snd s)))"

definition overrides_from :: "requested_config \<Rightarrow> overrides" where
  "overrides_from r =
     \<lparr> ov_max_iters = rq_max_iterations r, ov_max_tokens = rq_max_tokens r,
       ov_finish_nudge = rq_finish_nudge_window r, ov_run_timeout = rq_run_timeout r,
       ov_effort = rq_reasoning_effort r, ov_worktree = rq_worktree r,
       ov_verify_continue = rq_verify_continue r, ov_auto_verify = rq_auto_verify r,
       ov_auto_verify_soft = rq_auto_verify_soft r, ov_memory = rq_memory r,
       ov_boot_context = rq_boot_context r, ov_standing_context = rq_standing_context r,
       ov_batch_reads = rq_batch_reads r, ov_require_diff = rq_require_diff r,
       ov_read_window = rq_read_window r, ov_read_outline = rq_read_outline r,
       ov_churn_nudge_runs = rq_churn_nudge_runs r, ov_nav_spiral_window = rq_nav_spiral_window r,
       ov_answer_nudge_window = rq_answer_nudge_window r, ov_cli_only = [] \<rparr>"

section \<open>The stages of Resolve\<close>

definition pos_or :: "int \<Rightarrow> int \<Rightarrow> int" where "pos_or v d = (if v \<le> 0 then d else v)"

definition resolve_termination :: "termination_policy option \<Rightarrow> termination_policy" where
  "resolve_termination p =
     (let d = default_termination_policy in
      case p of
        None \<Rightarrow> d
      | Some r \<Rightarrow>
          \<lparr> tp_version = (if tp_version r = [] then tp_version d else tp_version r),
            tp_max_repeats = pos_or (tp_max_repeats r) (tp_max_repeats d),
            tp_max_reasoning_repeats = pos_or (tp_max_reasoning_repeats r) (tp_max_reasoning_repeats d),
            tp_max_stagnant = pos_or (tp_max_stagnant r) (tp_max_stagnant d),
            tp_nav_spiral_window = pos_or (tp_nav_spiral_window r) (tp_nav_spiral_window d),
            tp_wander_multiple = pos_or (tp_wander_multiple r) (tp_wander_multiple d),
            tp_frontier_cap = pos_or (tp_frontier_cap r) (tp_frontier_cap d),
            tp_green_repeat_threshold = pos_or (tp_green_repeat_threshold r) (tp_green_repeat_threshold d) \<rparr>)"

datatype spec_error =
    SpecTrust trust_error
  | SpecExec string
  | SpecProfile resolve_error
  | SpecPanic
  | OutOfRange string
  | SpiralConflict
  | DigestFailed string

definition policy_checks :: "policy_value \<Rightarrow> (string \<times> bool) list" where
  "policy_checks p =
     [(''MaxIterations'', pv_max_iterations p \<le> 0), (''MaxTokens'', pv_max_tokens p \<le> 0),
      (''RunTimeout'', pv_run_timeout p \<le> 0), (''VerifyTimeout'', pv_verify_timeout p \<le> 0),
      (''ReviewRounds'', pv_review_rounds p \<le> 0), (''ReadWindow'', pv_read_window p < 0),
      (''ChurnNudgeRuns'', pv_churn_nudge_runs p < 0), (''FinishNudgeWindow'', pv_finish_nudge_window p < 0),
      (''AnswerNudgeWindow'', pv_answer_nudge_window p < 0),
      (''TerminationPolicy.NavSpiralWindow'', tp_nav_spiral_window (pv_termination p) \<le> 0)]"

definition first_bad :: "(string \<times> bool) list \<Rightarrow> spec_error option" where
  "first_bad checks = map_option (\<lambda>c. OutOfRange (fst c)) (find snd checks)"

definition validate_policy :: "policy_value \<Rightarrow> spec_error option" where
  "validate_policy p = first_bad (policy_checks p)"

definition complete_spec :: "resolved_spec \<Rightarrow> bool" where
  "complete_spec s \<longleftrightarrow> rs_hash s \<noteq> [] \<and> validate_policy (rs_policy s) = None"

text \<open>Trust, floor and execution profile.\<close>

definition floor_policy :: "trust \<Rightarrow> policy_value" where
  "floor_policy trust =
     base_policy\<lparr> pv_min_isolation := p_min_isolation (floor_for trust),
       pv_require_network_off := (p_network (floor_for trust) = NetworkOff),
       pv_worktree := (if p_worktree (floor_for trust) = WorktreeRequired then ''required'' else ''auto'') \<rparr>"

definition apply_profile :: "exec \<Rightarrow> policy_value \<Rightarrow> policy_value" where
  "apply_profile n p =
     p\<lparr> pv_max_iterations := ex_max_iters n, pv_max_tokens := ex_max_tokens n,
        pv_finish_nudge_window := ex_finish_nudge n, pv_run_timeout := ex_run_timeout n,
        pv_reasoning_effort := ex_effort n, pv_worktree := ex_worktree n,
        pv_verify_continue := ex_verify_continue n, pv_auto_verify := ex_auto_verify n,
        pv_auto_verify_soft := ex_auto_verify_soft n, pv_memory := ex_memory n,
        pv_boot_context := ex_boot_context n, pv_standing_context := ex_standing_context n,
        pv_batch_reads := ex_batch_reads n, pv_require_diff := ex_require_diff n,
        pv_read_window := ex_read_window n, pv_read_outline := ex_read_outline n,
        pv_churn_nudge_runs := ex_churn_nudge_runs n,
        pv_termination := (pv_termination p)\<lparr>tp_nav_spiral_window := ex_nav_spiral_window n\<rparr>,
        pv_answer_nudge_window := ex_answer_nudge_window n \<rparr>"

definition profile_stage ::
  "trust \<Rightarrow> requested_config \<Rightarrow> spec_error + policy_value \<times> spec_trace" where
  "profile_stage trust r =
     (let t = \<lparr> st_fields = Map.empty, st_trust_profile = trust, st_exec_profile = [],
                st_canonical = True, st_profile = None, st_hash = [] \<rparr>;
          p = floor_policy trust in
      case rq_exec_profile r of
        None \<Rightarrow> Inr (p, t)
      | Some name \<Rightarrow>
          if name = [] then Inr (p, t)
          else (case exec_by_name name of
              Inl e \<Rightarrow> Inl (SpecExec e)
            | Inr e \<Rightarrow>
                (case resolve_profile \<lparr>tp_selected = trust, tp_posture = floor_for trust, tp_surface = []\<rparr> e (overrides_from r) of
                   None \<Rightarrow> Inl SpecPanic
                 | Some (Inl err) \<Rightarrow> Inl (SpecProfile err)
                 | Some (Inr (n, tr)) \<Rightarrow>
                     Inr (apply_profile (n_exec n) p,
                          t\<lparr>st_exec_profile := ex_name e, st_profile := Some tr,
                            st_fields := (\<lambda>k. map_option (\<lambda>v. (''profile default'', SvProfile (fst v))) (tr_fields tr k))\<rparr>))))"

text \<open>The explicit overrides, in the order of the code.\<close>

definition override_stage ::
  "requested_config \<Rightarrow> (policy_value \<times> spec_trace \<Rightarrow> policy_value \<times> spec_trace) list" where
  "override_stage r =
     [set_opt (\<lambda>v p. p\<lparr>pv_effective_protocol := v\<rparr>) ''EffectiveProtocol'' SvStr (rq_effective_protocol r),
      set_opt (\<lambda>v p. p\<lparr>pv_disable_memory_store := v\<rparr>) ''DisableMemoryStore'' SvBool (rq_disable_memory_store r),
      set_opt (\<lambda>v p. p\<lparr>pv_memory := v\<rparr>) ''Memory'' SvBool (rq_memory r),
      set_opt (\<lambda>v p. p\<lparr>pv_persona := v\<rparr>) ''Persona'' SvStr (rq_persona r),
      set_opt (\<lambda>v p. p\<lparr>pv_memory_scope := v\<rparr>) ''MemoryScope'' SvScope (rq_memory_scope r),
      set_opt (\<lambda>v p. p\<lparr>pv_boot_context := v\<rparr>) ''BootContext'' SvBool (rq_boot_context r),
      set_opt (\<lambda>v p. p\<lparr>pv_standing_context := v\<rparr>) ''StandingContext'' SvBool (rq_standing_context r),
      set_opt (\<lambda>v p. p\<lparr>pv_stream := v\<rparr>) ''Stream'' SvBool (rq_stream r),
      set_opt (\<lambda>v p. p\<lparr>pv_min_isolation := v\<rparr>) ''MinIsolation'' SvIsolation (rq_min_isolation r),
      set_opt (\<lambda>v p. p\<lparr>pv_require_network_off := v\<rparr>) ''RequireNetworkOff'' SvBool (rq_require_network_off r),
      set_opt (\<lambda>v p. p\<lparr>pv_max_iterations := v\<rparr>) ''MaxIterations'' SvInt (rq_max_iterations r),
      set_opt (\<lambda>v p. p\<lparr>pv_max_tokens := v\<rparr>) ''MaxTokens'' SvInt (rq_max_tokens r),
      set_opt (\<lambda>v p. p\<lparr>pv_run_timeout := v\<rparr>) ''RunTimeout'' SvInt (rq_run_timeout r),
      set_opt (\<lambda>v p. p\<lparr>pv_verify_timeout := v\<rparr>) ''VerifyTimeout'' SvInt (rq_verify_timeout r),
      set_opt (\<lambda>v p. p\<lparr>pv_reasoning_effort := v\<rparr>) ''ReasoningEffort'' SvStr (rq_reasoning_effort r),
      set_opt (\<lambda>v p. p\<lparr>pv_prompt_profile := v\<rparr>) ''PromptProfile'' SvStr (rq_prompt_profile r),
      set_opt (\<lambda>v p. p\<lparr>pv_code_act := v\<rparr>) ''CodeAct'' SvBool (rq_code_act r),
      set_opt (\<lambda>v p. p\<lparr>pv_repro_first := v\<rparr>) ''ReproFirst'' SvBool (rq_repro_first r),
      set_opt (\<lambda>v p. p\<lparr>pv_repro_gate := v\<rparr>) ''ReproGate'' SvBool (rq_repro_gate r),
      set_opt (\<lambda>v p. p\<lparr>pv_batch_reads := v\<rparr>) ''BatchReads'' SvBool (rq_batch_reads r),
      set_opt (\<lambda>v p. p\<lparr>pv_read_window := v\<rparr>) ''ReadWindow'' SvInt (rq_read_window r),
      set_opt (\<lambda>v p. p\<lparr>pv_read_outline := v\<rparr>) ''ReadOutline'' SvBool (rq_read_outline r),
      set_opt (\<lambda>v p. p\<lparr>pv_max_wall_clock := v\<rparr>) ''MaxWallClock'' SvInt (rq_max_wall_clock r),
      set_opt (\<lambda>v p. p\<lparr>pv_max_total_tokens := v\<rparr>) ''MaxTotalTokens'' SvInt (rq_max_total_tokens r),
      set_opt (\<lambda>v p. p\<lparr>pv_max_total_cost_usd := v\<rparr>) ''MaxTotalCostUSD'' SvReal (rq_max_total_cost_usd r),
      set_opt (\<lambda>v p. p\<lparr>pv_allow_unpriced_spend := v\<rparr>) ''AllowUnpricedSpend'' SvBool (rq_allow_unpriced_spend r),
      set_opt (\<lambda>v p. p\<lparr>pv_solver_model := v\<rparr>) ''SolverModel'' SvStr (rq_solver_model r),
      set_opt (\<lambda>v p. p\<lparr>pv_verify_cmd := v\<rparr>) ''VerifyCmd'' SvStr (rq_verify_cmd r),
      set_opt (\<lambda>v p. p\<lparr>pv_auto_verify := v\<rparr>) ''AutoVerify'' SvBool (rq_auto_verify r),
      set_opt (\<lambda>v p. p\<lparr>pv_auto_verify_soft := v\<rparr>) ''AutoVerifySoft'' SvBool (rq_auto_verify_soft r),
      set_opt (\<lambda>v p. p\<lparr>pv_skip_verify_baseline := v\<rparr>) ''SkipVerifyBaseline'' SvBool (rq_skip_verify_baseline r),
      set_opt (\<lambda>v p. p\<lparr>pv_abort_on_red_baseline := v\<rparr>) ''AbortOnRedBaseline'' SvBool (rq_abort_on_red_baseline r),
      set_opt (\<lambda>v p. p\<lparr>pv_verify_last_run := v\<rparr>) ''VerifyLastRun'' SvBool (rq_verify_last_run r),
      set_opt (\<lambda>v p. p\<lparr>pv_churn_nudge_runs := v\<rparr>) ''ChurnNudgeRuns'' SvInt (rq_churn_nudge_runs r),
      set_opt (\<lambda>v p. p\<lparr>pv_verify_continue := v\<rparr>) ''VerifyContinue'' SvBool (rq_verify_continue r),
      set_globs (\<lambda>v p. p\<lparr>pv_test_fence := v\<rparr>) ''TestFence'' (rq_test_fence r),
      set_globs (\<lambda>v p. p\<lparr>pv_diff_scope := v\<rparr>) ''DiffScope'' (rq_diff_scope r),
      set_opt (\<lambda>v p. p\<lparr>pv_review_policy := v\<rparr>) ''ReviewPolicy'' SvInt (rq_review_policy r),
      set_opt (\<lambda>v p. p\<lparr>pv_require_diff := v\<rparr>) ''RequireDiff'' SvBool (rq_require_diff r),
      set_opt (\<lambda>v p. p\<lparr>pv_review_unverified := v\<rparr>) ''ReviewUnverified'' SvBool (rq_review_unverified r),
      set_opt (\<lambda>v p. p\<lparr>pv_review_rounds := v\<rparr>) ''ReviewRounds'' SvInt (rq_review_rounds r),
      set_opt (\<lambda>v p. p\<lparr>pv_finish_nudge_window := v\<rparr>) ''FinishNudgeWindow'' SvInt (rq_finish_nudge_window r),
      set_opt (\<lambda>v p. p\<lparr>pv_diagnose_cmd := v\<rparr>) ''DiagnoseCmd'' SvStr (rq_diagnose_cmd r),
      set_opt (\<lambda>v p. p\<lparr>pv_diagnose_after_edits := v\<rparr>) ''DiagnoseAfterEdits'' SvInt (rq_diagnose_after_edits r),
      set_opt (\<lambda>v p. p\<lparr>pv_answer_nudge_window := v\<rparr>) ''AnswerNudgeWindow'' SvInt (rq_answer_nudge_window r),
      set_opt (\<lambda>v p. p\<lparr>pv_finish_tool := v\<rparr>) ''FinishTool'' SvStr (rq_finish_tool r),
      set_opt (\<lambda>v p. p\<lparr>pv_finish_tool_trusts_caller := v\<rparr>) ''FinishToolTrustsCaller'' SvBool (rq_finish_tool_trusts_caller r),
      set_opt (\<lambda>v p. p\<lparr>pv_worktree := v\<rparr>) ''Worktree'' SvStr (rq_worktree r)]"

definition apply_overrides :: "requested_config \<Rightarrow> policy_value \<times> spec_trace \<Rightarrow> policy_value \<times> spec_trace" where
  "apply_overrides r s = foldl (\<lambda>s f. f s) s (override_stage r)"

definition termination_checks :: "termination_policy \<Rightarrow> (string \<times> bool) list" where
  "termination_checks t =
     [(''TerminationPolicy.MaxRepeats'', tp_max_repeats t < 0),
      (''TerminationPolicy.MaxReasoningRepeats'', tp_max_reasoning_repeats t < 0),
      (''TerminationPolicy.MaxStagnant'', tp_max_stagnant t < 0),
      (''TerminationPolicy.NavSpiralWindow'', tp_nav_spiral_window t < 0),
      (''TerminationPolicy.WanderMultiple'', tp_wander_multiple t < 0),
      (''TerminationPolicy.FrontierCap'', tp_frontier_cap t < 0),
      (''TerminationPolicy.GreenRepeatThreshold'', tp_green_repeat_threshold t < 0)]"

text \<open>The thresholds: range checks, the policy with its gaps filled, and the older alias.\<close>

definition termination_stage ::
  "requested_config \<Rightarrow> policy_value \<times> spec_trace \<Rightarrow> spec_error + policy_value \<times> spec_trace" where
  "termination_stage r s =
     (case (case rq_termination r of Some tp \<Rightarrow> first_bad (termination_checks tp) | None \<Rightarrow> None) of
        Some e \<Rightarrow> Inl e
      | None \<Rightarrow>
          if (case rq_nav_spiral_window r of Some w \<Rightarrow> w < 0 | None \<Rightarrow> False) then Inl (OutOfRange ''NavSpiralWindow'')
          else
            (let (p, t) = s;
                 (p1, t1) =
                   (case rq_termination r of
                      Some tp \<Rightarrow>
                        (p\<lparr>pv_termination := resolve_termination (Some tp)\<rparr>,
                         (mark ''TerminationPolicy'' ''override'' (SvTermination tp) t)\<lparr>st_canonical := False\<rparr>)
                    | None \<Rightarrow> (p\<lparr>pv_termination := resolve_termination (Some (pv_termination p))\<rparr>, t))
             in case rq_nav_spiral_window r of
                  None \<Rightarrow> Inr (p1, t1)
                | Some w \<Rightarrow>
                    if (case rq_termination r of
                          Some tp \<Rightarrow> 0 < w \<and> 0 < tp_nav_spiral_window tp \<and> w \<noteq> tp_nav_spiral_window tp
                        | None \<Rightarrow> False)
                    then Inl SpiralConflict
                    else Inr (p1\<lparr>pv_termination := (pv_termination p1)\<lparr>tp_nav_spiral_window := w\<rparr>\<rparr>,
                              (mark ''TerminationPolicy.NavSpiralWindow'' ''alias'' (SvInt w) t1)\<lparr>st_canonical := False\<rparr>)))"

definition spec_candidate :: "trust \<Rightarrow> policy_value \<Rightarrow> posture" where
  "spec_candidate trust p =
     (let c = (floor_for trust)\<lparr>p_min_isolation := pv_min_isolation p,
                p_network := (if pv_require_network_off p then NetworkOff else NetworkUnrestricted)\<rparr>
      in if pv_worktree p = ''required'' then c\<lparr>p_worktree := WorktreeRequired\<rparr> else c)"

definition default_stage :: "requested_config \<Rightarrow> policy_value \<Rightarrow> policy_value" where
  "default_stage r p0 =
     (let p = p0\<lparr>pv_max_iterations := (if rq_max_iterations r = None \<and> pv_max_iterations p0 = 0
                   then default_max_iterations else pv_max_iterations p0),
                 pv_max_tokens := (if rq_max_tokens r = None \<and> pv_max_tokens p0 = 0
                   then default_max_tokens else pv_max_tokens p0),
                 pv_run_timeout := (if rq_run_timeout r = None \<and> pv_run_timeout p0 = 0
                   then default_run_timeout else pv_run_timeout p0),
                 pv_review_rounds := (if rq_review_rounds r = None \<and> pv_review_rounds p0 = 0
                   then default_review_rounds else pv_review_rounds p0),
                 pv_termination := (if tp_nav_spiral_window (pv_termination p0) = 0
                   then (pv_termination p0)\<lparr>tp_nav_spiral_window := tp_nav_spiral_window default_termination_policy\<rparr>
                   else pv_termination p0)\<rparr>
      in if pv_verify_timeout p = 0
         then p\<lparr>pv_verify_timeout := (if pv_run_timeout p > 5 * minute then pv_run_timeout p else 5 * minute)\<rparr>
         else p)"

definition resolve_spec ::
  "(policy_value \<Rightarrow> string + string) \<Rightarrow> (spec_trace \<Rightarrow> string + string) \<Rightarrow> requested_config
   \<Rightarrow> spec_error + resolved_spec" where
  "resolve_spec digest digest_trace r =
     (case (case rq_trust_profile r of None \<Rightarrow> Inr trusted_local | Some s \<Rightarrow> parse_trust s) of
        Inl e \<Rightarrow> Inl (SpecTrust e)
      | Inr trust \<Rightarrow>
     (case profile_stage trust r of
        Inl e \<Rightarrow> Inl e
      | Inr s \<Rightarrow>
     (case termination_stage r (apply_overrides r s) of
        Inl e \<Rightarrow> Inl e
      | Inr (p, t) \<Rightarrow>
     (case enforce trust (spec_candidate trust p) of
        Inl e \<Rightarrow> Inl (SpecTrust e)
      | Inr _ \<Rightarrow>
          (let t1 = mark ''trust'' ''floor'' (SvTrust trust) t; p1 = default_stage r p in
           case validate_policy p1 of
             Some e \<Rightarrow> Inl e
           | None \<Rightarrow>
               (case digest p1 of
                  Inl e \<Rightarrow> Inl (DigestFailed e)
                | Inr h \<Rightarrow>
                    (case digest_trace t1 of
                       Inl e \<Rightarrow> Inl (DigestFailed e)
                     | Inr th \<Rightarrow> Inr \<lparr> rs_policy = p1, rs_hash = h, rs_trace = t1\<lparr>st_hash := th\<rparr> \<rparr>)))))))"

section \<open>How the stages act on single fields\<close>

lemma set_opt_same:
  "(\<And>v p. fld (upd v p) = v) \<Longrightarrow>
     fld (fst (set_opt upd n tag src s)) = (case src of None \<Rightarrow> fld (fst s) | Some v \<Rightarrow> v)"
  by (simp add: set_opt_def split: option.split)

lemma set_opt_other:
  "(\<And>v p. fld (upd v p) = fld p) \<Longrightarrow> fld (fst (set_opt upd n tag src s)) = fld (fst s)"
  by (simp add: set_opt_def split: option.split)

lemma set_globs_other:
  "(\<And>v p. fld (upd v p) = fld p) \<Longrightarrow> fld (fst (set_globs upd n src s)) = fld (fst s)"
  by (simp add: set_globs_def split: option.split)

lemma override_worktree:
  "pv_worktree (fst (apply_overrides r s)) =
     (case rq_worktree r of None \<Rightarrow> pv_worktree (fst s) | Some v \<Rightarrow> v)"
  by (simp add: apply_overrides_def override_stage_def set_opt_same [where fld = pv_worktree]
      set_opt_other [where fld = pv_worktree] set_globs_other [where fld = pv_worktree]
      split: option.split)

lemma override_min_isolation:
  "pv_min_isolation (fst (apply_overrides r s)) =
     (case rq_min_isolation r of None \<Rightarrow> pv_min_isolation (fst s) | Some v \<Rightarrow> v)"
  by (simp add: apply_overrides_def override_stage_def set_opt_same [where fld = pv_min_isolation]
      set_opt_other [where fld = pv_min_isolation] set_globs_other [where fld = pv_min_isolation]
      split: option.split)

lemma override_network:
  "pv_require_network_off (fst (apply_overrides r s)) =
     (case rq_require_network_off r of None \<Rightarrow> pv_require_network_off (fst s) | Some v \<Rightarrow> v)"
  by (simp add: apply_overrides_def override_stage_def set_opt_same [where fld = pv_require_network_off]
      set_opt_other [where fld = pv_require_network_off] set_globs_other [where fld = pv_require_network_off]
      split: option.split)

lemma override_termination: "pv_termination (fst (apply_overrides r s)) = pv_termination (fst s)"
  by (simp add: apply_overrides_def override_stage_def
      set_opt_other [where fld = pv_termination] set_globs_other [where fld = pv_termination])

lemma override_max_iterations:
  "pv_max_iterations (fst (apply_overrides r s)) =
     (case rq_max_iterations r of None \<Rightarrow> pv_max_iterations (fst s) | Some v \<Rightarrow> v)"
  by (simp add: apply_overrides_def override_stage_def set_opt_same [where fld = pv_max_iterations]
      set_opt_other [where fld = pv_max_iterations] set_globs_other [where fld = pv_max_iterations]
      split: option.split)

lemma override_verify_cmd:
  "pv_verify_cmd (fst (apply_overrides r s)) =
     (case rq_verify_cmd r of None \<Rightarrow> pv_verify_cmd (fst s) | Some v \<Rightarrow> v)"
  by (simp add: apply_overrides_def override_stage_def set_opt_same [where fld = pv_verify_cmd]
      set_opt_other [where fld = pv_verify_cmd] set_globs_other [where fld = pv_verify_cmd]
      split: option.split)

text \<open>Nothing after the overrides touches them, save the defaults for zero.\<close>

definition keeps :: "(policy_value \<Rightarrow> 'a) \<Rightarrow> bool" where
  "keeps fld \<longleftrightarrow>
     (\<forall>p tp. fld (p\<lparr>pv_termination := tp\<rparr>) = fld p) \<and> (\<forall>r p. fld (default_stage r p) = fld p)"

lemma default_stage_other:
  "pv_worktree (default_stage r p) = pv_worktree p"
  "pv_min_isolation (default_stage r p) = pv_min_isolation p"
  "pv_require_network_off (default_stage r p) = pv_require_network_off p"
  "pv_verify_cmd (default_stage r p) = pv_verify_cmd p"
  by (simp_all add: default_stage_def Let_def)

lemma keeps_fields: "keeps pv_worktree" "keeps pv_min_isolation" "keeps pv_require_network_off" "keeps pv_verify_cmd"
  by (simp_all add: keeps_def default_stage_other)

lemma termination_stage_keeps:
  "(\<And>p tp. fld (p\<lparr>pv_termination := tp\<rparr>) = fld p) \<Longrightarrow>
     termination_stage r s = Inr (p, t) \<Longrightarrow> fld p = fld (fst s)"
  by (cases s) (auto simp: termination_stage_def Let_def split: option.splits if_splits)

lemma pos_or_pos: "0 < d \<Longrightarrow> 0 < pos_or v d"
  by (simp add: pos_or_def)

definition positive_thresholds :: "termination_policy \<Rightarrow> bool" where
  "positive_thresholds t \<longleftrightarrow>
     0 < tp_max_repeats t \<and> 0 < tp_max_reasoning_repeats t \<and> 0 < tp_max_stagnant t
     \<and> 0 < tp_nav_spiral_window t \<and> 0 < tp_wander_multiple t \<and> 0 < tp_frontier_cap t
     \<and> 0 < tp_green_repeat_threshold t"

lemma resolve_termination_positive: "positive_thresholds (resolve_termination p)"
  by (cases p) (simp_all add: positive_thresholds_def resolve_termination_def pos_or_pos default_termination_policy_def)

lemma termination_stage_thresholds:
  assumes "termination_stage r s = Inr (p, t)"
  shows "0 \<le> tp_nav_spiral_window (pv_termination p) \<and>
     positive_thresholds ((pv_termination p)\<lparr>tp_nav_spiral_window := 1\<rparr>)"
  using assms resolve_termination_positive [of "rq_termination r"]
    resolve_termination_positive [of "Some (pv_termination (fst s))"]
  by (cases s)
     (auto simp: termination_stage_def Let_def positive_thresholds_def split: option.splits if_splits)

lemma default_stage_thresholds:
  assumes "0 \<le> tp_nav_spiral_window (pv_termination p) \<and>
     positive_thresholds ((pv_termination p)\<lparr>tp_nav_spiral_window := 1\<rparr>)"
  shows "positive_thresholds (pv_termination (default_stage r p))"
  using assms by (auto simp: default_stage_def Let_def positive_thresholds_def default_termination_policy_def)

lemma validate_policy_ok:
  "validate_policy p = None \<longleftrightarrow>
     0 < pv_max_iterations p \<and> 0 < pv_max_tokens p \<and> 0 < pv_run_timeout p \<and> 0 < pv_verify_timeout p
     \<and> 0 < pv_review_rounds p \<and> 0 \<le> pv_read_window p \<and> 0 \<le> pv_churn_nudge_runs p
     \<and> 0 \<le> pv_finish_nudge_window p \<and> 0 \<le> pv_answer_nudge_window p
     \<and> 0 < tp_nav_spiral_window (pv_termination p)"
  by (auto simp: validate_policy_def first_bad_def policy_checks_def find_None_iff)

text \<open>A successful resolution, taken apart.\<close>

lemma resolve_spec_Inr:
  assumes "resolve_spec digest digest_trace r = Inr spec"
  obtains trust s p t where
    "trust \<in> canonical_trusts" "rq_trust_profile r = None \<longrightarrow> trust = trusted_local"
    "\<forall>x. rq_trust_profile r = Some x \<longrightarrow> trust = x"
    "profile_stage trust r = Inr s" "termination_stage r (apply_overrides r s) = Inr (p, t)"
    "enforce trust (spec_candidate trust p) = Inr ()" "rs_policy spec = default_stage r p"
    "validate_policy (rs_policy spec) = None" "digest (rs_policy spec) = Inr (rs_hash spec)"
proof -
  obtain trust where tr: "(case rq_trust_profile r of None \<Rightarrow> Inr trusted_local | Some s \<Rightarrow> parse_trust s) = Inr trust"
    using assms by (auto simp: resolve_spec_def split: sum.splits)
  have "trust \<in> canonical_trusts" "rq_trust_profile r = None \<longrightarrow> trust = trusted_local"
    "\<forall>x. rq_trust_profile r = Some x \<longrightarrow> trust = x"
    using tr by (auto simp: parse_trust_Inr split: option.splits)
  moreover obtain s p t where "profile_stage trust r = Inr s"
      "termination_stage r (apply_overrides r s) = Inr (p, t)"
      "enforce trust (spec_candidate trust p) = Inr ()" "rs_policy spec = default_stage r p"
      "validate_policy (rs_policy spec) = None" "digest (rs_policy spec) = Inr (rs_hash spec)"
    using assms unfolding resolve_spec_def tr
    by (auto simp: Let_def split: sum.splits prod.splits option.splits)
  ultimately show ?thesis by (rule that)
qed

section \<open>Properties\<close>

lemma spec_candidate_meets:
  assumes "meets (spec_candidate trust p) (floor_for trust)"
  shows "p_min_isolation (floor_for trust) \<le> pv_min_isolation p
     \<and> (p_network (floor_for trust) = NetworkOff \<longrightarrow> pv_require_network_off p)"
  using assms
  by (cases "pv_worktree p = ''required''"; cases "pv_require_network_off p")
     (auto simp: spec_candidate_def meets_def Let_def isolation_satisfies_def network_satisfies_def
        less_eq_network_def)

text \<open>C20: Whatever the request, a specification that \<open>Resolve\<close> returns is complete (it
  carries its hash and every field is in range), all seven termination thresholds are
  positive, and isolation and network are at or above the floor of the selected trust
  profile, also when the request asked for less.\<close>

theorem resolve_spec_sound:
  assumes "resolve_spec digest digest_trace r = Inr spec"
    and "\<And>p h. digest p = Inr h \<Longrightarrow> h \<noteq> []"
  shows "complete_spec spec \<and> positive_thresholds (pv_termination (rs_policy spec))
    \<and> (\<exists>trust \<in> canonical_trusts.
         trust = (case rq_trust_profile r of None \<Rightarrow> trusted_local | Some x \<Rightarrow> x)
         \<and> p_min_isolation (floor_for trust) \<le> pv_min_isolation (rs_policy spec)
         \<and> (p_network (floor_for trust) = NetworkOff \<longrightarrow> pv_require_network_off (rs_policy spec)))"
proof -
  obtain trust s p t where r:
    "trust \<in> canonical_trusts" "rq_trust_profile r = None \<longrightarrow> trust = trusted_local"
    "\<forall>x. rq_trust_profile r = Some x \<longrightarrow> trust = x"
    "profile_stage trust r = Inr s" "termination_stage r (apply_overrides r s) = Inr (p, t)"
    "enforce trust (spec_candidate trust p) = Inr ()" "rs_policy spec = default_stage r p"
    "validate_policy (rs_policy spec) = None" "digest (rs_policy spec) = Inr (rs_hash spec)"
    by (rule resolve_spec_Inr [OF assms(1)])
  have "complete_spec spec" using r(8,9) assms(2) by (simp add: complete_spec_def)
  moreover have "positive_thresholds (pv_termination (rs_policy spec))"
    unfolding r(7) by (rule default_stage_thresholds) (rule termination_stage_thresholds [OF r(5)])
  moreover have "meets (spec_candidate trust p) (floor_for trust)" using r(6) enforce_iff by blast
  then have "p_min_isolation (floor_for trust) \<le> pv_min_isolation (rs_policy spec)
      \<and> (p_network (floor_for trust) = NetworkOff \<longrightarrow> pv_require_network_off (rs_policy spec))"
    using spec_candidate_meets unfolding r(7) default_stage_other by blast
  moreover have "trust = (case rq_trust_profile r of None \<Rightarrow> trusted_local | Some x \<Rightarrow> x)"
    using r(2,3) by (auto split: option.split)
  ultimately show ?thesis using r(1) by blast
qed

definition untrusted_request :: requested_config where
  "untrusted_request =
     no_request\<lparr> rq_trust_profile := Some untrusted, rq_nav_spiral_window := Some 0,
                 rq_verify_cmd := Some ''go test'' \<rparr>"

lemma untrusted_request_ok:
  "case resolve_spec (\<lambda>p. Inr ''h'') (\<lambda>t. Inr ''t'') untrusted_request of Inr _ \<Rightarrow> True | Inl _ \<Rightarrow> False"
  by code_simp

theorem resolve_spec_sound_witness:
  "\<exists>spec. resolve_spec (\<lambda>p. Inr ''h'') (\<lambda>t. Inr ''t'') untrusted_request = Inr spec
     \<and> IsolationProcess \<le> pv_min_isolation (rs_policy spec) \<and> pv_require_network_off (rs_policy spec)"
proof -
  obtain spec where s: "resolve_spec (\<lambda>p. Inr ''h'') (\<lambda>t. Inr ''t'') untrusted_request = Inr spec"
    using untrusted_request_ok by (auto split: sum.splits)
  have t: "rq_trust_profile untrusted_request = Some untrusted" by (simp add: untrusted_request_def)
  from resolve_spec_sound [OF s] have
    "p_min_isolation (floor_for untrusted) \<le> pv_min_isolation (rs_policy spec)
     \<and> (p_network (floor_for untrusted) = NetworkOff \<longrightarrow> pv_require_network_off (rs_policy spec))"
    unfolding t by simp
  with s show ?thesis by (simp add: mk_posture_def)
qed

text \<open>An explicit override wins: the policy's verify command is the requested one, the
  worktree mode is the requested one when it was requested, and the number of iterations is
  the requested one (which must then be positive).\<close>

theorem resolve_spec_overrides:
  assumes "resolve_spec digest digest_trace r = Inr spec"
  shows "(rq_verify_cmd r = Some c \<longrightarrow> pv_verify_cmd (rs_policy spec) = c)
    \<and> (rq_worktree r = Some w \<longrightarrow> pv_worktree (rs_policy spec) = w)
    \<and> (rq_max_iterations r = Some n \<longrightarrow> pv_max_iterations (rs_policy spec) = n \<and> 0 < n)"
proof -
  obtain trust s p t where r:
    "trust \<in> canonical_trusts" "rq_trust_profile r = None \<longrightarrow> trust = trusted_local"
    "\<forall>x. rq_trust_profile r = Some x \<longrightarrow> trust = x"
    "profile_stage trust r = Inr s" "termination_stage r (apply_overrides r s) = Inr (p, t)"
    "enforce trust (spec_candidate trust p) = Inr ()" "rs_policy spec = default_stage r p"
    "validate_policy (rs_policy spec) = None" "digest (rs_policy spec) = Inr (rs_hash spec)"
    by (rule resolve_spec_Inr [OF assms])
  have k: "pv_verify_cmd p = pv_verify_cmd (fst (apply_overrides r s))"
    "pv_worktree p = pv_worktree (fst (apply_overrides r s))"
    "pv_max_iterations p = pv_max_iterations (fst (apply_overrides r s))"
    by (rule termination_stage_keeps [OF _ r(5)]; simp)+
  have m: "rq_max_iterations r = Some n \<Longrightarrow> pv_max_iterations (rs_policy spec) = n"
    using k(3) unfolding r(7) override_max_iterations by (simp add: default_stage_def Let_def)
  moreover have "0 < pv_max_iterations (rs_policy spec)" using r(8) validate_policy_ok by blast
  ultimately show ?thesis
    using k(1,2) unfolding override_verify_cmd override_worktree r(7) default_stage_other by auto
qed

theorem resolve_spec_overrides_witness:
  "\<exists>spec. resolve_spec (\<lambda>p. Inr ''h'') (\<lambda>t. Inr ''t'') untrusted_request = Inr spec
     \<and> pv_verify_cmd (rs_policy spec) = ''go test''"
proof -
  obtain spec where s: "resolve_spec (\<lambda>p. Inr ''h'') (\<lambda>t. Inr ''t'') untrusted_request = Inr spec"
    using untrusted_request_ok by (auto split: sum.splits)
  have t: "rq_verify_cmd untrusted_request = Some ''go test''" by (simp add: untrusted_request_def)
  from resolve_spec_overrides [OF s, of "''go test''"] t s show ?thesis by blast
qed

text \<open>The worktree floor holds when an execution profile is named: the resolved worktree
  mode then meets the floor of the selected trust profile. Without a profile it does not have
  to: a container request with the worktree mode off resolves, because the candidate posture
  starts from the floor and is only ever raised.\<close>

theorem worktree_floor_needs_profile:
  "(resolve_spec digest digest_trace r = Inr spec \<and> rq_exec_profile r = Some name \<and> name \<noteq> [] \<longrightarrow>
      worktree_satisfies (worktree_value (pv_worktree (rs_policy spec)))
        (p_worktree (floor_for (case rq_trust_profile r of None \<Rightarrow> trusted_local | Some x \<Rightarrow> x))))
   \<and> (case resolve_spec (\<lambda>p. Inr ''h'') (\<lambda>t. Inr ''t'')
             (no_request\<lparr>rq_trust_profile := Some container, rq_worktree := Some ''off''\<rparr>) of
        Inr off \<Rightarrow> pv_worktree (rs_policy off) = ''off''
          \<and> \<not> worktree_satisfies (worktree_value (pv_worktree (rs_policy off))) (p_worktree (floor_for container))
      | Inl _ \<Rightarrow> False)"
proof (intro conjI impI)
  assume a: "resolve_spec digest digest_trace r = Inr spec \<and> rq_exec_profile r = Some name \<and> name \<noteq> []"
  let ?tr = "case rq_trust_profile r of None \<Rightarrow> trusted_local | Some x \<Rightarrow> x"
  obtain trust s p t where r:
    "trust \<in> canonical_trusts" "rq_trust_profile r = None \<longrightarrow> trust = trusted_local"
    "\<forall>x. rq_trust_profile r = Some x \<longrightarrow> trust = x"
    "profile_stage trust r = Inr s" "termination_stage r (apply_overrides r s) = Inr (p, t)"
    "enforce trust (spec_candidate trust p) = Inr ()" "rs_policy spec = default_stage r p"
    "validate_policy (rs_policy spec) = None" "digest (rs_policy spec) = Inr (rs_hash spec)"
    by (rule resolve_spec_Inr [OF a [THEN conjunct1]])
  have tr: "?tr = trust" using r(2,3) by (auto split: option.split)
  obtain e n tr where e: "resolve_profile \<lparr>tp_selected = trust, tp_posture = floor_for trust, tp_surface = []\<rparr> e (overrides_from r)
        = Some (Inr (n, tr))" and s: "fst s = apply_profile (n_exec n) (floor_policy trust)"
    using r(4) a by (auto simp: profile_stage_def Let_def split: sum.splits option.splits)
  have k: "pv_worktree (rs_policy spec) = (case rq_worktree r of None \<Rightarrow> ex_worktree (n_exec n) | Some v \<Rightarrow> v)"
    unfolding r(7) default_stage_other termination_stage_keeps [OF _ r(5), of pv_worktree, simplified]
      override_worktree s by (simp add: apply_profile_def split: option.split)
  have "pv_worktree (rs_policy spec) = ex_worktree (n_exec n)"
    using resolve_profile_worktree(2) [OF e] unfolding k
    by (auto simp: overrides_from_def split: option.split)
  then show "worktree_satisfies (worktree_value (pv_worktree (rs_policy spec))) (p_worktree (floor_for ?tr))"
    using resolve_profile_worktree(1) [OF e] unfolding tr by simp
next
  show "case resolve_spec (\<lambda>p. Inr ''h'') (\<lambda>t. Inr ''t'')
             (no_request\<lparr>rq_trust_profile := Some container, rq_worktree := Some ''off''\<rparr>) of
        Inr off \<Rightarrow> pv_worktree (rs_policy off) = ''off''
          \<and> \<not> worktree_satisfies (worktree_value (pv_worktree (rs_policy off))) (p_worktree (floor_for container))
      | Inl _ \<Rightarrow> False"
    by code_simp
qed

definition coding_container_request :: requested_config where
  "coding_container_request =
     no_request\<lparr> rq_trust_profile := Some container, rq_exec_profile := Some ''coding-v2'' \<rparr>"

lemma coding_container_request_ok:
  "case resolve_spec (\<lambda>p. Inr ''h'') (\<lambda>t. Inr ''t'') coding_container_request of Inr _ \<Rightarrow> True | Inl _ \<Rightarrow> False"
  by code_simp

theorem worktree_floor_needs_profile_witness:
  "\<exists>spec. resolve_spec (\<lambda>p. Inr ''h'') (\<lambda>t. Inr ''t'') coding_container_request = Inr spec
     \<and> worktree_satisfies (worktree_value (pv_worktree (rs_policy spec))) WorktreeRequired"
proof -
  obtain spec where s: "resolve_spec (\<lambda>p. Inr ''h'') (\<lambda>t. Inr ''t'') coding_container_request = Inr spec"
    using coding_container_request_ok by (auto split: sum.splits)
  have t: "rq_trust_profile coding_container_request = Some container"
      "rq_exec_profile coding_container_request = Some ''coding-v2''"
    by (simp_all add: coding_container_request_def)
  have "worktree_satisfies (worktree_value (pv_worktree (rs_policy spec)))
        (p_worktree (floor_for (case rq_trust_profile coding_container_request of None \<Rightarrow> trusted_local | Some x \<Rightarrow> x)))"
    using worktree_floor_needs_profile [of "\<lambda>p. Inr ''h''" "\<lambda>t. Inr ''t''" coding_container_request spec "''coding-v2''"]
      s t(2) by simp
  then show ?thesis using s unfolding t(1) by (simp add: mk_posture_def)
qed

end
