(* ===== verification/RunOutput.thy ===== *)
theory RunOutput
  imports GoText Sandbox
begin

text \<open>
  A command result as the observation the loop works with (\<open>agent/tools.go\<close>:
  \<open>formatRun\<close>), the predicates that read it back (\<open>isRunFailure\<close>,
  \<open>isRunTimeout\<close>, \<open>isRunSuccess\<close>), the fingerprint of the stagnation detector
  (\<open>runFingerprint\<close>), and the environment-fault signatures (\<open>agent/verify.go\<close>).
\<close>

definition run_stream_cap :: nat where "run_stream_cap = 4000"

definition timed_out_tag :: string where "timed_out_tag = ''[timed out''"

definition timeout_note :: string where
  "timeout_note = timed_out_tag @ '' '' @ emdash @ '' narrow the command's work or raise its own limits]''"

definition cd_hint :: string where
  "cd_hint = ''hint: `run` commands already START in the project root (the same directory file-tool paths are relative to) ''
     @ emdash @ '' don't cd to find the project; rerun with root-relative paths.''"

definition run_header :: "result \<Rightarrow> string" where
  "run_header r =
     ''exit '' @ itoa (exit_code r) @ '' ('' @ dur_ms_string (round_ms (duration r)) @ '')''
     @ (if timed_out r then '' '' @ timeout_note else [])"

definition run_body :: "result \<Rightarrow> string" where
  "run_body r =
     (let out = clip (stdout r) run_stream_cap; err = clip (stderr r) run_stream_cap in
      (if out \<noteq> [] then ''stdout:'' @ nl @ out @ nl else [])
      @ (if err \<noteq> [] then ''stderr:'' @ nl @ err @ nl else [])
      @ (if exit_code r \<noteq> 0 \<and> stdout r = [] \<and> stderr r = [] then ''(no output)'' @ nl else [])
      @ (if exit_code r \<noteq> 0 \<and> str_contains (stderr r) ''cd: '' then cd_hint @ nl else []))"

definition is_nl :: "char \<Rightarrow> bool" where "is_nl c \<longleftrightarrow> c = CHR 0x0A"

definition format_run :: "result \<Rightarrow> string" where
  "format_run r = trim_right_by is_nl (run_header r @ nl @ run_body r)"

definition is_run_failure :: "string \<Rightarrow> bool" where
  "is_run_failure obs \<longleftrightarrow> has_prefix obs ''exit '' \<and> \<not> has_prefix obs ''exit 0 ''"

definition is_run_timeout :: "string \<Rightarrow> bool" where
  "is_run_timeout obs \<longleftrightarrow> str_contains (fst (str_cut obs nl)) timed_out_tag"

definition is_run_success :: "string \<Rightarrow> bool" where
  "is_run_success obs \<longleftrightarrow> has_prefix obs ''exit 0 ''"

section \<open>Fingerprints\<close>

text \<open>\<open>assertionLineRE\<close>: one of the words want, got, expecte, expected, actual, assert,
  in any case, between word boundaries.\<close>

definition word_char :: "char \<Rightarrow> bool" where
  "word_char c \<longleftrightarrow> is_digit c \<or> c = CHR ''_''
     \<or> (97 \<le> (of_char (lower_char c) :: nat) \<and> (of_char (lower_char c) :: nat) \<le> 122)"

definition assertion_words :: "string list" where
  "assertion_words = [''want'', ''got'', ''expecte'', ''expected'', ''actual'', ''assert'']"

definition word_at :: "string \<Rightarrow> string \<Rightarrow> bool" where
  "word_at s w \<longleftrightarrow>
     has_prefix (to_lower s) w \<and>
     (let rest = drop (length w) s in rest = [] \<or> \<not> word_char (hd rest))"

text \<open>\<open>prev\<close> says whether the byte before is a word character.\<close>

fun assertion_from :: "bool \<Rightarrow> string \<Rightarrow> bool" where
  "assertion_from prev [] = False"
| "assertion_from prev (c # s) =
     ((\<not> prev \<and> list_ex (word_at (c # s)) assertion_words) \<or> assertion_from (word_char c) s)"

definition assertion_line :: "string \<Rightarrow> bool" where "assertion_line = assertion_from False"

text \<open>Runs of digits become one hash sign.\<close>

fun mask_digits :: "bool \<Rightarrow> string \<Rightarrow> string" where
  "mask_digits in_digits [] = []"
| "mask_digits in_digits (c # s) =
     (if is_digit c then (if in_digits then mask_digits True s else CHR ''#'' # mask_digits True s)
      else c # mask_digits False s)"

definition fingerprint_line :: "string \<Rightarrow> string" where
  "fingerprint_line line = (if assertion_line line then line else mask_digits False line)"

text \<open>The lines of the loop \<open>for rest != ""\<close>: a final newline ends the last line.\<close>

definition body_lines :: "string \<Rightarrow> string list" where
  "body_lines rest =
     (if rest = [] then []
      else let ws = split_on (CHR 0x0A) rest in if last ws = [] then butlast ws else ws)"

definition run_fingerprint :: "string \<Rightarrow> string" where
  "run_fingerprint obs =
     (let (first, rest, found) = str_cut obs nl;
          first' = (case str_index first ''('' of
                      Some p \<Rightarrow> trim_right_by (\<lambda>c. c = CHR '' '') (take p first)
                    | None \<Rightarrow> first)
      in if \<not> found then first'
         else first' @ concat (map (\<lambda>l. nl @ fingerprint_line l) (body_lines rest)))"

section \<open>Environment faults\<close>

definition infra_signatures :: "string list" where
  "infra_signatures =
     [''disk quota exceeded'', ''no space left on device'', ''cannot allocate memory'',
      ''too many open files'']"

definition infra_fault_signature :: "string \<Rightarrow> string" where
  "infra_fault_signature out =
     (if str_contains out ''--- FAIL'' then []
      else case find (str_contains (to_lower out)) infra_signatures of Some s \<Rightarrow> s | None \<Rightarrow> [])"

definition is_infra_fault :: "string \<Rightarrow> bool" where
  "is_infra_fault out \<longleftrightarrow> infra_fault_signature out \<noteq> []"

section \<open>Reading back what was printed\<close>

lemma dur_no_nl: "CHR 0x0A \<notin> set (dur_ms_string m)" "CHR ''['' \<notin> set (dur_ms_string m)"
    "CHR ''('' \<notin> set (dur_ms_string m)"
  using dur_ms_string_chars [of m] by (auto simp: dur_chars_def is_digit_def)

lemma itoa_no: "c \<in> set (itoa i) \<Longrightarrow> c \<noteq> CHR 0x0A \<and> c \<noteq> CHR ''['' \<and> c \<noteq> CHR '' '' \<and> c \<noteq> CHR ''(''"
  using itoa_chars [of c i] by (auto simp: is_digit_def)

lemma header_no_nl: "CHR 0x0A \<notin> set (run_header r)"
  using dur_no_nl itoa_no [of "CHR 0x0A" "exit_code r"]
  by (auto simp: run_header_def timeout_note_def timed_out_tag_def emdash_def)

lemma header_last: "run_header r \<noteq> [] \<and> last (run_header r) \<noteq> CHR 0x0A"
  using header_no_nl [of r] by (metis append_is_Nil_conv last_in_set list.distinct(1) run_header_def)

text \<open>Trimming the trailing newlines never reaches into the first line.\<close>

lemma format_run_shape: "\<exists>rest. format_run r = run_header r @ rest \<and> (rest = [] \<or> (\<exists>t. rest = nl @ t))"
proof -
  have h: "trim_right_by is_nl (run_header r) = run_header r"
    using header_last [of r] by (intro trim_right_by_id) (auto simp: is_nl_def)
  show ?thesis
  proof (cases "trim_right_by is_nl (nl @ run_body r) = []")
    case True
    then show ?thesis
      by (simp add: format_run_def trim_right_by_append h del: append_assoc)
  next
    case False
    have "\<exists>t. trim_right_by is_nl (nl @ run_body r) = nl @ t"
    proof (cases "trim_right_by is_nl (run_body r) = []")
      case True
      with False show ?thesis
        by (simp add: trim_right_by_append) (simp add: trim_right_by_def nl_def is_nl_def)
    next
      case False
      then show ?thesis by (simp add: trim_right_by_append)
    qed
    with False show ?thesis by (auto simp: format_run_def trim_right_by_append)
  qed
qed

lemma str_index_nl: "CHR 0x0A \<notin> set h \<Longrightarrow> str_index (h @ nl @ t) nl = Some (length h)"
  by (induction h) (auto simp: nl_def)

lemma str_index_nl_None: "CHR 0x0A \<notin> set h \<Longrightarrow> str_index h nl = None"
  by (induction h) (auto simp: nl_def has_prefix_iff)

lemma str_cut_nl: "CHR 0x0A \<notin> set h \<Longrightarrow> str_cut (h @ nl @ t) nl = (h, t, True)"
  by (simp add: str_cut_def str_index_nl)

lemma str_cut_nl_None: "CHR 0x0A \<notin> set h \<Longrightarrow> str_cut h nl = (h, [], False)"
  by (simp add: str_cut_def str_index_nl_None)

lemma format_run_first_line: "fst (str_cut (format_run r) nl) = run_header r"
proof -
  obtain rest where r: "format_run r = run_header r @ rest" "rest = [] \<or> (\<exists>t. rest = nl @ t)"
    using format_run_shape by blast
  then show ?thesis
    using str_cut_nl [OF header_no_nl] str_cut_nl_None [OF header_no_nl] by (auto simp del: append_assoc)
qed

lemma has_prefix_append_left: "has_prefix (p @ s) (p @ q) = has_prefix s q"
  by (induction p) auto

lemma exit_zero_prefix: "has_prefix (itoa i @ '' ('' @ t) ''0 '' \<longleftrightarrow> i = 0"
proof
  assume "has_prefix (itoa i @ '' ('' @ t) ''0 ''"
  then obtain u where u: "itoa i @ '' ('' @ t = ''0 '' @ u" by (auto simp: has_prefix_iff)
  have ne: "itoa i \<noteq> []" by (auto simp: itoa_def)
  then obtain c w where cw: "itoa i = c # w" by (cases "itoa i") auto
  with u have "c = CHR ''0''" and "w @ '' ('' @ t = '' '' @ u" by auto
  moreover have "w = []"
  proof (rule ccontr)
    assume "w \<noteq> []"
    with \<open>w @ '' ('' @ t = '' '' @ u\<close> have "CHR '' '' \<in> set w" by (cases w) auto
    with cw itoa_no [of "CHR '' ''" i] show False by simp
  qed
  ultimately have "itoa i = itoa 0" using cw by simp
  then show "i = 0" by (simp only: itoa_inj)
qed (simp add: has_prefix_iff)

lemma format_run_prefix: "has_prefix (format_run r) ''exit ''"
    "has_prefix (format_run r) ''exit 0 '' \<longleftrightarrow> exit_code r = 0"
proof -
  obtain rest where r: "format_run r = run_header r @ rest" using format_run_shape by blast
  then have eq: "format_run r = ''exit '' @ (itoa (exit_code r) @ '' ('' @
      (dur_ms_string (round_ms (duration r)) @ '')'' @ (if timed_out r then '' '' @ timeout_note else []) @ rest))"
    by (simp add: run_header_def)
  show "has_prefix (format_run r) ''exit ''" unfolding eq by (rule has_prefix_append)
  have "has_prefix (format_run r) (''exit '' @ ''0 '') \<longleftrightarrow> exit_code r = 0"
    unfolding eq has_prefix_append_left exit_zero_prefix by (rule refl)
  then show "has_prefix (format_run r) ''exit 0 '' \<longleftrightarrow> exit_code r = 0" by simp
qed

lemma success_format_run [simp]: "is_run_success (format_run r) \<longleftrightarrow> exit_code r = 0"
  by (simp add: is_run_success_def format_run_prefix)

lemma failure_format_run [simp]: "is_run_failure (format_run r) \<longleftrightarrow> exit_code r \<noteq> 0"
  by (simp add: is_run_failure_def format_run_prefix)

lemma no_bracket_no_tag: "CHR ''['' \<notin> set s \<Longrightarrow> \<not> str_contains s timed_out_tag"
  using str_contains_set [of s timed_out_tag] by (auto simp: timed_out_tag_def)

lemma timeout_format_run [simp]: "is_run_timeout (format_run r) \<longleftrightarrow> timed_out r"
proof -
  have "str_contains (run_header r) timed_out_tag \<longleftrightarrow> timed_out r"
  proof (cases "timed_out r")
    case True
    have "str_contains (timeout_note @ []) timed_out_tag"
      unfolding timeout_note_def by (rule str_contains_append1, simp add: str_contains_iff) (metis append_Nil)
    with True show ?thesis
      unfolding run_header_def by (auto intro!: str_contains_append2 simp del: append_assoc)
  next
    case False
    have "CHR ''['' \<notin> set (run_header r)"
      using False dur_no_nl itoa_no [of "CHR ''[''"] by (auto simp: run_header_def)
    with False show ?thesis by (simp add: no_bracket_no_tag)
  qed
  then show ?thesis by (simp add: is_run_timeout_def format_run_first_line)
qed

text \<open>An observation is never both green and red, and one that the sandbox could not even
  start is neither.\<close>

lemma success_not_failure: "is_run_success obs \<Longrightarrow> \<not> is_run_failure obs"
  by (simp add: is_run_success_def is_run_failure_def)

lemma error_neither:
  assumes "has_prefix obs ''ERROR:''"
  shows "\<not> is_run_success obs \<and> \<not> is_run_failure obs"
proof -
  obtain t where "obs = ''ERROR:'' @ t" using assms by (auto simp: has_prefix_iff)
  then show ?thesis by (simp add: is_run_success_def is_run_failure_def)
qed

text \<open>The fingerprint of a printed result depends on the exit code and the streams only:
  neither the duration nor the timeout mark moves it.\<close>

lemma fingerprint_head:
  "str_index (''exit '' @ itoa i @ '' ('' @ t) ''('' = Some (length (''exit '' @ itoa i @ '' ''))"
proof -
  have skip: "CHR ''('' \<notin> set h \<Longrightarrow> str_index (h @ CHR ''('' # t) ''('' = Some (length h)" for h
    by (induction h) auto
  have no: "CHR ''('' \<notin> set (''exit '' @ itoa i @ '' '')" using itoa_no by auto
  show ?thesis using skip [OF no] by simp
qed

lemma format_run_cut:
  "str_cut (format_run r) nl =
     (run_header r, trim_right_by is_nl (run_body r), trim_right_by is_nl (run_body r) \<noteq> [])"
proof -
  have h: "trim_right_by is_nl (run_header r) = run_header r"
    using header_last [of r] by (intro trim_right_by_id) (auto simp: is_nl_def)
  have n: "trim_right_by is_nl nl = []" by (simp add: trim_right_by_def nl_def is_nl_def)
  show ?thesis
  proof (cases "trim_right_by is_nl (run_body r) = []")
    case True
    then have "format_run r = run_header r"
      by (simp add: format_run_def trim_right_by_append h n)
    with True show ?thesis by (simp add: str_cut_nl_None [OF header_no_nl])
  next
    case False
    then have "format_run r = run_header r @ nl @ trim_right_by is_nl (run_body r)"
      by (simp add: format_run_def trim_right_by_append h n)
    with False show ?thesis by (simp add: str_cut_nl [OF header_no_nl])
  qed
qed

lemma fingerprint_format_run:
  "run_fingerprint (format_run r) =
     ''exit '' @ itoa (exit_code r)
     @ concat (map (\<lambda>l. nl @ fingerprint_line l) (body_lines (trim_right_by is_nl (run_body r))))"
proof -
  let ?h = "''exit '' @ itoa (exit_code r) @ '' ''"
  have ne: "itoa (exit_code r) \<noteq> []" by (auto simp: itoa_def)
  obtain n where n: "n = length ?h" by blast
  have idx: "str_index (run_header r) ''('' = Some n"
    unfolding run_header_def n using fingerprint_head by simp
  have pre: "take n (run_header r) = ?h"
    by (simp add: run_header_def n)
  have "last (itoa (exit_code r)) \<noteq> CHR '' ''"
    using itoa_no [OF last_in_set [OF ne]] by simp
  then have t1: "trim_right_by (\<lambda>c. c = CHR '' '') (itoa (exit_code r)) = itoa (exit_code r)"
    using ne by (intro trim_right_by_id)
  have t2: "trim_right_by (\<lambda>c. c = CHR '' '') (itoa (exit_code r) @ '' '') = itoa (exit_code r)"
    unfolding trim_right_by_append t1 by (simp add: trim_right_by_def)
  have trim: "trim_right_by (\<lambda>c. c = CHR '' '') ?h = ''exit '' @ itoa (exit_code r)"
    unfolding trim_right_by_append [of _ "''exit ''"] t2 using ne by simp
  show ?thesis
    using trim
    by (simp add: run_fingerprint_def format_run_cut idx pre body_lines_def del: append_Cons)
qed

lemma mask_digits_no_digit: "c \<in> set (mask_digits b s) \<Longrightarrow> \<not> is_digit c"
  by (induction b s rule: mask_digits.induct) (auto simp: is_digit_def split: if_splits)

end
