(* ===== verification/Evidence.thy ===== *)
theory Evidence
  imports Runspec RunOutput
begin

text \<open>
  The run's records: outcomes (\<open>agent/agent.go\<close>), token usage and dollars
  (\<open>agent/generate.go\<close>, \<open>agent/spend.go\<close>), the review findings and report
  (\<open>agent/review.go\<close>), the verification record (\<open>agent/tracker.go\<close>), and the
  append-only evidence log with the guarantees computed from it at the end
  (\<open>agent/evidence.go\<close>).
\<close>

section \<open>Outcomes and statuses\<close>

datatype outcome =
    Answered | Unverified | HitCap | KilledRepeat | KilledSpiral | KilledStagnant
  | HitDeadline | HitBudget | ProviderErr | HitContextLimit | RefusedUnsafe
  | ScopeViolation | Canceled

datatype evidence_status =
    EvidenceAbsent | EvidenceSkipped | EvidenceDegraded | EvidenceInconclusive
  | EvidenceFailed | EvidencePassed

datatype degradation_reason =
    ReasonGateTimeout | ReasonFailOpen | ReasonUnpricedSpend | ReasonNoVCS | ReasonPolicySkip
  | ReasonInfraFault | ReasonNotReached | ReasonStaleEvidence | ReasonNoOpAnswer | ReasonArtifactWrite

datatype workspace_effect = WorkspaceNotSet | WorkspaceChanged | WorkspaceUnchanged | WorkspaceUnknown

section \<open>Usage and spend\<close>

record usage =
  u_prompt :: int
  u_completion :: int
  u_total :: int
  u_cached :: int
  u_reasoning :: int
  u_cost :: real

definition zero_usage :: usage where
  "zero_usage = \<lparr> u_prompt = 0, u_completion = 0, u_total = 0, u_cached = 0, u_reasoning = 0, u_cost = 0 \<rparr>"

definition usage_reported :: "usage \<Rightarrow> bool" where
  "usage_reported u \<longleftrightarrow>
     u_prompt u \<noteq> 0 \<or> u_completion u \<noteq> 0 \<or> u_total u \<noteq> 0 \<or> u_cached u \<noteq> 0 \<or> u_reasoning u \<noteq> 0"

definition add_usage :: "usage \<Rightarrow> usage \<Rightarrow> usage" where
  "add_usage a b =
     \<lparr> u_prompt = u_prompt a + u_prompt b, u_completion = u_completion a + u_completion b,
       u_total = u_total a + u_total b, u_cached = u_cached a + u_cached b,
       u_reasoning = u_reasoning a + u_reasoning b, u_cost = u_cost a + u_cost b \<rparr>"

text \<open>The pricer is given at construction; the accumulator may be missing altogether.\<close>

record spend =
  sp_usd :: real
  sp_priced :: bool
  sp_unpriced :: bool

definition new_spend :: spend where
  "new_spend = \<lparr> sp_usd = 0, sp_priced = False, sp_unpriced = False \<rparr>"

type_synonym pricer = "string \<Rightarrow> usage \<Rightarrow> real option"

definition spend_add :: "pricer option \<Rightarrow> string \<Rightarrow> usage \<Rightarrow> spend \<Rightarrow> spend" where
  "spend_add price model u s =
     (case price of
        None \<Rightarrow> s
      | Some pr \<Rightarrow>
          if \<not> usage_reported u then s
          else (case pr model u of
                  None \<Rightarrow> s\<lparr>sp_unpriced := True\<rparr>
                | Some c \<Rightarrow> s\<lparr>sp_usd := sp_usd s + c, sp_priced := True\<rparr>))"

definition spend_usd :: "spend option \<Rightarrow> real \<times> bool" where
  "spend_usd s = (case s of None \<Rightarrow> (0, False) | Some s \<Rightarrow> (sp_usd s, sp_priced s \<and> \<not> sp_unpriced s))"

definition spend_floor :: "spend option \<Rightarrow> real \<times> bool" where
  "spend_floor s = (case s of None \<Rightarrow> (0, False) | Some s \<Rightarrow> (sp_usd s, sp_priced s))"

definition spend_reported :: "spend option \<Rightarrow> bool" where
  "spend_reported s = (case s of None \<Rightarrow> False | Some s \<Rightarrow> sp_priced s \<or> sp_unpriced s)"

section \<open>Review records\<close>

datatype review_status =
    ReviewNone | ReviewClean | ReviewBlocked | ReviewAdvisory | ReviewUnavailable
  | ReviewParseError | ReviewTimeout | ReviewCanceled

datatype fate =
    FatePending | FateRepaired | FateRefuted | FateExpired | FateAdvised | FateNote | FateDropped

record review_finding =
  rf_id :: string
  rf_file :: string
  rf_quote :: string
  rf_severity :: string
  rf_confidence :: int
  rf_scenario :: string
  rf_repro_cmd :: string
  rf_no_repro_reason :: string

record reviewed_finding =
  rd_finding :: review_finding
  rd_round :: nat
  rd_fate :: fate
  rd_confirmed :: bool
  rd_repro_out :: string
  rd_drop_why :: string

record review_report =
  rr_rounds :: nat
  rr_status :: review_status
  rr_blocked :: bool
  rr_salvage :: bool
  rr_skipped :: string
  rr_model :: string
  rr_runs :: "string list"
  rr_summaries :: "string list"
  rr_findings :: "reviewed_finding list"
  rr_usage :: usage
  rr_confirmed_blockers :: nat
  rr_unconfirmed_blockers :: nat

section \<open>Verification records\<close>

datatype verification_cause =
    CauseNone | CauseTestFailure | CauseTimeout | CauseEnvironment | CauseCancellation | CauseExecutionError

record verification_record =
  vr_status :: evidence_status
  vr_cause :: verification_cause
  vr_command :: string
  vr_output :: string
  vr_fingerprint :: string
  vr_tree :: string
  vr_attempts :: nat

definition classify_run_observation :: "string \<Rightarrow> evidence_status \<times> verification_cause" where
  "classify_run_observation obs =
     (if is_run_success obs then (EvidencePassed, CauseNone)
      else if is_run_timeout obs then (EvidenceInconclusive, CauseTimeout)
      else if is_infra_fault obs then (EvidenceInconclusive, CauseEnvironment)
      else if has_prefix obs ''ERROR:'' \<and> str_contains (to_lower obs) ''cancel'' then (EvidenceInconclusive, CauseCancellation)
      else if has_prefix obs ''ERROR:'' then (EvidenceInconclusive, CauseExecutionError)
      else if is_run_failure obs then (EvidenceFailed, CauseTestFailure)
      else (EvidenceInconclusive, CauseExecutionError))"

definition standing_gate_tail_cap :: nat where "standing_gate_tail_cap = 800"

definition new_verification_record :: "string \<Rightarrow> string \<Rightarrow> string \<Rightarrow> verification_record" where
  "new_verification_record cmd obs tree =
     (let (status, cause) = classify_run_observation obs in
      \<lparr> vr_status = status, vr_cause = cause, vr_command = trim_space cmd,
        vr_output = tail_clip obs standing_gate_tail_cap, vr_fingerprint = run_fingerprint obs,
        vr_tree = tree, vr_attempts = 1 \<rparr>)"

definition zero_record :: verification_record where
  "zero_record =
     \<lparr> vr_status = EvidenceAbsent, vr_cause = CauseNone, vr_command = [], vr_output = [],
       vr_fingerprint = [], vr_tree = [], vr_attempts = 0 \<rparr>"

section \<open>The evidence log\<close>

record verify_event =
  ve_status :: evidence_status
  ve_command :: string
  ve_gen :: nat

record evidence_log =
  ev_verify :: "verify_event list"
  ev_mut_gen :: nat
  ev_isolation :: evidence_status
  ev_observed_isolation :: string
  ev_observed_network :: "bool option"
  ev_verify_configured :: bool
  ev_review_configured :: bool
  ev_cost_configured :: bool
  ev_verify_command :: string
  ev_closing_ready :: bool
  ev_unpriced :: bool
  ev_root :: string
  ev_base_tree :: string
  ev_reviewed_gen :: nat
  ev_review_reached :: bool

definition log_mutation :: "evidence_log \<Rightarrow> evidence_log" where
  "log_mutation l = l\<lparr>ev_mut_gen := Suc (ev_mut_gen l)\<rparr>"

definition record_verify :: "string \<Rightarrow> evidence_status \<Rightarrow> evidence_log \<Rightarrow> evidence_log" where
  "record_verify cmd status l =
     l\<lparr>ev_verify := ev_verify l @ [\<lparr> ve_status = status, ve_command = cmd, ve_gen = ev_mut_gen l \<rparr>]\<rparr>"

definition is_mutating_tool :: "string \<Rightarrow> bool" where
  "is_mutating_tool name \<longleftrightarrow> name \<in> {''write_file'', ''edit_file'', ''run'', ''exec''}"

section \<open>Guarantees\<close>

record degradation =
  dg_guarantee :: string
  dg_reason :: degradation_reason
  dg_detail :: string

record verification_evidence =
  vv_status :: evidence_status
  vv_command :: string
  vv_attempts :: nat
  vv_mutation_gen :: nat
  vv_final_gen :: nat

record diff_evidence =
  de_status :: evidence_status
  de_files :: "string list"
  de_capture_gen :: nat
  de_effect :: workspace_effect

record review_evidence =
  re_status :: evidence_status
  re_rounds :: nat
  re_findings_total :: nat
  re_blockers_fired :: nat
  re_surviving :: "string list"
  re_repaired :: "string list"
  re_reviewed_gen :: nat

record guarantees =
  gu_verification :: verification_evidence
  gu_review :: review_evidence
  gu_cost_bound :: evidence_status
  gu_isolation :: evidence_status
  gu_observed_isolation :: string
  gu_observed_network :: "bool option"
  gu_diff :: diff_evidence
  gu_degradations :: "degradation list"

definition zero_guarantees :: guarantees where
  "zero_guarantees =
     \<lparr> gu_verification = \<lparr> vv_status = EvidenceAbsent, vv_command = [], vv_attempts = 0,
                          vv_mutation_gen = 0, vv_final_gen = 0 \<rparr>,
       gu_review = \<lparr> re_status = EvidenceAbsent, re_rounds = 0, re_findings_total = 0, re_blockers_fired = 0,
                    re_surviving = [], re_repaired = [], re_reviewed_gen = 0 \<rparr>,
       gu_cost_bound = EvidenceAbsent, gu_isolation = EvidenceAbsent, gu_observed_isolation = [],
       gu_observed_network = None,
       gu_diff = \<lparr> de_status = EvidenceAbsent, de_files = [], de_capture_gen = 0, de_effect = WorkspaceNotSet \<rparr>,
       gu_degradations = [] \<rparr>"

definition degrade :: "string \<Rightarrow> degradation_reason \<Rightarrow> string \<Rightarrow> guarantees \<Rightarrow> guarantees" where
  "degrade g r detail out =
     out\<lparr>gu_degradations := gu_degradations out @ [\<lparr> dg_guarantee = g, dg_reason = r, dg_detail = detail \<rparr>]\<rparr>"

text \<open>The sections of \<open>finalizeGuarantees\<close>, in order.\<close>

definition final_cost :: "evidence_log \<Rightarrow> guarantees \<Rightarrow> guarantees" where
  "final_cost l g =
     (let g1 = g\<lparr>gu_diff := (gu_diff g)\<lparr>de_effect := WorkspaceUnknown\<rparr>,
                 gu_isolation := ev_isolation l, gu_observed_isolation := ev_observed_isolation l,
                 gu_observed_network := ev_observed_network l,
                 gu_cost_bound := (if ev_cost_configured l then EvidencePassed else EvidenceAbsent)\<rparr>
      in if ev_unpriced l
         then degrade ''cost-bound'' ReasonUnpricedSpend ''continued with unpriced spend''
                (g1\<lparr>gu_cost_bound := EvidenceDegraded\<rparr>)
         else g1)"

definition final_verification :: "evidence_log \<Rightarrow> guarantees \<Rightarrow> guarantees" where
  "final_verification l g =
     (let v = (gu_verification g)\<lparr>vv_final_gen := ev_mut_gen l\<rparr> in
      if \<not> ev_verify_configured l then g\<lparr>gu_verification := v\<rparr>
      else if ev_verify l = [] then
        degrade ''verification'' ReasonNotReached ''verification stage was not reached''
          (g\<lparr>gu_verification := v\<lparr>vv_command := ev_verify_command l, vv_status := EvidenceSkipped\<rparr>\<rparr>)
      else
        (let e = last (ev_verify l);
             v1 = v\<lparr>vv_status := ve_status e, vv_command := ve_command e,
                    vv_attempts := length (ev_verify l), vv_mutation_gen := ve_gen e\<rparr>
         in if ve_gen e < ev_mut_gen l
            then degrade ''verification'' ReasonStaleEvidence ''workspace changed after verification''
                   (g\<lparr>gu_verification := v1\<lparr>vv_status := EvidenceDegraded\<rparr>\<rparr>)
            else g\<lparr>gu_verification := v1\<rparr>))"

definition is_blocker :: "reviewed_finding \<Rightarrow> bool" where
  "is_blocker f = equal_fold (rf_severity (rd_finding f)) ''blocker''"

definition final_review :: "evidence_log \<Rightarrow> review_report option \<Rightarrow> guarantees \<Rightarrow> guarantees" where
  "final_review l review g =
     (if \<not> ev_review_configured l then g
      else
        (let v = (gu_review g)\<lparr>re_reviewed_gen := ev_reviewed_gen l\<rparr>;
             missed = degrade ''review'' ReasonNotReached ''review stage was not reached''
                        (g\<lparr>gu_review := v\<lparr>re_status := EvidenceSkipped\<rparr>\<rparr>)
         in case review of
              None \<Rightarrow> missed
            | Some r \<Rightarrow>
                if \<not> ev_review_reached l \<and> rr_rounds r = 0 then missed
                else
                  (let v1 = v\<lparr>re_status := EvidencePassed, re_rounds := rr_rounds r,
                              re_findings_total := length (rr_findings r),
                              re_blockers_fired := length (filter is_blocker (rr_findings r)),
                              re_repaired := map (\<lambda>f. rf_id (rd_finding f))
                                 (filter (\<lambda>f. rd_fate f = FateRepaired) (rr_findings r)),
                              re_surviving := map (\<lambda>f. rf_id (rd_finding f))
                                 (filter (\<lambda>f. rd_fate f = FateExpired) (rr_findings r))\<rparr>;
                       g1 = (if rr_blocked r then g\<lparr>gu_review := v1\<lparr>re_status := EvidenceFailed\<rparr>\<rparr>
                             else if rr_skipped r \<noteq> []
                             then degrade ''review'' ReasonPolicySkip (rr_skipped r)
                                    (g\<lparr>gu_review := v1\<lparr>re_status := EvidenceDegraded\<rparr>\<rparr>)
                             else g\<lparr>gu_review := v1\<rparr>)
                   in if ev_reviewed_gen l < ev_mut_gen l
                      then degrade ''review'' ReasonStaleEvidence ''workspace changed after review''
                             (g1\<lparr>gu_review := (gu_review g1)\<lparr>re_status := EvidenceDegraded\<rparr>\<rparr>)
                      else g1)))"

text \<open>The final tree and its difference from the base come from the version control.\<close>

definition final_diff ::
  "(string + string) \<Rightarrow> (string \<Rightarrow> string \<Rightarrow> string + string list) \<Rightarrow> evidence_log \<Rightarrow> guarantees \<Rightarrow> guarantees" where
  "final_diff write_tree diff_names l g =
     (if ev_root l \<noteq> [] \<and> ev_base_tree l \<noteq> [] then
        (case write_tree of
           Inl _ \<Rightarrow> g\<lparr>gu_diff := (gu_diff g)\<lparr>de_status := EvidenceInconclusive\<rparr>\<rparr>
         | Inr cur \<Rightarrow>
             (case diff_names (ev_base_tree l) cur of
                Inr names \<Rightarrow>
                  g\<lparr>gu_diff := \<lparr> de_status = EvidencePassed, de_files = sort names,
                                de_capture_gen = ev_mut_gen l,
                                de_effect = (if cur = ev_base_tree l then WorkspaceUnchanged else WorkspaceChanged) \<rparr>\<rparr>
              | Inl _ \<Rightarrow>
                  g\<lparr>gu_diff := (gu_diff g)\<lparr>de_effect := WorkspaceUnknown, de_status := EvidenceInconclusive\<rparr>\<rparr>))
      else if ev_root l \<noteq> [] then
        degrade ''diff'' ReasonNoVCS ''no workspace baseline available''
          (g\<lparr>gu_diff := (gu_diff g)\<lparr>de_status := EvidenceSkipped\<rparr>\<rparr>)
      else g)"

definition final_noop :: "outcome \<Rightarrow> guarantees \<Rightarrow> guarantees" where
  "final_noop outcm g =
     (if outcm = Answered \<and> de_effect (gu_diff g) = WorkspaceUnchanged
      then degrade ''diff'' ReasonNoOpAnswer ''answered with no workspace changes'' g else g)"

definition finalize_guarantees ::
  "(string + string) \<Rightarrow> (string \<Rightarrow> string \<Rightarrow> string + string list) \<Rightarrow> evidence_log option
   \<Rightarrow> outcome \<Rightarrow> review_report option \<Rightarrow> guarantees" where
  "finalize_guarantees write_tree diff_names l outcm review =
     (case l of
        None \<Rightarrow> zero_guarantees
      | Some l \<Rightarrow>
          final_noop outcm
            (final_diff write_tree diff_names l
              (final_review l review
                (final_verification l
                  (final_cost l zero_guarantees)))))"

section \<open>Each section writes its own part of the report\<close>

lemma degrade_simps [simp]:
  "gu_verification (degrade a b c g) = gu_verification g" "gu_review (degrade a b c g) = gu_review g"
  "gu_diff (degrade a b c g) = gu_diff g" "gu_cost_bound (degrade a b c g) = gu_cost_bound g"
  by (simp_all add: degrade_def)

lemma final_noop_simps [simp]:
  "gu_verification (final_noop oc g) = gu_verification g" "gu_review (final_noop oc g) = gu_review g"
  "gu_diff (final_noop oc g) = gu_diff g"
  by (simp_all add: final_noop_def)

lemma final_diff_simps [simp]:
  "gu_verification (final_diff wt dn l g) = gu_verification g" "gu_review (final_diff wt dn l g) = gu_review g"
  by (simp_all add: final_diff_def split: sum.split)

lemma final_review_simps [simp]:
  "gu_verification (final_review l r g) = gu_verification g" "gu_diff (final_review l r g) = gu_diff g"
  by (simp_all add: final_review_def Let_def split: option.split)

lemma final_verification_simps [simp]:
  "gu_review (final_verification l g) = gu_review g" "gu_diff (final_verification l g) = gu_diff g"
  by (simp_all add: final_verification_def Let_def)

lemma final_cost_simps [simp]:
  "gu_review (final_cost l g) = gu_review g" "gu_verification (final_cost l g) = gu_verification g"
  "gu_diff (final_cost l g) = (gu_diff g)\<lparr>de_effect := WorkspaceUnknown\<rparr>"
  by (simp_all add: final_cost_def Let_def degrade_def)

lemma final_verification_passed:
  "vv_status (gu_verification (final_verification l g)) = EvidencePassed \<longleftrightarrow>
     (if ev_verify_configured l
      then ev_verify l \<noteq> [] \<and> ve_status (last (ev_verify l)) = EvidencePassed
           \<and> ev_mut_gen l \<le> ve_gen (last (ev_verify l))
      else vv_status (gu_verification g) = EvidencePassed)"
  by (simp add: final_verification_def Let_def not_less)

lemma final_review_passed:
  "re_status (gu_review g) = EvidenceAbsent \<Longrightarrow>
   re_status (gu_review (final_review l r g)) = EvidencePassed \<longleftrightarrow>
     ev_review_configured l \<and>
     (\<exists>x. r = Some x \<and> (ev_review_reached l \<or> 0 < rr_rounds x) \<and> \<not> rr_blocked x
        \<and> rr_skipped x = [] \<and> ev_mut_gen l \<le> ev_reviewed_gen l)"
  by (auto simp: final_review_def Let_def not_less split: option.split)

section \<open>The log as a sequence of operations\<close>

datatype log_op = LogMutation | LogVerify string evidence_status

fun log_step :: "log_op \<Rightarrow> evidence_log \<Rightarrow> evidence_log" where
  "log_step LogMutation l = log_mutation l"
| "log_step (LogVerify c st) l = record_verify c st l"

definition log_ok :: "evidence_log \<Rightarrow> bool" where
  "log_ok l \<longleftrightarrow> sorted (map ve_gen (ev_verify l)) \<and> (\<forall>e \<in> set (ev_verify l). ve_gen e \<le> ev_mut_gen l)"

lemma log_step_ok: "log_ok l \<Longrightarrow> log_ok (log_step op l)"
  by (cases op) (auto simp: log_ok_def log_mutation_def record_verify_def sorted_append le_SucI)

lemma log_steps_ok: "log_ok l \<Longrightarrow> log_ok (fold log_step ops l)"
  by (induction ops arbitrary: l) (auto intro: log_step_ok)

lemma log_step_configured [simp]: "ev_verify_configured (log_step op l) = ev_verify_configured l"
  by (cases op) (simp_all add: log_mutation_def record_verify_def)

lemma log_steps_configured [simp]: "ev_verify_configured (fold log_step ops l) = ev_verify_configured l"
  by (induction ops arbitrary: l) auto

lemma log_last_passed:
  assumes "log_ok l" and "ev_verify l = []"
  shows "(ev_verify (fold log_step ops l) \<noteq> []
      \<and> ve_status (last (ev_verify (fold log_step ops l))) = EvidencePassed
      \<and> ev_mut_gen (fold log_step ops l) \<le> ve_gen (last (ev_verify (fold log_step ops l))))
    \<longleftrightarrow> (\<exists>pre c. ops = pre @ [LogVerify c EvidencePassed])"
proof (cases ops rule: rev_cases)
  case Nil
  with assms show ?thesis by simp
next
  case (snoc pre op)
  let ?l = "fold log_step pre l"
  have ok: "log_ok ?l" using assms(1) by (rule log_steps_ok)
  show ?thesis
  proof (cases op)
    case LogMutation
    have "ev_verify ?l \<noteq> [] \<Longrightarrow> ve_gen (last (ev_verify ?l)) \<le> ev_mut_gen ?l"
      using ok by (auto simp: log_ok_def)
    then show ?thesis using snoc LogMutation by (auto simp: log_mutation_def)
  next
    case (LogVerify c st)
    then show ?thesis using snoc by (auto simp: record_verify_def)
  qed
qed

section \<open>Properties\<close>

text \<open>C40: The verification guarantee is never stale: for a log grown by mutations and
  verifications, the report says passed exactly if the last thing that happened was a passing
  verification; any later successful write or command downgrades it.\<close>

theorem verification_guarantee:
  assumes "log_ok l" and "ev_verify l = []" and "ev_verify_configured l"
  shows "vv_status (gu_verification
           (finalize_guarantees wt dn (Some (fold log_step ops l)) oc review)) = EvidencePassed
    \<longleftrightarrow> (\<exists>pre c. ops = pre @ [LogVerify c EvidencePassed])"
  using log_last_passed [OF assms(1,2), of ops] assms(3)
  by (simp add: finalize_guarantees_def final_verification_passed)

definition empty_log :: evidence_log where
  "empty_log =
     \<lparr> ev_verify = [], ev_mut_gen = 0, ev_isolation = EvidencePassed, ev_observed_isolation = [],
       ev_observed_network = None, ev_verify_configured = True, ev_review_configured = True,
       ev_cost_configured = False, ev_verify_command = ''go test'', ev_closing_ready = True,
       ev_unpriced = False, ev_root = [], ev_base_tree = [], ev_reviewed_gen = 0, ev_review_reached = False \<rparr>"

theorem verification_guarantee_witness:
  "vv_status (gu_verification (finalize_guarantees (Inl []) (\<lambda>_ _. Inl [])
     (Some (fold log_step [LogMutation, LogVerify ''go test'' EvidencePassed] empty_log)) Answered None)) = EvidencePassed
   \<and> vv_status (gu_verification (finalize_guarantees (Inl []) (\<lambda>_ _. Inl [])
     (Some (fold log_step [LogMutation, LogVerify ''go test'' EvidencePassed, LogMutation] empty_log)) Answered None))
     \<noteq> EvidencePassed"
proof -
  have l: "log_ok empty_log" "ev_verify empty_log = []" "ev_verify_configured empty_log"
    by (simp_all add: empty_log_def log_ok_def)
  have "\<exists>pre c. [LogMutation, LogVerify ''go test'' EvidencePassed] = pre @ [LogVerify c EvidencePassed]"
    by (intro exI [of _ "[LogMutation]"] exI [of _ "''go test''"]) simp
  moreover have "\<nexists>pre c. [LogMutation, LogVerify ''go test'' EvidencePassed, LogMutation] = pre @ [LogVerify c EvidencePassed]"
  proof (intro notI, elim exE)
    fix pre c
    assume "[LogMutation, LogVerify ''go test'' EvidencePassed, LogMutation] = pre @ [LogVerify c EvidencePassed]"
    then have "last [LogMutation, LogVerify ''go test'' EvidencePassed, LogMutation] = LogVerify c EvidencePassed"
      by (metis last_snoc)
    then show False by simp
  qed
  ultimately show ?thesis using verification_guarantee [OF l] by blast
qed

text \<open>The review guarantee says passed exactly if a review was configured and reached, it
  neither blocked nor was skipped, and nothing was mutated since the diff it judged was
  taken.\<close>

theorem review_guarantee:
  "re_status (gu_review (finalize_guarantees wt dn (Some l) oc review)) = EvidencePassed \<longleftrightarrow>
     ev_review_configured l \<and>
     (\<exists>x. review = Some x \<and> (ev_review_reached l \<or> 0 < rr_rounds x) \<and> \<not> rr_blocked x
        \<and> rr_skipped x = [] \<and> ev_mut_gen l \<le> ev_reviewed_gen l)"
  by (simp add: finalize_guarantees_def final_review_passed zero_guarantees_def)

text \<open>The dollar figure is complete exactly if something was charged and everything
  charged had a price; it is then the sum of the prices, and it is the sum of what could be
  priced in any case. Usage that reports no tokens is free.\<close>

theorem spend_complete:
  "spend_usd (Some (fold (\<lambda>(m, u). spend_add (Some pr) m u) calls new_spend)) =
     ((\<Sum>(m, u) \<leftarrow> calls. if usage_reported u then (case pr m u of Some c \<Rightarrow> c | None \<Rightarrow> 0) else 0),
      (\<exists>(m, u) \<in> set calls. usage_reported u) \<and>
      (\<forall>(m, u) \<in> set calls. usage_reported u \<longrightarrow> pr m u \<noteq> None))"
proof -
  let ?add = "\<lambda>(m, u). spend_add (Some pr) m u"
  have "sp_usd (fold ?add calls s) = sp_usd s +
          (\<Sum>(m, u) \<leftarrow> calls. if usage_reported u then (case pr m u of Some c \<Rightarrow> c | None \<Rightarrow> 0) else 0)
      \<and> (sp_unpriced (fold ?add calls s) \<longleftrightarrow> sp_unpriced s \<or> (\<exists>c \<in> set calls. usage_reported (snd c) \<and> pr (fst c) (snd c) = None))
      \<and> (sp_priced (fold ?add calls s) \<longleftrightarrow> sp_priced s \<or> (\<exists>c \<in> set calls. usage_reported (snd c) \<and> pr (fst c) (snd c) \<noteq> None))" for s
  proof (induction calls arbitrary: s)
    case Nil
    then show ?case by simp
  next
    case (Cons c calls)
    obtain m u where c: "c = (m, u)" by fastforce
    show ?case
      using Cons [of "spend_add (Some pr) m u s"]
      by (cases "pr m u") (auto simp: c spend_add_def)
  qed
  from this [of new_spend] show ?thesis
    by (auto simp: spend_usd_def new_spend_def case_prod_beta)
qed

theorem spend_complete_witness:
  "spend_usd (Some (fold (\<lambda>(m, u). spend_add (Some (\<lambda>m u. if m = ''solver'' then Some 2 else None)) m u)
      [(''solver'', zero_usage\<lparr>u_total := 5\<rparr>), (''reviewer'', zero_usage)] new_spend)) = (2, True)"
  unfolding spend_complete by (simp add: usage_reported_def zero_usage_def)

text \<open>A printed command result is classified by the facts of the execution: passed
  exactly on exit code 0, failed exactly on a non-zero code that is neither a timeout nor
  carries the signature of an environment fault, inconclusive otherwise.\<close>

theorem classify_format_run:
  "fst (classify_run_observation (format_run r)) =
     (if exit_code r = 0 then EvidencePassed
      else if timed_out r \<or> is_infra_fault (format_run r) then EvidenceInconclusive
      else EvidenceFailed)"
proof -
  have e: "\<not> has_prefix (format_run r) ''ERROR:''"
  proof
    assume "has_prefix (format_run r) ''ERROR:''"
    from error_neither [OF this] show False by simp
  qed
  show ?thesis by (simp add: classify_run_observation_def e)
qed

end
