(* ===== verification/Messages.thy ===== *)
theory Messages
  imports Evidence
begin

text \<open>
  Conversations (\<open>llm/content.go\<close>, \<open>llm/message.go\<close>) and their compaction
  (\<open>agent/generate.go\<close>): removing replayed reasoning, and evicting the oldest turns when the
  context overflows. A turn is an assistant message and everything up to the next one.
\<close>

section \<open>Messages\<close>

datatype content_part =
    TextPart string
  | ImagePart string string string
  | ToolCallPart (call_id: string) (call_name: string) (call_args: string)
  | ToolResultPart string string bool
  | ReasoningPart string

datatype role = RoleSystem | RoleUser | RoleAssistant | RoleTool

record message =
  m_role :: role
  m_parts :: "content_part list"

fun part_text :: "content_part \<Rightarrow> string" where
  "part_text (TextPart s) = s"
| "part_text _ = []"

definition parts_text :: "content_part list \<Rightarrow> string" where
  "parts_text ps = concat (map part_text ps)"

definition user_msg :: "string \<Rightarrow> message" where
  "user_msg s = \<lparr> m_role = RoleUser, m_parts = [TextPart s] \<rparr>"

definition assistant_msg :: "string \<Rightarrow> message" where
  "assistant_msg s = \<lparr> m_role = RoleAssistant, m_parts = [TextPart s] \<rparr>"

definition tool_result_msg :: "string \<Rightarrow> string \<Rightarrow> bool \<Rightarrow> message" where
  "tool_result_msg cid body is_err = \<lparr> m_role = RoleTool, m_parts = [ToolResultPart cid body is_err] \<rparr>"

definition is_assistant :: "message \<Rightarrow> bool" where
  "is_assistant m \<longleftrightarrow> m_role m = RoleAssistant"

fun is_reasoning :: "content_part \<Rightarrow> bool" where
  "is_reasoning (ReasoningPart raw) = True"
| "is_reasoning _ = False"

section \<open>Replayed reasoning\<close>

definition scrub :: "message \<Rightarrow> message" where
  "scrub m = (if is_assistant m then m\<lparr>m_parts := filter (\<lambda>p. \<not> is_reasoning p) (m_parts m)\<rparr> else m)"

definition reasoning_count :: "message \<Rightarrow> nat" where
  "reasoning_count m = (if is_assistant m then length (filter is_reasoning (m_parts m)) else 0)"

definition drop_replay_reasoning :: "message list \<Rightarrow> message list \<times> nat" where
  "drop_replay_reasoning msgs =
     (let dropped = sum_list (map reasoning_count msgs) in
      if dropped = 0 then (msgs, 0) else (map scrub msgs, dropped))"

definition scrub_replay_reasoning :: "message list \<Rightarrow> message list" where
  "scrub_replay_reasoning msgs = fst (drop_replay_reasoning msgs)"

section \<open>Eviction\<close>

text \<open>The opening message is never looked at; the first assistant message after it starts the
  oldest turn, the next one ends it.\<close>

definition evict_oldest_turn :: "message list \<Rightarrow> message list \<times> bool" where
  "evict_oldest_turn msgs =
     (case msgs of
        [] \<Rightarrow> (msgs, False)
      | m # rest \<Rightarrow>
          (case dropWhile (\<lambda>x. \<not> is_assistant x) rest of
             [] \<Rightarrow> (msgs, False)
           | a # later \<Rightarrow>
               (let next = dropWhile (\<lambda>x. \<not> is_assistant x) later in
                if next = [] then (msgs, False)
                else (m # takeWhile (\<lambda>x. \<not> is_assistant x) rest @ next, True))))"

text \<open>At most \<open>n\<close> evictions, stopping when none is possible.\<close>

fun evict_up_to :: "nat \<Rightarrow> message list \<Rightarrow> message list \<times> nat" where
  "evict_up_to 0 msgs = (msgs, 0)"
| "evict_up_to (Suc n) msgs =
     (case evict_oldest_turn msgs of
        (shrunk, False) \<Rightarrow> (msgs, 0)
      | (shrunk, True) \<Rightarrow> (case evict_up_to n shrunk of (out, k) \<Rightarrow> (out, Suc k)))"

definition evict_oldest_turns :: "message list \<Rightarrow> message list \<times> nat" where
  "evict_oldest_turns msgs =
     (let removable = int (length (filter is_assistant (tl msgs))) - 1 in
      if removable \<le> 0 then (msgs, 0) else evict_up_to (nat ((removable + 1) div 2)) msgs)"

section \<open>Turns\<close>

text \<open>A transcript is the opening message, a preamble without assistant messages, and turns.\<close>

definition turn :: "message list \<Rightarrow> bool" where
  "turn t \<longleftrightarrow> (\<exists>a rest. t = a # rest \<and> is_assistant a \<and> (\<forall>x \<in> set rest. \<not> is_assistant x))"

definition preamble :: "message list \<Rightarrow> bool" where
  "preamble pre \<longleftrightarrow> (\<forall>x \<in> set pre. \<not> is_assistant x)"

definition transcript :: "message \<Rightarrow> message list \<Rightarrow> message list list \<Rightarrow> message list" where
  "transcript m pre ts = m # pre @ concat ts"

lemma drop_while_pre: "preamble pre \<Longrightarrow> turn t \<Longrightarrow>
  dropWhile (\<lambda>x. \<not> is_assistant x) (pre @ t @ rest) = t @ rest \<and>
  takeWhile (\<lambda>x. \<not> is_assistant x) (pre @ t @ rest) = pre"
  by (auto simp: preamble_def turn_def dropWhile_append takeWhile_append split: if_splits)

lemma drop_while_none: "preamble pre \<Longrightarrow> dropWhile (\<lambda>x. \<not> is_assistant x) pre = []"
  by (auto simp: preamble_def)

lemma evict_one:
  assumes "preamble pre" "\<forall>t \<in> set ts. turn t"
  shows "evict_oldest_turn (transcript m pre ts) =
    (if length ts \<le> 1 then (transcript m pre ts, False) else (transcript m pre (tl ts), True))"
proof (cases ts)
  case Nil
  then show ?thesis using assms(1) by (simp add: evict_oldest_turn_def transcript_def drop_while_none)
next
  case (Cons t us)
  then obtain a rest where t: "t = a # rest" "is_assistant a" "preamble rest"
    using assms(2) by (auto simp: turn_def preamble_def)
  have tk: "takeWhile (\<lambda>x. \<not> is_assistant x) (pre @ t @ concat us) = pre"
       "dropWhile (\<lambda>x. \<not> is_assistant x) (pre @ t @ concat us) = t @ concat us"
    using drop_while_pre [OF assms(1), of t] assms(2) Cons by auto
  show ?thesis
  proof (cases us)
    case Nil
    then show ?thesis using Cons t tk drop_while_none [OF t(3)]
      by (simp add: evict_oldest_turn_def transcript_def)
  next
    case (Cons u vs)
    then have "turn u" using assms(2) \<open>ts = t # us\<close> by simp
    then have d: "dropWhile (\<lambda>x. \<not> is_assistant x) (rest @ concat us) = concat us" "concat us \<noteq> []"
      using drop_while_pre [OF t(3), of u "concat vs"] Cons by (auto simp: turn_def)
    have "\<exists>x \<in> set (concat us). is_assistant x" using \<open>turn u\<close> Cons by (auto simp: turn_def)
    then show ?thesis using Cons \<open>ts = t # us\<close> t tk d
      by (auto simp: evict_oldest_turn_def transcript_def)
  qed
qed

lemma evict_many:
  assumes "preamble pre" "\<forall>t \<in> set ts. turn t" "n < length ts"
  shows "evict_up_to n (transcript m pre ts) = (transcript m pre (drop n ts), n)"
  using assms(2,3)
proof (induction n arbitrary: ts)
  case (Suc n)
  then obtain t us where ts: "ts = t # us" by (cases ts) auto
  with Suc.prems have "us \<noteq> []" by auto
  then show ?case using Suc.IH [of us] Suc.prems evict_one [OF assms(1) Suc.prems(1), of m] ts
    by (auto simp: Suc_le_eq)
qed simp

lemma count_turns:
  assumes "preamble pre" "\<forall>t \<in> set ts. turn t"
  shows "length (filter is_assistant (tl (transcript m pre ts))) = length ts"
proof -
  have "length (filter is_assistant (concat ts)) = length ts" using assms(2)
    by (induction ts) (auto simp: turn_def)
  then show ?thesis using assms(1) by (simp add: transcript_def preamble_def filter_empty_conv)
qed

lemma evict_older_half':
  assumes "preamble pre" "\<forall>t \<in> set ts. turn t"
  shows "evict_oldest_turns (transcript m pre ts) =
    (transcript m pre (drop (length ts div 2) ts), length ts div 2)"
proof -
  have n: "nat ((int (length ts) - 1 + 1) div 2) = length ts div 2"
    by (simp add: nat_div_distrib)
  show ?thesis
  proof (cases "length ts \<le> 1")
    case True
    then show ?thesis using count_turns [OF assms, of m]
      by (cases ts) (auto simp: evict_oldest_turns_def Let_def)
  next
    case False
    then have "length ts div 2 < length ts" by simp
    then show ?thesis using evict_many [OF assms, of "length ts div 2" m] count_turns [OF assms, of m] n False
      by (simp add: evict_oldest_turns_def Let_def)
  qed
qed

text \<open>Eviction removes exactly the older half of the turns: from a transcript of an opening
  message, a preamble and \<open>n\<close> turns it drops the first \<open>n div 2\<close> turns and nothing else, so the
  task, the preamble and the most recent turn stay.\<close>

theorem evict_older_half:
  assumes "preamble pre" and "\<forall>t \<in> set ts. turn t"
  shows "evict_oldest_turns (transcript m pre ts) =
    (transcript m pre (drop (length ts div 2) ts), length ts div 2)
    \<and> (ts \<noteq> [] \<longrightarrow> last (drop (length ts div 2) ts) = last ts)"
  using evict_older_half' [OF assms, of m] by (auto simp: last_drop)

theorem evict_older_half_witness:
  "evict_oldest_turns (transcript (user_msg ''task'') [] [[assistant_msg ''a'', user_msg ''1''], [assistant_msg ''b''], [assistant_msg ''c'']])
     = (transcript (user_msg ''task'') [] [[assistant_msg ''b''], [assistant_msg ''c'']], 1)"
proof -
  let ?ts = "[[assistant_msg ''a'', user_msg ''1''], [assistant_msg ''b''], [assistant_msg ''c'']]"
  have "preamble []" "\<forall>t \<in> set ?ts. turn t"
    by (simp_all add: preamble_def turn_def is_assistant_def assistant_msg_def user_msg_def)
  from evict_older_half [OF this, of "user_msg ''task''"] show ?thesis by simp
qed

section \<open>Pairing\<close>

text \<open>Providers reject a transcript with a tool result that no call of the turn asked for, or a
  call that the turn does not answer.\<close>

fun result_id :: "content_part \<Rightarrow> string list" where
  "result_id (ToolResultPart cid body e) = [cid]"
| "result_id _ = []"

fun call_part_id :: "content_part \<Rightarrow> string list" where
  "call_part_id (ToolCallPart cid n a) = [cid]"
| "call_part_id _ = []"

definition result_ids :: "message list \<Rightarrow> string set" where
  "result_ids ms = set (concat (map (\<lambda>m. concat (map result_id (m_parts m))) ms))"

definition call_ids :: "message \<Rightarrow> string set" where
  "call_ids m = set (concat (map call_part_id (m_parts m)))"

definition turn_paired :: "message list \<Rightarrow> bool" where
  "turn_paired t \<longleftrightarrow> turn t \<and> result_ids (tl t) = call_ids (hd t) \<and> result_ids [hd t] = {}"

definition well_paired :: "message list \<Rightarrow> bool" where
  "well_paired msgs \<longleftrightarrow>
     (\<exists>m pre ts. msgs = transcript m pre ts \<and> preamble pre \<and> result_ids (m # pre) = {} \<and> (\<forall>t \<in> set ts. turn_paired t))"

lemma scrub_ids: "result_ids (map scrub ms) = result_ids ms" "call_ids (scrub m) = call_ids m"
proof -
  have "concat (map result_id (filter (\<lambda>p. \<not> is_reasoning p) ps)) = concat (map result_id ps)" for ps
    by (induction ps) (auto elim: is_reasoning.elims)
  then have "concat (map result_id (m_parts (scrub m))) = concat (map result_id (m_parts m))" for m
    by (simp add: scrub_def)
  then show "result_ids (map scrub ms) = result_ids ms"
    by (simp only: result_ids_def list.map_comp comp_def)
  have "concat (map call_part_id (filter (\<lambda>p. \<not> is_reasoning p) ps)) = concat (map call_part_id ps)" for ps
    by (induction ps) (auto elim: is_reasoning.elims)
  then have "concat (map call_part_id (m_parts (scrub m))) = concat (map call_part_id (m_parts m))"
    by (simp add: scrub_def)
  then show "call_ids (scrub m) = call_ids m"
    by (simp only: call_ids_def)
qed

lemma scrub_assistant [simp]: "is_assistant (scrub m) = is_assistant m"
  by (simp add: scrub_def is_assistant_def)

lemma scrub_turn: "turn_paired t \<Longrightarrow> turn_paired (map scrub t)"
  using scrub_ids(1) [of "tl t"] scrub_ids(1) [of "[hd t]"] scrub_ids(2) [of "hd t"]
  by (auto simp: turn_paired_def turn_def map_tl)

lemma scrub_paired: "well_paired msgs \<Longrightarrow> well_paired (map scrub msgs)"
proof -
  assume "well_paired msgs"
  then obtain m pre ts where w: "msgs = transcript m pre ts" "preamble pre" "result_ids (m # pre) = {}"
      "\<forall>t \<in> set ts. turn_paired t" by (auto simp: well_paired_def)
  have "map scrub msgs = transcript (scrub m) (map scrub pre) (map (map scrub) ts)"
    by (simp add: w(1) transcript_def map_concat)
  moreover have "preamble (map scrub pre)" using w(2) by (simp add: preamble_def)
  moreover have "result_ids (scrub m # map scrub pre) = {}" using scrub_ids(1) [of "m # pre"] w(3) by simp
  moreover have "\<forall>t \<in> set (map (map scrub) ts). turn_paired t" using w(4) scrub_turn by auto
  ultimately show ?thesis unfolding well_paired_def by blast
qed

lemma evict_paired: "well_paired msgs \<Longrightarrow> well_paired (fst (evict_oldest_turns msgs))"
proof -
  assume "well_paired msgs"
  then obtain m pre ts where w: "msgs = transcript m pre ts" "preamble pre" "result_ids (m # pre) = {}"
      "\<forall>t \<in> set ts. turn_paired t" by (auto simp: well_paired_def)
  then have "\<forall>t \<in> set ts. turn t" by (simp add: turn_paired_def)
  then have "fst (evict_oldest_turns msgs) = transcript m pre (drop (length ts div 2) ts)"
    using evict_older_half' [OF w(2)] w(1) by simp
  moreover have "\<forall>t \<in> set (drop (length ts div 2) ts). turn_paired t"
    using w(4) by (auto dest: in_set_dropD)
  ultimately show ?thesis using w(2,3) unfolding well_paired_def by blast
qed

lemma scrub_idem: "snd (drop_replay_reasoning (map scrub msgs)) = 0"
proof -
  have r: "reasoning_count (scrub m) = 0" for m
    by (simp add: reasoning_count_def scrub_def filter_empty_conv)
  have "map reasoning_count (map scrub msgs) = map (\<lambda>_. 0) msgs" by (simp add: r)
  then have "sum_list (map reasoning_count (map scrub msgs)) = 0" by (metis sum_list_0)
  then show ?thesis unfolding drop_replay_reasoning_def Let_def by (simp only: if_True simp_thms snd_conv)
qed

end
