(* ===== verification/GoJson.thy ===== *)
theory GoJson
  imports GoText
begin

text \<open>
  The part of \<open>encoding/json\<close> that the code relies on: \<open>json.Unmarshal\<close> of untrusted text, of a
  model's reply or of a project file. The text is cut into tokens, the tokens are reduced with an
  explicit stack of open arrays and objects; as in Go the whole input must be one value, nesting
  ends at 10000, and strings come out as valid UTF-8. An object keeps its members in order,
  duplicates included; what a decoder makes of duplicates is its own affair (a map keeps the
  last one).
\<close>

section \<open>Values and tokens\<close>

datatype json =
    JNull
  | JBool bool
  | JNum string
  | JStr string
  | JArr "json list"
  | JObj "(string \<times> json) list"

datatype json_token = TLBrace | TRBrace | TLBrack | TRBrack | TColon | TComma | TLit json

definition json_space :: "char \<Rightarrow> bool" where
  "json_space c \<longleftrightarrow> c \<in> {CHR '' '', CHR 0x09, CHR 0x0A, CHR 0x0D}"

section \<open>Strings\<close>

text \<open>\<open>utf8.EncodeRune\<close>.\<close>

definition encode_rune :: "nat \<Rightarrow> string" where
  "encode_rune n =
     (if n < 0x80 then [char_of n]
      else if n < 0x800 then [char_of (0xC0 + n div 64), char_of (0x80 + n mod 64)]
      else if 0xD800 \<le> n \<and> n < 0xE000 then rune_error
      else if n < 0x10000 then [char_of (0xE0 + n div 4096), char_of (0x80 + n div 64 mod 64), char_of (0x80 + n mod 64)]
      else if n < 0x110000 then
        [char_of (0xF0 + n div 262144), char_of (0x80 + n div 4096 mod 64), char_of (0x80 + n div 64 mod 64),
         char_of (0x80 + n mod 64)]
      else rune_error)"

definition hex_value :: "char \<Rightarrow> nat option" where
  "hex_value c =
     (let n = (of_char c :: nat) in
      if 48 \<le> n \<and> n \<le> 57 then Some (n - 48)
      else if 97 \<le> n \<and> n \<le> 102 then Some (n - 87)
      else if 65 \<le> n \<and> n \<le> 70 then Some (n - 55)
      else None)"

text \<open>Four hexadecimal digits after a backslash and a \<open>u\<close>.\<close>

definition unicode_escape :: "string \<Rightarrow> nat option" where
  "unicode_escape s =
     (case s of
        b # u # h1 # h2 # h3 # h4 # r \<Rightarrow>
          if b = backslash \<and> u = CHR ''u'' then
            (case (hex_value h1, hex_value h2, hex_value h3, hex_value h4) of
               (Some a, Some b, Some c, Some d) \<Rightarrow> Some (4096 * a + 256 * b + 16 * c + d)
             | _ \<Rightarrow> None)
          else None
      | _ \<Rightarrow> None)"

text \<open>An escape at the head of a string: what it stands for and how many bytes follow the backslash.
  Half a surrogate pair stands for the replacement rune.\<close>

definition escape :: "string \<Rightarrow> (string \<times> nat) option" where
  "escape s =
     (case s of
        b # c # r \<Rightarrow>
          if c = dquote \<or> c = backslash \<or> c = CHR ''/'' then Some ([c], 1)
          else if c = CHR ''b'' then Some ([CHR 0x08], 1)
          else if c = CHR ''f'' then Some ([CHR 0x0C], 1)
          else if c = CHR ''n'' then Some ([CHR 0x0A], 1)
          else if c = CHR ''r'' then Some ([CHR 0x0D], 1)
          else if c = CHR ''t'' then Some ([CHR 0x09], 1)
          else
            (case unicode_escape s of
               None \<Rightarrow> None
             | Some n \<Rightarrow>
                 if 0xD800 \<le> n \<and> n < 0xDC00 then
                   (case unicode_escape (drop 6 s) of
                      Some m \<Rightarrow>
                        if 0xDC00 \<le> m \<and> m < 0xE000
                        then Some (encode_rune (0x10000 + 1024 * (n - 0xD800) + (m - 0xDC00)), 11)
                        else Some (rune_error, 5)
                    | None \<Rightarrow> Some (rune_error, 5))
                 else Some (encode_rune n, 5))
      | _ \<Rightarrow> None)"

text \<open>The rest of a string literal after its opening quote: the text and what follows the closing one.\<close>

function lex_string :: "string \<Rightarrow> (string \<times> string) option" where
  "lex_string [] = None"
| "lex_string (c # s) =
     (if c = dquote then Some ([], s)
      else if c = backslash then
        (case escape (c # s) of
           None \<Rightarrow> None
         | Some (t, n) \<Rightarrow> map_option (\<lambda>(u, rest). (t @ u, rest)) (lex_string (drop n s)))
      else if (of_char c :: nat) < 32 then None
      else map_option (\<lambda>(u, rest). (c # u, rest)) (lex_string s))"
  by pat_completeness auto
termination by (relation "measure length") auto

lemma lex_string_shorter: "lex_string s = Some (u, rest) \<Longrightarrow> length rest < length s"
proof (induction s arbitrary: u rest rule: lex_string.induct)
  case (2 c s)
  show ?case
  proof (cases "c = dquote \<or> c \<noteq> backslash")
    case True
    then show ?thesis using 2 by (auto split: if_splits)
  next
    case False
    then obtain t n v where "escape (c # s) = Some (t, n)" "lex_string (drop n s) = Some (v, rest)"
      using "2.prems" by (auto split: option.splits)
    with False "2.IH"(1) [of "(t, n)" t n v rest] show ?thesis by auto
  qed
qed simp

section \<open>Numbers\<close>

definition num_char :: "char \<Rightarrow> bool" where
  "num_char c \<longleftrightarrow> is_digit c \<or> c \<in> {CHR ''+'', CHR ''-'', CHR ''.'', CHR ''e'', CHR ''E''}"

text \<open>An integer part without leading zeros, a fraction, an exponent.\<close>

definition num_exponent :: "string \<Rightarrow> bool" where
  "num_exponent s =
     (case s of
        [] \<Rightarrow> True
      | c # r \<Rightarrow> (c = CHR ''e'' \<or> c = CHR ''E'') \<and>
          (let d = (case r of x # t \<Rightarrow> if x = CHR ''+'' \<or> x = CHR ''-'' then t else r | [] \<Rightarrow> r) in
           d \<noteq> [] \<and> list_all is_digit d))"

definition num_fraction :: "string \<Rightarrow> bool" where
  "num_fraction s =
     (case s of
        c # r \<Rightarrow> if c = CHR ''.'' then takeWhile is_digit r \<noteq> [] \<and> num_exponent (dropWhile is_digit r) else num_exponent s
      | [] \<Rightarrow> True)"

definition valid_number :: "string \<Rightarrow> bool" where
  "valid_number s0 =
     (let s = (case s0 of c # r \<Rightarrow> if c = CHR ''-'' then r else s0 | [] \<Rightarrow> s0);
          int_part = takeWhile is_digit s
      in int_part \<noteq> [] \<and> (hd int_part = CHR ''0'' \<longrightarrow> length int_part = 1) \<and> num_fraction (dropWhile is_digit s))"

section \<open>Tokens\<close>

function json_tokens :: "string \<Rightarrow> json_token list option" where
  "json_tokens [] = Some []"
| "json_tokens (c # s) =
     (if json_space c then json_tokens s
      else if c = CHR ''{'' then map_option (Cons TLBrace) (json_tokens s)
      else if c = CHR ''}'' then map_option (Cons TRBrace) (json_tokens s)
      else if c = CHR ''['' then map_option (Cons TLBrack) (json_tokens s)
      else if c = CHR '']'' then map_option (Cons TRBrack) (json_tokens s)
      else if c = CHR '':'' then map_option (Cons TColon) (json_tokens s)
      else if c = CHR '','' then map_option (Cons TComma) (json_tokens s)
      else if c = dquote then
        (case lex_string s of
           None \<Rightarrow> None
         | Some (t, rest) \<Rightarrow> map_option (Cons (TLit (JStr (of_runes (runes t))))) (json_tokens rest))
      else if num_char c then
        (if valid_number (takeWhile num_char (c # s))
         then map_option (Cons (TLit (JNum (takeWhile num_char (c # s))))) (json_tokens (dropWhile num_char s))
         else None)
      else if has_prefix (c # s) ''true'' then map_option (Cons (TLit (JBool True))) (json_tokens (drop 3 s))
      else if has_prefix (c # s) ''false'' then map_option (Cons (TLit (JBool False))) (json_tokens (drop 4 s))
      else if has_prefix (c # s) ''null'' then map_option (Cons (TLit JNull)) (json_tokens (drop 3 s))
      else None)"
  by pat_completeness auto
termination
  by (relation "measure length") (auto dest: lex_string_shorter simp: length_dropWhile_le le_imp_less_Suc)

section \<open>Values\<close>

text \<open>An open array with the elements so far, or an open object with the members so far and the key
  of the member being read.\<close>

datatype json_frame = InArr "json list" | InObj "(string \<times> json) list" string

definition max_nesting :: nat where "max_nesting = 10000"

fun want_value :: "json_frame list \<Rightarrow> json_token list \<Rightarrow> json option"
  and have_value :: "json_frame list \<Rightarrow> json \<Rightarrow> json_token list \<Rightarrow> json option" where
  "want_value fs (TLit v # ts) = have_value fs v ts"
| "want_value fs (TLBrack # ts) =
     (if max_nesting \<le> length fs then None
      else (case ts of
              TRBrack # us \<Rightarrow> have_value fs (JArr []) us
            | _ \<Rightarrow> want_value (InArr [] # fs) ts))"
| "want_value fs (TLBrace # ts) =
     (if max_nesting \<le> length fs then None
      else (case ts of
              TRBrace # us \<Rightarrow> have_value fs (JObj []) us
            | TLit (JStr k) # TColon # us \<Rightarrow> want_value (InObj [] k # fs) us
            | _ \<Rightarrow> None))"
| "want_value fs ts = None"
| "have_value [] v ts = (if ts = [] then Some v else None)"
| "have_value (InArr vs # fs) v (TRBrack # ts) = have_value fs (JArr (vs @ [v])) ts"
| "have_value (InArr vs # fs) v (TComma # ts) = want_value (InArr (vs @ [v]) # fs) ts"
| "have_value (InObj ms k # fs) v (TRBrace # ts) = have_value fs (JObj (ms @ [(k, v)])) ts"
| "have_value (InObj ms k # fs) v (TComma # TLit (JStr k') # TColon # ts) =
     want_value (InObj (ms @ [(k, v)]) k' # fs) ts"
| "have_value fs v ts = None"

definition json_parse :: "string \<Rightarrow> json option" where
  "json_parse s = (case json_tokens s of None \<Rightarrow> None | Some ts \<Rightarrow> want_value [] ts)"

section \<open>Decoding\<close>

text \<open>Into a string, into a map of raw members, into a map of strings. The last of equal keys stands; a
  \<open>null\<close> leaves the target as it was.\<close>

definition json_string :: "json \<Rightarrow> string option" where
  "json_string v = (case v of JStr s \<Rightarrow> Some s | JNull \<Rightarrow> Some [] | _ \<Rightarrow> None)"

definition json_members :: "json \<Rightarrow> (string \<times> json) list option" where
  "json_members v = (case v of JObj ms \<Rightarrow> Some ms | JNull \<Rightarrow> Some [] | _ \<Rightarrow> None)"

definition last_member :: "string \<Rightarrow> (string \<times> json) list \<Rightarrow> json option" where
  "last_member k ms = map_of (rev ms) k"

text \<open>A text that parses to an object starts with a brace.\<close>

definition array_below :: "json_frame list \<Rightarrow> bool" where
  "array_below fs \<longleftrightarrow> fs \<noteq> [] \<and> (\<exists>vs. last fs = InArr vs)"

lemma array_below_Cons [simp]: "array_below (f # fs) \<longleftrightarrow> array_below fs \<or> fs = [] \<and> (\<exists>vs. f = InArr vs)"
  by (auto simp: array_below_def)

lemma array_below_Nil [simp]: "\<not> array_below []"
  by (simp add: array_below_def)

lemma array_stays:
  "want_value fs ts = Some r \<Longrightarrow> array_below fs \<Longrightarrow> \<exists>xs. r = JArr xs"
  "have_value fs v ts = Some r \<Longrightarrow> array_below fs \<or> (fs = [] \<and> (\<exists>xs. v = JArr xs)) \<Longrightarrow> \<exists>xs. r = JArr xs"
proof (induction fs ts and fs v ts arbitrary: r and r rule: want_value_have_value.induct)
  case (2 fs ts)
  then show ?case by (cases ts rule: list.exhaust) (auto split: if_splits json_token.splits)
next
  case (3 fs ts)
  then show ?case by (auto split: if_splits list.splits json_token.splits json.splits)
qed (force split: if_splits)+

lemma tokens_of_literal: "json_tokens s = Some (TLit v # ts) \<Longrightarrow> v \<noteq> JObj ms"
  by (induction s) (auto split: if_splits option.splits)

lemma tokens_of_object: "json_tokens s = Some (TLBrace # ts) \<Longrightarrow> \<exists>pre r. s = pre @ CHR ''{'' # r \<and> list_all json_space pre"
proof (induction s)
  case (Cons c s)
  show ?case
  proof (cases "json_space c")
    case True
    with Cons obtain pre r where "s = pre @ CHR ''{'' # r" "list_all json_space pre" by auto
    with True show ?thesis by (intro exI [of _ "c # pre"] exI [of _ r]) simp
  next
    case False
    with Cons.prems have "c = CHR ''{''" by (auto split: if_splits option.splits)
    then show ?thesis by (intro exI [of _ "[]"] exI [of _ s]) simp
  qed
qed simp

lemma json_parse_object:
  assumes "json_parse s = Some (JObj ms)"
  shows "\<exists>pre r. s = pre @ CHR ''{'' # r \<and> list_all json_space pre"
proof -
  obtain ts where t: "json_tokens s = Some ts" "want_value [] ts = Some (JObj ms)"
    using assms by (auto simp: json_parse_def split: option.splits)
  obtain tok us where ts: "ts = tok # us" using t(2) by (cases ts) auto
  have "tok = TLBrace"
  proof (cases tok)
    case (TLit v)
    then have "v = JObj ms" using t(2) ts by (auto split: if_splits)
    with tokens_of_literal t(1) ts TLit show ?thesis by blast
  next
    case TLBrack
    then have "\<exists>xs. JObj ms = JArr xs"
      using t(2) array_stays(1) [of "[InArr []]" us "JObj ms"] array_stays(2) [of "[]" "JArr []" _ "JObj ms"] ts
      by (auto simp: array_below_def split: if_splits list.splits json_token.splits)
    then show ?thesis by simp
  qed (use t(2) ts in auto)
  with tokens_of_object t(1) ts show ?thesis by blast
qed

declare json_tokens.simps [simp del] want_value.simps [simp del] have_value.simps [simp del] lex_string.simps [simp del]

lemma json_demo:
  "json_parse (''{'' @ [dquote] @ ''a'' @ [dquote] @ '':'' @ [dquote] @ ''b'' @ [backslash] @ ''n'' @ [dquote] @ '', '' @ [dquote] @ ''c'' @ [dquote] @ '':[1,-2e3]}'')
     = Some (JObj [(''a'', JStr (''b'' @ nl)), (''c'', JArr [JNum ''1'', JNum ''-2e3''])])"
  by code_simp

end
