(* ===== verification/ParseAction.thy ===== *)
theory ParseAction
  imports GoJson
begin

text \<open>
  How the text loop reads an action out of a model's reply (\<open>parseAction\<close> and its helpers in
  \<open>agent/loop_text.go\<close>). A reply is scanned line by line for the first recognised command: a
  JSON object with an action and an argument, a verb and its argument, a parameter tag, or a
  tag named like the verb; the tags that chat templates wrap around an argument are removed.
  The set of verbs is a Go map; here it is a list, in whatever order the map yields.
\<close>

section \<open>Arguments\<close>

definition argument_tags :: "string list" where
  "argument_tags = [''<argument>'', ''</argument>'', ''<argument_value>'', ''</argument_value>'']"

definition strip_argument_wrappers :: "string \<Rightarrow> string" where
  "strip_argument_wrappers arg = trim_space (fold (\<lambda>tag a. replace_all a tag []) argument_tags arg)"

definition wrapper_names :: "string list" where
  "wrapper_names = [''tool_call'', ''function'', ''parameter'', ''argument'', ''argument_value'']"

definition is_wrapper_tag :: "string \<Rightarrow> bool" where
  "is_wrapper_tag line \<longleftrightarrow>
     3 \<le> length line \<and> hd line = CHR ''<'' \<and> last line = CHR ''>'' \<and>
     (let name = trim_prefix (trim_space (butlast (tl line))) ''/'' in
      name \<noteq> [] \<and> fst (str_cut (hd (fields name)) ''='') \<in> set wrapper_names)"

fun pickup_argument :: "string list \<Rightarrow> string" where
  "pickup_argument [] = []"
| "pickup_argument (raw # rest) =
     (let line = trim_space raw in
      if line = [] \<or> is_wrapper_tag line then pickup_argument rest else strip_argument_wrappers line)"

definition strip_verb_close :: "string \<Rightarrow> string \<Rightarrow> string" where
  "strip_verb_close arg verb =
     trim_space (trim_suffix (trim_space (trim_suffix (trim_space arg) (''</'' @ verb @ ''>''))) ''>'')"

definition strip_parameter_close :: "string \<Rightarrow> string" where
  "strip_parameter_close arg = trim_space (trim_suffix (trim_space arg) ''</parameter>'')"

section \<open>Forms of an action\<close>

definition starts_known_verb :: "string list \<Rightarrow> string \<Rightarrow> bool" where
  "starts_known_verb known line \<longleftrightarrow>
     (\<exists>v \<in> set known. has_prefix line v \<and>
        (case drop (length v) line of [] \<Rightarrow> True | c # r \<Rightarrow> c = CHR '' '' \<or> c = CHR 0x09))"

definition action_prefixes :: "string list" where
  "action_prefixes = [[backslash], ''<tool_call>_'', ''<tool_call>'']"

definition strip_action_prefix :: "string list \<Rightarrow> string \<Rightarrow> string" where
  "strip_action_prefix known line =
     (case filter (\<lambda>p. has_prefix line p \<and> starts_known_verb known (drop (length p) line)) action_prefixes of
        p # ps \<Rightarrow> drop (length p) line
      | [] \<Rightarrow> line)"

definition parameter_named :: "string" where
  "parameter_named = ''<parameter name='' @ [dquote]"

definition parameter_action :: "string list \<Rightarrow> string \<Rightarrow> (string \<times> string) option" where
  "parameter_action known line =
     (let eq = (if has_prefix line ''<parameter='' then
                  (case str_index line ''>'' of
                     Some e \<Rightarrow>
                       let v = take (e - 11) (drop 11 line) in
                       if 11 \<le> e \<and> v \<in> set known then Some (v, drop (e + 1) line) else None
                   | None \<Rightarrow> None)
                else None) in
      if eq \<noteq> None then eq
      else if has_prefix line parameter_named then
        (let tail = drop (length parameter_named) line in
         case str_index tail (dquote # ''>'') of
           Some e \<Rightarrow> if take e tail \<in> set known then Some (take e tail, drop (e + 2) tail) else None
         | None \<Rightarrow> None)
      else None)"

fun angle_action :: "string list \<Rightarrow> string \<Rightarrow> (string \<times> string) option" where
  "angle_action [] line = None"
| "angle_action (v # vs) line =
     (if has_prefix line (''<'' @ v @ ''>'') then Some (v, drop (length v + 2) line)
      else if has_prefix line (''<'' @ v @ '' '') then Some (v, drop (length v + 2) line)
      else angle_action vs line)"

text \<open>Exactly two members, \<open>action\<close> and \<open>argument\<close>; equal keys count once.\<close>

definition json_action :: "string list \<Rightarrow> string \<Rightarrow> (string \<times> string) option" where
  "json_action known line =
     (case Option.bind (json_parse line) json_members of
        None \<Rightarrow> None
      | Some ms \<Rightarrow>
          if length (remdups (map fst ms)) \<noteq> 2 then None
          else
            (case (Option.bind (last_member ''action'' ms) json_string,
                   Option.bind (last_member ''argument'' ms) json_string) of
               (Some action, Some argument) \<Rightarrow> if action \<in> set known then Some (action, argument) else None
             | _ \<Rightarrow> None))"

section \<open>The scan\<close>

definition known_verbs :: "string list \<Rightarrow> string list" where
  "known_verbs names = ''answer'' # names"

text \<open>One line, with the lines after it: an action, or on with the scan.\<close>

definition line_action :: "string list \<Rightarrow> string \<Rightarrow> string list \<Rightarrow> (string \<times> string) option" where
  "line_action known raw later =
     (let line0 = trim_space raw; line = strip_action_prefix known line0;
          v = fst (str_cut line '' ''); rest = fst (snd (str_cut line '' '')) in
      case json_action known line0 of
        Some va \<Rightarrow> Some va
      | None \<Rightarrow>
          if v \<in> set known then
            (let a = strip_argument_wrappers rest; b = pickup_argument later in
             if a \<noteq> [] \<or> v = ''answer'' \<or> trim_space rest = [] then Some (v, a)
             else if b \<noteq> [] then Some (v, b) else None)
          else
            (case parameter_action known line of
               Some (p, body) \<Rightarrow>
                 (let a = strip_parameter_close (strip_argument_wrappers body); b = pickup_argument later in
                  if a \<noteq> [] then Some (p, a) else if b \<noteq> [] then Some (p, b) else None)
             | None \<Rightarrow>
                 (case angle_action known line of
                    Some (t, body) \<Rightarrow>
                      (let a = strip_argument_wrappers (strip_verb_close body t); b = pickup_argument later in
                       if a \<noteq> [] then Some (t, a)
                       else if t \<noteq> ''answer'' \<and> b \<noteq> [] then Some (t, b) else None)
                  | None \<Rightarrow> None)))"

fun scan_lines :: "string list \<Rightarrow> string list \<Rightarrow> (string \<times> string) option" where
  "scan_lines known [] = None"
| "scan_lines known (raw # later) =
     (case line_action known raw later of Some va \<Rightarrow> Some va | None \<Rightarrow> scan_lines known later)"

definition parse_action :: "string list \<Rightarrow> string \<Rightarrow> string \<times> string" where
  "parse_action names reply =
     (case scan_lines (known_verbs names) (split_on (CHR 0x0A) reply) of Some va \<Rightarrow> va | None \<Rightarrow> ([], reply))"

section \<open>What is recognised\<close>

lemma angle_action_known: "angle_action vs line = Some (v, r) \<Longrightarrow> v \<in> set vs"
  by (induction vs) (auto split: if_splits)

lemma parameter_action_known: "parameter_action known line = Some (v, r) \<Longrightarrow> v \<in> set known"
  by (auto simp: parameter_action_def Let_def split: if_splits option.splits)

lemma json_action_known: "json_action known line = Some (v, a) \<Longrightarrow> v \<in> set known"
  by (auto simp: json_action_def split: if_splits option.splits)

lemma line_action_known: "line_action known raw later = Some (v, a) \<Longrightarrow> v \<in> set known"
  by (auto simp: line_action_def Let_def dest: angle_action_known parameter_action_known json_action_known
      split: if_splits option.splits)

lemma scan_lines_known: "scan_lines known ls = Some (v, a) \<Longrightarrow> v \<in> set known"
  by (induction ls) (auto dest: line_action_known split: option.splits)

text \<open>Only known verbs come out of a reply: the parsed verb is \<open>answer\<close> or the name of a tool, or
  nothing was recognised and the whole reply is handed on as a malformed attempt.\<close>

theorem parse_action_known:
  "fst (parse_action names reply) \<in> insert ''answer'' (set names) \<or> parse_action names reply = ([], reply)"
  using scan_lines_known [of "known_verbs names" "split_on (CHR 0x0A) reply"]
  by (auto simp: parse_action_def known_verbs_def split: option.splits)

section \<open>Order of the verbs\<close>

text \<open>Verbs without a blank and a closing bracket.\<close>

definition clean_verb :: "string \<Rightarrow> bool" where
  "clean_verb v \<longleftrightarrow> v \<noteq> [] \<and> CHR '' '' \<notin> set v \<and> CHR ''>'' \<notin> set v"

definition opens :: "string \<Rightarrow> string \<Rightarrow> bool" where
  "opens line v \<longleftrightarrow> has_prefix line (''<'' @ v @ ''>'') \<or> has_prefix line (''<'' @ v @ '' '')"

lemma opens_unique:
  assumes "opens line v" "opens line w" "clean_verb v" "clean_verb w"
  shows "v = w"
proof -
  let ?stop = "\<lambda>c. c \<noteq> CHR '' '' \<and> c \<noteq> CHR ''>''"
  have tw: "takeWhile ?stop (tl line) = u" if op: "opens line u" and cl: "clean_verb u" for u
  proof -
    have u: "\<forall>x \<in> set u. ?stop x" using cl by (auto simp: clean_verb_def)
    consider t where "line = ''<'' @ u @ ''>'' @ t" | t where "line = ''<'' @ u @ '' '' @ t"
      using op by (auto simp: opens_def has_prefix_iff)
    then show ?thesis using u by cases (auto simp: takeWhile_append)
  qed
  show ?thesis using tw [OF assms(1,3)] tw [OF assms(2,4)] by simp
qed

lemma angle_action_iff:
  assumes "\<forall>v \<in> set vs. clean_verb v"
  shows "angle_action vs line = Some (v, r) \<longleftrightarrow> v \<in> set vs \<and> opens line v \<and> r = drop (length v + 2) line"
  using assms
proof (induction vs)
  case (Cons w vs)
  show ?case
  proof (cases "opens line w")
    case True
    then have "angle_action (w # vs) line = Some (w, drop (length w + 2) line)"
      by (auto simp: opens_def)
    then show ?thesis using opens_unique [OF True, of v] True Cons.prems by auto
  next
    case False
    then have "angle_action (w # vs) line = angle_action vs line" by (auto simp: opens_def)
    with False Cons show ?thesis by auto
  qed
qed simp

lemma angle_action_order:
  assumes "set vs = set ws" "\<forall>v \<in> set vs. clean_verb v"
  shows "angle_action vs line = angle_action ws line"
proof -
  have "angle_action vs line = Some x \<longleftrightarrow> angle_action ws line = Some x" for x
    using angle_action_iff [of vs line "fst x" "snd x"] angle_action_iff [of ws line "fst x" "snd x"] assms by simp
  then show ?thesis by (metis option.exhaust)
qed

lemma line_action_order:
  assumes "set vs = set ws" "\<forall>v \<in> set vs. clean_verb v"
  shows "line_action vs raw later = line_action ws raw later"
proof -
  have eqs: "json_action vs = json_action ws" "parameter_action vs = parameter_action ws"
    "starts_known_verb vs = starts_known_verb ws" "angle_action vs = angle_action ws"
    unfolding json_action_def parameter_action_def starts_known_verb_def assms(1) using angle_action_order [OF assms]
    by auto
  show ?thesis unfolding line_action_def strip_action_prefix_def assms(1) eqs by (rule refl)
qed

text \<open>C35: The parser does not depend on the order in which Go happens to walk the map of tools: with
  names without a blank and a closing bracket, any two listings of the same tools read every
  reply alike.\<close>

theorem parse_action_order:
  assumes "set names = set names'" and "\<forall>v \<in> set names. clean_verb v"
  shows "parse_action names reply = parse_action names' reply"
proof -
  have k: "set (known_verbs names) = set (known_verbs names')" "\<forall>v \<in> set (known_verbs names). clean_verb v"
    using assms by (auto simp: known_verbs_def clean_verb_def)
  have "scan_lines (known_verbs names) ls = scan_lines (known_verbs names') ls" for ls
    by (induction ls) (simp_all add: line_action_order [OF k] split: option.split)
  then show ?thesis by (simp add: parse_action_def)
qed

theorem parse_action_order_witness:
  "parse_action [''run'', ''read_file''] ''<run ls>'' = parse_action [''read_file'', ''run''] ''<run ls>''"
  by (rule parse_action_order) (auto simp: clean_verb_def)

section \<open>The documented form\<close>

text \<open>A line that cannot be an action: its first word is no verb, and it opens no tag, escape or
  object.\<close>

definition inert :: "string list \<Rightarrow> string \<Rightarrow> bool" where
  "inert names raw \<longleftrightarrow>
     (let line = trim_space raw in
      fst (str_cut line '' '') \<notin> insert ''answer'' (set names)
      \<and> (line = [] \<or> hd line \<notin> {CHR ''<'', CHR ''{'', backslash}))"

lemma no_prefix_strip: "line = [] \<or> hd line \<notin> {CHR ''<'', backslash} \<Longrightarrow> strip_action_prefix known line = line"
  by (cases line) (auto simp: strip_action_prefix_def action_prefixes_def)

lemma no_json:
  assumes "line = [] \<or> hd line \<noteq> CHR ''{'' \<and> \<not> json_space (hd line)"
  shows "json_action known line = None"
proof -
  have "json_parse line \<noteq> Some (JObj ms)" for ms
  proof
    assume "json_parse line = Some (JObj ms)"
    from json_parse_object [OF this] obtain pre r where "line = pre @ CHR ''{'' # r" "list_all json_space pre" by auto
    with assms show False by (cases pre) auto
  qed
  then have "Option.bind (json_parse line) json_members \<in> {None, Some []}"
    by (cases "json_parse line") (auto simp: json_members_def split: json.splits)
  then show ?thesis by (auto simp: json_action_def)
qed

lemma trimmed_hd: "trim_space s \<noteq> [] \<Longrightarrow> \<not> is_space (hd (trim_space s))"
proof -
  assume ne: "trim_space s \<noteq> []"
  let ?t = "dropWhile is_space s"
  obtain u where u: "?t = trim_space s @ u"
    by (metis trim_space_def trim_left_by_def trim_right_by_def rev_append rev_rev_ident takeWhile_dropWhile_id)
  then have "?t \<noteq> []" using ne by auto
  then have "\<not> is_space (hd ?t)" by (rule hd_dropWhile)
  then show ?thesis using u ne by simp
qed

lemma no_parameter: "line = [] \<or> hd line \<noteq> CHR ''<'' \<Longrightarrow> parameter_action known line = None"
  by (cases line) (auto simp: parameter_action_def parameter_named_def)

lemma no_angle: "line = [] \<or> hd line \<noteq> CHR ''<'' \<Longrightarrow> angle_action known line = None"
  by (induction known) (cases line; auto)+

lemma inert_line:
  assumes "inert names raw"
  shows "line_action (known_verbs names) raw later = None"
proof -
  let ?l = "trim_space raw"
  have l: "?l = [] \<or> hd ?l \<noteq> CHR ''<'' \<and> hd ?l \<noteq> CHR ''{'' \<and> hd ?l \<noteq> backslash" "fst (str_cut ?l '' '') \<notin> set (known_verbs names)"
    using assms by (auto simp: inert_def Let_def known_verbs_def)
  moreover have "json_action (known_verbs names) ?l = None"
    using l(1) trimmed_hd [of raw] by (intro no_json) (auto simp: json_space_def is_space_def)
  ultimately show ?thesis
    using no_prefix_strip [of ?l] no_parameter [of ?l] no_angle [of ?l] by (auto simp: line_action_def Let_def)
qed

definition plain_arg :: "string \<Rightarrow> bool" where
  "plain_arg a \<longleftrightarrow>
     a \<noteq> [] \<and> trim_space a = a \<and> CHR 0x0A \<notin> set a \<and> (\<forall>tag \<in> set argument_tags. \<not> str_contains a tag)"

definition plain_verb :: "string \<Rightarrow> bool" where
  "plain_verb v \<longleftrightarrow> v \<noteq> [] \<and> (\<forall>c \<in> set v. \<not> is_space c) \<and> hd v \<notin> {CHR ''<'', CHR ''{'', backslash}"

lemma strip_plain: "plain_arg a \<Longrightarrow> strip_argument_wrappers a = a"
  by (simp add: plain_arg_def strip_argument_wrappers_def argument_tags_def replace_all_none)

lemma trimmed_last:
  assumes "trim_space s = s" "s \<noteq> []"
  shows "\<not> is_space (last s)"
proof -
  let ?r = "dropWhile is_space (rev (dropWhile is_space s))"
  have s: "s = rev ?r" using assms(1) by (simp add: trim_space_def trim_left_by_def trim_right_by_def)
  then have "?r \<noteq> []" using assms(2) by (metis rev.simps(1))
  then have "\<not> is_space (hd ?r)" by (rule hd_dropWhile)
  moreover have "last s = hd ?r" using s by (metis hd_rev rev_rev_ident)
  ultimately show ?thesis by simp
qed

lemma cut_at_blank: "CHR '' '' \<notin> set v \<Longrightarrow> str_cut (v @ '' '' @ a) '' '' = (v, a, True)"
proof -
  assume "CHR '' '' \<notin> set v"
  then have "str_index (v @ '' '' @ a) '' '' = Some (length v)"
    by (induction v) (auto simp del: str_index.simps simp: str_index.simps(2))
  then show ?thesis by (simp add: str_cut_def)
qed

lemma plain_line:
  assumes "plain_verb v" "v \<in> set (known_verbs names)" "plain_arg a"
  shows "line_action (known_verbs names) (v @ '' '' @ a) later = Some (v, a)"
proof -
  let ?l = "v @ '' '' @ a"
  have v: "v \<noteq> []" "\<not> is_space (hd v)" "hd v \<noteq> CHR ''<''" "hd v \<noteq> CHR ''{''" "hd v \<noteq> backslash"
    using assms(1) by (simp_all add: plain_verb_def)
  have a: "a \<noteq> []" "\<not> is_space (last a)"
    using assms(3) trimmed_last [of a] by (simp_all add: plain_arg_def)
  have h: "hd ?l = hd v" "last ?l = last a" "?l \<noteq> []" using v(1) a(1) by simp_all
  have t: "trim_space ?l = ?l" by (rule trim_space_id) (simp_all only: h v a not_False_eq_True)
  have "\<not> json_space (hd v)" using v(2) by (auto simp: json_space_def is_space_def)
  then have j: "json_action (known_verbs names) ?l = None"
    by (intro no_json disjI2) (simp only: h v simp_thms)
  have p: "strip_action_prefix (known_verbs names) ?l = ?l"
    by (rule no_prefix_strip) (use v in \<open>simp add: h\<close>)
  have c: "str_cut ?l '' '' = (v, a, True)"
    using assms(1) by (intro cut_at_blank) (auto simp: plain_verb_def is_space_def)
  show ?thesis
    unfolding line_action_def Let_def t p c j fst_conv snd_conv strip_plain [OF assms(3)]
    using assms(2) a(1) by simp
qed

text \<open>The first action wins and is read exactly. A reply of lines that cannot be actions, then a
  verb, a blank and an argument, then anything, is read as that verb with that argument.\<close>

theorem parse_action_plain:
  assumes "plain_verb v" and "v \<in> insert ''answer'' (set names)" and "plain_arg a"
    and "\<forall>l \<in> set pre. inert names l \<and> CHR 0x0A \<notin> set l" and "\<forall>l \<in> set post. CHR 0x0A \<notin> set l"
  shows "parse_action names (str_join (pre @ [v @ '' '' @ a] @ post) nl) = (v, a)"
proof -
  let ?ls = "pre @ [v @ '' '' @ a] @ post"
  have "\<forall>l \<in> set ?ls. CHR 0x0A \<notin> set l"
    using assms by (auto simp: plain_verb_def plain_arg_def is_space_def)
  then have "split_on (CHR 0x0A) (str_join ?ls nl) = ?ls"
    unfolding nl_def by (intro split_on_join) auto
  moreover have "scan_lines (known_verbs names) ?ls = Some (v, a)"
    using assms(4)
  proof (induction pre)
    case Nil
    then show ?case using plain_line [OF assms(1) _ assms(3), of names post] assms(2) by (simp add: known_verbs_def)
  next
    case (Cons l pre)
    then show ?case using inert_line [of names l] by simp
  qed
  ultimately show ?thesis by (simp add: parse_action_def)
qed

theorem parse_action_plain_witness:
  "parse_action [''run''] (str_join [''I will list the files.'', ''run ls -l'', ''answer done''] nl) = (''run'', ''ls -l'')"
proof -
  have "plain_verb ''run''" "plain_arg ''ls -l''" "inert [''run''] ''I will list the files.''" by code_simp+
  then show ?thesis
    using parse_action_plain [of "''run''" "[''run'']" "''ls -l''" "[''I will list the files.'']" "[''answer done'']"]
    by simp
qed

end
