(* ===== verification/Glob.thy ===== *)
theory Glob
  imports GoPath
begin

text \<open>
  \<open>path.Match\<close> of the Go standard library, by its own algorithm: the pattern is cut into
  chunks at the stars, a chunk is matched greedily, and after a star the leftmost position
  that works is taken. The code ignores the error of a malformed pattern, so the result here
  is a truth value, false for a malformed pattern.
\<close>

datatype chunk_result = BadPattern | NoMatch | Matched string

fun drop_stars :: "string \<Rightarrow> bool \<times> string" where
  "drop_stars [] = (False, [])"
| "drop_stars (c # p) = (if c = CHR ''*'' then (True, snd (drop_stars p)) else (False, c # p))"

text \<open>The length of the first chunk: up to a star outside a character class; an escaped
  character is skipped.\<close>

fun chunk_len :: "bool \<Rightarrow> string \<Rightarrow> nat" where
  "chunk_len in_range [] = 0"
| "chunk_len in_range [c] =
     (if c = CHR ''*'' \<and> \<not> in_range then 0 else 1)"
| "chunk_len in_range (c # d # p) =
     (if c = backslash then 2 + chunk_len in_range p
      else if c = CHR ''['' then 1 + chunk_len True (d # p)
      else if c = CHR '']'' then 1 + chunk_len False (d # p)
      else if c = CHR ''*'' \<and> \<not> in_range then 0
      else 1 + chunk_len in_range (d # p))"

definition scan_chunk :: "string \<Rightarrow> bool \<times> string \<times> string" where
  "scan_chunk p =
     (let (star, q) = drop_stars p; n = chunk_len False q in (star, take n q, drop n q))"

definition get_esc :: "string \<Rightarrow> (char \<times> string) option" where
  "get_esc ch =
     (case ch of
        [] \<Rightarrow> None
      | c # p \<Rightarrow>
          if c = CHR ''-'' \<or> c = CHR '']'' then None
          else if c = backslash then
            (case p of [] \<Rightarrow> None | d # q \<Rightarrow> if q = [] then None else Some (d, q))
          else if p = [] then None else Some (c, p))"

lemma get_esc_shorter: "get_esc ch = Some (c, r) \<Longrightarrow> length r < length ch \<and> r \<noteq> []"
  by (auto simp: get_esc_def split: list.splits if_splits)

definition in_range :: "char \<Rightarrow> char \<Rightarrow> char option \<Rightarrow> bool" where
  "in_range lo hi r =
     (case r of None \<Rightarrow> False
      | Some c \<Rightarrow> (of_char lo :: nat) \<le> of_char c \<and> (of_char c :: nat) \<le> of_char hi)"

text \<open>One range of a character class: a character, or two with a dash between.\<close>

definition class_item :: "string \<Rightarrow> (char \<times> char \<times> string) option" where
  "class_item ch =
     (case get_esc ch of
        None \<Rightarrow> None
      | Some (lo, ch1) \<Rightarrow>
          if hd ch1 = CHR ''-'' then
            (case get_esc (tl ch1) of None \<Rightarrow> None | Some (hi, ch2) \<Rightarrow> Some (lo, hi, ch2))
          else Some (lo, lo, ch1))"

lemma class_item_shorter: "class_item ch = Some (lo, hi, r) \<Longrightarrow> length r < length ch"
proof -
  assume c: "class_item ch = Some (lo, hi, r)"
  then obtain l ch1 where g: "get_esc ch = Some (l, ch1)"
    by (auto simp: class_item_def split: option.splits)
  have l1: "length ch1 < length ch" and ne: "ch1 \<noteq> []" using get_esc_shorter [OF g] by auto
  show ?thesis
  proof (cases "hd ch1 = CHR ''-''")
    case True
    with c g obtain h where "get_esc (tl ch1) = Some (h, r)"
      by (auto simp: class_item_def split: option.splits)
    then have "length r < length (tl ch1)" using get_esc_shorter by blast
    with l1 ne show ?thesis by simp
  next
    case False
    with c g l1 show ?thesis by (auto simp: class_item_def)
  qed
qed

text \<open>The ranges up to the closing bracket; the result is whether one of them holds the
  character, and the rest of the chunk. \<open>r\<close> is \<open>None\<close> once the match has failed.\<close>

function class_loop :: "string \<Rightarrow> char option \<Rightarrow> bool \<Rightarrow> bool \<Rightarrow> (bool \<times> string) option" where
  "class_loop ch r matched some_range =
     (if ch \<noteq> [] \<and> hd ch = CHR '']'' \<and> some_range then Some (matched, tl ch)
      else
        (case class_item ch of
           None \<Rightarrow> None
         | Some (lo, hi, rest) \<Rightarrow> class_loop rest r (matched \<or> in_range lo hi r) True))"
  by pat_completeness auto
termination
  by (relation "measure (\<lambda>(ch, _). length ch)") (auto dest: class_item_shorter)

declare class_loop.simps [simp del]

lemma class_loop_Nil [simp]: "class_loop [] r m b = None"
  by (simp add: class_loop.simps [of "[]"] class_item_def get_esc_def)

lemma class_loop_shorter: "class_loop ch r m b = Some (m', rest) \<Longrightarrow> length rest < length ch"
proof (induction ch r m b rule: class_loop.induct)
  case (1 ch r m b)
  then have ne: "ch \<noteq> []" by auto
  show ?case
  proof (cases "hd ch = CHR '']'' \<and> b")
    case True
    with 1 ne show ?thesis by (auto simp: class_loop.simps [of ch])
  next
    case False
    with "1.prems" obtain lo hi rest' where item: "class_item ch = Some (lo, hi, rest')"
        and rec: "class_loop rest' r (m \<or> in_range lo hi r) True = Some (m', rest)"
      by (auto simp: class_loop.simps [of ch] split: option.splits)
    with "1.IH" [OF _ item _ _ rec] False have "length rest < length rest'" by auto
    with class_item_shorter [OF item] show ?thesis by simp
  qed
qed

text \<open>Matching one chunk at the front of a name.\<close>

function match_chunk :: "string \<Rightarrow> string \<Rightarrow> bool \<Rightarrow> chunk_result" where
  "match_chunk ch s failed =
     (if ch = [] then (if failed then NoMatch else Matched s)
      else
        (let failed = (failed \<or> s = []); c = hd ch; p = tl ch in
         if c = CHR ''['' then
           (let r = (if failed then None else Some (hd s)); s' = (if failed then s else tl s);
                neg = (p \<noteq> [] \<and> hd p = CHR ''^''); p' = (if neg then tl p else p) in
            (case class_loop p' r False False of
               None \<Rightarrow> BadPattern
             | Some (m, rest) \<Rightarrow> match_chunk rest s' (failed \<or> m = neg)))
         else if c = CHR ''?'' then
           match_chunk p (if failed then s else tl s) (failed \<or> hd s = slash)
         else if c = backslash then
           (if p = [] then BadPattern
            else match_chunk (tl p) (if failed then s else tl s) (failed \<or> hd p \<noteq> hd s))
         else match_chunk p (if failed then s else tl s) (failed \<or> c \<noteq> hd s)))"
  by pat_completeness auto
termination
proof (relation "measure (\<lambda>(ch, _). length ch)", goal_cases)
  case (2 ch s failed x xa xb xc xd xe xf xg xh)
  then show ?case
    by (auto dest!: class_loop_shorter split: if_splits)
qed auto

declare match_chunk.simps [simp del]

text \<open>After a star: the leftmost position reached without crossing a slash at which the
  chunk matches (and, for the last chunk, uses up the name).\<close>

fun star_search :: "string \<Rightarrow> bool \<Rightarrow> string \<Rightarrow> chunk_result" where
  "star_search ch is_last [] = NoMatch"
| "star_search ch is_last (c # name) =
     (if c = slash then NoMatch
      else (case match_chunk ch name False of
              Matched t \<Rightarrow> if is_last \<and> t \<noteq> [] then star_search ch is_last name else Matched t
            | NoMatch \<Rightarrow> star_search ch is_last name
            | BadPattern \<Rightarrow> BadPattern))"

lemma drop_stars_le: "length (snd (drop_stars p)) \<le> length p"
  by (induction p) auto

lemma drop_stars_star: "fst (drop_stars p) \<Longrightarrow> length (snd (drop_stars p)) < length p"
  by (cases p) (auto simp: less_Suc_eq_le drop_stars_le split: if_splits)

lemma chunk_len_pos: "p \<noteq> [] \<Longrightarrow> hd p \<noteq> CHR ''*'' \<Longrightarrow> 0 < chunk_len False p"
  by (cases p; cases "tl p") auto

lemma drop_stars_head: "snd (drop_stars p) \<noteq> [] \<Longrightarrow> hd (snd (drop_stars p)) \<noteq> CHR ''*''"
  by (induction p) auto

lemma scan_chunk_shorter: "p \<noteq> [] \<Longrightarrow> scan_chunk p = (star, ch, rest) \<Longrightarrow> length rest < length p"
proof -
  assume p: "p \<noteq> []" and sc: "scan_chunk p = (star, ch, rest)"
  let ?q = "snd (drop_stars p)"
  have rest: "rest = drop (chunk_len False ?q) ?q" and star: "star = fst (drop_stars p)"
    using sc by (auto simp: scan_chunk_def Let_def split: prod.splits)
  show ?thesis
  proof (cases "fst (drop_stars p)")
    case True
    then have "length ?q < length p" by (rule drop_stars_star)
    then show ?thesis using rest by simp
  next
    case False
    then have "?q = p" using p by (cases p) (auto split: if_splits)
    moreover have "0 < chunk_len False p"
      using p False by (intro chunk_len_pos) (auto simp: neq_Nil_conv)
    ultimately show ?thesis using rest p by simp
  qed
qed

function glob_match :: "string \<Rightarrow> string \<Rightarrow> bool" where
  "glob_match p name =
     (if p = [] then name = []
      else
        (let (star, ch, rest) = scan_chunk p in
         if star \<and> ch = [] then slash \<notin> set name
         else
           (case match_chunk ch name False of
              BadPattern \<Rightarrow> False
            | m \<Rightarrow>
              (case m of
                 Matched t \<Rightarrow>
                   if t = [] \<or> rest \<noteq> [] then glob_match rest t
                   else if star then
                     (case star_search ch (rest = []) name of Matched u \<Rightarrow> glob_match rest u | _ \<Rightarrow> False)
                   else False
               | _ \<Rightarrow>
                   if star then
                     (case star_search ch (rest = []) name of Matched u \<Rightarrow> glob_match rest u | _ \<Rightarrow> False)
                   else False))))"
  by pat_completeness auto
termination
  by (relation "measure (\<lambda>(p, _). length p)") (auto dest: scan_chunk_shorter [OF _ sym])

declare glob_match.simps [simp del]

section \<open>Patterns without special characters\<close>

definition literal :: "string \<Rightarrow> bool" where
  "literal p \<longleftrightarrow> (\<forall>c \<in> set p. c \<noteq> CHR ''*'' \<and> c \<noteq> CHR ''?'' \<and> c \<noteq> CHR ''['' \<and> c \<noteq> backslash)"

lemma chunk_len_literal: "literal p \<Longrightarrow> chunk_len b p = length p"
  by (induction b p rule: chunk_len.induct) (auto simp: literal_def)

lemma match_chunk_failed: "literal p \<Longrightarrow> match_chunk p s True = NoMatch"
proof (induction p arbitrary: s)
  case Nil
  then show ?case by (simp add: match_chunk.simps)
next
  case (Cons c p)
  then show ?case by (simp add: match_chunk.simps [of "c # p"] literal_def)
qed

lemma match_chunk_literal:
  "literal p \<Longrightarrow> match_chunk p s False = (if has_prefix s p then Matched (drop (length p) s) else NoMatch)"
proof (induction p arbitrary: s)
  case Nil
  then show ?case by (simp add: match_chunk.simps)
next
  case (Cons c p)
  then have lit: "literal p" and c: "c \<noteq> CHR ''?''" "c \<noteq> CHR ''[''" "c \<noteq> backslash"
    by (auto simp: literal_def)
  show ?case
  proof (cases s)
    case Nil
    with c lit show ?thesis
      by (simp add: match_chunk.simps [of "c # p"] match_chunk_failed)
  next
    case (Cons d t)
    then have "match_chunk (c # p) s False = match_chunk p t (c \<noteq> d)"
      using c by (simp add: match_chunk.simps [of "c # p"])
    then show ?thesis
      using Cons lit Cons.IH [OF lit] by (cases "c = d") (simp_all add: match_chunk_failed)
  qed
qed

lemma drop_stars_literal: "literal p \<Longrightarrow> drop_stars p = (False, p)"
  by (cases p) (auto simp: literal_def)

lemma glob_literal: "literal p \<Longrightarrow> glob_match p name \<longleftrightarrow> name = p"
proof -
  assume lit: "literal p"
  then have sc: "scan_chunk p = (False, p, [])"
    by (simp add: scan_chunk_def drop_stars_literal chunk_len_literal)
  show ?thesis
    by (subst glob_match.simps)
       (auto simp: sc match_chunk_literal [OF lit] glob_match.simps [of "[]"] has_prefix_iff)
qed

lemma star_search_suffix:
  assumes "literal p" and "slash \<notin> set name"
  shows "star_search p True name = (if \<exists>w c. name = c # w @ p then Matched [] else NoMatch)"
  using assms(2)
proof (induction name)
  case Nil
  then show ?case by simp
next
  case (Cons d name)
  then have d: "d \<noteq> slash" and IH: "star_search p True name = (if \<exists>w c. name = c # w @ p then Matched [] else NoMatch)"
    by auto
  have step: "(\<exists>w c. d # name = c # w @ p) \<longleftrightarrow> name = p \<or> (\<exists>w c. name = c # w @ p)"
  proof -
    have "(\<exists>w. name = w @ p) \<longleftrightarrow> name = p \<or> (\<exists>w c. name = c # w @ p)"
      by (metis append_Cons append_Nil list.exhaust)
    then show ?thesis by auto
  qed
  show ?case
  proof (cases "has_prefix name p")
    case True
    then have "name = p @ drop (length p) name" by (rule has_prefix_take)
    then have "drop (length p) name = [] \<longleftrightarrow> name = p" by (metis append_Nil2 append_self_conv)
    with True d IH step show ?thesis
      by (auto simp: match_chunk_literal [OF assms(1)] simp del: drop_eq_Nil drop_eq_Nil2)
  next
    case False
    then have "name \<noteq> p" by (auto simp: has_prefix_iff)
    with False d IH step show ?thesis
      by (auto simp: match_chunk_literal [OF assms(1)])
  qed
qed

text \<open>A star in front of a plain suffix matches exactly the names, without a slash, that end
  in it: the shape of the canonical fence \<open>*_test.go\<close>.\<close>

lemma glob_star_suffix:
  assumes lit: "literal p" and ne: "p \<noteq> []" and name: "slash \<notin> set name"
  shows "glob_match (CHR ''*'' # p) name \<longleftrightarrow> has_suffix name p"
proof -
  have sc: "scan_chunk (CHR ''*'' # p) = (True, p, [])"
    by (simp add: scan_chunk_def drop_stars_literal [OF lit] chunk_len_literal [OF lit])
  have suffix: "has_suffix name p \<longleftrightarrow> name = p \<or> (\<exists>w c. name = c # w @ p)"
    unfolding has_suffix_iff by (metis append_Cons append_Nil list.exhaust)
  show ?thesis
  proof (cases "name = p")
    case True
    then show ?thesis
      using suffix ne
      by (subst glob_match.simps)
         (simp add: sc match_chunk_literal [OF lit] glob_match.simps [of "[]"] has_prefix_iff)
  next
    case False
    then have "has_prefix name p \<Longrightarrow> drop (length p) name \<noteq> []"
      by (metis append_Nil2 has_prefix_take)
    with False suffix ne show ?thesis
      by (subst glob_match.simps)
         (auto simp: sc match_chunk_literal [OF lit] glob_match.simps [of "[]"]
           star_search_suffix [OF lit name] simp del: drop_eq_Nil drop_eq_Nil2)
  qed
qed

end
