(* ===== verification/FenceScope.thy ===== *)
theory FenceScope
  imports Glob GoText Sandbox "HOL-Library.AList"
begin

text \<open>
  \<open>agent/fence.go\<close>: the test fence (paths the solver may not change) and the diff scope
  (the only paths it may change). Path normalisation and the two matchers; the walk that
  snapshots the fenced files, its comparison with the state at a closing gate (drift) and the
  restoration; the refusals the mutation tools are wrapped in; the substance signals of a
  diff.

  A walk lists and reads through the sandbox. Its answers are a finite tree: what
  \<open>ListDir\<close> says of a directory (an error or its entries in order) and what the bounded
  and the full read say of a file. The hash function is a parameter.
\<close>

section \<open>Path normalisation and matching\<close>

text \<open>\<open>sandboxAlias\<close>: the reported working directory without its final slash.\<close>

definition sandbox_alias :: "string option \<Rightarrow> string" where
  "sandbox_alias wd = (case wd of Some d \<Rightarrow> trim_suffix d [slash] | None \<Rightarrow> [])"

definition fence_rel_path :: "string \<Rightarrow> string \<Rightarrow> string" where
  "fence_rel_path al path =
     (let p = trim_space path;
          p = (if al \<noteq> [] then
                 (if p = al then dot
                  else if has_prefix p (al @ [slash]) then drop (length al + 1) p else p)
               else p)
      in trim_prefix (path_clean p) (dot @ [slash]))"

definition deep_suffix :: string where "deep_suffix = slash # ''**''"

definition fence_glob_matches :: "string \<Rightarrow> string \<Rightarrow> bool" where
  "fence_glob_matches g0 p =
     (let g = trim_space g0 in
      if g = [] then False
      else (case cut_suffix g deep_suffix of
          Some d \<Rightarrow> has_prefix p (d @ [slash]) \<or> str_contains p (slash # d @ [slash])
        | None \<Rightarrow>
            if \<not> str_contains g [slash] then glob_match g (path_base p)
            else glob_match g p))"

definition matches_fence :: "string list \<Rightarrow> string \<Rightarrow> bool" where
  "matches_fence globs rel =
     (let p = trim_prefix (path_clean rel) (dot @ [slash]) in list_ex (\<lambda>g. fence_glob_matches g p) globs)"

definition scope_glob_matches :: "string \<Rightarrow> string \<Rightarrow> bool" where
  "scope_glob_matches g0 p =
     (let g = trim_space g0 in
      if g = [] then False
      else (case cut_suffix g deep_suffix of
          Some d \<Rightarrow> has_prefix p (d @ [slash])
        | None \<Rightarrow>
            if \<not> str_contains g [slash] then \<not> str_contains p [slash] \<and> glob_match g p
            else glob_match g p))"

definition matches_scope :: "string list \<Rightarrow> string \<Rightarrow> bool" where
  "matches_scope globs rel =
     (let p = trim_prefix (path_clean rel) (dot @ [slash]) in list_ex (\<lambda>g. scope_glob_matches g p) globs)"

section \<open>Snapshots\<close>

definition max_file_bytes :: nat where "max_file_bytes = 1048576"

text \<open>The sandbox's answers along a walk: a file with its bounded read (the bytes and whether
  the cap cut them) and its full read; a directory with its listing.\<close>

datatype fs_node =
    FileNode (node_name: string) "string + string \<times> bool" "string + string"
  | DirNode (node_name: string) "string + fs_node list"

record 'h fenced_file =
  ff_hash :: 'h
  ff_content :: "string option"
  ff_full_hash :: "'h option"
  ff_size :: nat

type_synonym 'h snapshot = "(string \<times> 'h fenced_file) list"

definition join_dir :: "string \<Rightarrow> string \<Rightarrow> string" where
  "join_dir dir name = (if dir \<noteq> dot \<and> dir \<noteq> [] then dir @ slash # name else name)"

definition snapshot_file ::
  "(string \<Rightarrow> 'h) \<Rightarrow> string \<Rightarrow> string + string \<times> bool \<Rightarrow> string + string \<Rightarrow> string + 'h fenced_file" where
  "snapshot_file sha p bounded full =
     (case bounded of
        Inl e \<Rightarrow> Inl (''read '' @ go_quote p @ '': '' @ e)
      | Inr (bytes, over_cap) \<Rightarrow>
          if \<not> over_cap then
            Inr \<lparr> ff_hash = sha bytes, ff_content = Some bytes, ff_full_hash = None, ff_size = 0 \<rparr>
          else (case full of
              Inl e \<Rightarrow> Inl (''read full '' @ go_quote p @ '': '' @ e)
            | Inr all \<Rightarrow>
                Inr \<lparr> ff_hash = sha bytes, ff_content = None, ff_full_hash = Some (sha all),
                      ff_size = length all \<rparr>))"

text \<open>\<open>walkFenced\<close>: entries in listing order, the git directory pruned, the first error
  ends the walk.\<close>

fun walk_nodes :: "(string \<Rightarrow> 'h) \<Rightarrow> string list \<Rightarrow> string \<Rightarrow> fs_node list \<Rightarrow> 'h snapshot \<Rightarrow> string + 'h snapshot"
  and walk_node :: "(string \<Rightarrow> 'h) \<Rightarrow> string list \<Rightarrow> string \<Rightarrow> fs_node \<Rightarrow> 'h snapshot \<Rightarrow> string + 'h snapshot"
where
  "walk_nodes sha globs dir [] out = Inr out"
| "walk_nodes sha globs dir (n # ns) out =
     (case walk_node sha globs dir n out of
        Inl e \<Rightarrow> Inl e
      | Inr out' \<Rightarrow> walk_nodes sha globs dir ns out')"
| "walk_node sha globs dir (FileNode name bounded full) out =
     (let p = join_dir dir name in
      if \<not> matches_fence globs p then Inr out
      else (case snapshot_file sha p bounded full of
              Inl e \<Rightarrow> Inl e
            | Inr ff \<Rightarrow> Inr (AList.update p ff out)))"
| "walk_node sha globs dir (DirNode name listing) out =
     (let p = join_dir dir name in
      if name = ''.git'' then Inr out
      else (case listing of
              Inl e \<Rightarrow> Inl (''list '' @ go_quote p @ '': '' @ e)
            | Inr ns \<Rightarrow> walk_nodes sha globs p ns out))"

definition walk_fenced ::
  "(string \<Rightarrow> 'h) \<Rightarrow> string list \<Rightarrow> (string + fs_node list) option \<Rightarrow> string + 'h snapshot" where
  "walk_fenced sha globs sb =
     (case sb of
        None \<Rightarrow> Inl ''no sandbox to walk''
      | Some (Inl e) \<Rightarrow> Inl (''list '' @ go_quote dot @ '': '' @ e)
      | Some (Inr ns) \<Rightarrow> walk_nodes sha globs dot ns [])"

record 'h fence_state =
  fn_globs :: "string list"
  fn_alias :: string
  fn_base :: "string + 'h snapshot"

definition new_fence_state ::
  "(string \<Rightarrow> 'h) \<Rightarrow> string list \<Rightarrow> string option \<Rightarrow> (string + fs_node list) option \<Rightarrow> 'h fence_state option" where
  "new_fence_state sha globs wd sb =
     (if globs = [] then None
      else Some \<lparr> fn_globs = globs, fn_alias = sandbox_alias wd, fn_base = walk_fenced sha globs sb \<rparr>)"

section \<open>Drift and restoration\<close>

definition file_mark :: "'h fenced_file \<Rightarrow> 'h \<times> 'h option \<times> nat" where
  "file_mark ff = (ff_hash ff, ff_full_hash ff, ff_size ff)"

definition drift_paths :: "'h snapshot \<Rightarrow> 'h snapshot \<Rightarrow> string list" where
  "drift_paths base cur =
     sort (filter (\<lambda>p. case (map_of base p, map_of cur p) of
                       (Some b, Some c) \<Rightarrow> file_mark b \<noteq> file_mark c
                     | _ \<Rightarrow> True) (map fst cur)
           @ filter (\<lambda>p. map_of cur p = None) (map fst base))"

definition drift_check ::
  "(string \<Rightarrow> 'h) \<Rightarrow> 'h fence_state option \<Rightarrow> (string + fs_node list) option \<Rightarrow> string + string list" where
  "drift_check sha f sb =
     (case f of
        None \<Rightarrow> Inr []
      | Some f \<Rightarrow>
          (case fn_base f of
             Inl e \<Rightarrow> Inl e
           | Inr base \<Rightarrow>
               (case walk_fenced sha (fn_globs f) sb of
                  Inl e \<Rightarrow> Inl e
                | Inr cur \<Rightarrow> Inr (drift_paths base cur))))"

definition drift ::
  "(string \<Rightarrow> 'h) \<Rightarrow> 'h fence_state option \<Rightarrow> (string + fs_node list) option \<Rightarrow> string list" where
  "drift sha f sb = (case drift_check sha f sb of Inl _ \<Rightarrow> [] | Inr ps \<Rightarrow> ps)"

definition fence_violated :: "string list \<Rightarrow> string list \<Rightarrow> string" where
  "fence_violated changed globs =
     ''test fence violated: '' @ str_join changed '', '' @ '' '' @ emdash @ '' fenced paths ('' @ str_join globs '',''
     @ '') are read-only for this run and were modified''"

text \<open>The reason string, empty when clean, or the error that made the fence unverifiable.\<close>

definition violation_check ::
  "(string \<Rightarrow> 'h) \<Rightarrow> 'h fence_state option \<Rightarrow> (string + fs_node list) option \<Rightarrow> string + string" where
  "violation_check sha f sb =
     (case drift_check sha f sb of
        Inl e \<Rightarrow> Inl e
      | Inr changed \<Rightarrow>
          if changed = [] then Inr []
          else Inr (fence_violated changed (case f of Some f \<Rightarrow> fn_globs f | None \<Rightarrow> [])))"

text \<open>\<open>restore\<close>: removing and writing act on the world and may fail.\<close>

fun restore ::
  "(string \<Rightarrow> 'w \<Rightarrow> string option \<times> 'w) \<Rightarrow> (string \<Rightarrow> string \<Rightarrow> 'w \<Rightarrow> string option \<times> 'w)
   \<Rightarrow> 'h snapshot \<Rightarrow> string list \<Rightarrow> 'w \<Rightarrow> string option \<times> 'w"
where
  "restore remove write base [] w = (None, w)"
| "restore remove write base (p # ps) w =
     (case map_of base p of
        None \<Rightarrow>
          (case remove p w of
             (Some e, w') \<Rightarrow> (Some (''remove '' @ go_quote p @ '': '' @ e), w')
           | (None, w') \<Rightarrow> restore remove write base ps w')
      | Some ff \<Rightarrow>
          (case ff_content ff of
             None \<Rightarrow> (Some (''cannot restore '' @ go_quote p @ '': file exceeded the ''
                        @ itoa (int max_file_bytes) @ ''-byte snapshot cap''), w)
           | Some bytes \<Rightarrow>
               (case write p bytes w of
                  (Some e, w') \<Rightarrow> (Some (''restore '' @ go_quote p @ '': '' @ e), w')
                | (None, w') \<Rightarrow> restore remove write base ps w')))"

section \<open>The tool layer\<close>

text \<open>A tool has a text handler and a JSON handler; either may be missing. Of the JSON
  argument the wrappers decode the path field.\<close>

record ('w, 'j) tool =
  t_run :: "(string \<Rightarrow> 'w \<Rightarrow> (string + string) \<times> 'w) option"
  t_run_json :: "('j \<Rightarrow> 'w \<Rightarrow> (string + string) \<times> 'w) option"

definition first_token :: "string \<Rightarrow> string" where
  "first_token arg = takeWhile (\<lambda>c. c \<noteq> CHR '' '' \<and> c \<noteq> CHR 0x09) arg"

definition fence_refusal :: "string \<Rightarrow> string list \<Rightarrow> string" where
  "fence_refusal p globs =
     ''refused: '' @ go_quote p @ '' matches the test fence ('' @ str_join globs '','' @ '') '' @ emdash
     @ '' test files are read-only for this task; make the NON-test code satisfy them instead of changing the tests''"

definition scope_refusal :: "string \<Rightarrow> string list \<Rightarrow> string" where
  "scope_refusal p globs =
     ''refused: '' @ go_quote p @ '' is outside the diff scope (allowed: '' @ str_join globs '','' @ '') '' @ emdash
     @ '' only edit files declared in this task's scope; choose an in-scope path or explain why the scope must be changed''"

definition clean_rel :: "string \<Rightarrow> string" where
  "clean_rel p = (let q = path_clean (trim_prefix p [slash]) in if q = dot then [] else q)"

definition safe_join :: "string \<Rightarrow> string \<Rightarrow> string + string \<times> string" where
  "safe_join rt p =
     (let rel = clean_rel p in
      if rel = [] \<or> escapes rel \<or> is_abs p then Inl ''path escapes workspace root''
      else Inr (rel, path_join rt rel))"

text \<open>A fenced path that does not exist yet may be created while a reproduction is wanted.\<close>

definition allow_repro_new :: "(string \<Rightarrow> 'w \<Rightarrow> bool) \<Rightarrow> bool \<Rightarrow> string \<Rightarrow> string \<Rightarrow> string \<Rightarrow> 'w \<Rightarrow> bool" where
  "allow_repro_new not_exist repro_first rt al p w =
     (if \<not> repro_first \<or> rt = [] then False
      else let rel = clean_rel (fence_rel_path al p) in
        if rel = [] \<or> has_prefix rel (dotdot @ [slash]) then False
        else not_exist (path_join rt rel) w)"

definition guard_tool ::
  "(string \<Rightarrow> 'w \<Rightarrow> string option) \<Rightarrow> ('j \<Rightarrow> string option) \<Rightarrow> ('w, 'j) tool \<Rightarrow> ('w, 'j) tool" where
  "guard_tool refuse json_path t =
     \<lparr> t_run = map_option (\<lambda>run arg w.
          case refuse (first_token arg) w of Some e \<Rightarrow> (Inl e, w) | None \<Rightarrow> run arg w) (t_run t),
       t_run_json = map_option (\<lambda>run raw w.
          case json_path raw of
            None \<Rightarrow> run raw w
          | Some p \<Rightarrow>
              if p = [] then run raw w
              else (case refuse p w of Some e \<Rightarrow> (Inl e, w) | None \<Rightarrow> run raw w)) (t_run_json t) \<rparr>"

definition mutation_tools :: "string list" where
  "mutation_tools = [''write_file'', ''edit_file'']"

definition guard_tools ::
  "(string \<Rightarrow> 'w \<Rightarrow> string option) \<Rightarrow> ('j \<Rightarrow> string option) \<Rightarrow> (string \<times> ('w, 'j) tool) list
   \<Rightarrow> (string \<times> ('w, 'j) tool) list" where
  "guard_tools refuse json_path tools =
     map (\<lambda>(name, t). (name, if name \<in> set mutation_tools then guard_tool refuse json_path t else t)) tools"

definition apply_test_fence ::
  "(string \<Rightarrow> 'w \<Rightarrow> bool) \<Rightarrow> ('j \<Rightarrow> string option) \<Rightarrow> string list \<Rightarrow> string \<Rightarrow> bool \<Rightarrow> string
   \<Rightarrow> (string \<times> ('w, 'j) tool) list \<Rightarrow> (string \<times> ('w, 'j) tool) list" where
  "apply_test_fence not_exist json_path globs al repro_first rt tools =
     (if globs = [] then tools
      else guard_tools
        (\<lambda>p w. if matches_fence globs (fence_rel_path al p) \<and> \<not> allow_repro_new not_exist repro_first rt al p w
               then Some (fence_refusal p globs) else None)
        json_path tools)"

definition apply_diff_scope ::
  "('j \<Rightarrow> string option) \<Rightarrow> string list \<Rightarrow> string \<Rightarrow> (string \<times> ('w, 'j) tool) list \<Rightarrow> (string \<times> ('w, 'j) tool) list" where
  "apply_diff_scope json_path globs al tools =
     (if globs = [] then tools
      else guard_tools
        (\<lambda>p w. if \<not> matches_scope globs (fence_rel_path al p) then Some (scope_refusal p globs) else None)
        json_path tools)"

section \<open>Substance signals\<close>

record signal_state =
  sg_out :: "string list"
  sg_file :: string
  sg_deleted :: "(string \<times> nat) list"

definition assertion_markers :: "string list" where
  "assertion_markers = [''t.Error'', ''t.Fatal'', ''assert.'', ''require.'']"

definition signal_line :: "string \<Rightarrow> signal_state \<Rightarrow> signal_state" where
  "signal_line line s =
     (if has_prefix line ''+++ '' then
        s\<lparr>sg_file := trim_prefix (trim_prefix (drop 4 line) (''b'' @ [slash])) (''a'' @ [slash])\<rparr>
      else if has_prefix line ''+'' \<and> \<not> has_prefix line ''+++'' then
        (let body = drop 1 line;
             skips = (if str_contains body ''t.Skip('' \<or> str_contains body ''t.SkipNow(''
               then [''added a t.Skip to '' @ sg_file s @ '' '' @ emdash @ '' a test may have been disabled''] else []);
             ignores = (if str_contains body (slash # slash # ''go:build ignore'')
               then [''added '' @ slash # slash # ''go:build ignore to '' @ sg_file s @ '' '' @ emdash
                     @ '' a file may have been excluded from the build''] else [])
         in s\<lparr>sg_out := sg_out s @ skips @ ignores\<rparr>)
      else if has_prefix line ''-'' \<and> \<not> has_prefix line ''---'' then
        (if has_suffix (sg_file s) ''_test.go'' \<and> list_ex (str_contains (drop 1 line)) assertion_markers
         then s\<lparr>sg_deleted := AList.update (sg_file s)
                 (Suc (case map_of (sg_deleted s) (sg_file s) of Some n \<Rightarrow> n | None \<Rightarrow> 0)) (sg_deleted s)\<rparr>
         else s)
      else s)"

definition substance_signals :: "string \<Rightarrow> string list" where
  "substance_signals diff =
     (let s = fold signal_line (split_on (CHR 0x0A) diff) \<lparr>sg_out = [], sg_file = [], sg_deleted = []\<rparr>
      in sg_out s @ map (\<lambda>(f, n). ''deleted '' @ itoa (int n) @ '' assertion line(s) from '' @ f) (sg_deleted s))"

section \<open>The matchers\<close>

lemma path_base_no_slash: "p \<noteq> [] \<Longrightarrow> slash \<notin> set p \<Longrightarrow> path_base p = p"
proof -
  assume p: "p \<noteq> []" "slash \<notin> set p"
  have "last p \<noteq> slash" using p last_in_set by metis
  then have "trim_right_by (\<lambda>c. c = slash) p = p" using p by (intro trim_right_by_id) auto
  with p show ?thesis by (simp add: path_base_def split_on_word)
qed

lemma slash_contains: "str_contains p [slash] \<longleftrightarrow> slash \<in> set p"
proof
  show "str_contains p [slash] \<Longrightarrow> slash \<in> set p" using str_contains_set by fastforce
  show "slash \<in> set p \<Longrightarrow> str_contains p [slash]" by (auto simp: str_contains_iff dest: split_list)
qed

lemma scope_glob_fence_glob: "p \<noteq> [] \<Longrightarrow> scope_glob_matches g p \<Longrightarrow> fence_glob_matches g p"
  by (auto simp: scope_glob_matches_def fence_glob_matches_def Let_def slash_contains path_base_no_slash
      split: if_splits option.splits)

lemma trim_dot_slash: "trim_prefix (path_clean p) (dot @ [slash]) = path_clean p"
proof -
  have "\<not> has_prefix (path_clean p) (dot @ [slash])"
  proof
    assume "has_prefix (path_clean p) (dot @ [slash])"
    then obtain t where t: "path_clean p = dot @ slash # t" by (auto simp: has_prefix_iff)
    have na: "\<not> is_abs p" using is_abs_clean [of p] t by (auto simp: is_abs_def dot_def slash_def)
    let ?ws = "clean_elems False (path_elems p)"
    have form: "clean_form False ?ws" by (rule clean_path_form)
    have cl: "path_clean p = (if ?ws = [] then dot else str_join ?ws [slash])"
      using na by (simp add: path_clean_def render_path_def)
    show False
    proof (cases ?ws)
      case Nil
      then show False using cl t by (simp add: dot_def)
    next
      case (Cons w vs)
      then have w: "w \<noteq> dot" "slash \<notin> set w" using clean_form_elem [OF form, of w] by auto
      have "path_clean p = w \<or> (\<exists>u. path_clean p = w @ slash # u)" using cl Cons by (cases vs) auto
      then have "hd (split_on slash (path_clean p)) = w" using w by (auto simp: split_on_word split_on_append)
      moreover have "slash \<notin> set dot" by (simp add: dot_def slash_def)
      ultimately show False using t w by (simp add: split_on_append)
    qed
  qed
  then show ?thesis by (simp add: trim_prefix_def)
qed

lemma matches_fence_clean: "matches_fence globs rel = list_ex (\<lambda>g. fence_glob_matches g (path_clean rel)) globs"
  by (simp add: matches_fence_def trim_dot_slash)

lemma matches_scope_clean: "matches_scope globs rel = list_ex (\<lambda>g. scope_glob_matches g (path_clean rel)) globs"
  by (simp add: matches_scope_def trim_dot_slash)

section \<open>Drift\<close>

lemma drift_paths_iff:
  "p \<in> set (drift_paths base cur) \<longleftrightarrow>
     map_option file_mark (map_of base p) \<noteq> map_option file_mark (map_of cur p)"
proof -
  have "p \<in> fst ` set al \<longleftrightarrow> map_of al p \<noteq> None" for al :: "'h snapshot"
    using map_of_eq_None_iff [of al p] by auto
  note dom = this
  show ?thesis
    using dom [of base] dom [of cur]
    by (cases "map_of base p"; cases "map_of cur p") (simp_all add: drift_paths_def)
qed

lemma drift_paths_sorted: "sorted (drift_paths base cur)"
  by (simp add: drift_paths_def)

lemma drift_paths_distinct:
  "distinct (map fst base) \<Longrightarrow> distinct (map fst cur) \<Longrightarrow> distinct (drift_paths base cur)"
  by (auto simp: drift_paths_def map_of_eq_None_iff)

text \<open>What a walk sees: every file outside a git directory, with its two reads.\<close>

fun tree_files :: "string \<Rightarrow> fs_node list \<Rightarrow> (string \<times> (string + string \<times> bool) \<times> (string + string)) list"
  and node_files :: "string \<Rightarrow> fs_node \<Rightarrow> (string \<times> (string + string \<times> bool) \<times> (string + string)) list"
where
  "tree_files dir [] = []"
| "tree_files dir (n # ns) = node_files dir n @ tree_files dir ns"
| "node_files dir (FileNode name b f) = [(join_dir dir name, b, f)]"
| "node_files dir (DirNode name listing) =
     (if name = ''.git'' then []
      else (case listing of Inl _ \<Rightarrow> [] | Inr ns \<Rightarrow> tree_files (join_dir dir name) ns))"

fun fenced_files ::
  "string list \<Rightarrow> (string \<times> (string + string \<times> bool) \<times> (string + string)) list
   \<Rightarrow> (string \<times> (string + string \<times> bool) \<times> (string + string)) list" where
  "fenced_files globs [] = []"
| "fenced_files globs ((p, reads) # fs) =
     (if matches_fence globs p then (p, reads) # fenced_files globs fs else fenced_files globs fs)"

lemma fenced_files_filter: "fenced_files globs fs = filter (\<lambda>x. matches_fence globs (fst x)) fs"
  by (induction globs fs rule: fenced_files.induct) auto

text \<open>The walk as one pass over the files it sees.\<close>

fun snapshot_files ::
  "(string \<Rightarrow> 'h) \<Rightarrow> (string \<times> (string + string \<times> bool) \<times> (string + string)) list \<Rightarrow> 'h snapshot \<Rightarrow> string + 'h snapshot"
where
  "snapshot_files sha [] out = Inr out"
| "snapshot_files sha ((p, b, f) # fs) out =
     (case snapshot_file sha p b f of
        Inl e \<Rightarrow> Inl e
      | Inr ff \<Rightarrow> snapshot_files sha fs (AList.update p ff out))"

lemma snapshot_files_append:
  "snapshot_files sha (xs @ ys) out =
     (case snapshot_files sha xs out of Inl e \<Rightarrow> Inl e | Inr out' \<Rightarrow> snapshot_files sha ys out')"
  by (induction sha xs out rule: snapshot_files.induct) (auto split: sum.split)

lemma fenced_files_append: "fenced_files globs (xs @ ys) = fenced_files globs xs @ fenced_files globs ys"
  by (simp add: fenced_files_filter)

lemma walk_snapshot:
  "walk_nodes sha globs dir ns out = Inr out' \<Longrightarrow>
     snapshot_files sha (fenced_files globs (tree_files dir ns)) out = Inr out'"
  "walk_node sha globs dir n out = Inr out' \<Longrightarrow>
     snapshot_files sha (fenced_files globs (node_files dir n)) out = Inr out'"
proof (induction dir ns and dir n arbitrary: out out' and out out' rule: tree_files_node_files.induct)
  case (1 dir)
  then show ?case by (simp add: fenced_files_filter)
next
  case (2 dir n ns)
  then obtain o1 where "walk_node sha globs dir n out = Inr o1" "walk_nodes sha globs dir ns o1 = Inr out'"
    by (auto split: sum.splits)
  with 2(1,2) show ?case by (simp add: fenced_files_append snapshot_files_append)
next
  case (3 dir name b f)
  then show ?case
    by (auto simp: fenced_files_filter Let_def split: if_splits sum.splits)
next
  case (4 dir name listing)
  then show ?case
    by (cases listing) (auto simp: Let_def fenced_files_filter split: if_splits)
qed

lemma snapshot_files_ok:
  "snapshot_files sha fs out = Inr out' \<Longrightarrow> (p, b, f) \<in> set fs \<Longrightarrow> \<exists>ff. snapshot_file sha p b f = Inr ff"
  by (induction sha fs out rule: snapshot_files.induct) (auto split: sum.splits)

lemma snapshot_files_map:
  "snapshot_files sha fs out = Inr out' \<Longrightarrow> distinct (map fst fs) \<Longrightarrow>
   map_of out' p = (case map_of fs p of
             Some (b, f) \<Rightarrow> (case snapshot_file sha p b f of Inr ff \<Rightarrow> Some ff | Inl _ \<Rightarrow> None)
           | None \<Rightarrow> map_of out p)"
proof (induction sha fs out rule: snapshot_files.induct)
  case (1 sha out)
  then show ?case by simp
next
  case (2 sha q b f fs out)
  then obtain ff where ff: "snapshot_file sha q b f = Inr ff"
      "snapshot_files sha fs (AList.update q ff out) = Inr out'" by (auto split: sum.splits)
  have "map_of fs q = None" using "2.prems"(2) by (simp add: map_of_eq_None_iff)
  with "2.IH" [OF ff(1) ff(2)] "2.prems"(2) ff show ?case
    by (auto simp: update_conv' split: option.splits)
qed

lemma snapshot_files_distinct:
  "snapshot_files sha fs out = Inr out' \<Longrightarrow> distinct (map fst out) \<Longrightarrow> distinct (map fst out')"
  by (induction sha fs out rule: snapshot_files.induct) (auto split: sum.splits intro: distinct_update)

text \<open>The content of a file as far as it is hashed: the bytes of the bounded read, and all
  bytes when the cap cut them.\<close>

definition file_view :: "(string + string \<times> bool) \<times> (string + string) \<Rightarrow> string \<times> string option" where
  "file_view = (\<lambda>(b, f). case b of
       Inl _ \<Rightarrow> ([], None)
     | Inr (bytes, over) \<Rightarrow> (bytes, if over then (case f of Inr all \<Rightarrow> Some all | Inl _ \<Rightarrow> None) else None))"

definition view_at :: "string list \<Rightarrow> fs_node list \<Rightarrow> string \<Rightarrow> (string \<times> string option) option" where
  "view_at globs ns p = map_option file_view (map_of (fenced_files globs (tree_files dot ns)) p)"

text \<open>The byte strings a walk hashes.\<close>

definition hashed_bytes :: "string list \<Rightarrow> fs_node list \<Rightarrow> string set" where
  "hashed_bytes globs ns =
     (\<Union>(p, bf) \<in> set (fenced_files globs (tree_files dot ns)).
        insert (fst (file_view bf)) (set_option (snd (file_view bf))))"

definition view_mark :: "(string \<Rightarrow> 'h) \<Rightarrow> string \<times> string option \<Rightarrow> 'h \<times> 'h option \<times> nat" where
  "view_mark sha v = (sha (fst v), map_option sha (snd v), case snd v of Some all \<Rightarrow> length all | None \<Rightarrow> 0)"

lemma snapshot_file_mark: "snapshot_file sha p b f = Inr ff \<Longrightarrow> file_mark ff = view_mark sha (file_view (b, f))"
  by (auto simp: snapshot_file_def file_mark_def view_mark_def file_view_def split: sum.splits if_splits)

lemma walk_marks:
  assumes "walk_fenced sha globs (Some (Inr ns)) = Inr snap"
    and "distinct (map fst (fenced_files globs (tree_files dot ns)))"
  shows "map_option file_mark (map_of snap p) = map_option (view_mark sha) (view_at globs ns p)"
    and "distinct (map fst snap)"
proof -
  have s: "snapshot_files sha (fenced_files globs (tree_files dot ns)) [] = Inr snap"
    using assms(1) walk_snapshot(1) by (simp add: walk_fenced_def)
  show "map_option file_mark (map_of snap p) = map_option (view_mark sha) (view_at globs ns p)"
  proof (cases "map_of (fenced_files globs (tree_files dot ns)) p")
    case None
    then show ?thesis using snapshot_files_map [OF s assms(2), of p] by (simp add: view_at_def)
  next
    case (Some bf)
    obtain b f where bf: "bf = (b, f)" by fastforce
    obtain ff where "snapshot_file sha p b f = Inr ff"
      using snapshot_files_ok [OF s] map_of_SomeD [OF Some] bf by blast
    then show ?thesis
      using snapshot_files_map [OF s assms(2), of p] Some bf snapshot_file_mark
      by (simp add: view_at_def)
  qed
  show "distinct (map fst snap)" using snapshot_files_distinct [OF s] by simp
qed

lemma view_mark_inj:
  assumes "inj_on sha B" and "insert (fst v) (set_option (snd v)) \<subseteq> B" "insert (fst u) (set_option (snd u)) \<subseteq> B"
  shows "view_mark sha v = view_mark sha u \<longleftrightarrow> v = u"
  using assms by (cases v; cases u) (auto simp: view_mark_def dest: inj_onD split: option.splits)

lemma view_at_bytes:
  "view_at globs ns p = Some v \<Longrightarrow> insert (fst v) (set_option (snd v)) \<subseteq> hashed_bytes globs ns"
  by (fastforce simp: view_at_def hashed_bytes_def dest: map_of_SomeD)

section \<open>Properties\<close>

text \<open>C19: The closing fence check is exact: with the run-start walk and the gate walk both
  successful, it lists, sorted and without repetition, precisely the fenced paths that were
  created, deleted or changed in between, bytes beyond the read cap included, as long as the
  hash does not collide on the files at hand.\<close>

theorem fence_drift_exact:
  assumes "new_fence_state sha globs wd (Some (Inr ns0)) = Some f"
    and "drift_check sha (Some f) (Some (Inr ns1)) = Inr ps"
    and "distinct (map fst (fenced_files globs (tree_files dot ns0)))"
    and "distinct (map fst (fenced_files globs (tree_files dot ns1)))"
    and "inj_on sha (hashed_bytes globs ns0 \<union> hashed_bytes globs ns1)"
  shows "sorted ps \<and> distinct ps \<and> (\<forall>p. p \<in> set ps \<longleftrightarrow> view_at globs ns0 p \<noteq> view_at globs ns1 p)"
proof -
  obtain base cur where base: "walk_fenced sha globs (Some (Inr ns0)) = Inr base"
      and cur: "walk_fenced sha globs (Some (Inr ns1)) = Inr cur" and ps: "ps = drift_paths base cur"
    using assms(1,2) by (auto simp: new_fence_state_def drift_check_def split: if_splits sum.splits)
  have mark: "map_option (view_mark sha) (view_at globs ns0 p) = map_option (view_mark sha) (view_at globs ns1 p)
      \<longleftrightarrow> view_at globs ns0 p = view_at globs ns1 p" for p
  proof (cases "view_at globs ns0 p"; cases "view_at globs ns1 p")
    fix v u
    assume vu: "view_at globs ns0 p = Some v" "view_at globs ns1 p = Some u"
    from view_mark_inj [OF assms(5), of v u] view_at_bytes [OF vu(1)] view_at_bytes [OF vu(2)]
    have "view_mark sha v = view_mark sha u \<longleftrightarrow> v = u" by blast
    with vu show ?thesis by simp
  qed simp_all
  have "p \<in> set ps \<longleftrightarrow> view_at globs ns0 p \<noteq> view_at globs ns1 p" for p
    unfolding ps drift_paths_iff walk_marks(1) [OF base assms(3)] walk_marks(1) [OF cur assms(4)] mark
    by (rule refl)
  then show ?thesis
    using drift_paths_sorted drift_paths_distinct [OF walk_marks(2) [OF base assms(3)] walk_marks(2) [OF cur assms(4)]]
    unfolding ps by blast
qed

definition tree_before :: "fs_node list" where
  "tree_before =
     [DirNode ''.git'' (Inr [FileNode ''x_test.go'' (Inr (''g'', False)) (Inr ''g'')]),
      FileNode ''a_test.go'' (Inr (''one'', False)) (Inr ''one''),
      DirNode ''pkg'' (Inr [FileNode ''b_test.go'' (Inr (''cut'', True)) (Inr ''cut tail'')])]"

definition tree_after :: "fs_node list" where
  "tree_after =
     [FileNode ''a_test.go'' (Inr (''one'', False)) (Inr ''one''),
      DirNode ''pkg'' (Inr [FileNode ''b_test.go'' (Inr (''cut'', True)) (Inr ''cut tale''),
                            FileNode ''c_test.go'' (Inr (''new'', False)) (Inr ''new'')])]"

theorem fence_drift_exact_witness:
  "\<exists>f ps. new_fence_state id [''*_test.go''] None (Some (Inr tree_before)) = Some f
     \<and> drift_check id (Some f) (Some (Inr tree_after)) = Inr ps
     \<and> ''pkg'' @ slash # ''b_test.go'' \<in> set ps"
proof -
  obtain f where f: "new_fence_state id [''*_test.go''] None (Some (Inr tree_before)) = Some f"
    by (simp add: new_fence_state_def)
  have "case drift_check id (new_fence_state id [''*_test.go''] None (Some (Inr tree_before))) (Some (Inr tree_after)) of
      Inl _ \<Rightarrow> False | Inr _ \<Rightarrow> True"
    by code_simp
  then obtain ps where ps: "drift_check id (Some f) (Some (Inr tree_after)) = Inr ps"
    unfolding f by (auto split: sum.splits)
  have t: "distinct (map fst (tree_files dot tree_before)) \<and> distinct (map fst (tree_files dot tree_after))"
    by (simp add: tree_before_def tree_after_def join_dir_def dot_def)
  have d: "distinct (map fst (fenced_files [''*_test.go''] (tree_files dot tree_before)))
     \<and> distinct (map fst (fenced_files [''*_test.go''] (tree_files dot tree_after)))"
    using t by (simp add: fenced_files_filter distinct_map_filter)
  have v: "view_at [''*_test.go''] tree_before (''pkg'' @ slash # ''b_test.go'')
         \<noteq> view_at [''*_test.go''] tree_after (''pkg'' @ slash # ''b_test.go'')"
    by code_simp
  have "''pkg'' @ slash # ''b_test.go'' \<in> set ps"
    using fence_drift_exact [OF f ps d [THEN conjunct1] d [THEN conjunct2] inj_on_id] v by metis
  with f ps show ?thesis by metis
qed

text \<open>The scope matcher is the fence matcher without its breadth: whatever a scope pattern
  admits the same fence pattern would fence; a pattern \<open>dir/**\<close> admits exactly the cleaned
  paths that start with \<open>dir/\<close> (not \<open>dir\<close> itself), and a pattern without a slash only
  root-level files.\<close>

theorem scope_anchored:
  "(matches_scope globs rel \<longrightarrow> matches_fence globs rel)
    \<and> (d \<noteq> [] \<and> \<not> is_space (hd d) \<longrightarrow>
        (matches_scope [d @ deep_suffix] rel \<longleftrightarrow> has_prefix (path_clean rel) (d @ [slash])))
    \<and> (slash \<notin> set g \<and> matches_scope [g] rel \<longrightarrow> slash \<notin> set (path_clean rel))
    \<and> \<not> matches_scope [''dir'' @ deep_suffix] ''dir''"
proof (intro conjI impI)
  show "matches_scope globs rel \<Longrightarrow> matches_fence globs rel"
    unfolding matches_scope_clean matches_fence_clean list_ex_iff
    using scope_glob_fence_glob [OF path_clean_nonempty] by blast
  show "matches_scope [d @ deep_suffix] rel \<longleftrightarrow> has_prefix (path_clean rel) (d @ [slash])"
    if "d \<noteq> [] \<and> \<not> is_space (hd d)"
  proof -
    have "trim_space (d @ deep_suffix) = d @ deep_suffix"
      using that by (intro trim_space_id) (auto simp: deep_suffix_def is_space_def)
    moreover have "cut_suffix (d @ deep_suffix) deep_suffix = Some d" by (simp add: cut_suffix_Some)
    ultimately show ?thesis using that by (simp add: matches_scope_clean scope_glob_matches_def)
  qed
  show "slash \<notin> set (path_clean rel)" if "slash \<notin> set g \<and> matches_scope [g] rel"
  proof -
    have "set (trim_space g) \<subseteq> set g"
      by (auto simp: trim_space_def trim_right_by_def trim_left_by_def dest!: set_dropWhileD)
    with that have g: "slash \<notin> set (trim_space g)" by blast
    then have "cut_suffix (trim_space g) deep_suffix = None"
      unfolding cut_suffix_None has_suffix_iff by (auto simp: deep_suffix_def)
    with that g show ?thesis
      by (auto simp: matches_scope_clean scope_glob_matches_def slash_contains Let_def split: if_splits)
  qed
  show "\<not> matches_scope [''dir'' @ deep_suffix] ''dir''" by code_simp
qed

theorem scope_anchored_witness:
  "matches_scope [''agent'' @ deep_suffix] (''agent'' @ slash # ''x.go'')
    \<and> \<not> matches_scope [''agent'' @ deep_suffix] (''pkg'' @ slash # ''agent'' @ slash # ''x.go'')"
proof -
  have a: "''agent'' \<noteq> [] \<and> \<not> is_space (hd ''agent'')" by code_simp
  have b: "has_prefix (path_clean (''agent'' @ slash # ''x.go'')) (''agent'' @ [slash])"
    "\<not> has_prefix (path_clean (''pkg'' @ slash # ''agent'' @ slash # ''x.go'')) (''agent'' @ [slash])"
    by code_simp+
  have "(matches_scope [''agent'' @ deep_suffix] rel \<longleftrightarrow> has_prefix (path_clean rel) (''agent'' @ [slash]))" for rel
    using scope_anchored [of "[]" rel "''agent''" "[]"] a by blast
  with b show ?thesis by blast
qed

text \<open>The canonical fence: with the patterns \<open>*_test.go\<close> and \<open>testdata/**\<close> a path
  is fenced exactly if its last element ends in \<open>_test.go\<close> or a directory \<open>testdata\<close> is
  on the way to it, at any depth.\<close>

theorem canonical_fence:
  "matches_fence [''*_test.go'', ''testdata'' @ deep_suffix] rel \<longleftrightarrow>
     has_suffix (path_base (path_clean rel)) ''_test.go''
     \<or> has_prefix (path_clean rel) (''testdata'' @ [slash])
     \<or> str_contains (path_clean rel) (slash # ''testdata'' @ [slash])"
proof -
  have t: "trim_space ''*_test.go'' = ''*_test.go''" "cut_suffix ''*_test.go'' deep_suffix = None"
    "str_contains ''*_test.go'' [slash] = False" "trim_space (''testdata'' @ deep_suffix) = ''testdata'' @ deep_suffix"
    "cut_suffix (''testdata'' @ deep_suffix) deep_suffix = Some ''testdata''"
    by code_simp+
  have lit: "literal ''_test.go''" by code_simp
  have base: "glob_match ''*_test.go'' (path_base q) \<longleftrightarrow> has_suffix (path_base q) ''_test.go''" for q
  proof (cases "path_base q = [slash]")
    case True
    have "glob_match ''*_test.go'' [slash] = has_suffix [slash] ''_test.go''" by code_simp
    then show ?thesis unfolding True .
  next
    case False
    then have "slash \<notin> set (path_base q)"
      using split_on_no_sep [of "last (split_on slash (trim_right_by (\<lambda>c. c = slash) q))" slash
          "trim_right_by (\<lambda>c. c = slash) q"]
      by (auto simp: path_base_def Let_def dot_def split: if_splits)
    from glob_star_suffix [OF lit _ this] show ?thesis by simp
  qed
  have a: "fence_glob_matches ''*_test.go'' q \<longleftrightarrow> has_suffix (path_base q) ''_test.go''" for q
    by (simp only: fence_glob_matches_def Let_def t base option.case list.distinct if_False if_True not_False_eq_True)
  have b: "fence_glob_matches (''testdata'' @ deep_suffix) q \<longleftrightarrow>
      has_prefix q (''testdata'' @ [slash]) \<or> str_contains q (slash # ''testdata'' @ [slash])" for q
    by (simp only: fence_glob_matches_def Let_def t option.case append_is_Nil_conv list.distinct simp_thms if_False)
  have two: "matches_fence [x, y] q \<longleftrightarrow> fence_glob_matches x (path_clean q) \<or> fence_glob_matches y (path_clean q)"
    for x y q by (simp add: matches_fence_clean)
  show ?thesis unfolding two a b by (rule refl)
qed

lemma map_of_guard_tools:
  "map_of (guard_tools refuse jp tools) name =
     map_option (\<lambda>t. if name \<in> set mutation_tools then guard_tool refuse jp t else t) (map_of tools name)"
  by (induction tools) (auto simp: guard_tools_def)

text \<open>The tool layer of the fence: a write or edit whose first token is a fenced path is
  answered with the refusal and leaves the world alone, unless the path may be created for a
  reproduction; every other call reaches the wrapped handler unchanged, and no other tool is
  wrapped.\<close>

theorem tool_layer_fence:
  assumes "globs \<noteq> []" and "map_of tools name = Some t"
  shows "\<exists>t'. map_of (apply_test_fence not_exist jp globs al repro_first rt tools) name = Some t'
    \<and> (name \<notin> set mutation_tools \<longrightarrow> t' = t)
    \<and> (name \<in> set mutation_tools \<longrightarrow>
        (\<forall>run arg w. t_run t = Some run \<longrightarrow>
          (\<exists>run'. t_run t' = Some run' \<and>
            run' arg w =
              (if matches_fence globs (fence_rel_path al (first_token arg))
                  \<and> \<not> allow_repro_new not_exist repro_first rt al (first_token arg) w
               then (Inl (fence_refusal (first_token arg) globs), w) else run arg w)))
        \<and> (\<forall>run raw w p. t_run_json t = Some run \<and> jp raw = Some p \<and> p \<noteq> [] \<longrightarrow>
          (\<exists>run'. t_run_json t' = Some run' \<and>
            run' raw w =
              (if matches_fence globs (fence_rel_path al p)
                  \<and> \<not> allow_repro_new not_exist repro_first rt al p w
               then (Inl (fence_refusal p globs), w) else run raw w))))"
  using assms by (auto simp: apply_test_fence_def map_of_guard_tools guard_tool_def)

definition echo_tool :: "(nat, string) tool" where
  "echo_tool = \<lparr> t_run = Some (\<lambda>arg w. (Inr arg, Suc w)), t_run_json = Some (\<lambda>raw w. (Inr raw, Suc w)) \<rparr>"

theorem tool_layer_fence_witness:
  "\<exists>t' run'. map_of (apply_test_fence (\<lambda>_ _. False) Some [''*_test.go''] [] False [] [(''write_file'', echo_tool)])
       ''write_file'' = Some t'
     \<and> t_run t' = Some run'
     \<and> run' ''a_test.go x'' 0 = (Inl (fence_refusal ''a_test.go'' [''*_test.go'']), 0)"
proof -
  have m: "matches_fence [''*_test.go''] (fence_rel_path [] (first_token ''a_test.go x''))" by code_simp
  have f: "first_token ''a_test.go x'' = ''a_test.go''" by code_simp
  have a: "\<not> allow_repro_new (\<lambda>_ _. False) False [] [] p w" for p and w :: nat by (simp add: allow_repro_new_def)
  have n: "''write_file'' \<in> set mutation_tools" by (simp add: mutation_tools_def)
  have g: "[''*_test.go''] \<noteq> []" "map_of [(''write_file'', echo_tool)] ''write_file'' = Some echo_tool" by simp_all
  have r: "t_run echo_tool = Some (\<lambda>arg w. (Inr arg, Suc w))" by (simp add: echo_tool_def)
  note ex = tool_layer_fence [OF g, of "\<lambda>_ _. False" Some "[]" False "[]"]
  then obtain t' where
    t': "map_of (apply_test_fence (\<lambda>_ _. False) Some [''*_test.go''] [] False [] [(''write_file'', echo_tool)])
       ''write_file'' = Some t'" and
    all: "''write_file'' \<in> set mutation_tools \<longrightarrow>
        (\<forall>run arg w. t_run echo_tool = Some run \<longrightarrow>
          (\<exists>run'. t_run t' = Some run' \<and>
            run' arg w =
              (if matches_fence [''*_test.go''] (fence_rel_path [] (first_token arg))
                  \<and> \<not> allow_repro_new (\<lambda>_ _. False) False [] [] (first_token arg) w
               then (Inl (fence_refusal (first_token arg) [''*_test.go'']), w) else run arg w)))"
    by (elim exE conjE) simp
  from all [THEN mp, OF n, rule_format, OF r, of "''a_test.go x''" 0] show ?thesis
    unfolding f if_P [OF conjI [OF m [unfolded f] a]] using t' by blast
qed

text \<open>A restoration that reports no error leaves every listed path with its run-start
  bytes, or absent if it did not exist then, and touches nothing else, given that writing and
  removing do what they say.\<close>

theorem restore_restores:
  assumes "\<And>p b w w'. wr p b w = (None, w') \<Longrightarrow> look w' = (look w)(p \<mapsto> b)"
    and "\<And>p w w'. rm p w = (None, w') \<Longrightarrow> look w' = (look w)(p := None)"
    and "restore rm wr base ps w = (None, w')"
  shows "look w' q =
     (if q \<in> set ps then (case map_of base q of Some ff \<Rightarrow> ff_content ff | None \<Rightarrow> None) else look w q)"
  using assms(3)
proof (induction ps arbitrary: w)
  case Nil
  then show ?case by simp
next
  case (Cons p ps)
  show ?case
  proof (cases "map_of base p")
    case None
    with Cons.prems obtain w1 where w1: "rm p w = (None, w1)" "restore rm wr base ps w1 = (None, w')"
      by (auto split: prod.splits option.splits)
    from Cons.IH [OF w1(2)] assms(2) [OF w1(1)] None show ?thesis by auto
  next
    case (Some ff)
    with Cons.prems obtain b w1 where b: "ff_content ff = Some b"
        and w1: "wr p b w = (None, w1)" "restore rm wr base ps w1 = (None, w')"
      by (auto split: prod.splits option.splits)
    from Cons.IH [OF w1(2)] assms(1) [OF w1(1)] Some b show ?thesis by auto
  qed
qed

theorem restore_restores_witness:
  "snd (restore (\<lambda>p w. (None, w(p := None))) (\<lambda>p b w. (None, w(p \<mapsto> b)))
     [(''a_test.go'', \<lparr>ff_hash = (), ff_content = Some ''old'', ff_full_hash = None, ff_size = 0\<rparr>)]
     [''a_test.go'', ''b_test.go''] [''a_test.go'' \<mapsto> ''new'', ''b_test.go'' \<mapsto> ''extra'']) ''b_test.go'' = None"
proof -
  let ?rm = "\<lambda>p w. (None, w(p := None))" and ?wr = "\<lambda>p b w. (None, w(p \<mapsto> b))"
  let ?base = "[(''a_test.go'', \<lparr>ff_hash = (), ff_content = Some ''old'', ff_full_hash = None, ff_size = 0\<rparr>)]"
  let ?w = "[''a_test.go'' \<mapsto> ''new'', ''b_test.go'' \<mapsto> ''extra'']"
  have r: "restore ?rm ?wr ?base [''a_test.go'', ''b_test.go''] ?w = (None, ?w(''a_test.go'' \<mapsto> ''old'', ''b_test.go'' := None))"
    by simp
  have "(?w(''a_test.go'' \<mapsto> ''old'', ''b_test.go'' := None)) ''b_test.go'' =
     (if ''b_test.go'' \<in> set [''a_test.go'', ''b_test.go'']
      then (case map_of ?base ''b_test.go'' of Some ff \<Rightarrow> ff_content ff | None \<Rightarrow> None) else ?w ''b_test.go'')"
    by (rule restore_restores [where look = "\<lambda>w. w" and rm = "?rm" and wr = "?wr", OF _ _ r]) auto
  then show ?thesis unfolding r by simp
qed

text \<open>Absolute addressing does not dodge the fence: a path below the sandbox's reported
  root is normalised to the same relative path as its root-relative spelling. The one spelling
  that survives is a second slash after the root: it leaves a rooted path, which a pattern
  with a slash misses although the sandbox resolves it to the fenced file.\<close>

theorem fence_alias:
  "(al \<noteq> [] \<and> \<not> is_space (hd al) \<and> p \<noteq> [] \<and> \<not> is_space (hd p) \<and> \<not> is_space (last p)
      \<and> \<not> has_prefix p (al @ [slash]) \<and> p \<noteq> al \<longrightarrow>
     fence_rel_path al (al @ slash # p) = fence_rel_path al p)
   \<and> \<not> matches_fence [''ci'' @ slash # ''build.sh'']
        (fence_rel_path (slash # ''w'') (slash # ''w'' @ slash # slash # ''ci'' @ slash # ''build.sh''))
   \<and> matches_fence [''ci'' @ slash # ''build.sh'']
        (fence_rel_path (slash # ''w'') (slash # ''w'' @ slash # ''ci'' @ slash # ''build.sh''))
   \<and> resolve (\<lambda>p. Inr p) \<lparr>root = slash # ''w'', real_root = slash # ''w'', env_allowlist = None, mount_alias = slash # ''w''\<rparr>
        (slash # ''w'' @ slash # slash # ''ci'' @ slash # ''build.sh'')
      = Inr (slash # ''w'' @ slash # ''ci'' @ slash # ''build.sh'')"
proof (intro conjI impI)
  assume a: "al \<noteq> [] \<and> \<not> is_space (hd al) \<and> p \<noteq> [] \<and> \<not> is_space (hd p) \<and> \<not> is_space (last p)
      \<and> \<not> has_prefix p (al @ [slash]) \<and> p \<noteq> al"
  then have t: "trim_space (al @ slash # p) = al @ slash # p" "trim_space p = p"
    by (simp_all add: trim_space_id)
  have d: "drop (Suc (length al)) (al @ slash # p) = p" by simp
  have n: "al @ slash # p \<noteq> al" by simp
  have h: "has_prefix (al @ slash # p) (al @ [slash])" by (simp add: has_prefix_iff)
  show "fence_rel_path al (al @ slash # p) = fence_rel_path al p"
    using a t d n h by (simp add: fence_rel_path_def)
next
  show "\<not> matches_fence [''ci'' @ slash # ''build.sh'']
        (fence_rel_path (slash # ''w'') (slash # ''w'' @ slash # slash # ''ci'' @ slash # ''build.sh''))"
    by code_simp
  show "matches_fence [''ci'' @ slash # ''build.sh'']
        (fence_rel_path (slash # ''w'') (slash # ''w'' @ slash # ''ci'' @ slash # ''build.sh''))"
    by code_simp
  show "resolve (\<lambda>p. Inr p) \<lparr>root = slash # ''w'', real_root = slash # ''w'', env_allowlist = None, mount_alias = slash # ''w''\<rparr>
        (slash # ''w'' @ slash # slash # ''ci'' @ slash # ''build.sh'')
      = Inr (slash # ''w'' @ slash # ''ci'' @ slash # ''build.sh'')"
    by code_simp
qed

theorem fence_alias_witness:
  "fence_rel_path (slash # ''w'') ((slash # ''w'') @ slash # ''x_test.go'') = fence_rel_path (slash # ''w'') ''x_test.go''"
proof -
  have "slash # ''w'' \<noteq> [] \<and> \<not> is_space (hd (slash # ''w'')) \<and> ''x_test.go'' \<noteq> [] \<and> \<not> is_space (hd ''x_test.go'')
      \<and> \<not> is_space (last ''x_test.go'') \<and> \<not> has_prefix ''x_test.go'' ((slash # ''w'') @ [slash]) \<and> ''x_test.go'' \<noteq> slash # ''w''"
    by code_simp
  with fence_alias [of "slash # ''w''" "''x_test.go''"] show ?thesis by blast
qed

end
