(* ===== verification/Wp.thy ===== *)
theory Wp
  imports Prelude
begin

text \<open>
  The stateful components are programs of the library's state monad, written with
  \<open>do\<close>-blocks that follow the Go statements. \<open>wp m Q s\<close> holds when \<open>m\<close>, started in
  \<open>s\<close>, ends with a result and a state that satisfy \<open>Q\<close>; the equations of
  \<open>wp_simps\<close> compute it along the program. \<open>ext\<close> is a call that leaves the model:
  it draws its answer from the world component of the state and may change that world, so
  an answer may depend on everything that happened before.
\<close>

definition wp :: "('s, 'a) state \<Rightarrow> ('a \<Rightarrow> 's \<Rightarrow> bool) \<Rightarrow> 's \<Rightarrow> bool" where
  "wp m Q s = (case run_state m s of (a, t) \<Rightarrow> Q a t)"

definition ret :: "'a \<Rightarrow> ('s, 'a) state" where "ret a = State (\<lambda>s. (a, s))"

definition gets :: "('s \<Rightarrow> 'a) \<Rightarrow> ('s, 'a) state" where "gets f = State (\<lambda>s. (f s, s))"

definition modify :: "('s \<Rightarrow> 's) \<Rightarrow> ('s, unit) state" where "modify f = State (\<lambda>s. ((), f s))"

definition whenever :: "bool \<Rightarrow> ('s, unit) state \<Rightarrow> ('s, unit) state" where
  "whenever b m = (if b then m else ret ())"

fun for_each :: "'a list \<Rightarrow> ('a \<Rightarrow> ('s, unit) state) \<Rightarrow> ('s, unit) state" where
  "for_each [] f = ret ()"
| "for_each (x # xs) f = State_Monad.bind (f x) (\<lambda>_. for_each xs f)"

lemma run_ret [simp]: "run_state (ret a) s = (a, s)"
  by (simp add: ret_def)

lemma run_gets [simp]: "run_state (gets f) s = (f s, s)"
  by (simp add: gets_def)

lemma run_modify [simp]: "run_state (modify f) s = ((), f s)"
  by (simp add: modify_def)

lemma wp_ret [wp_simps]: "wp (ret a) Q s = Q a s"
  by (simp add: wp_def)

lemma wp_gets [wp_simps]: "wp (gets f) Q s = Q (f s) s"
  by (simp add: wp_def)

lemma wp_modify [wp_simps]: "wp (modify f) Q s = Q () (f s)"
  by (simp add: wp_def)

lemma wp_bind [wp_simps]: "wp (State_Monad.bind m f) Q s = wp m (\<lambda>a. wp (f a) Q) s"
  by (simp add: wp_def split: prod.splits)

lemma wp_whenever [wp_simps]: "wp (whenever b m) Q s = (if b then wp m Q s else Q () s)"
  by (simp add: whenever_def wp_ret)

lemma wp_if [wp_simps]: "wp (if b then m else n) Q s = (if b then wp m Q s else wp n Q s)"
  by simp

lemma wp_option [wp_simps]:
  "wp (case x of None \<Rightarrow> m | Some y \<Rightarrow> f y) Q s = (case x of None \<Rightarrow> wp m Q s | Some y \<Rightarrow> wp (f y) Q s)"
  by (simp split: option.split)

lemma wp_sum [wp_simps]:
  "wp (case x of Inl e \<Rightarrow> f e | Inr y \<Rightarrow> g y) Q s = (case x of Inl e \<Rightarrow> wp (f e) Q s | Inr y \<Rightarrow> wp (g y) Q s)"
  by (simp split: sum.split)

lemma wp_prod [wp_simps]:
  "wp (case x of (a, b) \<Rightarrow> f a b) Q s = (case x of (a, b) \<Rightarrow> wp (f a b) Q s)"
  by (simp split: prod.split)

lemma wp_let [wp_simps]: "wp (let x = e in f x) Q s = (let x = e in wp (f x) Q s)"
  by (simp add: Let_def)

lemma wp_mono: "wp m P s \<Longrightarrow> (\<And>a t. P a t \<Longrightarrow> Q a t) \<Longrightarrow> wp m Q s"
  by (auto simp: wp_def split: prod.splits)

lemma wp_conj: "wp m (\<lambda>a t. P a t \<and> Q a t) s \<longleftrightarrow> wp m P s \<and> wp m Q s"
  by (auto simp: wp_def split: prod.splits)

lemma wp_true [simp]: "wp m (\<lambda>a t. True) s"
  by (simp add: wp_def)

lemma wpD: "wp m Q s \<Longrightarrow> run_state m s = (a, t) \<Longrightarrow> Q a t"
  by (simp add: wp_def)

lemma wpI: "(\<And>a t. run_state m s = (a, t) \<Longrightarrow> Q a t) \<Longrightarrow> wp m Q s"
  by (auto simp: wp_def split: prod.splits)

lemma wp_fst_snd: "wp m Q s = Q (fst (run_state m s)) (snd (run_state m s))"
  by (simp add: wp_def split: prod.splits)

text \<open>The same equations as introduction rules: \<open>intro wp_intros\<close> leaves one goal for each
  path of a program.\<close>

lemma wp_retI: "Q a s \<Longrightarrow> wp (ret a) Q s"
  by (simp add: wp_ret)

lemma wp_getsI: "Q (f s) s \<Longrightarrow> wp (gets f) Q s"
  by (simp add: wp_gets)

lemma wp_modifyI: "Q () (f s) \<Longrightarrow> wp (modify f) Q s"
  by (simp add: wp_modify)

lemma wp_bindI: "wp m (\<lambda>a. wp (f a) Q) s \<Longrightarrow> wp (State_Monad.bind m f) Q s"
  by (simp add: wp_bind)

lemma wp_bindD: "wp (State_Monad.bind m f) Q s \<Longrightarrow> wp m (\<lambda>a. wp (f a) Q) s"
  by (simp add: wp_bind)

lemma wp_wheneverI: "(b \<Longrightarrow> wp m Q s) \<Longrightarrow> (\<not> b \<Longrightarrow> Q () s) \<Longrightarrow> wp (whenever b m) Q s"
  by (simp add: wp_whenever)

lemma wp_ifI: "(b \<Longrightarrow> wp m Q s) \<Longrightarrow> (\<not> b \<Longrightarrow> wp n Q s) \<Longrightarrow> wp (if b then m else n) Q s"
  by simp

lemma wp_optionI:
  "(x = None \<Longrightarrow> wp m Q s) \<Longrightarrow> (\<And>y. x = Some y \<Longrightarrow> wp (f y) Q s) \<Longrightarrow>
   wp (case x of None \<Rightarrow> m | Some y \<Rightarrow> f y) Q s"
  by (simp split: option.split)

lemma wp_sumI:
  "(\<And>e. x = Inl e \<Longrightarrow> wp (f e) Q s) \<Longrightarrow> (\<And>y. x = Inr y \<Longrightarrow> wp (g y) Q s) \<Longrightarrow>
   wp (case x of Inl e \<Rightarrow> f e | Inr y \<Rightarrow> g y) Q s"
  by (simp split: sum.split)

lemma wp_prodI: "(\<And>a b. x = (a, b) \<Longrightarrow> wp (f a b) Q s) \<Longrightarrow> wp (case x of (a, b) \<Rightarrow> f a b) Q s"
  by (simp split: prod.split)

lemma wp_letI: "(\<And>x. x = e \<Longrightarrow> wp (f x) Q s) \<Longrightarrow> wp (let x = e in f x) Q s"
  by (simp add: Let_def)

lemmas wp_intros =
  wp_retI wp_getsI wp_modifyI wp_bindI wp_wheneverI wp_ifI wp_optionI wp_sumI wp_prodI wp_letI

text \<open>A known fact about a called program.\<close>

lemma wp_use: "wp m P s \<Longrightarrow> (\<And>a t. P a t \<Longrightarrow> Q a t) \<Longrightarrow> wp m Q s"
  by (rule wp_mono)

text \<open>The rule for loops over a list: an invariant of the body.\<close>

lemma wp_for_each:
  assumes "I s" and "\<And>x t. x \<in> set xs \<Longrightarrow> I t \<Longrightarrow> wp (f x) (\<lambda>_ u. I u) t"
  shows "wp (for_each xs f) (\<lambda>_ t. I t) s"
  using assms
proof (induction xs arbitrary: s)
  case Nil
  then show ?case by (simp add: wp_ret)
next
  case (Cons x xs)
  from Cons.prems have "wp (f x) (\<lambda>_ u. I u) s" by simp
  then have "wp (f x) (\<lambda>_. wp (for_each xs f) (\<lambda>_ t. I t)) s"
    by (rule wp_mono) (use Cons in auto)
  then show ?case by (simp add: wp_bind)
qed

text \<open>A property of states that a program never breaks.\<close>

definition preserves :: "('s \<Rightarrow> bool) \<Rightarrow> ('s, 'a) state \<Rightarrow> bool" where
  "preserves I m \<longleftrightarrow> (\<forall>s. I s \<longrightarrow> wp m (\<lambda>_ t. I t) s)"

lemma preservesI: "(\<And>s. I s \<Longrightarrow> wp m (\<lambda>_ t. I t) s) \<Longrightarrow> preserves I m"
  by (simp add: preserves_def)

lemma preservesD: "preserves I m \<Longrightarrow> I s \<Longrightarrow> wp m (\<lambda>_ t. I t) s"
  by (simp add: preserves_def)

lemma preserves_ret: "preserves I (ret a)"
  by (simp add: preserves_def wp_ret)

lemma preserves_gets: "preserves I (gets f)"
  by (simp add: preserves_def wp_gets)

lemma preserves_modify: "(\<And>s. I s \<Longrightarrow> I (f s)) \<Longrightarrow> preserves I (modify f)"
  by (simp add: preserves_def wp_modify)

lemma preserves_bind: "preserves I m \<Longrightarrow> (\<And>a. preserves I (f a)) \<Longrightarrow> preserves I (State_Monad.bind m f)"
  by (auto simp: preserves_def wp_bind intro: wp_mono)

lemma preserves_whenever: "preserves I m \<Longrightarrow> preserves I (whenever b m)"
  by (simp add: preserves_def wp_whenever)

lemma preserves_if: "preserves I m \<Longrightarrow> preserves I n \<Longrightarrow> preserves I (if b then m else n)"
  by simp

lemma preserves_option:
  "preserves I m \<Longrightarrow> (\<And>y. preserves I (f y)) \<Longrightarrow> preserves I (case x of None \<Rightarrow> m | Some y \<Rightarrow> f y)"
  by (simp split: option.split)

lemma preserves_sum:
  "(\<And>e. preserves I (f e)) \<Longrightarrow> (\<And>y. preserves I (g y)) \<Longrightarrow> preserves I (case x of Inl e \<Rightarrow> f e | Inr y \<Rightarrow> g y)"
  by (simp split: sum.split)

lemma preserves_prod: "(\<And>a b. preserves I (f a b)) \<Longrightarrow> preserves I (case x of (a, b) \<Rightarrow> f a b)"
  by (simp split: prod.split)

lemma preserves_for_each: "(\<And>x. x \<in> set xs \<Longrightarrow> preserves I (f x)) \<Longrightarrow> preserves I (for_each xs f)"
  by (auto simp: preserves_def intro!: wp_for_each)

lemmas preserves_rules =
  preserves_bind preserves_whenever preserves_if preserves_option preserves_sum preserves_prod
  preserves_ret preserves_gets

end
