(* ===== verification/FileTools.thy ===== *)
theory FileTools
  imports Sandbox FenceScope GoJson Wp
begin

text \<open>
  The tools that read, list and write files (\<open>agent/tools.go\<close>, \<open>agent/outline.go\<close>). A tool takes the
  argument of a one-line action, crosses the sandbox boundary and gives the model an observation,
  or an error text that says what to do next. The sandbox, the host's Go trees and ripgrep
  are the calls of \<open>file_ops\<close>; the world they act on is threaded through.
\<close>

section \<open>Outside calls\<close>

text \<open>What \<open>errors.Is\<close> tells apart, with the text of the error.\<close>

datatype fs_error = NotExist string | Permission string | Unsupported string | OtherError string

fun fs_text :: "fs_error \<Rightarrow> string" where
  "fs_text (NotExist t) = t"
| "fs_text (Permission t) = t"
| "fs_text (Unsupported t) = t"
| "fs_text (OtherError t) = t"

text \<open>A search on the host ends in a result, or without one.\<close>

datatype host_run = HostDone result | HostMissing | HostDeadline | HostFailed string

text \<open>\<open>fo_limit\<close> and \<open>fo_append\<close> are the optional capabilities of a sandbox; \<open>fo_go_symbols\<close> is the Go
  parser's list of declarations.\<close>

record 'w file_ops =
  fo_go_roots :: "string list"
  fo_host_read :: "string \<Rightarrow> nat \<Rightarrow> 'w \<Rightarrow> (fs_error + string) \<times> 'w"
  fo_host_list :: "string \<Rightarrow> 'w \<Rightarrow> (fs_error + dir_entry list) \<times> 'w"
  fo_host_rg :: "string list \<Rightarrow> int \<Rightarrow> 'w \<Rightarrow> host_run \<times> 'w"
  fo_limit :: "(string \<Rightarrow> nat \<Rightarrow> 'w \<Rightarrow> (fs_error + string \<times> bool) \<times> 'w) option"
  fo_read :: "string \<Rightarrow> 'w \<Rightarrow> (fs_error + string) \<times> 'w"
  fo_write :: "string \<Rightarrow> string \<Rightarrow> 'w \<Rightarrow> fs_error option \<times> 'w"
  fo_append :: "(string \<Rightarrow> string \<Rightarrow> 'w \<Rightarrow> fs_error option \<times> 'w) option"
  fo_list :: "string \<Rightarrow> 'w \<Rightarrow> (fs_error + dir_entry list) \<times> 'w"
  fo_exec :: "command \<Rightarrow> 'w \<Rightarrow> (string + result) \<times> 'w"
  fo_go_symbols :: "string \<Rightarrow> string list \<Rightarrow> string list option"

type_synonym 'w tool_run = "('w, string + string) state"

definition call :: "('w \<Rightarrow> 'a \<times> 'w) \<Rightarrow> ('w, 'a) state" where "call f = State f"

lemma wp_call [wp_simps]: "wp (call f) Q s = (case f s of (a, t) \<Rightarrow> Q a t)"
  by (simp add: wp_def call_def)

lemma run_call [simp]: "run_state (call f) s = f s"
  by (simp add: call_def)

section \<open>Texts of errors\<close>

definition dir_arg :: "string \<Rightarrow> string" where
  "dir_arg path =
     (let d = path_dir (trim_space path) in if d = ''.'' \<or> d = [slash] \<or> d = [] then ''.'' else d)"

definition explain_path_err :: "string \<Rightarrow> string \<Rightarrow> fs_error \<Rightarrow> string" where
  "explain_path_err path noun e =
     (case e of
        NotExist t \<Rightarrow>
          ''no such '' @ noun @ '': '' @ go_quote path @ '' '' @ emdash @ '' run `list_dir '' @ dir_arg path
          @ ''` to see the exact names; if you've already confirmed that directory's contents, the '' @ noun
          @ '' may genuinely not exist and saying so can be your answer''
      | Permission t \<Rightarrow> ''permission denied: '' @ go_quote path
      | _ \<Rightarrow>
          if str_contains (fs_text e) ''is a directory'' then
            go_quote path @ '' is a directory, not a file '' @ emdash @ '' use `list_dir '' @ path @ ''` to see inside it''
          else if str_contains (fs_text e) ''not a directory'' then
            ''a path component of '' @ go_quote path @ '' is a file, not a directory '' @ emdash @ '' run `list_dir ''
            @ dir_arg path @ ''` to find the real path''
          else fs_text e)"

definition explain_write_err :: "string \<Rightarrow> fs_error \<Rightarrow> string" where
  "explain_write_err path e =
     (case e of
        NotExist t \<Rightarrow>
          ''cannot write '' @ go_quote path @ '': its parent directory does not exist '' @ emdash
          @ '' create it first with `run mkdir -p '' @ dir_arg path @ ''`, then write again''
      | Permission t \<Rightarrow> ''permission denied writing '' @ go_quote path
      | _ \<Rightarrow>
          if str_contains (fs_text e) ''is a directory'' then
            go_quote path @ '' is a directory, not a file '' @ emdash @ '' choose a file path to write''
          else fs_text e)"

section \<open>The Go source trees\<close>

text \<open>Absolute paths below the module cache or \<open>GOROOT\<close> are read on the host; everything else stays
  behind the fence of the sandbox.\<close>

definition go_source_path :: "string list \<Rightarrow> string \<Rightarrow> string option" where
  "go_source_path roots path =
     (let p = trim_space path; clean = path_clean p in
      if \<not> is_abs p then None
      else if \<exists>r \<in> set roots. r \<noteq> [] \<and> (clean = r \<or> has_prefix clean (r @ [slash])) then Some clean
      else None)"

definition read_host_file_bounded :: "'w file_ops \<Rightarrow> string \<Rightarrow> ('w, fs_error + string \<times> bool) state" where
  "read_host_file_bounded F path = do {
     r \<leftarrow> call (fo_host_read F path (max_file_bytes + 1));
     ret (case r of
            Inl e \<Rightarrow> Inl e
          | Inr d \<Rightarrow> if max_file_bytes < length d then Inr (take max_file_bytes d, True) else Inr (d, False)) }"

definition read_bounded :: "'w file_ops \<Rightarrow> string \<Rightarrow> ('w, fs_error + string \<times> bool) state" where
  "read_bounded F path =
     (case go_source_path (fo_go_roots F) path of
        Some tree \<Rightarrow> read_host_file_bounded F tree
      | None \<Rightarrow>
          (case fo_limit F of
             Some rd \<Rightarrow> call (rd path max_file_bytes)
           | None \<Rightarrow> do {
               r \<leftarrow> call (fo_read F path);
               ret (case r of
                      Inl e \<Rightarrow> Inl e
                    | Inr d \<Rightarrow> if max_file_bytes < length d then Inr (take max_file_bytes d, True) else Inr (d, False)) }))"

section \<open>Listing a directory\<close>

definition run_index_file :: string where "run_index_file = ''runs.jsonl''"

definition is_lower_hex :: "char \<Rightarrow> bool" where
  "is_lower_hex c \<longleftrightarrow> is_digit c \<or> c \<in> set ''abcdef''"

text \<open>The name of a transcript: eight digits, six digits, eight hex digits.\<close>

definition is_transcript_artifact :: "string \<Rightarrow> bool" where
  "is_transcript_artifact name \<longleftrightarrow>
     name = run_index_file
     \<or> (length name = 29 \<and> list_all is_digit (take 8 name) \<and> name ! 8 = CHR ''-''
        \<and> list_all is_digit (take 6 (drop 9 name)) \<and> name ! 15 = CHR ''-''
        \<and> list_all is_lower_hex (take 8 (drop 16 name)) \<and> drop 24 name = ''.json'')"

definition list_entry_cap :: nat where "list_entry_cap = 200"

definition render_entries :: "dir_entry list \<Rightarrow> string" where
  "render_entries es =
     (let dirs = map entry_name (filter entry_is_dir es);
          files = filter (\<lambda>n. \<not> is_transcript_artifact n) (map entry_name (filter (\<lambda>e. \<not> entry_is_dir e) es));
          shown = take list_entry_cap (map (\<lambda>n. ''dir  '' @ n) dirs @ map (\<lambda>n. ''file '' @ n) files)
      in trim_right_by (\<lambda>c. c = CHR 0x0A)
           (concat (map (\<lambda>l. l @ nl) shown)
            @ (if list_entry_cap < length es then
                 ''...['' @ itoa (int (length es - list_entry_cap)) @ '' more entries omitted '' @ emdash
                 @ '' narrow with `list_dir <subpath>`]'' @ nl
               else [])))"

definition list_dir_op :: "'w file_ops \<Rightarrow> string \<Rightarrow> 'w tool_run" where
  "list_dir_op F path = do {
     r \<leftarrow> call (case go_source_path (fo_go_roots F) path of Some tree \<Rightarrow> fo_host_list F tree | None \<Rightarrow> fo_list F path);
     ret (case r of
            Inl e \<Rightarrow> Inl (explain_path_err path ''directory'' e)
          | Inr es \<Rightarrow> if es = [] then Inr ''(empty directory)'' else Inr (render_entries es)) }"

section \<open>Reading a file\<close>

record read_options =
  ro_window :: int
  ro_outline :: bool

definition read_line_cap :: int where "read_line_cap = 150"
definition read_line_cap_explicit :: int where "read_line_cap_explicit = 600"

definition ro_lines :: "read_options \<Rightarrow> int" where
  "ro_lines ro = (if ro_window ro > 0 then ro_window ro else read_line_cap)"

text \<open>\<open>strconv.Atoi\<close> on a 64-bit machine.\<close>

definition atoi :: "string \<Rightarrow> int option" where
  "atoi s =
     (let signed = s \<noteq> [] \<and> (hd s = CHR ''-'' \<or> hd s = CHR ''+'');
          body = (if signed then tl s else s);
          n = int (digits_value 0 body);
          v = (if signed \<and> hd s = CHR ''-'' then - n else n)
      in if body = [] \<or> \<not> list_all is_digit body \<or> v < - (2 ^ 63) \<or> 2 ^ 63 \<le> v then None else Some v)"

definition range_char :: "char \<Rightarrow> bool" where
  "range_char c \<longleftrightarrow>
     c = CHR ''-'' \<or> is_digit c \<or> c \<in> set ''abcdefghijklmnopqrstuvwxyz'' \<or> c \<in> set ''ABCDEFGHIJKLMNOPQRSTUVWXYZ''"

definition is_range_shaped :: "string \<Rightarrow> bool" where
  "is_range_shaped s \<longleftrightarrow> CHR ''-'' \<in> set s \<and> list_all range_char s"

text \<open>Path, first and last line, whether there is a range, and a range that does not parse. The last
  line 0 is the end of the file.\<close>

definition parse_read_arg :: "string \<Rightarrow> string \<times> int \<times> int \<times> bool \<times> string" where
  "parse_read_arg a =
     (let arg = trim_space a in
      case str_last_index arg (CHR '':'') of
        None \<Rightarrow> (arg, 0, 0, False, [])
      | Some i \<Rightarrow>
          (let spec = drop (Suc i) arg;
               other = (if is_range_shaped spec then (arg, 0, 0, False, spec) else (arg, 0, 0, False, []))
           in case str_cut spec ''-'' of
                (from_text, to_text, dash) \<Rightarrow>
                  (case atoi from_text of
                     None \<Rightarrow> other
                   | Some lo \<Rightarrow>
                       if lo < 1 then other
                       else if \<not> dash then (take i arg, lo, lo, True, [])
                       else if to_text = [] then (take i arg, lo, 0, True, [])
                       else (case atoi to_text of Some hi \<Rightarrow> (take i arg, lo, hi, True, []) | None \<Rightarrow> other))))"

text \<open>A final newline does not start a line.\<close>

definition file_lines :: "string \<Rightarrow> string list" where
  "file_lines s = (let ls = split_on (CHR 0x0A) s in if last ls = [] then butlast ls else ls)"

text \<open>The lines shown of a file with \<open>n_lines\<close> lines: from, to, how many were clipped, and the end of
  the next range to ask for; nothing when the range starts behind the end.\<close>

definition read_span :: "read_options \<Rightarrow> int \<Rightarrow> int \<Rightarrow> int \<Rightarrow> bool \<Rightarrow> (int \<times> int \<times> int \<times> int) option" where
  "read_span ro n_lines from_line to_line ranged =
     (let lo = (if \<not> ranged then 1 else if from_line < 1 then 1 else from_line);
          hi0 = (if \<not> ranged then n_lines else to_line);
          explicit = ranged \<and> hi0 > 0;
          hi = (if hi0 \<le> 0 \<or> n_lines < hi0 then n_lines else hi0);
          window = (if explicit \<and> ro_window ro \<le> 0 then read_line_cap_explicit else ro_lines ro);
          shown = (if window < hi - lo + 1 then lo + window - 1 else hi)
      in if n_lines < lo then None
         else Some (lo, shown, hi - shown, if explicit then hi else shown + window))"

definition pad_left :: "nat \<Rightarrow> string \<Rightarrow> string" where
  "pad_left w s = replicate (w - length s) (CHR '' '') @ s"

definition numbered :: "string list \<Rightarrow> int \<Rightarrow> int \<Rightarrow> string" where
  "numbered ls lo hi =
     concat (map (\<lambda>n. pad_left (length (itoa hi)) (itoa n) @ ''| '' @ ls ! nat (n - 1) @ nl) [lo..hi])"

definition definition_cues :: "string list" where
  "definition_cues =
     [''package '', ''import '', ''func '', ''type '', ''class '', ''def '', ''function '', ''interface '',
      ''struct '', ''impl '', ''fn '', ''module '', ''const '', ''var '', ''public '', ''private '', ''export '']"

definition generic_outline :: "string list \<Rightarrow> string list" where
  "generic_outline ls =
     concat (map (\<lambda>(i, line).
       let t = trim_space line in
       if line \<noteq> [] \<and> hd line \<noteq> CHR '' '' \<and> hd line \<noteq> CHR 0x09 \<and> list_ex (has_prefix line) definition_cues
       then [pad_left 4 (itoa (int i + 1)) @ '' '' @ (if 80 < length t then take 77 t @ ''...'' else t)]
       else []) (enumerate 0 ls))"

definition file_outline :: "'w file_ops \<Rightarrow> string \<Rightarrow> string list \<Rightarrow> string" where
  "file_outline F path ls =
     (let symbols = (if has_suffix path ''.go'' then
                       (case fo_go_symbols F path ls of Some ss \<Rightarrow> ss | None \<Rightarrow> generic_outline ls)
                     else generic_outline ls)
      in if symbols = [] then []
         else ''--- file outline ('' @ itoa (int (length symbols)) @ '' symbols) '' @ emdash @ '' read a range like `''
              @ path @ '':120-160` to see one ---'' @ concat (map (\<lambda>x. nl @ x) (take 50 symbols))
              @ (if 50 < length symbols then
                   nl @ ''  '' @ ellipsis @ '' (+'' @ itoa (int (length symbols - 50)) @ '' more symbols)''
                 else []))"

definition render_read :: "'w file_ops \<Rightarrow> read_options \<Rightarrow> string \<Rightarrow> string list \<Rightarrow> bool \<Rightarrow> int \<times> int \<times> int \<times> int \<Rightarrow> string" where
  "render_read F ro path ls over_mem span =
     (case span of (lo, hi, clipped, next_hi) \<Rightarrow>
        trim_right_by (\<lambda>c. c = CHR 0x0A)
          (numbered ls lo hi
           @ (if clipped > 0 then
                ''...['' @ itoa clipped @ '' more line(s) '' @ emdash @ '' read `'' @ path @ '':'' @ itoa (hi + 1) @ ''-''
                @ itoa next_hi @ ''` for the next chunk]'' @ nl
                @ (let sketch = file_outline F path ls in if ro_outline ro \<and> sketch \<noteq> [] then sketch @ nl else [])
              else [])
           @ (if over_mem then
                ''...[file exceeds '' @ itoa (int (max_file_bytes div 1024)) @ '' KiB; only the first part was read ''
                @ emdash @ '' use line ranges to page through it]'' @ nl
              else [])))"

definition read_file_op :: "'w file_ops \<Rightarrow> read_options \<Rightarrow> string \<Rightarrow> int \<Rightarrow> int \<Rightarrow> bool \<Rightarrow> 'w tool_run" where
  "read_file_op F ro path from_line to_line ranged = do {
     r \<leftarrow> read_bounded F path;
     ret (case r of
            Inl e \<Rightarrow> Inl (explain_path_err path ''file'' e)
          | Inr (d, over_mem) \<Rightarrow>
              (let ls = file_lines d; n_lines = int (length ls) in
               if ls = [] then Inr ''(empty file)''
               else (case read_span ro n_lines from_line to_line ranged of
                       None \<Rightarrow>
                         Inl (''file '' @ go_quote path @ '' has '' @ itoa n_lines @ '' line(s); requested start ''
                              @ itoa from_line @ '' is past the end '' @ emdash @ '' read a lower range'')
                     | Some span \<Rightarrow> Inr (render_read F ro path ls over_mem span)))) }"

definition tool_read_file :: "'w file_ops \<Rightarrow> read_options \<Rightarrow> string \<Rightarrow> 'w tool_run" where
  "tool_read_file F ro arg =
     (case parse_read_arg arg of
        (path, lo, hi, ranged, bad) \<Rightarrow>
          if bad \<noteq> [] then
            ret (Inl (''invalid line range '' @ go_quote bad @ '' '' @ emdash @ '' use numbers, e.g. '' @ [dquote]
                      @ ''main.go:40-80'' @ [dquote]))
          else read_file_op F ro path lo hi ranged)"

section \<open>Writing a file\<close>

definition blank :: "char \<Rightarrow> bool" where
  "blank c \<longleftrightarrow> c = CHR '' '' \<or> c = CHR 0x09"

text \<open>The escapes of a one-line argument; the repair decoder also takes an escaped quote. A byte that may
  not be escaped is reported as the rune of its number.\<close>

fun unescape_with :: "bool \<Rightarrow> string \<Rightarrow> string + string" where
  "unescape_with quotes [] = Inr []"
| "unescape_with quotes (c # s) =
     (if c \<noteq> backslash then map_sum id ((#) c) (unescape_with quotes s)
      else (case s of
              [] \<Rightarrow> Inl [backslash]
            | e # t \<Rightarrow>
                if e = CHR ''n'' then map_sum id ((#) (CHR 0x0A)) (unescape_with quotes t)
                else if e = CHR ''t'' then map_sum id ((#) (CHR 0x09)) (unescape_with quotes t)
                else if e = backslash then map_sum id ((#) backslash) (unescape_with quotes t)
                else if quotes \<and> e = dquote then map_sum id ((#) dquote) (unescape_with quotes t)
                else Inl (backslash # encode_rune (of_char e))))"

definition unescape :: "string \<Rightarrow> string + string" where "unescape s = unescape_with False s"
definition unescape_edit_quotes :: "string \<Rightarrow> string + string" where "unescape_edit_quotes s = unescape_with True s"

text \<open>Path and content, or the escape that is not one.\<close>

definition split_arg :: "string \<Rightarrow> string \<times> string option" where
  "split_arg arg =
     (let path = takeWhile (\<lambda>c. \<not> blank c) arg; rest = drop (length path) arg in
      (path, if rest = [] then None else Some (trim_left_by blank (tl rest))))"

definition parse_write_arg :: "string \<Rightarrow> string \<times> (string + string)" where
  "parse_write_arg arg =
     (case split_arg arg of
        (path, None) \<Rightarrow> (path, Inr [])
      | (path, Some raw) \<Rightarrow> (path, unescape raw))"

definition line_count :: "string \<Rightarrow> int" where
  "line_count s =
     (if s = [] then 0 else int (count_list s (CHR 0x0A)) + (if last s = CHR 0x0A then 0 else 1))"

definition envelope_marks :: "string list" where
  "envelope_marks =
     [''*** Begin Patch'', ''*** Add File:'', ''*** Update File:'', ''*** Delete File:'', ''```'', ''--- '', ''+++ '', ''@@ '']"

definition looks_like_edit_envelope :: "string \<Rightarrow> string" where
  "looks_like_edit_envelope s =
     (let t = trim_left_by (\<lambda>c. blank c \<or> c = CHR 0x0D \<or> c = CHR 0x0A) s in
      case find (has_prefix t) envelope_marks of Some m \<Rightarrow> m | None \<Rightarrow> [])"

definition write_byte_cap :: nat where "write_byte_cap = 65536"

definition put_file :: "'w file_ops \<Rightarrow> string \<Rightarrow> string \<Rightarrow> string \<Rightarrow> 'w tool_run" where
  "put_file F path body report = do {
     e \<leftarrow> call (fo_write F path body);
     ret (case e of Some x \<Rightarrow> Inl (explain_write_err path x) | None \<Rightarrow> Inr report) }"

definition create_file :: "'w file_ops \<Rightarrow> string \<Rightarrow> string \<Rightarrow> 'w tool_run" where
  "create_file F path content =
     put_file F path content
       (''wrote '' @ itoa (int (length content)) @ '' byte(s), '' @ itoa (line_count content) @ '' line(s) to '' @ path)"

text \<open>A sandbox that cannot append in place: the file is read whole and written back, or created.\<close>

definition append_by_copy :: "'w file_ops \<Rightarrow> string \<Rightarrow> string \<Rightarrow> 'w tool_run" where
  "append_by_copy F path content = do {
     r \<leftarrow> read_bounded F path;
     case r of
       Inl e \<Rightarrow> create_file F path content
     | Inr (old, clipped) \<Rightarrow>
         if clipped then
           ret (Inl (''append: '' @ path @ '' exceeds '' @ itoa (int (max_file_bytes div 1024)) @ '' KiB and this sandbox cannot append in place ''
             @ emdash @ '' rewriting it would load the whole file into memory; append with `run` shell redirection instead (e.g. run sh -c 'cat >> ''
             @ path @ '' <<'' @ [backslash] @ ''EOF ... EOF')''))
         else put_file F path (old @ content)
           (''appended '' @ itoa (int (length content)) @ '' byte(s) to '' @ path @ '' (now '' @ itoa (int (length (old @ content)))
            @ '' bytes, '' @ itoa (line_count (old @ content)) @ '' lines)'') }"

definition append_file :: "'w file_ops \<Rightarrow> string \<Rightarrow> string \<Rightarrow> 'w tool_run" where
  "append_file F path content =
     (case fo_append F of
        None \<Rightarrow> append_by_copy F path content
      | Some ap \<Rightarrow> do {
          e \<leftarrow> call (ap path content);
          case e of
            None \<Rightarrow> ret (Inr (''appended '' @ itoa (int (length content)) @ '' byte(s) to '' @ path))
          | Some (Unsupported t) \<Rightarrow> append_by_copy F path content
          | Some x \<Rightarrow> ret (Inl (explain_write_err path x)) })"

definition write_file_op :: "'w file_ops \<Rightarrow> string \<Rightarrow> string \<Rightarrow> bool \<Rightarrow> 'w tool_run" where
  "write_file_op F path content append_to =
     (if path = [] then
        ret (Inl (''write_file needs a path: write the path first, then a space, then the content, e.g. `write_file notes.txt hello''
                  @ [backslash] @ ''nworld`''))
      else if looks_like_edit_envelope content \<noteq> [] \<and> \<not> append_to then
        ret (Inl (''content begins with '' @ go_quote (looks_like_edit_envelope content)
          @ '', which looks like a patch/diff/fence wrapper rather than the file body '' @ emdash
          @ '' send the RAW file contents only (no apply_patch envelope, no ``` fence, no diff markers)''))
      else if write_byte_cap < length content then
        ret (Inl (''content is '' @ itoa (int (length content)) @ '' bytes, over the '' @ itoa (int write_byte_cap)
          @ ''-byte write_file limit '' @ emdash @ '' split it across smaller writes, or generate it with `run`''))
      else if append_to then append_file F path content
      else create_file F path content)"

definition bad_escape_text :: "string \<Rightarrow> string \<Rightarrow> string" where
  "bad_escape_text bad what =
     ''invalid escape '' @ go_quote bad @ '' in '' @ what @ '' '' @ emdash @ '' only '' @ [backslash] @ ''n, '' @ [backslash]
     @ ''t and '' @ [backslash, backslash] @ '' are supported''"

definition tool_write_file :: "'w file_ops \<Rightarrow> string \<Rightarrow> 'w tool_run" where
  "tool_write_file F arg =
     (case parse_write_arg arg of
        (path, Inl bad) \<Rightarrow>
          ret (Inl (bad_escape_text bad ''content'' @ ''; write a literal backslash as '' @ [backslash, backslash]))
      | (path, Inr content) \<Rightarrow> write_file_op F path content False)"

end
