(* ===== verification/EditTools.thy ===== *)
theory EditTools
  imports FileTools RunOutput Complex_Main
begin

text \<open>
  The edit and search tools and the toolbox (\<open>agent/tools.go\<close>). An edit replaces the one occurrence
  of an anchor, or inserts next to it; the text protocol writes it as \<open>path old ||| new\<close> and
  repairs two shapes of over-quoting. A search is one ripgrep command from the root.
\<close>

section \<open>The nearest match\<close>

text \<open>Similarity of two lines: shared words, counted with multiplicity, over the mean number of words
  (exact where Go rounds to a float).\<close>

fun shared_words :: "string list \<Rightarrow> string list \<Rightarrow> nat" where
  "shared_words counts [] = 0"
| "shared_words counts (t # ts) =
     (if t \<in> set counts then Suc (shared_words (remove1 t counts) ts) else shared_words counts ts)"

definition edit_line_similarity :: "string \<Rightarrow> string \<Rightarrow> rat" where
  "edit_line_similarity a b =
     (let s = Prelude.fields a; t = Prelude.fields b in
      if s = [] \<and> t = [] then 1 else if s = [] \<or> t = [] then 0
      else of_nat (2 * shared_words s t) / of_nat (length s + length t))"

text \<open>The first start with the best score.\<close>

definition window_score :: "string list \<Rightarrow> string list \<Rightarrow> nat \<Rightarrow> rat" where
  "window_score ol fl start =
     sum_list (map2 edit_line_similarity ol (drop start fl)) / of_nat (length ol)"

definition best_start :: "string list \<Rightarrow> string list \<Rightarrow> rat \<times> nat" where
  "best_start ol fl =
     fold (\<lambda>start (best, pos). if best < window_score ol fl start then (window_score ol fl start, start) else (best, pos))
       [0 ..< Suc (length fl - length ol)] (- 1, 0)"

definition nearest_edit_match_hint :: "string \<Rightarrow> string \<Rightarrow> string" where
  "nearest_edit_match_hint src anchor =
     (let fl = file_lines src; ol = file_lines anchor in
      if ol = [] \<or> length fl < length ol then []
      else (case best_start ol fl of
              (score, start) \<Rightarrow>
                if score < 3 / 5 then []
                else ''; '' @ (if 1 < length ol then
                       ''closest match at lines '' @ itoa (int start + 1) @ ''-'' @ itoa (int (start + length ol)) @ '':''
                     else ''closest match at line '' @ itoa (int start + 1) @ '':'')
                  @ nl @ str_join (take (min 8 (length ol)) (drop start fl)) nl))"

section \<open>One edit\<close>

definition edit_modes :: "string list" where
  "edit_modes = [''replace'', ''insert_before'', ''insert_after'']"

text \<open>What is refused before the file is read.\<close>

definition edit_refusal :: "string \<Rightarrow> string \<Rightarrow> string \<Rightarrow> string option" where
  "edit_refusal mode anchor new =
     (if mode \<notin> set edit_modes then
        Some (''invalid edit_file mode '' @ go_quote mode @ '' '' @ emdash @ '' use replace, insert_before, or insert_after'')
      else if anchor = [] then
        Some ''edit_file needs the exact existing text in `old` to locate the edit; to create a new file use write_file''
      else if mode = ''replace'' \<and> anchor = new then
        Some (''`old` and `new` are identical '' @ emdash @ '' nothing to change'')
      else if mode \<noteq> ''replace'' \<and> new = [] then
        Some (''edit_file '' @ mode @ '' mode needs non-empty `new` text to insert'')
      else if write_byte_cap < length new then
        Some (''replacement is '' @ itoa (int (length new)) @ '' bytes, over the '' @ itoa (int write_byte_cap) @ ''-byte limit ''
          @ emdash @ '' split the edit, or generate the file with `run`'')
      else if looks_like_edit_envelope new \<noteq> [] then
        Some (''`new` begins with '' @ go_quote (looks_like_edit_envelope new)
          @ '', which looks like a patch/diff/fence wrapper rather than the replacement text '' @ emdash
          @ '' send the RAW replacement only (no apply_patch envelope, no ``` fence, no diff markers)'')
      else None)"

definition line_at :: "string \<Rightarrow> nat \<Rightarrow> int" where
  "line_at src offset = 1 + int (count_list (take offset src) (CHR 0x0A))"

text \<open>The lines on which the non-overlapping occurrences start.\<close>

function match_offsets :: "string \<Rightarrow> string \<Rightarrow> nat \<Rightarrow> nat list" where
  "match_offsets src anchor offset =
     (case str_index (drop offset src) anchor of
        None \<Rightarrow> []
      | Some i \<Rightarrow>
          if anchor = [] then [] else (offset + i) # match_offsets src anchor (offset + i + length anchor))"
  by pat_completeness auto

termination
proof (relation "measure (\<lambda>(src, anchor, offset). length src - offset)", goal_cases)
  case (2 src anchor offset i)
  then have "i + length anchor \<le> length src - offset" "0 < length anchor"
    using str_index_Some [of "drop offset src" anchor i] by auto
  then have "length src - (offset + i + length anchor) < length src - offset" by linarith
  then show ?case by simp
qed simp

declare match_offsets.simps [simp del]

definition edited_text :: "string \<Rightarrow> string \<Rightarrow> string \<Rightarrow> string \<Rightarrow> nat \<Rightarrow> string" where
  "edited_text mode src anchor new pos =
     (if mode = ''insert_before'' then take pos src @ new @ drop pos src
      else if mode = ''insert_after'' then take (pos + length anchor) src @ new @ drop (pos + length anchor) src
      else take pos src @ new @ drop (pos + length anchor) src)"

definition echo_region :: "string list \<Rightarrow> int \<Rightarrow> int \<Rightarrow> string" where
  "echo_region ls start count =
     (let from_line = (if start - 2 < 1 then 1 else start - 2);
          final = (if count = 0 then start else start + count - 1);
          to_line = (if int (length ls) < final + 2 then int (length ls) else final + 2)
      in if to_line < from_line then ''(file is now empty)''
         else trim_right_by (\<lambda>c. c = CHR 0x0A) (numbered ls from_line to_line))"

definition edit_report :: "string \<Rightarrow> string \<Rightarrow> string \<Rightarrow> string \<Rightarrow> string \<Rightarrow> string \<Rightarrow> nat \<Rightarrow> string" where
  "edit_report path mode src anchor new body pos =
     (let start = line_at src pos + (if mode = ''insert_after'' then int (count_list anchor (CHR 0x0A)) else 0);
          added = (if new = [] then 0 else int (count_list new (CHR 0x0A)) + 1);
          removed = int (count_list anchor (CHR 0x0A)) + 1;
          ls = file_lines body;
          verb = (if mode = ''replace'' then ''replaced '' @ itoa removed @ '' line(s) with '' @ itoa added
                  else ''inserted '' @ itoa added @ '' line(s) (anchor preserved)'')
      in ''edited '' @ path @ '': '' @ verb @ '' at line '' @ itoa start @ ''; file now '' @ itoa (int (length ls))
         @ '' line(s). Saved '' @ emdash @ '' the excerpt below is the post-edit file; no re-read needed'' @ nl
         @ echo_region ls start added)"

definition not_found_text :: "string \<Rightarrow> string \<Rightarrow> string \<Rightarrow> string" where
  "not_found_text path src anchor =
     ''`old` text not found in '' @ go_quote path @ '' '' @ emdash
     @ '' it must match the file byte-for-byte (indentation and whitespace included); read_file to copy the exact text''
     @ nearest_edit_match_hint src anchor"

definition many_matches_text :: "string \<Rightarrow> string \<Rightarrow> string \<Rightarrow> string" where
  "many_matches_text path src anchor =
     ''`old` matches '' @ itoa (int (str_count src anchor)) @ '' places in '' @ go_quote path @ '' (lines [''
     @ str_join (map (\<lambda>k. itoa (line_at src k)) (match_offsets src anchor 0)) '' '' @ '']) '' @ emdash
     @ '' include more surrounding lines in `old` so it identifies exactly one location''"

definition edit_file_op :: "'w file_ops \<Rightarrow> string \<Rightarrow> string \<Rightarrow> string \<Rightarrow> string \<Rightarrow> 'w tool_run" where
  "edit_file_op F path anchor new given_mode =
     (let mode = (if given_mode = [] then ''replace'' else given_mode) in
      case edit_refusal mode anchor new of
        Some e \<Rightarrow> ret (Inl e)
      | None \<Rightarrow> do {
          r \<leftarrow> read_bounded F path;
          case r of
            Inl e \<Rightarrow> ret (Inl (explain_path_err path ''file'' e))
          | Inr (src, clipped) \<Rightarrow>
              if clipped then
                ret (Inl (''file '' @ go_quote path @ '' exceeds '' @ itoa (int (max_file_bytes div 1024)) @ '' KiB '' @ emdash
                  @ '' too large to edit_file safely; use `run` with sed/awk for an in-place edit''))
              else (case str_index src anchor of
                      None \<Rightarrow> ret (Inl (not_found_text path src anchor))
                    | Some pos \<Rightarrow>
                        if str_count src anchor > 1 then ret (Inl (many_matches_text path src anchor))
                        else put_file F path (edited_text mode src anchor new pos)
                               (edit_report path mode src anchor new (edited_text mode src anchor new pos) pos)) })"

section \<open>The text form of an edit\<close>

definition replace_sep :: string where "replace_sep = '' ||| ''"

definition edit_separators :: "string list" where
  "edit_separators = [replace_sep, '' '' @ [dquote] @ ''|||'' @ [dquote] @ '' '', '' `|||` '', '' '' @ [CHR 0x27] @ ''|||'' @ [CHR 0x27] @ '' '']"

text \<open>Where the first separator that occurs begins, and its width.\<close>

fun first_separator :: "string list \<Rightarrow> string \<Rightarrow> (nat \<times> nat) option" where
  "first_separator [] s = None"
| "first_separator (sep # seps) s =
     (case str_index s sep of Some i \<Rightarrow> Some (i, length sep) | None \<Rightarrow> first_separator seps s)"

definition edit_separator :: "string \<Rightarrow> (nat \<times> nat) option" where
  "edit_separator s = first_separator edit_separators s"

definition wrapper_quotes :: "char list" where "wrapper_quotes = [dquote, CHR 0x60, CHR 0x27]"

definition wrapped_in :: "char \<Rightarrow> string \<Rightarrow> bool" where
  "wrapped_in q s \<longleftrightarrow> 2 \<le> length s \<and> hd s = q \<and> last s = q"

definition strip_edit_wrappers :: "string \<Rightarrow> string \<Rightarrow> (string \<times> string) option" where
  "strip_edit_wrappers anchor new =
     (if length anchor < 2 then None
      else let q = hd anchor; inner = butlast (tl anchor) in
        if q \<notin> set wrapper_quotes \<or> last anchor \<noteq> q then None
        else if new = [] then Some (inner, [])
        else if wrapped_in q new then (if q = CHR 0x27 then None else Some (inner, butlast (tl new)))
        else if \<exists>p \<in> set wrapper_quotes. wrapped_in p new then None
        else Some (inner, new))"

definition old_text_not_found :: "string \<Rightarrow> bool" where
  "old_text_not_found e \<longleftrightarrow> str_contains e ''`old` text not found''"

text \<open>The last repair: without the quotes around the anchor; its failure leaves the first error.\<close>

definition stripped_retry :: "'w file_ops \<Rightarrow> string \<Rightarrow> string \<Rightarrow> string \<Rightarrow> string \<Rightarrow> string \<Rightarrow> 'w tool_run" where
  "stripped_retry F path anchor new mode original =
     (case strip_edit_wrappers anchor new of
        None \<Rightarrow> ret (Inl original)
      | Some (a, n) \<Rightarrow> do {
          r \<leftarrow> edit_file_op F path a n mode;
          ret (case r of
                 Inl e \<Rightarrow> Inl original
               | Inr out \<Rightarrow>
                   Inr ((if new \<noteq> n then ''note: stripped wrapping quotes from edit_file old and new text''
                         else ''note: stripped wrapping quotes from edit_file old text'') @ nl @ out)) })"

definition escaped_quote :: string where "escaped_quote = [backslash, dquote]"

text \<open>The repair of over-escaped quotes, for an argument that failed to decode with \<open>original\<close>.\<close>

definition quotes_retry :: "'w file_ops \<Rightarrow> string \<Rightarrow> string \<Rightarrow> string \<Rightarrow> string \<Rightarrow> string \<Rightarrow> 'w tool_run" where
  "quotes_retry F path old_field new_field mode original =
     (if \<not> str_contains old_field escaped_quote \<and> \<not> str_contains new_field escaped_quote then ret (Inl original)
      else (case (unescape_edit_quotes old_field, unescape_edit_quotes new_field) of
              (Inr a, Inr n) \<Rightarrow> do {
                r \<leftarrow> edit_file_op F path a n mode;
                case r of
                  Inr out \<Rightarrow> ret (Inr out)
                | Inl e \<Rightarrow> if \<not> old_text_not_found e then ret (Inl original) else stripped_retry F path a n mode e }
            | _ \<Rightarrow> ret (Inl original)))"

definition edit_fields :: "string \<Rightarrow> nat \<Rightarrow> nat \<Rightarrow> string \<times> string \<times> string" where
  "edit_fields rest pos width =
     (let tail = drop (pos + width) rest in
      case str_index tail replace_sep of
        None \<Rightarrow> (take pos rest, tail, [])
      | Some k \<Rightarrow> (take pos rest, take k tail, drop (k + length replace_sep) tail))"

definition tool_edit_file :: "'w file_ops \<Rightarrow> string \<Rightarrow> 'w tool_run" where
  "tool_edit_file F arg =
     (case split_arg (trim_space arg) of
        (path, None) \<Rightarrow>
          ret (Inl (''edit_file needs a path, the exact text to replace, and its replacement: `edit_file main.go OLD''
            @ replace_sep @ ''NEW`''))
      | (path, Some rest) \<Rightarrow>
          (case edit_separator rest of
             None \<Rightarrow>
               ret (Inl (''edit_file needs `'' @ trim_space replace_sep
                 @ ''` between the old text and the new text: `edit_file main.go OLD'' @ replace_sep @ ''NEW`''))
           | Some (pos, width) \<Rightarrow>
               (case edit_fields rest pos width of
                  (old_field, new_field, mode) \<Rightarrow>
                    (case (unescape old_field, unescape new_field) of
                       (Inl bad, _) \<Rightarrow>
                         quotes_retry F path old_field new_field mode (bad_escape_text bad ''old text'')
                     | (Inr a, Inl bad) \<Rightarrow>
                         quotes_retry F path old_field new_field mode (bad_escape_text bad ''new text'')
                     | (Inr a, Inr n) \<Rightarrow> do {
                         r \<leftarrow> edit_file_op F path a n mode;
                         case r of
                           Inr out \<Rightarrow> ret (Inr out)
                         | Inl e \<Rightarrow> if \<not> old_text_not_found e then ret (Inl e) else stripped_retry F path a n mode e }))))"

section \<open>Search\<close>

definition search_match_cap :: nat where "search_match_cap = 100"
definition run_stream_cap :: nat where "run_stream_cap = 4000"

definition validate_search_path :: "string \<Rightarrow> string + string" where
  "validate_search_path path =
     (let p = trim_space path; clean = path_clean p in
      if p = [] then Inr []
      else if is_abs p then
        Inl (''search path '' @ go_quote p @ '' must be relative to the sandbox root (omit it to search the whole project)'')
      else if clean = ''..'' \<or> has_prefix clean ''../'' then
        Inl (''refused: search path '' @ go_quote p @ '' escapes the sandbox root'')
      else Inr clean)"

definition search_args :: "string \<Rightarrow> string \<Rightarrow> string list" where
  "search_args pattern path =
     [''--line-number'', ''--no-heading'', ''--color=never'', ''--smart-case'', ''--max-columns=250'',
      ''--max-columns-preview'', ''-e'', pattern] @ (if path \<noteq> [] then [''--'', path] else [])"

definition format_search :: "result \<Rightarrow> string \<Rightarrow> string \<Rightarrow> string" where
  "format_search r pattern path =
     (let scope = (if path \<noteq> [] then path else ''the project'') in
      if exit_code r = 0 then
        (let ls = split_on (CHR 0x0A) (trim_right_by (\<lambda>c. c = CHR 0x0A) (stdout r)) in
         str_join (take search_match_cap ls) nl
         @ (if search_match_cap < length ls then
              nl @ ''...[showing the first '' @ itoa (int search_match_cap) @ '' of '' @ itoa (int (length ls)) @ '' matches '' @ emdash
              @ '' refine the pattern, or pass a narrower `path`, to see the rest]''
            else []))
      else if exit_code r = 1 then
        ''no matches for /'' @ pattern @ ''/ in '' @ scope @ '' '' @ emdash
        @ '' the pattern is not present anywhere tracked (gitignored files aside); a confirmed absence can be your answer. Widen the pattern if you expected a hit.''
      else
        (let msg = clip (trim_space (stderr r)) run_stream_cap in
         ''search error: '' @ (if msg = [] then ''ripgrep exited '' @ itoa (exit_code r) @ '' with no message'' else msg)))"

definition host_search :: "'w file_ops \<Rightarrow> string \<Rightarrow> string \<Rightarrow> int \<Rightarrow> 'w tool_run" where
  "host_search F pattern dir timeout =
     (if trim_space pattern = [] then ret (Inl ''search needs a pattern, e.g. `search retry|backoff`'')
      else do {
        h \<leftarrow> call (fo_host_rg F (search_args (trim_space pattern) dir) timeout);
        ret (case h of
               HostDone r \<Rightarrow> Inr (format_search r (trim_space pattern) dir)
             | HostMissing \<Rightarrow>
                 Inl (''ripgrep (rg) is not installed '' @ emdash @ '' fall back to `run grep -rn <pattern> '' @ dir @ ''`'')
             | HostDeadline \<Rightarrow>
                 Inl (''search timed out after '' @ dur_string timeout @ '' '' @ emdash @ '' narrow it with a more specific pattern'')
             | HostFailed t \<Rightarrow> Inl t) })"

definition search_op :: "'w file_ops \<Rightarrow> string \<Rightarrow> string \<Rightarrow> int \<Rightarrow> 'w tool_run" where
  "search_op F pat path timeout =
     (let pattern = trim_space pat in
      if pattern = [] then
        ret (Inl (''search needs a pattern, e.g. `search retry|backoff` '' @ emdash @ '' it is matched as a regex from the project root''))
      else (case go_source_path (fo_go_roots F) path of
              Some tree \<Rightarrow> host_search F pattern tree timeout
            | None \<Rightarrow>
                (case validate_search_path path of
                   Inl e \<Rightarrow> ret (Inl e)
                 | Inr clean \<Rightarrow> do {
                     r \<leftarrow> call (fo_exec F \<lparr> cmd_path = ''rg'', cmd_args = search_args pattern clean, cmd_dir = [], cmd_timeout = timeout \<rparr>);
                     ret (case r of
                            Inl e \<Rightarrow>
                              if str_contains e ''executable file not found'' then
                                Inl (''ripgrep (rg) is not installed '' @ emdash
                                  @ '' fall back to `run grep -rn <pattern> .` (search from `.`, the root, so the docs stay in scope)'')
                              else Inl e
                          | Inr res \<Rightarrow>
                              if timed_out res then
                                Inl (''search timed out after '' @ dur_string timeout @ '' '' @ emdash
                                  @ '' narrow it with a more specific pattern or a path'')
                              else Inr (format_search res pattern clean)) })))"

section \<open>The toolbox of the text loop\<close>

definition run_tool :: "'w file_ops \<Rightarrow> string \<Rightarrow> int \<Rightarrow> 'w tool_run" where
  "run_tool F command timeout = do {
     r \<leftarrow> call (fo_exec F \<lparr> cmd_path = ''sh'', cmd_args = [''-c'', command], cmd_dir = [], cmd_timeout = timeout \<rparr>);
     ret (map_sum id format_run r) }"

text \<open>\<open>go_doc\<close> is given.\<close>

definition default_tools :: "'w file_ops \<Rightarrow> int \<Rightarrow> read_options \<Rightarrow> (string \<Rightarrow> 'w \<Rightarrow> (string + string) \<times> 'w)
    \<Rightarrow> (string \<times> (string \<Rightarrow> 'w \<Rightarrow> (string + string) \<times> 'w)) list" where
  "default_tools F timeout ro go_doc =
     [(''list_dir'', \<lambda>arg. run_state (list_dir_op F arg)),
      (''read_file'', \<lambda>arg. run_state (tool_read_file F ro arg)),
      (''run'', \<lambda>arg. run_state (run_tool F arg timeout)),
      (''search'', \<lambda>arg. run_state (search_op F arg [] timeout)),
      (''go_doc'', go_doc),
      (''write_file'', \<lambda>arg. run_state (tool_write_file F arg)),
      (''edit_file'', \<lambda>arg. run_state (tool_edit_file F arg))]"

definition read_only_toolbox :: "'w file_ops \<Rightarrow> int \<Rightarrow> read_options \<Rightarrow> (string \<Rightarrow> 'w \<Rightarrow> (string + string) \<times> 'w)
    \<Rightarrow> (string \<times> (string \<Rightarrow> 'w \<Rightarrow> (string + string) \<times> 'w)) list" where
  "read_only_toolbox F timeout ro go_doc =
     filter (\<lambda>t. fst t \<notin> {''write_file'', ''edit_file''}) (default_tools F timeout ro go_doc)"

end
