(* ===== verification/Detectors.thy ===== *)
theory Detectors
  imports Evidence "HOL-Library.AList"
begin

text \<open>
  The no-progress detectors (\<open>agent/tracker.go\<close>, \<open>agent/termination.go\<close>): the run
  tracker with its stagnation, green-repeat and observation-repeat counters and its one-time
  nudges, and the explore-spiral detector with its bounded frontier. Policies come from
  \<open>runspec\<close>. Go integers are unbounded integers here: every counter is bounded by the
  number of turns.

  The counters share one contract, a count of consecutive equal fingerprints; it is stated as
  a locale and interpreted for each.
\<close>

section \<open>The tracker\<close>

record tracker =
  tk_verify_cmd :: string
  tk_churn_nudge_runs :: int
  tk_diagnose_cmd :: string
  tk_diagnose_after_edits :: int
  tk_finish_nudge_window :: int
  tk_max_iter :: int
  tk_policy :: termination_policy
  tk_last_run_fp :: string
  tk_stagnant :: int
  tk_last_run_failed :: bool
  tk_last_run_passed :: bool
  tk_last_run :: verification_record
  tk_last_verify :: verification_record
  tk_fail_runs :: int
  tk_edits :: int
  tk_nudged :: bool
  tk_edits_since_green :: int
  tk_last_edit_iter :: int
  tk_finish_nudged :: bool
  tk_last_tool_obs_fp :: string
  tk_tool_obs_repeat :: int
  tk_last_green_fp :: string
  tk_green_repeat :: int
  tk_green_nudged :: bool

definition new_tracker :: "policy_value \<Rightarrow> string \<Rightarrow> int \<Rightarrow> tracker" where
  "new_tracker pol cmd max_iter =
     \<lparr> tk_verify_cmd = cmd, tk_churn_nudge_runs = pv_churn_nudge_runs pol,
       tk_diagnose_cmd = pv_diagnose_cmd pol, tk_diagnose_after_edits = pv_diagnose_after_edits pol,
       tk_finish_nudge_window = pv_finish_nudge_window pol, tk_max_iter = max_iter,
       tk_policy = pv_termination pol, tk_last_run_fp = [], tk_stagnant = 0, tk_last_run_failed = False,
       tk_last_run_passed = False, tk_last_run = zero_record, tk_last_verify = zero_record,
       tk_fail_runs = 0, tk_edits = 0, tk_nudged = False, tk_edits_since_green = 0,
       tk_last_edit_iter = 0, tk_finish_nudged = False, tk_last_tool_obs_fp = [], tk_tool_obs_repeat = 0,
       tk_last_green_fp = [], tk_green_repeat = 0, tk_green_nudged = False \<rparr>"

text \<open>\<open>observeRun\<close>. An environment fault leaves early, before any streak is touched.\<close>

definition observe_run :: "string \<Rightarrow> tracker \<Rightarrow> (bool \<times> int) \<times> tracker" where
  "observe_run obs t0 =
     (let failed = is_run_failure obs; passed = is_run_success obs; fp = run_fingerprint obs;
          t1 = t0\<lparr>tk_last_run_failed := failed, tk_last_run_passed := passed,
                  tk_edits_since_green := (if passed then 0 else tk_edits_since_green t0)\<rparr> in
      if failed \<and> is_infra_fault obs then ((False, tk_stagnant t1), t1\<lparr>tk_last_run_failed := False\<rparr>)
      else
        (let t2 = (if failed then t1\<lparr>tk_fail_runs := tk_fail_runs t1 + 1\<rparr> else t1);
             t3 = (if \<not> failed then t2\<lparr>tk_stagnant := 0, tk_last_run_fp := []\<rparr>
                   else if fp = tk_last_run_fp t2 then t2\<lparr>tk_stagnant := tk_stagnant t2 + 1\<rparr>
                   else t2\<lparr>tk_stagnant := 1, tk_last_run_fp := fp\<rparr>);
             t4 = (if passed then
                     (if fp = tk_last_green_fp t3 then t3\<lparr>tk_green_repeat := tk_green_repeat t3 + 1\<rparr>
                      else t3\<lparr>tk_green_repeat := 1, tk_last_green_fp := fp\<rparr>)
                   else t3\<lparr>tk_green_repeat := 0, tk_last_green_fp := []\<rparr>)
         in ((tp_max_stagnant (tk_policy t4) \<le> tk_stagnant t4, tk_stagnant t4), t4)))"

definition record_run :: "string \<Rightarrow> string \<Rightarrow> string \<Rightarrow> tracker \<Rightarrow> tracker" where
  "record_run cmd obs tree t =
     (let r = new_verification_record cmd obs tree; v = trim_space (tk_verify_cmd t);
          t1 = t\<lparr>tk_last_run := r\<rparr>
      in if v \<noteq> [] \<and> vr_command r = v
         then t1\<lparr>tk_last_verify := r\<lparr>vr_attempts := vr_attempts (tk_last_verify t) + 1\<rparr>\<rparr>
         else t1)"

definition observe_tool_observation :: "string \<Rightarrow> tracker \<Rightarrow> (bool \<times> int) \<times> tracker" where
  "observe_tool_observation fp t =
     (if fp = [] then ((False, 0), t\<lparr>tk_last_tool_obs_fp := [], tk_tool_obs_repeat := 0\<rparr>)
      else
        (let t1 = (if fp = tk_last_tool_obs_fp t then t\<lparr>tk_tool_obs_repeat := tk_tool_obs_repeat t + 1\<rparr>
                   else t\<lparr>tk_last_tool_obs_fp := fp, tk_tool_obs_repeat := 1\<rparr>)
         in ((tp_max_reasoning_repeats (tk_policy t1) \<le> tk_tool_obs_repeat t1, tk_tool_obs_repeat t1), t1)))"

definition observe_action :: "int \<Rightarrow> string \<Rightarrow> tracker \<Rightarrow> bool \<times> tracker" where
  "observe_action i verb t =
     (let t1 = (if verb = ''edit_file'' then t\<lparr>tk_edits := tk_edits t + 1\<rparr> else t) in
      if verb = ''write_file'' \<or> verb = ''edit_file'' then
        (True, t1\<lparr>tk_last_edit_iter := i, tk_edits_since_green := tk_edits_since_green t1 + 1, tk_green_repeat := 0\<rparr>)
      else (False, t1))"

definition churn_nudge :: "tracker \<Rightarrow> bool \<times> tracker" where
  "churn_nudge t =
     (if tk_nudged t \<or> tk_churn_nudge_runs t \<le> 0 then (False, t)
      else if tk_churn_nudge_runs t \<le> tk_fail_runs t \<or> tk_churn_nudge_runs t \<le> tk_edits t
      then (True, t\<lparr>tk_nudged := True\<rparr>) else (False, t))"

definition finish_nudge :: "int \<Rightarrow> tracker \<Rightarrow> bool \<times> tracker" where
  "finish_nudge i t =
     (let w = tk_finish_nudge_window t in
      if tk_finish_nudged t \<or> w \<le> 0 \<or> tk_max_iter t \<le> i then (False, t)
      else if tk_max_iter t - i \<le> w \<and> tk_last_run_passed t \<and> w \<le> i - tk_last_edit_iter t
      then (True, t\<lparr>tk_finish_nudged := True\<rparr>) else (False, t))"

definition green_repeat_nudge :: "tracker \<Rightarrow> bool \<times> tracker" where
  "green_repeat_nudge t =
     (if tk_green_nudged t then (False, t)
      else if tp_green_repeat_threshold (tk_policy t) \<le> tk_green_repeat t
      then (True, t\<lparr>tk_green_nudged := True\<rparr>) else (False, t))"

datatype diag_state = DiagUnknown | DiagClean | DiagDirty

text \<open>\<open>diagnoseSource\<close>: the outcome of running the check, an error or the printed
  result.\<close>

definition diagnose_source :: "string \<Rightarrow> string + string \<Rightarrow> string \<times> diag_state" where
  "diagnose_source cmd outcm =
     (if cmd = [] then ([], DiagUnknown)
      else (case outcm of
              Inl _ \<Rightarrow> ([], DiagUnknown)
            | Inr out \<Rightarrow> if is_run_failure out then (out, DiagDirty) else ([], DiagClean)))"

definition diagnostics_message :: "string \<Rightarrow> string \<Rightarrow> string" where
  "diagnostics_message cmd report =
     ''[diagnostics] your recent edits do not build yet '' @ emdash @ '' `'' @ cmd @ ''` reports:'' @ nl @ report @ nl
     @ ''Fix these errors and continue. This is informational, not a stop.''"

definition diagnostics :: "string + string \<Rightarrow> tracker \<Rightarrow> string \<times> tracker" where
  "diagnostics outcm t =
     (if tk_diagnose_cmd t = [] \<or> tk_diagnose_after_edits t \<le> 0
         \<or> tk_edits_since_green t < tk_diagnose_after_edits t then ([], t)
      else (case diagnose_source (tk_diagnose_cmd t) outcm of
              (report, DiagClean) \<Rightarrow> ([], t\<lparr>tk_edits_since_green := 0\<rparr>)
            | (report, DiagDirty) \<Rightarrow> (diagnostics_message (tk_diagnose_cmd t) report, t)
            | (report, DiagUnknown) \<Rightarrow> ([], t)))"

definition repeat_threshold :: "termination_policy \<Rightarrow> bool \<Rightarrow> int" where
  "repeat_threshold policy advanced = (if advanced then tp_max_reasoning_repeats policy else tp_max_repeats policy)"

section \<open>The explore-spiral detector\<close>

record spiral =
  sp_policy :: termination_policy
  sp_window :: int
  sp_visited :: "string list"
  sp_order :: "string list"
  sp_cycle_run :: int
  sp_wander :: int

datatype spiral_kill = SpiralKillNone | SpiralKillCycle | SpiralKillWander

definition new_spiral :: "termination_policy \<Rightarrow> spiral" where
  "new_spiral policy =
     \<lparr> sp_policy = policy, sp_window = tp_nav_spiral_window policy, sp_visited = [], sp_order = [],
       sp_cycle_run = 0, sp_wander = 0 \<rparr>"

text \<open>The visited set, a map to true in the code, is the list of its keys.\<close>

definition spiral_add :: "string \<Rightarrow> spiral \<Rightarrow> spiral" where
  "spiral_add tgt s =
     (let visited = tgt # sp_visited s; order = sp_order s @ [tgt] in
      if tp_frontier_cap (sp_policy s) < int (length order)
      then s\<lparr>sp_visited := removeAll (hd order) visited, sp_order := tl order\<rparr>
      else s\<lparr>sp_visited := visited, sp_order := order\<rparr>)"

fun spiral_targets :: "string list \<Rightarrow> bool \<Rightarrow> spiral \<Rightarrow> bool \<times> spiral" where
  "spiral_targets [] novel s = (novel, s)"
| "spiral_targets (tgt # tgts) novel s =
     (if tgt \<notin> set (sp_visited s) then spiral_targets tgts True (spiral_add tgt s)
      else spiral_targets tgts novel s)"

definition observe_discovery_turn :: "string list \<Rightarrow> spiral \<Rightarrow> spiral_kill \<times> spiral" where
  "observe_discovery_turn targets s0 =
     (let (novel, s1) = spiral_targets targets False s0;
          s2 = s1\<lparr>sp_wander := sp_wander s1 + 1,
                  sp_cycle_run := (if novel then 0 else sp_cycle_run s1 + 1)\<rparr>
      in if sp_window s2 \<le> sp_cycle_run s2 then (SpiralKillCycle, s2)
         else if tp_wander_multiple (sp_policy s2) * sp_window s2 \<le> sp_wander s2 then (SpiralKillWander, s2)
         else (SpiralKillNone, s2))"

definition spiral_reset :: "spiral \<Rightarrow> spiral" where
  "spiral_reset s = s\<lparr>sp_cycle_run := 0, sp_wander := 0, sp_visited := [], sp_order := []\<rparr>"

section \<open>Deduplicated observations\<close>

definition obs_dedup_min_len :: nat where "obs_dedup_min_len = 200"

definition dedup_stub ::
  "(string \<Rightarrow> string) \<Rightarrow> string \<Rightarrow> int \<Rightarrow> (string \<times> int) list \<Rightarrow> string option \<times> (string \<times> int) list" where
  "dedup_stub sha raw i seen =
     (if length raw < obs_dedup_min_len then (None, seen)
      else (case map_of seen (sha raw) of
              Some k \<Rightarrow> (Some (''[identical to iter '' @ itoa k @ '' '' @ emdash @ '' deduped]''), seen)
            | None \<Rightarrow> (None, (sha raw, i) # seen)))"

section \<open>Counting consecutive repeats\<close>

text \<open>The number of equal keys at the end of a history; \<open>None\<close> breaks a streak.\<close>

definition streak :: "string option list \<Rightarrow> nat" where
  "streak ks =
     (case rev ks of [] \<Rightarrow> 0 | None # _ \<Rightarrow> 0 | Some k # rest \<Rightarrow> 1 + length (takeWhile (\<lambda>x. x = Some k) rest))"

lemma streak_Nil [simp]: "streak [] = 0"
  by (simp add: streak_def)

lemma streak_None [simp]: "streak (ks @ [None]) = 0"
  by (simp add: streak_def)

lemma streak_Some:
  "streak (ks @ [Some k]) = (if ks \<noteq> [] \<and> last ks = Some k then Suc (streak ks) else 1)"
  by (cases ks rule: rev_cases) (auto simp: streak_def split: option.split)

lemma streak_zero: "streak ks = 0 \<Longrightarrow> ks = [] \<or> last ks = None"
proof (cases ks rule: rev_cases)
  case (snoc ys y)
  assume "streak ks = 0"
  with snoc show ?thesis by (cases y) (auto simp: streak_Some split: if_splits)
qed simp

lemma replicate_snoc: "replicate (Suc n) x = replicate n x @ [x]"
  by (simp add: replicate_append_same)

lemma streak_ge: "n \<le> streak ks \<longleftrightarrow> n = 0 \<or> (\<exists>k pre. ks = pre @ replicate n (Some k))"
proof (induction ks arbitrary: n rule: rev_induct)
  case Nil
  then show ?case by auto
next
  case (snoc x ks)
  show ?case
  proof (cases n)
    case (Suc m)
    show ?thesis
    proof (cases x)
      case None
      then show ?thesis by (auto simp: Suc replicate_snoc simp del: replicate_Suc)
    next
      case (Some k)
      have r: "(\<exists>k pre. ks @ [x] = pre @ replicate n (Some k)) \<longleftrightarrow> (\<exists>pre. ks = pre @ replicate m (Some k))"
        by (auto simp: Suc Some replicate_snoc simp del: replicate_Suc)
      have key: "m = 0 \<or> (ks \<noteq> [] \<and> last ks = Some k \<and> m \<le> streak ks) \<longleftrightarrow> (\<exists>pre. ks = pre @ replicate m (Some k))"
      proof (cases m)
        case (Suc l)
        show ?thesis unfolding snoc.IH
          by (auto simp: Suc replicate_snoc simp del: replicate_Suc)
      qed simp
      show ?thesis using key r by (auto simp: Some streak_Some Suc)
    qed
  qed simp
qed

text \<open>The contract of a detector counter: an input is ignored, breaks the streak, or carries
  a key that either repeats the remembered one or starts over at one.\<close>

locale repeat_counter =
  fixes step :: "'i \<Rightarrow> 's \<Rightarrow> 's" and count :: "'s \<Rightarrow> int" and remembered :: "'s \<Rightarrow> string"
    and ignored :: "'i \<Rightarrow> bool" and key :: "'i \<Rightarrow> string option"
  assumes ignored: "ignored i \<Longrightarrow> count (step i s) = count s \<and> remembered (step i s) = remembered s"
    and breaks: "\<not> ignored i \<Longrightarrow> key i = None \<Longrightarrow> count (step i s) = 0"
    and counts: "\<not> ignored i \<Longrightarrow> key i = Some k \<Longrightarrow>
      count (step i s) = (if k = remembered s then count s + 1 else 1) \<and> remembered (step i s) = k"
begin

definition keys :: "'i list \<Rightarrow> string option list" where
  "keys xs = map key (filter (\<lambda>i. \<not> ignored i) xs)"

lemma keys_snoc: "keys (xs @ [i]) = (if ignored i then keys xs else keys xs @ [key i])"
  by (simp add: keys_def)

lemma count_streak:
  assumes "count s = 0"
  shows "count (fold step xs s) = int (streak (keys xs))
    \<and> (0 < streak (keys xs) \<longrightarrow> last (keys xs) = Some (remembered (fold step xs s)))"
proof (induction xs rule: rev_induct)
  case Nil
  with assms show ?case by (simp add: keys_def)
next
  case (snoc i xs)
  let ?s = "fold step xs s"
  have zero: "streak (keys xs) = 0 \<Longrightarrow> keys xs = [] \<or> last (keys xs) = None"
    by (rule streak_zero)
  show ?case
  proof (cases "ignored i")
    case True
    with snoc show ?thesis by (simp add: keys_snoc ignored)
  next
    case False
    show ?thesis
    proof (cases "key i")
      case None
      with False show ?thesis by (simp add: keys_snoc breaks)
    next
      case (Some k)
      have c: "count (step i ?s) = (if k = remembered ?s then count ?s + 1 else 1)" "remembered (step i ?s) = k"
        using counts [OF False Some] by auto
      show ?thesis
      proof (cases "0 < streak (keys xs)")
        case True
        then have "keys xs \<noteq> []" "last (keys xs) = Some (remembered ?s)" using snoc by auto
        with c snoc False Some show ?thesis by (auto simp: keys_snoc streak_Some)
      next
        case no: False
        then have "keys xs = [] \<or> last (keys xs) = None" using zero by simp
        with no c snoc False Some show ?thesis by (auto simp: keys_snoc streak_Some)
      qed
    qed
  qed
qed

lemma count_ge:
  "count s = 0 \<Longrightarrow> int n \<le> count (fold step xs s) \<longleftrightarrow> n = 0 \<or> (\<exists>k pre. keys xs = pre @ replicate n (Some k))"
  using count_streak [of s xs] streak_ge [of n "keys xs"] by simp

end

text \<open>What the loops feed the tracker.\<close>

datatype tracker_event = EvRun string | EvAction int string | EvToolObs string

fun tracker_step :: "tracker_event \<Rightarrow> tracker \<Rightarrow> tracker" where
  "tracker_step (EvRun obs) t = snd (observe_run obs t)"
| "tracker_step (EvAction i verb) t = snd (observe_action i verb t)"
| "tracker_step (EvToolObs fp) t = snd (observe_tool_observation fp t)"

definition env_fault_run :: "string \<Rightarrow> bool" where
  "env_fault_run obs \<longleftrightarrow> is_run_failure obs \<and> is_infra_fault obs"

fun stagnant_ignored :: "tracker_event \<Rightarrow> bool" where
  "stagnant_ignored (EvRun obs) = env_fault_run obs"
| "stagnant_ignored _ = True"

fun stagnant_key :: "tracker_event \<Rightarrow> string option" where
  "stagnant_key (EvRun obs) = (if is_run_failure obs then Some (run_fingerprint obs) else None)"
| "stagnant_key _ = None"

fun green_ignored :: "tracker_event \<Rightarrow> bool" where
  "green_ignored (EvRun obs) = env_fault_run obs"
| "green_ignored (EvAction i verb) = (verb \<noteq> ''write_file'' \<and> verb \<noteq> ''edit_file'')"
| "green_ignored (EvToolObs fp) = True"

fun green_key :: "tracker_event \<Rightarrow> string option" where
  "green_key (EvRun obs) = (if is_run_success obs then Some (run_fingerprint obs) else None)"
| "green_key _ = None"

fun tool_obs_ignored :: "tracker_event \<Rightarrow> bool" where
  "tool_obs_ignored (EvToolObs fp) = False"
| "tool_obs_ignored _ = True"

fun tool_obs_key :: "tracker_event \<Rightarrow> string option" where
  "tool_obs_key (EvToolObs fp) = (if fp = [] then None else Some fp)"
| "tool_obs_key _ = None"

lemma observe_run_state:
  "tk_stagnant (snd (observe_run obs t)) =
     (if env_fault_run obs then tk_stagnant t
      else if \<not> is_run_failure obs then 0
      else if run_fingerprint obs = tk_last_run_fp t then tk_stagnant t + 1 else 1)"
  "tk_last_run_fp (snd (observe_run obs t)) =
     (if env_fault_run obs then tk_last_run_fp t
      else if \<not> is_run_failure obs then [] else run_fingerprint obs)"
  "tk_green_repeat (snd (observe_run obs t)) =
     (if env_fault_run obs then tk_green_repeat t
      else if \<not> is_run_success obs then 0
      else if run_fingerprint obs = tk_last_green_fp t then tk_green_repeat t + 1 else 1)"
  "tk_last_green_fp (snd (observe_run obs t)) =
     (if env_fault_run obs then tk_last_green_fp t
      else if \<not> is_run_success obs then [] else run_fingerprint obs)"
  "tk_tool_obs_repeat (snd (observe_run obs t)) = tk_tool_obs_repeat t"
  "tk_last_tool_obs_fp (snd (observe_run obs t)) = tk_last_tool_obs_fp t"
  "tk_policy (snd (observe_run obs t)) = tk_policy t"
  by (simp_all add: observe_run_def Let_def env_fault_run_def)

lemma observe_action_state:
  "tk_stagnant (snd (observe_action i verb t)) = tk_stagnant t"
  "tk_last_run_fp (snd (observe_action i verb t)) = tk_last_run_fp t"
  "tk_green_repeat (snd (observe_action i verb t)) =
     (if verb = ''write_file'' \<or> verb = ''edit_file'' then 0 else tk_green_repeat t)"
  "tk_last_green_fp (snd (observe_action i verb t)) = tk_last_green_fp t"
  "tk_tool_obs_repeat (snd (observe_action i verb t)) = tk_tool_obs_repeat t"
  "tk_last_tool_obs_fp (snd (observe_action i verb t)) = tk_last_tool_obs_fp t"
  "tk_policy (snd (observe_action i verb t)) = tk_policy t"
  by (simp_all add: observe_action_def Let_def)

lemma observe_tool_state:
  "tk_stagnant (snd (observe_tool_observation fp t)) = tk_stagnant t"
  "tk_last_run_fp (snd (observe_tool_observation fp t)) = tk_last_run_fp t"
  "tk_green_repeat (snd (observe_tool_observation fp t)) = tk_green_repeat t"
  "tk_last_green_fp (snd (observe_tool_observation fp t)) = tk_last_green_fp t"
  "tk_tool_obs_repeat (snd (observe_tool_observation fp t)) =
     (if fp = [] then 0 else if fp = tk_last_tool_obs_fp t then tk_tool_obs_repeat t + 1 else 1)"
  "tk_last_tool_obs_fp (snd (observe_tool_observation fp t)) = fp"
  "tk_policy (snd (observe_tool_observation fp t)) = tk_policy t"
  by (simp_all add: observe_tool_observation_def Let_def)

lemmas tracker_states = observe_run_state observe_action_state observe_tool_state

interpretation stagnant: repeat_counter tracker_step tk_stagnant tk_last_run_fp stagnant_ignored stagnant_key
proof
  fix i s k
  show "stagnant_ignored i \<Longrightarrow> tk_stagnant (tracker_step i s) = tk_stagnant s \<and> tk_last_run_fp (tracker_step i s) = tk_last_run_fp s"
    by (cases i) (simp_all add: tracker_states)
  show "\<not> stagnant_ignored i \<Longrightarrow> stagnant_key i = None \<Longrightarrow> tk_stagnant (tracker_step i s) = 0"
    by (cases i) (simp_all add: tracker_states split: if_splits)
  show "\<not> stagnant_ignored i \<Longrightarrow> stagnant_key i = Some k \<Longrightarrow>
      tk_stagnant (tracker_step i s) = (if k = tk_last_run_fp s then tk_stagnant s + 1 else 1)
      \<and> tk_last_run_fp (tracker_step i s) = k"
    by (cases i) (auto simp: tracker_states split: if_splits)
qed

interpretation green: repeat_counter tracker_step tk_green_repeat tk_last_green_fp green_ignored green_key
proof
  fix i s k
  show "green_ignored i \<Longrightarrow> tk_green_repeat (tracker_step i s) = tk_green_repeat s \<and> tk_last_green_fp (tracker_step i s) = tk_last_green_fp s"
    by (cases i) (simp_all add: tracker_states)
  show "\<not> green_ignored i \<Longrightarrow> green_key i = None \<Longrightarrow> tk_green_repeat (tracker_step i s) = 0"
    by (cases i) (auto simp: tracker_states split: if_splits)
  show "\<not> green_ignored i \<Longrightarrow> green_key i = Some k \<Longrightarrow>
      tk_green_repeat (tracker_step i s) = (if k = tk_last_green_fp s then tk_green_repeat s + 1 else 1)
      \<and> tk_last_green_fp (tracker_step i s) = k"
    by (cases i) (auto simp: tracker_states split: if_splits)
qed

interpretation tool_obs: repeat_counter tracker_step tk_tool_obs_repeat tk_last_tool_obs_fp tool_obs_ignored tool_obs_key
proof
  fix i s k
  show "tool_obs_ignored i \<Longrightarrow> tk_tool_obs_repeat (tracker_step i s) = tk_tool_obs_repeat s \<and> tk_last_tool_obs_fp (tracker_step i s) = tk_last_tool_obs_fp s"
    by (cases i) (simp_all add: tracker_states)
  show "\<not> tool_obs_ignored i \<Longrightarrow> tool_obs_key i = None \<Longrightarrow> tk_tool_obs_repeat (tracker_step i s) = 0"
    by (cases i) (auto simp: tracker_states split: if_splits)
  show "\<not> tool_obs_ignored i \<Longrightarrow> tool_obs_key i = Some k \<Longrightarrow>
      tk_tool_obs_repeat (tracker_step i s) = (if k = tk_last_tool_obs_fp s then tk_tool_obs_repeat s + 1 else 1)
      \<and> tk_last_tool_obs_fp (tracker_step i s) = k"
    by (cases i) (auto simp: tracker_states split: if_splits)
qed

lemma tracker_step_policy [simp]: "tk_policy (tracker_step e t) = tk_policy t"
  by (cases e) (simp_all add: tracker_states)

lemma tracker_steps_policy [simp]: "tk_policy (fold tracker_step es t) = tk_policy t"
  by (induction es arbitrary: t) auto

lemma observe_run_kill:
  "\<not> env_fault_run obs \<Longrightarrow>
     fst (observe_run obs t) = (tp_max_stagnant (tk_policy t) \<le> tk_stagnant (snd (observe_run obs t)),
                                tk_stagnant (snd (observe_run obs t)))"
  "env_fault_run obs \<Longrightarrow> fst (observe_run obs t) = (False, tk_stagnant t)"
  by (simp_all add: observe_run_def Let_def env_fault_run_def)

section \<open>The frontier\<close>

definition frontier_ok :: "spiral \<Rightarrow> bool" where
  "frontier_ok s \<longleftrightarrow>
     set (sp_visited s) = set (sp_order s) \<and> distinct (sp_order s)
     \<and> int (length (sp_order s)) \<le> tp_frontier_cap (sp_policy s)"

lemma spiral_add_ok:
  assumes "frontier_ok s" and "tgt \<notin> set (sp_visited s)" and "0 \<le> tp_frontier_cap (sp_policy s)"
  shows "frontier_ok (spiral_add tgt s)"
proof -
  let ?o = "sp_order s @ [tgt]"
  have d: "distinct ?o" "set (tgt # sp_visited s) = set ?o" using assms(1,2) by (auto simp: frontier_ok_def)
  have h: "hd ?o # tl ?o = ?o" by (rule list.collapse) simp
  then have "set (removeAll (hd ?o) (tgt # sp_visited s)) = set (tl ?o)"
    using d by (metis Diff_insert_absorb distinct.simps(2) list.simps(15) set_removeAll)
  moreover have "distinct (tl ?o)" using d(1) by (rule distinct_tl)
  ultimately show ?thesis
    using d assms(1) by (auto simp: frontier_ok_def spiral_add_def Let_def simp del: removeAll.simps)
qed

lemma spiral_add_fields [simp]:
  "sp_policy (spiral_add tgt s) = sp_policy s" "sp_window (spiral_add tgt s) = sp_window s"
  "sp_cycle_run (spiral_add tgt s) = sp_cycle_run s" "sp_wander (spiral_add tgt s) = sp_wander s"
  by (simp_all add: spiral_add_def Let_def)

lemma spiral_targets_fields [simp]:
  "sp_policy (snd (spiral_targets ts b s)) = sp_policy s" "sp_window (snd (spiral_targets ts b s)) = sp_window s"
  "sp_cycle_run (snd (spiral_targets ts b s)) = sp_cycle_run s" "sp_wander (snd (spiral_targets ts b s)) = sp_wander s"
  by (induction ts b s rule: spiral_targets.induct) auto

lemma spiral_targets_ok:
  "frontier_ok s \<Longrightarrow> 0 \<le> tp_frontier_cap (sp_policy s) \<Longrightarrow> frontier_ok (snd (spiral_targets ts b s))"
  by (induction ts b s rule: spiral_targets.induct) (auto simp: spiral_add_ok)

lemma spiral_targets_novel_mono: "fst (spiral_targets ts True s)"
  by (induction ts "True" s rule: spiral_targets.induct) auto

lemma spiral_targets_seen:
  "\<forall>t \<in> set ts. t \<in> set (sp_visited s) \<Longrightarrow> spiral_targets ts b s = (b, s)"
  by (induction ts b s rule: spiral_targets.induct) auto

lemma spiral_add_visited: "set (sp_visited (spiral_add tgt s)) \<subseteq> insert tgt (set (sp_visited s))"
  by (auto simp: spiral_add_def Let_def)

lemma spiral_targets_visited: "set (sp_visited (snd (spiral_targets ts b s))) \<subseteq> set ts \<union> set (sp_visited s)"
proof (induction ts b s rule: spiral_targets.induct)
  case (2 tgt ts b s)
  then show ?case using spiral_add_visited [of tgt s] by auto
qed simp

text \<open>A target that has not been seen before the turn is still new when it is reached, or
  it was added earlier in the same turn: the turn is novel either way.\<close>

lemma spiral_targets_new:
  "t \<in> set ts \<Longrightarrow> t \<notin> set (sp_visited s) \<Longrightarrow> fst (spiral_targets ts b s)"
proof (induction ts arbitrary: b s)
  case (Cons x ts)
  show ?case
  proof (cases "x \<in> set (sp_visited s)")
    case True
    with Cons show ?thesis by auto
  next
    case False
    then show ?thesis using spiral_targets_novel_mono by simp
  qed
qed simp

lemma discovery_state:
  "sp_wander (snd (observe_discovery_turn ts s)) = sp_wander s + 1"
  "sp_window (snd (observe_discovery_turn ts s)) = sp_window s"
  "sp_policy (snd (observe_discovery_turn ts s)) = sp_policy s"
  "sp_visited (snd (observe_discovery_turn ts s)) = sp_visited (snd (spiral_targets ts False s))"
  "sp_order (snd (observe_discovery_turn ts s)) = sp_order (snd (spiral_targets ts False s))"
  "sp_cycle_run (snd (observe_discovery_turn ts s)) =
     (if fst (spiral_targets ts False s) then 0 else sp_cycle_run s + 1)"
  by (simp_all add: observe_discovery_turn_def Let_def split: prod.split)
     (metis fst_conv snd_conv spiral_targets_fields)+

lemma discovery_kill:
  "fst (observe_discovery_turn ts s) =
     (let s' = snd (observe_discovery_turn ts s) in
      if sp_window s' \<le> sp_cycle_run s' then SpiralKillCycle
      else if tp_wander_multiple (sp_policy s') * sp_window s' \<le> sp_wander s' then SpiralKillWander
      else SpiralKillNone)"
  by (simp add: observe_discovery_turn_def Let_def split: prod.split)

lemma discovery_ok:
  "frontier_ok s \<Longrightarrow> 0 \<le> tp_frontier_cap (sp_policy s) \<Longrightarrow> frontier_ok (snd (observe_discovery_turn ts s))"
  using spiral_targets_ok [of s ts False] by (simp add: frontier_ok_def discovery_state)

text \<open>A burst of discovery turns, up to the first kill.\<close>

fun discover :: "string list list \<Rightarrow> spiral \<Rightarrow> spiral_kill \<times> spiral" where
  "discover [] s = (SpiralKillNone, s)"
| "discover (ts # tss) s =
     (let r = observe_discovery_turn ts s in
      if fst r = SpiralKillNone then discover tss (snd r) else r)"

lemma discover_wander:
  "fst (discover tss s) = SpiralKillNone \<Longrightarrow> tss \<noteq> [] \<Longrightarrow>
     sp_wander s + int (length tss) < tp_wander_multiple (sp_policy s) * sp_window s"
proof (induction tss arbitrary: s)
  case (Cons ts tss)
  let ?r = "observe_discovery_turn ts s"
  have none: "fst ?r = SpiralKillNone" using Cons.prems(1) by (auto simp: Let_def split: if_splits)
  then have w: "sp_wander s + 1 < tp_wander_multiple (sp_policy s) * sp_window s"
    by (auto simp: discovery_kill Let_def discovery_state split: if_splits)
  show ?case
  proof (cases "tss = []")
    case True
    with w show ?thesis by simp
  next
    case False
    with Cons.IH [of "snd ?r"] Cons.prems none show ?thesis by (simp add: discovery_state Let_def)
  qed
qed simp

lemma discover_fresh:
  assumes "sp_cycle_run s = 0" and "0 < sp_window s"
    and "\<And>i. i < length tss \<Longrightarrow> \<exists>t \<in> set (tss ! i). t \<notin> set (sp_visited s) \<and> (\<forall>j < i. t \<notin> set (tss ! j))"
  shows "fst (discover tss s) \<noteq> SpiralKillCycle"
  using assms
proof (induction tss arbitrary: s)
  case (Cons ts tss)
  let ?r = "observe_discovery_turn ts s"
  have "\<exists>t \<in> set ts. t \<notin> set (sp_visited s)" using Cons.prems(3) [of 0] by auto
  then have novel: "fst (spiral_targets ts False s)" using spiral_targets_new by blast
  then have c: "sp_cycle_run (snd ?r) = 0" by (simp add: discovery_state)
  then have k: "fst ?r \<noteq> SpiralKillCycle"
    using Cons.prems(2) by (auto simp: discovery_kill Let_def discovery_state)
  have "\<exists>t \<in> set (tss ! i). t \<notin> set (sp_visited (snd ?r)) \<and> (\<forall>j < i. t \<notin> set (tss ! j))" if "i < length tss" for i
  proof -
    have "\<exists>t \<in> set ((ts # tss) ! Suc i). t \<notin> set (sp_visited s) \<and> (\<forall>j < Suc i. t \<notin> set ((ts # tss) ! j))"
      using that by (intro Cons.prems(3)) simp
    then obtain t where t: "t \<in> set (tss ! i)" "t \<notin> set (sp_visited s)" "\<And>j. j < Suc i \<Longrightarrow> t \<notin> set ((ts # tss) ! j)"
      by auto
    have "t \<notin> set ts" using t(3) [of 0] by simp
    then have "t \<notin> set (sp_visited (snd ?r))"
      using t(2) spiral_targets_visited [of ts False s] by (auto simp: discovery_state)
    moreover have "\<forall>j < i. t \<notin> set (tss ! j)" using t(3) [of "Suc j" for j] by auto
    ultimately show ?thesis using t(1) by blast
  qed
  then show ?case using Cons.IH [of "snd ?r"] c k Cons.prems(2) by (auto simp: Let_def discovery_state)
qed simp

lemma discover_state:
  "sp_window (snd (discover tss s)) = sp_window s"
  "0 \<le> sp_cycle_run s \<Longrightarrow> 0 \<le> sp_cycle_run (snd (discover tss s))"
  by (induction tss arbitrary: s) (auto simp: Let_def discovery_state)

lemma discover_revisit:
  assumes "0 < sp_window s" and "0 \<le> sp_cycle_run s"
    and "\<forall>ts \<in> set tss. set ts \<subseteq> set (sp_visited s)"
    and "fst (discover tss s) = SpiralKillNone" and "tss \<noteq> []"
  shows "sp_cycle_run s + int (length tss) < sp_window s"
  using assms
proof (induction tss arbitrary: s)
  case (Cons ts tss)
  let ?r = "observe_discovery_turn ts s"
  have seen: "spiral_targets ts False s = (False, s)" using Cons.prems(3) by (intro spiral_targets_seen) auto
  have none: "fst ?r = SpiralKillNone" using Cons.prems(4) by (auto simp: Let_def split: if_splits)
  then have w: "sp_cycle_run s + 1 < sp_window s"
    by (auto simp: discovery_kill Let_def discovery_state seen split: if_splits)
  show ?case
  proof (cases "tss = []")
    case True
    with w show ?thesis by simp
  next
    case False
    with Cons.IH [of "snd ?r"] Cons.prems none seen show ?thesis by (simp add: discovery_state Let_def)
  qed
qed simp

section \<open>Properties\<close>

text \<open>C38: The stagnation kill is exact: after any history of runs, actions and observations,
  a run observation kills exactly if the last MaxStagnant run results that were not
  environment faults are failures with one and the same fingerprint, whatever actions lay
  between. An environment fault itself never kills.\<close>

theorem stagnant_kill_exact:
  assumes "tk_stagnant t = 0" and "tp_max_stagnant (tk_policy t) = int n" and "0 < n"
  shows "fst (fst (observe_run obs (fold tracker_step es t))) \<longleftrightarrow>
     \<not> env_fault_run obs \<and>
     (\<exists>k pre. map stagnant_key (filter (\<lambda>e. \<not> stagnant_ignored e) (es @ [EvRun obs])) = pre @ replicate n (Some k))"
proof (cases "env_fault_run obs")
  case True
  then show ?thesis by (simp add: observe_run_kill)
next
  case False
  have "fst (fst (observe_run obs (fold tracker_step es t))) \<longleftrightarrow>
      int n \<le> tk_stagnant (fold tracker_step (es @ [EvRun obs]) t)"
    using observe_run_kill(1) [OF False] assms(2) by (simp add: observe_run_state)
  also have "\<dots> \<longleftrightarrow> n = 0 \<or> (\<exists>k pre. stagnant.keys (es @ [EvRun obs]) = pre @ replicate n (Some k))"
    by (rule stagnant.count_ge [OF assms(1)])
  finally show ?thesis using False assms(3) by (simp add: stagnant.keys_def)
qed

definition failing_run :: string where "failing_run = ''exit 1 (5ms)'' @ nl @ ''boom''"

definition demo_policy :: policy_value where
  "demo_policy = base_policy\<lparr>pv_termination := default_termination_policy\<lparr>tp_max_stagnant := 2\<rparr>\<rparr>"

theorem stagnant_kill_exact_witness:
  "fst (fst (observe_run failing_run
     (fold tracker_step [EvRun failing_run, EvAction 1 ''edit_file''] (new_tracker demo_policy [] 8))))"
proof -
  let ?t = "new_tracker demo_policy [] 8"
  have t: "tk_stagnant ?t = 0" "tp_max_stagnant (tk_policy ?t) = int 2" "0 < (2 :: nat)"
    by (simp_all add: new_tracker_def demo_policy_def)
  have f: "\<not> env_fault_run failing_run" "is_run_failure failing_run" by code_simp+
  have "map stagnant_key (filter (\<lambda>e. \<not> stagnant_ignored e)
      ([EvRun failing_run, EvAction 1 ''edit_file''] @ [EvRun failing_run]))
      = [] @ replicate 2 (Some (run_fingerprint failing_run))"
    using f by (simp add: numeral_2_eq_2)
  with stagnant_kill_exact [OF t, of failing_run "[EvRun failing_run, EvAction 1 ''edit_file'']"] f(1)
  show ?thesis by blast
qed

text \<open>An observation the sandbox could not even produce is not a failing run, so it resets the
  streak that an environment fault would have kept.\<close>

lemma error_resets_streak:
  "has_prefix obs ''ERROR:'' \<Longrightarrow> tk_stagnant (snd (observe_run obs t)) = 0"
  using error_neither [of obs] by (simp add: observe_run_state env_fault_run_def)

text \<open>The tight observation loop is bounded for every model: an observation kills exactly
  if it is the MaxReasoningRepeats-th in a row with the same non-empty fingerprint.\<close>

theorem tool_obs_kill_exact:
  assumes "tk_tool_obs_repeat t = 0" and "tp_max_reasoning_repeats (tk_policy t) = int n" and "0 < n"
    and "fp \<noteq> []"
  shows "fst (fst (observe_tool_observation fp (fold tracker_step es t))) \<longleftrightarrow>
     (\<exists>k pre. map tool_obs_key (filter (\<lambda>e. \<not> tool_obs_ignored e) (es @ [EvToolObs fp])) = pre @ replicate n (Some k))"
proof -
  have "fst (fst (observe_tool_observation fp (fold tracker_step es t))) \<longleftrightarrow>
      int n \<le> tk_tool_obs_repeat (fold tracker_step (es @ [EvToolObs fp]) t)"
    using assms(2,4) by (simp add: observe_tool_observation_def Let_def)
  also have "\<dots> \<longleftrightarrow> n = 0 \<or> (\<exists>k pre. tool_obs.keys (es @ [EvToolObs fp]) = pre @ replicate n (Some k))"
    by (rule tool_obs.count_ge [OF assms(1)])
  finally show ?thesis using assms(3) by (simp add: tool_obs.keys_def)
qed

theorem tool_obs_kill_exact_witness:
  "fst (fst (observe_tool_observation ''ls'' (fold tracker_step [EvToolObs ''ls'', EvToolObs ''ls'', EvToolObs ''ls'',
     EvRun failing_run, EvToolObs ''ls'', EvToolObs ''ls''] (new_tracker demo_policy [] 8))))"
proof -
  let ?t = "new_tracker demo_policy [] 8"
  let ?es = "[EvToolObs ''ls'', EvToolObs ''ls'', EvToolObs ''ls'', EvRun failing_run, EvToolObs ''ls'', EvToolObs ''ls'']"
  have t: "tk_tool_obs_repeat ?t = 0" "tp_max_reasoning_repeats (tk_policy ?t) = int 6" "0 < (6 :: nat)" "''ls'' \<noteq> []"
    by (simp_all add: new_tracker_def demo_policy_def default_termination_policy_def)
  have "map tool_obs_key (filter (\<lambda>e. \<not> tool_obs_ignored e) (?es @ [EvToolObs ''ls''])) = [] @ replicate 6 (Some ''ls'')"
    by (simp add: eval_nat_numeral)
  with tool_obs_kill_exact [OF t, of ?es] show ?thesis by blast
qed

text \<open>Exploration always ends, and orientation is not mistaken for spinning. In a burst of
  discovery turns from a fresh detector: at the latest after WanderMultiple times the window
  turns there is a kill; if every turn shows a target that no earlier turn of the burst
  showed, the kill is never the cycle kill; and once all turns only revisit, the kill comes
  within one window.\<close>

theorem spiral_bounds:
  assumes "s = new_spiral policy" and "0 < tp_nav_spiral_window policy" and "0 < tp_wander_multiple policy"
  shows "(tp_wander_multiple policy * tp_nav_spiral_window policy \<le> int (length tss) \<longrightarrow>
            fst (discover tss s) \<noteq> SpiralKillNone)
    \<and> ((\<forall>i < length tss. \<exists>t \<in> set (tss ! i). \<forall>j < i. t \<notin> set (tss ! j)) \<longrightarrow>
            fst (discover tss s) \<noteq> SpiralKillCycle)
    \<and> ((\<forall>ts \<in> set again. set ts \<subseteq> set (sp_visited (snd (discover tss s))))
         \<and> tp_nav_spiral_window policy \<le> int (length again) \<longrightarrow>
            fst (discover again (snd (discover tss s))) \<noteq> SpiralKillNone)"
proof (intro conjI impI)
  have s: "sp_wander s = 0" "sp_policy s = policy" "sp_window s = tp_nav_spiral_window policy"
    "sp_cycle_run s = 0" "sp_visited s = []"
    using assms(1) by (simp_all add: new_spiral_def)
  show "fst (discover tss s) \<noteq> SpiralKillNone"
    if b: "tp_wander_multiple policy * tp_nav_spiral_window policy \<le> int (length tss)"
  proof
    assume none: "fst (discover tss s) = SpiralKillNone"
    have "0 < tp_wander_multiple policy * tp_nav_spiral_window policy" using assms(2,3) by simp
    with b have "tss \<noteq> []" by auto
    from discover_wander [OF none this] b s show False by simp
  qed
  show "fst (discover tss s) \<noteq> SpiralKillCycle"
    if "\<forall>i < length tss. \<exists>t \<in> set (tss ! i). \<forall>j < i. t \<notin> set (tss ! j)"
    by (rule discover_fresh) (use s assms(2) that in auto)
  assume r: "(\<forall>ts \<in> set again. set ts \<subseteq> set (sp_visited (snd (discover tss s))))
         \<and> tp_nav_spiral_window policy \<le> int (length again)"
  show "fst (discover again (snd (discover tss s))) \<noteq> SpiralKillNone"
  proof
    assume none: "fst (discover again (snd (discover tss s))) = SpiralKillNone"
    have "again \<noteq> []" using r assms(2) by auto
    moreover have "0 < sp_window (snd (discover tss s))" "0 \<le> sp_cycle_run (snd (discover tss s))"
      using s assms(2) by (simp_all add: discover_state)
    ultimately have "sp_cycle_run (snd (discover tss s)) + int (length again) < sp_window (snd (discover tss s))"
      using r none by (intro discover_revisit) auto
    with r have "sp_cycle_run (snd (discover tss s)) < 0" using s(3) unfolding discover_state(1) by linarith
    with s show False using discover_state(2) [of s tss] by simp
  qed
qed

theorem spiral_bounds_witness:
  "fst (discover (replicate 16 [''.'']) (new_spiral default_termination_policy)) \<noteq> SpiralKillNone"
proof -
  have p: "0 < tp_nav_spiral_window default_termination_policy" "0 < tp_wander_multiple default_termination_policy"
    "tp_wander_multiple default_termination_policy * tp_nav_spiral_window default_termination_policy
       \<le> int (length (replicate 16 [''.'']))"
    by (simp_all add: default_termination_policy_def)
  from spiral_bounds [OF refl p(1,2)] p(3) show ?thesis by blast
qed

text \<open>The frontier stays bounded: after any burst the visited set is the set of the
  remembered targets, without repetition and never more than the cap.\<close>

theorem frontier_bounded:
  assumes "0 \<le> tp_frontier_cap policy"
  shows "frontier_ok (snd (discover tss (new_spiral policy)))
    \<and> frontier_ok (spiral_reset (snd (discover tss (new_spiral policy))))"
proof -
  have "frontier_ok s \<Longrightarrow> sp_policy s = policy \<Longrightarrow>
      frontier_ok (snd (discover tss s)) \<and> sp_policy (snd (discover tss s)) = policy" for s
    using assms
  proof (induction tss arbitrary: s)
    case (Cons ts tss)
    from discovery_ok [OF Cons.prems(1)] Cons show ?case by (simp add: Let_def discovery_state)
  qed simp
  moreover have "frontier_ok (new_spiral policy)" "sp_policy (new_spiral policy) = policy"
    using assms by (simp_all add: new_spiral_def frontier_ok_def)
  ultimately have d: "frontier_ok (snd (discover tss (new_spiral policy)))"
      "sp_policy (snd (discover tss (new_spiral policy))) = policy" by blast+
  moreover have "frontier_ok (spiral_reset s)" if "sp_policy s = policy" for s
    using that assms by (simp add: frontier_ok_def spiral_reset_def)
  ultimately show ?thesis by blast
qed

theorem frontier_bounded_witness:
  "frontier_ok (snd (discover [[''a'', ''b''], [''c'']] (new_spiral (default_termination_policy\<lparr>tp_frontier_cap := 2\<rparr>))))"
proof -
  have "0 \<le> tp_frontier_cap (default_termination_policy\<lparr>tp_frontier_cap := 2\<rparr>)" by simp
  from frontier_bounded [OF this] show ?thesis by blast
qed

end
