(* ===== verification/GateState.thy ===== *)
theory GateState
  imports Wp Detectors FenceScope
begin

text \<open>
  The state of the closing gates (\<open>gates\<close>, \<open>gateDeps\<close> and what hangs off them:
  \<open>agent/gate.go\<close>, \<open>agent/review.go\<close>, \<open>agent/repro.go\<close>, \<open>agent/runtime.go\<close>) and the
  calls that leave the model.

  \<open>gate_deps\<close> is what a run fixes: the policy, the task, the root, and one function for
  each outside call. A call takes its arguments and the world, and gives its answer and
  the next world, so that its answers may change from one call to the next: a command that
  was green may be red the second time, a snapshot may fail, the user may cancel in
  between. The state holds what the Go methods assign, the world last.
\<close>

section \<open>Errors and review messages\<close>

text \<open>What \<open>errors.Is\<close> asks of an error: a cancellation, an expired deadline, a parse
  failure of the reviewer, or none of these.\<close>

datatype err_kind = ErrCanceled | ErrDeadline | ErrParse | ErrOther

datatype go_error = GoError (err_kind: err_kind) (err_text: string)

datatype read_error = FileNotExist | ReadFailed string

record review_input =
  ri_task :: string
  ri_diff :: string
  ri_root :: string
  ri_signals :: "string list"
  ri_round :: nat

record review_verdict =
  rx_findings :: "review_finding list"
  rx_usage :: usage
  rx_model :: string
  rx_summary :: string
  rx_run_id :: string

text \<open>A reviewer gives a verdict, or an error with or without a verdict.\<close>

datatype review_answer = ReviewOk review_verdict | ReviewFailed "review_verdict option" go_error

section \<open>What a run fixes\<close>

text \<open>\<open>d_has_reviewer\<close> says whether a reviewer is injected; \<open>d_solicitor\<close> is missing when it
  does not answer follow-ups. \<open>d_done\<close> is the state of the caller's context: was it
  canceled (a deadline does not count); \<open>d_gate_done\<close> is the error of the gate's own
  context at that moment.\<close>

record 'w gate_deps =
  d_pol :: policy_value
  d_task :: string
  d_root :: string
  d_alias :: string
  d_run_timeout :: int
  d_pricer :: "pricer option"
  d_sha :: "string \<Rightarrow> string"
  d_done :: "'w \<Rightarrow> bool \<times> 'w"
  d_gate_done :: "'w \<Rightarrow> err_kind option \<times> 'w"
  d_exec :: "command \<Rightarrow> 'w \<Rightarrow> (string + result) \<times> 'w"
  d_is_repo :: "'w \<Rightarrow> bool \<times> 'w"
  d_write_tree :: "'w \<Rightarrow> (go_error + string) \<times> 'w"
  d_diff_names :: "string \<Rightarrow> string \<Rightarrow> 'w \<Rightarrow> (go_error + string list) \<times> 'w"
  d_diff_trees :: "string \<Rightarrow> string \<Rightarrow> 'w \<Rightarrow> (go_error + string) \<times> 'w"
  d_restore_tree :: "string \<Rightarrow> 'w \<Rightarrow> go_error option \<times> 'w"
  d_walk :: "'w \<Rightarrow> (string + fs_node list) option \<times> 'w"
  d_remove :: "string \<Rightarrow> 'w \<Rightarrow> string option \<times> 'w"
  d_write :: "string \<Rightarrow> string \<Rightarrow> 'w \<Rightarrow> string option \<times> 'w"
  d_read :: "string \<Rightarrow> 'w \<Rightarrow> (read_error + string) \<times> 'w"
  d_host_read :: "string \<Rightarrow> 'w \<Rightarrow> string option \<times> 'w"
  d_host_exists :: "string \<Rightarrow> 'w \<Rightarrow> bool \<times> 'w"
  d_host_mkdir :: "string \<Rightarrow> 'w \<Rightarrow> string option \<times> 'w"
  d_host_write :: "string \<Rightarrow> string \<Rightarrow> 'w \<Rightarrow> string option \<times> 'w"
  d_has_reviewer :: bool
  d_reviewer :: "review_input \<Rightarrow> 'w \<Rightarrow> review_answer \<times> 'w"
  d_solicitor :: "(review_input \<Rightarrow> review_finding list \<Rightarrow> 'w
                    \<Rightarrow> ((go_error + review_finding list) \<times> usage) \<times> 'w) option"

section \<open>The state\<close>

text \<open>\<open>RuntimeResolution\<close> and \<open>verifyState\<close> (\<open>agent/runtime.go\<close>).\<close>

record resolution =
  rn_seq :: nat
  rn_phase :: string
  rn_field :: string
  rn_value :: string
  rn_provenance :: string
  rn_consumer :: string
  rn_disarmed :: bool
  rn_note :: string

record verify_state =
  vs_cmd :: string
  vs_timeout :: int
  vs_auto_verify :: bool
  vs_auto_soft :: bool
  vs_skip_baseline :: bool
  vs_abort_on_red :: bool
  vs_verify_last_run :: bool
  vs_verify_continue :: bool
  vs_provenance :: string
  vs_resolved :: bool
  vs_events :: "resolution list"

text \<open>\<open>scopeState\<close> and \<open>reviewState\<close>; an error of the snapshot stands for \<open>snapErr\<close>.\<close>

record scope_state =
  sc_globs :: "string list"
  sc_base :: "go_error + string"

record review_state =
  rv_max_rounds :: int
  rv_base_tree :: string
  rv_skip :: string
  rv_rounds :: nat
  rv_status :: review_status
  rv_blocked :: bool
  rv_salvage :: bool
  rv_model :: string
  rv_summaries :: "string list"
  rv_run_ids :: "string list"
  rv_findings :: "reviewed_finding list"
  rv_pending :: "nat list"
  rv_usage :: usage

datatype repro_status = ReproValidated | ReproSkipped

record repro_state =
  rp_status :: repro_status
  rp_path :: string
  rp_cmd :: string
  rp_skip_reason :: string
  rp_red_excerpt :: string
  rp_green :: "bool option"
  rp_detail :: string
  rp_sha :: string

text \<open>The baseline a session keeps between turns, keyed by tree and command.\<close>

record baseline_cache =
  bc_tree :: string
  bc_cmd :: string
  bc_measured :: bool
  bc_red :: bool
  bc_out :: string
  bc_infra :: string

record 'w gates =
  g_vs :: verify_state
  g_ev :: "evidence_log option"
  g_spend :: "spend option"
  g_cache :: "baseline_cache option"
  g_fence :: "string fence_state option"
  g_scope :: "scope_state option"
  g_review :: "review_state option"
  g_repro :: "repro_state option"
  g_base_red :: bool
  g_base_out :: string
  g_base_measured :: bool
  g_infra :: string
  g_run_base :: string
  g_std_base :: string
  g_grace_used :: bool
  g_auto_feedback :: nat
  g_closing :: "verification_record option"
  g_closing_gen :: nat
  g_world :: 'w

section \<open>Calls and updates\<close>

definition ext :: "('w \<Rightarrow> 'a \<times> 'w) \<Rightarrow> ('w gates, 'a) state" where
  "ext f = State (\<lambda>s. case f (g_world s) of (a, w) \<Rightarrow> (a, s\<lparr>g_world := w\<rparr>))"

text \<open>\<open>runOp\<close>: the command goes to a shell; an error of the sandbox is the call's error.\<close>

definition shell_command :: "string \<Rightarrow> int \<Rightarrow> command" where
  "shell_command cmd timeout =
     \<lparr> cmd_path = ''sh'', cmd_args = [''-c'', cmd], cmd_dir = [], cmd_timeout = timeout \<rparr>"

definition run_op :: "'w gate_deps \<Rightarrow> string \<Rightarrow> int \<Rightarrow> ('w gates, string + string) state" where
  "run_op D cmd timeout = do {
     r \<leftarrow> ext (d_exec D (shell_command cmd timeout));
     ret (map_sum id format_run r) }"

definition canceled :: "'w gate_deps \<Rightarrow> ('w gates, bool) state" where
  "canceled D = ext (d_done D)"

definition write_tree :: "'w gate_deps \<Rightarrow> ('w gates, go_error + string) state" where
  "write_tree D = ext (d_write_tree D)"

definition upd_review :: "(review_state \<Rightarrow> review_state) \<Rightarrow> ('w gates, unit) state" where
  "upd_review f = modify (\<lambda>s. s\<lparr>g_review := map_option f (g_review s)\<rparr>)"

definition upd_ev :: "(evidence_log \<Rightarrow> evidence_log) \<Rightarrow> ('w gates, unit) state" where
  "upd_ev f = modify (\<lambda>s. s\<lparr>g_ev := map_option f (g_ev s)\<rparr>)"

definition set_infra :: "string \<Rightarrow> ('w gates, unit) state" where
  "set_infra sig = modify (\<lambda>s. s\<lparr>g_infra := sig\<rparr>)"

text \<open>\<open>Spend.Add\<close> on the shared accumulator, which may be missing.\<close>

definition charge :: "'w gate_deps \<Rightarrow> string \<Rightarrow> usage \<Rightarrow> ('w gates, unit) state" where
  "charge D model u = modify (\<lambda>s. s\<lparr>g_spend := map_option (spend_add (d_pricer D) model u) (g_spend s)\<rparr>)"

lemma wp_ext [wp_simps]: "wp (ext f) Q s = (case f (g_world s) of (a, w) \<Rightarrow> Q a (s\<lparr>g_world := w\<rparr>))"
  by (simp add: wp_def ext_def split: prod.splits)

lemma wp_upd_review [wp_simps]: "wp (upd_review f) Q s = Q () (s\<lparr>g_review := map_option f (g_review s)\<rparr>)"
  by (simp add: upd_review_def wp_simps)

lemma wp_upd_ev [wp_simps]: "wp (upd_ev f) Q s = Q () (s\<lparr>g_ev := map_option f (g_ev s)\<rparr>)"
  by (simp add: upd_ev_def wp_simps)

lemma wp_set_infra [wp_simps]: "wp (set_infra sig) Q s = Q () (s\<lparr>g_infra := sig\<rparr>)"
  by (simp add: set_infra_def wp_simps)

lemma wp_charge [wp_simps]:
  "wp (charge D model u) Q s = Q () (s\<lparr>g_spend := map_option (spend_add (d_pricer D) model u) (g_spend s)\<rparr>)"
  by (simp add: charge_def wp_simps)

text \<open>What the sandbox answered to a command at some point of the run.\<close>

definition exec_answered :: "'w gate_deps \<Rightarrow> string \<Rightarrow> int \<Rightarrow> string + result \<Rightarrow> bool" where
  "exec_answered D cmd timeout r \<longleftrightarrow> (\<exists>w w'. d_exec D (shell_command cmd timeout) w = (r, w'))"

definition tree_answered :: "'w gate_deps \<Rightarrow> string \<Rightarrow> bool" where
  "tree_answered D t \<longleftrightarrow> (\<exists>w w'. d_write_tree D w = (Inr t, w'))"

lemma wp_run_op:
  assumes "\<And>r w'. d_exec D (shell_command cmd timeout) (g_world s) = (r, w') \<Longrightarrow>
      exec_answered D cmd timeout r \<Longrightarrow>
      Q (map_sum id format_run r) (s\<lparr>g_world := w'\<rparr>)"
  shows "wp (run_op D cmd timeout) Q s"
  using assms by (auto simp: run_op_def wp_simps exec_answered_def split: prod.splits)

lemma wp_write_tree:
  assumes "\<And>r w'. (\<And>t. r = Inr t \<Longrightarrow> tree_answered D t) \<Longrightarrow> Q r (s\<lparr>g_world := w'\<rparr>)"
  shows "wp (write_tree D) Q s"
proof -
  obtain r w' where r: "d_write_tree D (g_world s) = (r, w')" by fastforce
  then have "Q r (s\<lparr>g_world := w'\<rparr>)" by (intro assms) (auto simp: tree_answered_def)
  with r show ?thesis by (simp add: write_tree_def wp_simps)
qed

lemma wp_canceled:
  assumes "\<And>b w'. Q b (s\<lparr>g_world := w'\<rparr>)"
  shows "wp (canceled D) Q s"
  using assms by (auto simp: canceled_def wp_simps split: prod.splits)

lemma wp_extI:
  assumes "\<And>a w'. f (g_world s) = (a, w') \<Longrightarrow> Q a (s\<lparr>g_world := w'\<rparr>)"
  shows "wp (ext f) Q s"
  using assms by (auto simp: wp_simps split: prod.splits)

end
