(* ===== verification/VerifyGate.thy ===== *)
theory VerifyGate
  imports GateState
begin

text \<open>
  Stages 0 and 1 of the closing gates (\<open>agent/gate.go\<close>, \<open>agent/verify.go\<close>): the fence and
  the diff scope are checked again, then the verify command decides. With the run-start
  snapshots they compare against, the measured baseline and its session cache, the retry on
  an environment fault, the feedback budget of a derived gate and the one grace round of a
  baseline that was red before the run.
\<close>

section \<open>The verify state\<close>

definition new_verify_state :: "policy_value \<Rightarrow> verify_state" where
  "new_verify_state pol =
     \<lparr> vs_cmd = pv_verify_cmd pol, vs_timeout = pv_verify_timeout pol,
       vs_auto_verify = pv_auto_verify pol, vs_auto_soft = pv_auto_verify_soft pol,
       vs_skip_baseline = pv_skip_verify_baseline pol, vs_abort_on_red = pv_abort_on_red_baseline pol,
       vs_verify_last_run = pv_verify_last_run pol, vs_verify_continue = pv_verify_continue pol,
       vs_provenance = [], vs_resolved = False, vs_events = [] \<rparr>"

definition record_resolution ::
  "string \<Rightarrow> string \<Rightarrow> string \<Rightarrow> string \<Rightarrow> string \<Rightarrow> bool \<Rightarrow> string \<Rightarrow> verify_state \<Rightarrow> verify_state" where
  "record_resolution phase field value provenance consumer disarmed note vs =
     vs\<lparr>vs_events := vs_events vs @
          [\<lparr> rn_seq = length (vs_events vs) + 1, rn_phase = phase, rn_field = field, rn_value = value,
             rn_provenance = provenance, rn_consumer = consumer, rn_disarmed = disarmed, rn_note = note \<rparr>]\<rparr>"

section \<open>Stage 0: the fence and the scope\<close>

record gate_check =
  gc_reason :: string
  gc_unverifiable :: bool

definition clean_check :: gate_check where
  "clean_check = \<lparr> gc_reason = [], gc_unverifiable = False \<rparr>"

definition unverifiable :: "string \<Rightarrow> gate_check" where
  "unverifiable why = \<lparr> gc_reason = why, gc_unverifiable = True \<rparr>"

definition new_scope_state :: "'w gate_deps \<Rightarrow> ('w gates, scope_state option) state" where
  "new_scope_state D =
     (if pv_diff_scope (d_pol D) = [] then ret None
      else do {
        base \<leftarrow> write_tree D;
        ret (Some \<lparr> sc_globs = pv_diff_scope (d_pol D), sc_base = base \<rparr>) })"

definition norm_git_path :: "string \<Rightarrow> string" where
  "norm_git_path p = trim_prefix (path_clean p) (dot @ [slash])"

definition out_of_scope :: "string list \<Rightarrow> string list \<Rightarrow> string list" where
  "out_of_scope globs changed = filter (\<lambda>p. \<not> matches_scope globs p) (map norm_git_path changed)"

definition scope_violated :: "string list \<Rightarrow> string list \<Rightarrow> gate_check" where
  "scope_violated globs bad =
     \<lparr> gc_reason = ''diff scope violated: '' @ str_join (take 20 (sort bad)) '', '' @ '' '' @ emdash
                    @ '' only paths matching ('' @ str_join globs '','' @ '') may be changed'',
       gc_unverifiable = False \<rparr>"

definition scope_check :: "'w gate_deps \<Rightarrow> ('w gates, gate_check) state" where
  "scope_check D = do {
     sc \<leftarrow> gets g_scope;
     case sc of
       None \<Rightarrow> ret clean_check
     | Some sc \<Rightarrow>
         (case sc_base sc of
            Inl e \<Rightarrow> ret (unverifiable (''diff scope could not be re-verified: run-start snapshot failed (''
                                         @ err_text e @ '')''))
          | Inr base \<Rightarrow> do {
              r \<leftarrow> write_tree D;
              case r of
                Inl e \<Rightarrow> ret (unverifiable (''diff scope could not be re-verified: closing-gate tree snapshot failed (''
                                             @ err_text e @ '')''))
              | Inr cur \<Rightarrow>
                  if cur = base then ret clean_check
                  else do {
                    names \<leftarrow> ext (d_diff_names D base cur);
                    case names of
                      Inl e \<Rightarrow> ret (unverifiable (''diff scope could not be re-verified: tree diff failed (''
                                                   @ err_text e @ '')''))
                    | Inr changed \<Rightarrow>
                        let bad = out_of_scope (sc_globs sc) changed in
                        ret (if bad = [] then clean_check else scope_violated (sc_globs sc) bad) } }) }"

definition fence_check :: "'w gate_deps \<Rightarrow> ('w gates, gate_check) state" where
  "fence_check D = do {
     f \<leftarrow> gets g_fence;
     case f of
       None \<Rightarrow> ret clean_check
     | Some f \<Rightarrow> do {
         sb \<leftarrow> ext (d_walk D);
         ret (case violation_check (d_sha D) (Some f) sb of
                Inl e \<Rightarrow> unverifiable (''test fence could not be re-verified: '' @ e)
              | Inr reason \<Rightarrow> \<lparr> gc_reason = reason, gc_unverifiable = False \<rparr>) } }"

text \<open>A gate answer is the outcome to record (none when the gate is clean), the reason, and
  whether the loop may not continue.\<close>

type_synonym gate_answer = "outcome option \<times> string \<times> bool"

definition gate_ok :: gate_answer where "gate_ok = (None, [], False)"

lemma gate_ok_sel [simp]: "fst gate_ok = None" "fst (snd gate_ok) = []" "snd (snd gate_ok) = False"
  by (simp_all add: gate_ok_def)

definition verify_safety :: "'w gate_deps \<Rightarrow> ('w gates, gate_answer) state" where
  "verify_safety D = do {
     fc \<leftarrow> fence_check D;
     if gc_reason fc \<noteq> [] then ret (Some Unverified, gc_reason fc, True)
     else do {
       sc \<leftarrow> scope_check D;
       ret (if gc_reason sc \<noteq> [] then
              (if gc_unverifiable sc then (Some Unverified, gc_reason sc, True)
               else (Some ScopeViolation, gc_reason sc, False))
            else gate_ok) } }"

section \<open>The run-start tree\<close>

datatype setup_error = SetupError (setup_kind: string) (setup_msg: string)

definition capture_run_base_tree :: "'w gate_deps \<Rightarrow> ('w gates, setup_error option) state" where
  "capture_run_base_tree D = do {
     vs \<leftarrow> gets g_vs;
     let pol = d_pol D in
     if (\<not> pv_require_diff pol \<and> \<not> pv_repro_first pol \<and> vs_cmd vs = []) \<or> d_root D = [] then
       ret (if pv_require_diff pol
            then Some (SetupError ''require_diff'' ''require-diff needs a git workspace root to define an empty diff'')
            else None)
     else do {
       not_repo \<leftarrow> (if pv_require_diff pol \<or> pv_repro_first pol
                  then do { b \<leftarrow> ext (d_is_repo D); ret (\<not> b) } else ret False);
       if not_repo then
         ret (Some (if pv_repro_first pol
                    then SetupError ''repro_first'' ''repro-first needs a git repository to validate the base tree''
                    else SetupError ''require_diff'' ''require-diff needs a git repository to define an empty diff''))
       else do {
         r \<leftarrow> write_tree D;
         case r of
           Inl e \<Rightarrow> ret (if pv_require_diff pol
                         then Some (SetupError ''require_diff''
                                (''require-diff could not capture the run baseline: '' @ err_text e))
                         else None)
         | Inr t \<Rightarrow> do { modify (\<lambda>s. s\<lparr>g_run_base := t\<rparr>); ret None } } } }"

definition capture_standing_base_tree :: "'w gate_deps \<Rightarrow> ('w gates, unit) state" where
  "capture_standing_base_tree D = do {
     s \<leftarrow> gets id;
     let scope_base = (case g_scope s of Some sc \<Rightarrow> (case sc_base sc of Inr b \<Rightarrow> b | Inl _ \<Rightarrow> []) | None \<Rightarrow> []);
         review_base = (case g_review s of Some rv \<Rightarrow> rv_base_tree rv | None \<Rightarrow> []) in
     if \<not> pv_standing_context (d_pol D) \<or> d_root D = [] then ret ()
     else if g_run_base s \<noteq> [] then modify (\<lambda>s. s\<lparr>g_std_base := g_run_base s\<rparr>)
     else if scope_base \<noteq> [] then modify (\<lambda>s. s\<lparr>g_std_base := scope_base\<rparr>)
     else if review_base \<noteq> [] then modify (\<lambda>s. s\<lparr>g_std_base := review_base\<rparr>)
     else do {
       r \<leftarrow> write_tree D;
       case r of Inl _ \<Rightarrow> ret () | Inr t \<Rightarrow> modify (\<lambda>s. s\<lparr>g_std_base := t\<rparr>) } }"

definition unchanged_run_tree :: "'w gate_deps \<Rightarrow> ('w gates, bool) state" where
  "unchanged_run_tree D = do {
     base \<leftarrow> gets g_run_base;
     if base = [] then ret False
     else do { r \<leftarrow> write_tree D; ret (r = Inr base) } }"

definition require_diff_failure :: "'w gate_deps \<Rightarrow> ('w gates, gate_answer) state" where
  "require_diff_failure D =
     (if pv_require_diff (d_pol D) then do {
        same \<leftarrow> unchanged_run_tree D;
        ret (if same then (Some Unverified, ''require-diff: run completed with no changes'', True) else gate_ok) }
      else ret gate_ok)"

section \<open>The baseline\<close>

text \<open>\<open>deliverableShapedGate\<close>: the command greps, or tests that a file exists.\<close>

fun deliverable_fields :: "string list \<Rightarrow> bool" where
  "deliverable_fields [] = False"
| "deliverable_fields [f] = (f = ''grep'')"
| "deliverable_fields (f # g # fs) =
     (f = ''grep'' \<or> ((f = ''test'' \<or> f = ''['') \<and> (g = ''-f'' \<or> g = ''-e'')) \<or> deliverable_fields (g # fs))"

definition deliverable_shaped_gate :: "string \<Rightarrow> bool" where
  "deliverable_shaped_gate cmd = deliverable_fields (Prelude.fields cmd)"

definition use_cached_baseline :: "baseline_cache \<Rightarrow> 'w gates \<Rightarrow> 'w gates" where
  "use_cached_baseline c s =
     s\<lparr>g_base_measured := bc_measured c, g_base_red := bc_red c, g_base_out := bc_out c, g_infra := bc_infra c\<rparr>"

text \<open>What one run of the verify command on the untouched tree says.\<close>

definition note_baseline :: "string + string \<Rightarrow> 'w gates \<Rightarrow> 'w gates" where
  "note_baseline r s =
     (case r of
        Inl _ \<Rightarrow> s
      | Inr out \<Rightarrow>
          if is_run_failure out then
            (if is_run_timeout out then s
             else if infra_fault_signature out \<noteq> [] then s\<lparr>g_infra := infra_fault_signature out\<rparr>
             else s\<lparr>g_base_measured := True, g_base_red := True, g_base_out := out\<rparr>)
          else s\<lparr>g_base_measured := True\<rparr>)"

definition store_baseline :: "string \<Rightarrow> 'w gates \<Rightarrow> 'w gates" where
  "store_baseline tree s =
     (if g_cache s \<noteq> None \<and> tree \<noteq> []
      then s\<lparr>g_cache := Some \<lparr> bc_tree = tree, bc_cmd = vs_cmd (g_vs s), bc_measured = g_base_measured s,
                               bc_red = g_base_red s, bc_out = g_base_out s, bc_infra = g_infra s \<rparr>\<rparr>
      else s)"

definition measure_verify_baseline :: "'w gate_deps \<Rightarrow> ('w gates, unit) state" where
  "measure_verify_baseline D = do {
     vs \<leftarrow> gets g_vs;
     if vs_cmd vs = [] \<or> vs_skip_baseline vs then ret ()
     else do {
       c \<leftarrow> canceled D;
       if c then ret ()
       else do {
         cache \<leftarrow> gets g_cache;
         tree \<leftarrow> (if cache \<noteq> None \<and> d_root D \<noteq> []
                 then do { r \<leftarrow> write_tree D; ret (case r of Inl _ \<Rightarrow> [] | Inr t \<Rightarrow> t) } else ret []);
         let hit = (case cache of Some c \<Rightarrow> tree \<noteq> [] \<and> bc_tree c = tree \<and> bc_cmd c = vs_cmd vs | None \<Rightarrow> False) in
         if hit then modify (use_cached_baseline (the cache))
         else do {
           r \<leftarrow> run_op D (vs_cmd vs) (vs_timeout vs);
           modify (note_baseline r);
           modify (store_baseline tree) } } } }"

section \<open>Running the verify command\<close>

text \<open>\<open>verifyRun\<close>: skipped when the user canceled; otherwise the attempt is logged.\<close>

datatype verify_attempt = Skipped | Attempt "string + string"

definition attempt_status :: "string + string \<Rightarrow> evidence_status" where
  "attempt_status r =
     (case r of
        Inl _ \<Rightarrow> EvidenceInconclusive
      | Inr out \<Rightarrow>
          if is_run_timeout out \<or> infra_fault_signature out \<noteq> [] then EvidenceInconclusive
          else if is_run_failure out then EvidenceFailed else EvidencePassed)"

definition log_attempt :: "string \<Rightarrow> string + string \<Rightarrow> evidence_log \<Rightarrow> evidence_log" where
  "log_attempt cmd r l = (if ev_closing_ready l then record_verify cmd (attempt_status r) l else l)"

definition verify_run :: "'w gate_deps \<Rightarrow> ('w gates, verify_attempt) state" where
  "verify_run D = do {
     c \<leftarrow> canceled D;
     if c then ret Skipped
     else do {
       vs \<leftarrow> gets g_vs;
       r \<leftarrow> run_op D (vs_cmd vs) (vs_timeout vs);
       upd_ev (log_attempt (vs_cmd vs) r);
       ret (Attempt r) } }"

text \<open>The verdict on a run's output; an empty reason means that the command passed.\<close>

definition verify_verdict :: "verify_state \<Rightarrow> string \<Rightarrow> string" where
  "verify_verdict vs out =
     (if is_run_failure out then
        (if is_run_timeout out then
           ''verification command '' @ go_quote (vs_cmd vs) @ '' was INCONCLUSIVE (timed out after ''
           @ dur_string (vs_timeout vs) @ '' '' @ emdash @ '' raise -verify-timeout):'' @ nl @ out
         else if infra_fault_signature out \<noteq> [] then
           ''verification command '' @ go_quote (vs_cmd vs) @ '' was INCONCLUSIVE (environment fault: ''
           @ infra_fault_signature out @ '' '' @ emdash
           @ '' disk quota / no space / OOM, not a code failure; retried once):'' @ nl @ out
         else ''verification command '' @ go_quote (vs_cmd vs) @ '' did not pass:'' @ nl @ out)
      else [])"

text \<open>\<open>verifyTermination\<close> of \<open>verify.go\<close>: the reason (empty when the claim holds) and the
  output it rests on. An environment fault is tried once more.\<close>

definition verify_termination :: "'w gate_deps \<Rightarrow> bool \<Rightarrow> ('w gates, string \<times> string) state" where
  "verify_termination D last_run_failed = do {
     vs \<leftarrow> gets g_vs;
     if vs_cmd vs \<noteq> [] then do {
       a \<leftarrow> verify_run D;
       case a of
         Skipped \<Rightarrow> ret (''run canceled before verification command '' @ go_quote (vs_cmd vs)
                        @ '' could confirm success'', [])
       | Attempt r \<Rightarrow>
           (case r of
              Inl e \<Rightarrow> ret (''could not run verification command '' @ go_quote (vs_cmd vs) @ '': '' @ e, [])
            | Inr out \<Rightarrow>
                if is_run_failure out \<and> \<not> is_run_timeout out \<and> is_infra_fault out then do {
                  b \<leftarrow> verify_run D;
                  let out' = (case b of Attempt (Inr retry) \<Rightarrow> retry | _ \<Rightarrow> out) in
                  ret (verify_verdict vs out', out') }
                else ret (verify_verdict vs out, out)) }
     else ret (if vs_verify_last_run vs \<and> last_run_failed
               then (''the most recent command run was still failing and nothing succeeded after it '' @ emdash
                     @ '' the task does not look complete'', [])
               else ([], [])) }"

definition capture_closing_verification :: "string \<Rightarrow> string \<Rightarrow> ('w gates, unit) state" where
  "capture_closing_verification out tree =
     modify (\<lambda>s. s\<lparr>g_closing := Some (new_verification_record (vs_cmd (g_vs s)) out tree),
                    g_closing_gen := (case g_ev s of Some l \<Rightarrow> ev_mut_gen l | None \<Rightarrow> g_closing_gen s)\<rparr>)"

definition applied_closing :: "'w gates \<Rightarrow> verification_record option" where
  "applied_closing s =
     map_option (\<lambda>r. case g_ev s of
                        Some l \<Rightarrow> if g_closing_gen s < ev_mut_gen l then r\<lparr>vr_status := EvidenceDegraded\<rparr> else r
                      | None \<Rightarrow> r) (g_closing s)"

section \<open>Completion\<close>

definition auto_verify_max_feedback :: nat where "auto_verify_max_feedback = 2"

definition red_note :: string where
  "red_note = '' note: the verify command was ALREADY failing before any changes were made (pre-existing red baseline ''
     @ emdash @ '' the gate may be unsatisfiable)''"

text \<open>\<open>verifyCompletionFailure\<close>. A derived gate turns advisory once its feedback budget is
  spent, or on an environment fault.\<close>

definition verify_completion_failure :: "string \<Rightarrow> string \<Rightarrow> ('w gates, gate_answer) state" where
  "verify_completion_failure reason verify_out =
     (if reason = [] then ret gate_ok
      else do {
        soft \<leftarrow> gets (vs_auto_soft \<circ> g_vs);
        whenever soft (modify (\<lambda>s. s\<lparr>g_auto_feedback := g_auto_feedback s + 1\<rparr>));
        used \<leftarrow> gets g_auto_feedback;
        let sig = infra_fault_signature verify_out in
        if soft \<and> (used > auto_verify_max_feedback \<or> is_infra_fault verify_out) then do {
          whenever (sig \<noteq> []) (set_infra sig);
          ret gate_ok }
        else if \<not> soft \<and> is_run_timeout verify_out then ret (Some Unverified, reason, True)
        else if sig \<noteq> [] then do {
          set_infra sig;
          ret (Some Unverified, reason, True) }
        else do {
          s \<leftarrow> gets id;
          if g_base_red s \<and> str_contains reason ''did not pass:'' then
            (if verify_out \<noteq> [] \<and> run_fingerprint verify_out = run_fingerprint (g_base_out s) then
               (if \<not> g_grace_used s then do {
                  modify (\<lambda>s. s\<lparr>g_grace_used := True\<rparr>);
                  ret (Some Unverified, reason @ red_note, False) }
                else ret (Some Unverified, reason @ red_note, True))
             else ret (Some Unverified, reason @ red_note, False))
          else ret (Some Unverified, reason, False) } })"

text \<open>Is the tree still the one the run started from, where that can excuse the command?\<close>

definition nothing_to_verify :: "'w gate_deps \<Rightarrow> ('w gates, bool) state" where
  "nothing_to_verify D = do {
     s \<leftarrow> gets id;
     if g_run_base s \<noteq> [] \<and> (vs_auto_soft (g_vs s) \<or> \<not> vs_skip_baseline (g_vs s) \<and> g_base_measured s)
     then do { r \<leftarrow> write_tree D; ret (r = Inr (g_run_base s)) }
     else ret False }"

definition run_and_judge :: "'w gate_deps \<Rightarrow> bool \<Rightarrow> ('w gates, gate_answer) state" where
  "run_and_judge D last_run_failed = do {
     pre \<leftarrow> write_tree D;
     v \<leftarrow> verify_termination D last_run_failed;
     vs \<leftarrow> gets g_vs;
     whenever (fst v = [] \<and> vs_cmd vs \<noteq> [])
       (capture_closing_verification (snd v) (case pre of Inl _ \<Rightarrow> [] | Inr t \<Rightarrow> t));
     verify_completion_failure (fst v) (snd v) }"

definition verify_completion :: "'w gate_deps \<Rightarrow> bool \<Rightarrow> ('w gates, gate_answer) state" where
  "verify_completion D last_run_failed = do {
     rd \<leftarrow> require_diff_failure D;
     if fst (snd rd) \<noteq> [] then ret rd
     else do {
       same \<leftarrow> nothing_to_verify D;
       s \<leftarrow> gets id;
       if same \<and> (vs_auto_soft (g_vs s) \<and> \<not> g_base_measured s \<or> \<not> g_base_red s) then ret gate_ok
       else if same then
         verify_completion_failure
           (''verification command '' @ go_quote (vs_cmd (g_vs s)) @ '' did not pass:'' @ nl @ g_base_out s) (g_base_out s)
       else run_and_judge D last_run_failed } }"

definition verify_finish :: "'w gate_deps \<Rightarrow> bool \<Rightarrow> bool \<Rightarrow> ('w gates, gate_answer) state" where
  "verify_finish D last_run_failed trusted = do {
     a \<leftarrow> verify_safety D;
     if fst (snd a) \<noteq> [] then ret a
     else if trusted then require_diff_failure D
     else verify_completion D last_run_failed }"

section \<open>What the checks establish\<close>

text \<open>The fence held at some point: a walk found exactly the snapshot. The scope held: a later
  tree of the workspace was the base, or differed from it inside the scope only.\<close>

definition fence_held :: "'w gate_deps \<Rightarrow> 'w gates \<Rightarrow> bool" where
  "fence_held D s \<longleftrightarrow>
     (case g_fence s of
        None \<Rightarrow> True
      | Some f \<Rightarrow> \<exists>w sb w'. d_walk D w = (sb, w') \<and> violation_check (d_sha D) (Some f) sb = Inr [])"

definition scope_held :: "'w gate_deps \<Rightarrow> 'w gates \<Rightarrow> bool" where
  "scope_held D s \<longleftrightarrow>
     (case g_scope s of
        None \<Rightarrow> True
      | Some sc \<Rightarrow> \<exists>base cur. sc_base sc = Inr base \<and> tree_answered D cur \<and>
          (cur = base \<or> (\<exists>w names w'. d_diff_names D base cur w = (Inr names, w')
                          \<and> out_of_scope (sc_globs sc) names = [])))"

text \<open>A command ended with exit code zero, and that is the closing record.\<close>

definition verified :: "'w gate_deps \<Rightarrow> 'w gates \<Rightarrow> bool" where
  "verified D s \<longleftrightarrow>
     (\<exists>r tree. exec_answered D (vs_cmd (g_vs s)) (vs_timeout (g_vs s)) (Inr r) \<and> exit_code r = 0
        \<and> g_closing s = Some (new_verification_record (vs_cmd (g_vs s)) (format_run r) tree))"

text \<open>Nothing changed since a start that was green.\<close>

definition unchanged_green :: "'w gate_deps \<Rightarrow> 'w gates \<Rightarrow> bool" where
  "unchanged_green D s \<longleftrightarrow>
     g_run_base s \<noteq> [] \<and> tree_answered D (g_run_base s) \<and> \<not> vs_skip_baseline (g_vs s)
     \<and> g_base_measured s \<and> \<not> g_base_red s"

text \<open>What stages 0 and 1 leave alone.\<close>

definition verify_frame :: "'w gates \<Rightarrow> 'w gates \<Rightarrow> bool" where
  "verify_frame s t \<longleftrightarrow>
     g_vs t = g_vs s \<and> g_spend t = g_spend s \<and> g_fence t = g_fence s \<and> g_scope t = g_scope s
     \<and> g_review t = g_review s \<and> g_repro t = g_repro s \<and> g_base_red t = g_base_red s
     \<and> g_base_out t = g_base_out s \<and> g_base_measured t = g_base_measured s \<and> g_run_base t = g_run_base s"

lemma verify_frame_refl: "verify_frame s s"
  by (simp add: verify_frame_def)

lemma verify_frame_trans: "verify_frame s t \<Longrightarrow> verify_frame t u \<Longrightarrow> verify_frame s u"
  by (simp add: verify_frame_def)

lemma held_upd [simp]:
  "fence_held D (s\<lparr>g_world := w\<rparr>) = fence_held D s"
  "scope_held D (s\<lparr>g_world := w\<rparr>) = scope_held D s"
  by (simp_all add: fence_held_def scope_held_def)

lemma wp_fence_check:
  assumes "\<And>c w. (gc_reason c = [] \<Longrightarrow> fence_held D s) \<Longrightarrow> Q c (s\<lparr>g_world := w\<rparr>)"
  shows "wp (fence_check D) Q s"
proof (cases "g_fence s")
  case None
  then have "Q clean_check (s\<lparr>g_world := g_world s\<rparr>)" by (intro assms) (simp add: fence_held_def)
  with None show ?thesis by (simp add: fence_check_def wp_simps)
next
  case (Some f)
  obtain sb w' where w: "d_walk D (g_world s) = (sb, w')" by fastforce
  let ?c = "case violation_check (d_sha D) (Some f) sb of
              Inl e \<Rightarrow> unverifiable (''test fence could not be re-verified: '' @ e)
            | Inr reason \<Rightarrow> \<lparr> gc_reason = reason, gc_unverifiable = False \<rparr>"
  have "Q ?c (s\<lparr>g_world := w'\<rparr>)"
    by (intro assms) (use w Some in \<open>auto simp: fence_held_def unverifiable_def split: sum.splits\<close>)
  with Some w show ?thesis by (simp add: fence_check_def wp_simps)
qed

lemma wp_scope_check:
  assumes "\<And>c w. (gc_reason c = [] \<Longrightarrow> scope_held D s) \<Longrightarrow> Q c (s\<lparr>g_world := w\<rparr>)"
  shows "wp (scope_check D) Q s"
proof -
  have Q: "Q c (s\<lparr>g_world := w\<rparr>)" if "gc_reason c = [] \<Longrightarrow> scope_held D s" for c w
    using that by (rule assms)
  have self: "Q c s" if "gc_reason c = [] \<Longrightarrow> scope_held D s" for c
    using Q [of c "g_world s"] that by simp
  show ?thesis
    unfolding scope_check_def Let_def
    by (intro wp_intros wp_write_tree wp_extI)
       (auto simp: unverifiable_def scope_violated_def clean_check_def scope_held_def wp_simps
             intro!: Q self split: prod.splits, blast)
qed

text \<open>Both checks only move the world.\<close>

definition world_only :: "'w gates \<Rightarrow> 'w gates \<Rightarrow> bool" where
  "world_only s t \<longleftrightarrow> t = s\<lparr>g_world := g_world t\<rparr>"

definition world_ev_only :: "'w gates \<Rightarrow> 'w gates \<Rightarrow> bool" where
  "world_ev_only s t \<longleftrightarrow> t = s\<lparr>g_world := g_world t, g_ev := g_ev t\<rparr>"

lemma world_onlyI [simp]: "world_only s (s\<lparr>g_world := w\<rparr>)" "world_only s s"
  by (simp_all add: world_only_def)

lemma world_ev_onlyI [simp]:
  "world_ev_only s (s\<lparr>g_world := w, g_ev := e\<rparr>)" "world_ev_only s (s\<lparr>g_world := w\<rparr>)" "world_ev_only s s"
  by (simp_all add: world_ev_only_def)

lemma world_onlyE: "world_only s t \<Longrightarrow> (\<And>w. t = s\<lparr>g_world := w\<rparr> \<Longrightarrow> P) \<Longrightarrow> P"
  by (auto simp: world_only_def)

lemma world_ev_onlyE: "world_ev_only s t \<Longrightarrow> (\<And>w e. t = s\<lparr>g_world := w, g_ev := e\<rparr> \<Longrightarrow> P) \<Longrightarrow> P"
  by (auto simp: world_ev_only_def)

lemma wp_verify_safety:
  "wp (verify_safety D)
      (\<lambda>a t. world_only s t
         \<and> (if fst (snd a) = [] then a = gate_ok \<and> fence_held D s \<and> scope_held D s
            else (fst a = Some Unverified \<and> snd (snd a)) \<or> (fst a = Some ScopeViolation \<and> \<not> snd (snd a)))) s"
  unfolding verify_safety_def
  by (intro wp_intros wp_fence_check wp_scope_check) (auto simp: gate_ok_def)

lemma wp_require_diff:
  "wp (require_diff_failure D)
      (\<lambda>a t. world_only s t
         \<and> (a = gate_ok \<or> a = (Some Unverified, ''require-diff: run completed with no changes'', True))) s"
  unfolding require_diff_failure_def unchanged_run_tree_def
  by (intro wp_intros wp_write_tree) (auto simp: wp_simps)

lemma wp_attemptI:
  "(a = Skipped \<Longrightarrow> wp m Q s) \<Longrightarrow> (\<And>r. a = Attempt r \<Longrightarrow> wp (f r) Q s) \<Longrightarrow>
   wp (case a of Skipped \<Rightarrow> m | Attempt r \<Rightarrow> f r) Q s"
  by (simp split: verify_attempt.split)

lemma wp_verify_run:
  assumes "\<And>w. Q Skipped (s\<lparr>g_world := w\<rparr>)"
    and "\<And>e w. exec_answered D (vs_cmd (g_vs s)) (vs_timeout (g_vs s)) (Inl e) \<Longrightarrow>
       Q (Attempt (Inl e))
         (s\<lparr>g_world := w, g_ev := map_option (log_attempt (vs_cmd (g_vs s)) (Inl e)) (g_ev s)\<rparr>)"
    and "\<And>r w. exec_answered D (vs_cmd (g_vs s)) (vs_timeout (g_vs s)) (Inr r) \<Longrightarrow>
       Q (Attempt (Inr (format_run r)))
         (s\<lparr>g_world := w, g_ev := map_option (log_attempt (vs_cmd (g_vs s)) (Inr (format_run r))) (g_ev s)\<rparr>)"
  shows "wp (verify_run D) Q s"
  unfolding verify_run_def
  apply (intro wp_intros wp_canceled wp_run_op)
   apply (use assms in \<open>simp_all add: wp_simps\<close>)
  subgoal for b w r w' by (cases r) (use assms in \<open>simp_all add: wp_simps\<close>)
  done

lemma verdict_passed: "verify_verdict vs out = [] \<longleftrightarrow> \<not> is_run_failure out"
  by (simp add: verify_verdict_def)

definition passed_run :: "'w gate_deps \<Rightarrow> 'w gates \<Rightarrow> string \<Rightarrow> bool" where
  "passed_run D s out \<longleftrightarrow>
     (\<exists>r. exec_answered D (vs_cmd (g_vs s)) (vs_timeout (g_vs s)) (Inr r) \<and> exit_code r = 0 \<and> out = format_run r)"

lemma passed_runI:
  "exec_answered D (vs_cmd (g_vs s)) (vs_timeout (g_vs s)) (Inr r) \<Longrightarrow> \<not> is_run_failure (format_run r) \<Longrightarrow>
   passed_run D s (format_run r)"
  by (auto simp: passed_run_def)

text \<open>Both attempts ask the sandbox for the same command; an empty reason means that the last
  answer was an exit code zero.\<close>

lemma wp_verify_termination:
  "wp (verify_termination D b)
      (\<lambda>a t. world_ev_only s t \<and> (fst a = [] \<longrightarrow> vs_cmd (g_vs s) \<noteq> [] \<longrightarrow> passed_run D s (snd a))) s"
  unfolding verify_termination_def Let_def
  by (intro wp_intros wp_verify_run wp_attemptI) (auto simp: verdict_passed passed_run_def world_ev_only_def)

text \<open>A refused claim is let through only by a derived gate: after more than two refusals, or on
  an environment fault.\<close>

lemma wp_completion_failure:
  "wp (verify_completion_failure reason out)
      (\<lambda>a t. verify_frame s t \<and> g_closing t = g_closing s \<and> g_world t = g_world s
         \<and> (fst (snd a) = [] \<longrightarrow> a = gate_ok \<and>
              (reason \<noteq> [] \<longrightarrow> vs_auto_soft (g_vs s) \<and>
                 (g_auto_feedback s \<ge> auto_verify_max_feedback \<or> is_infra_fault out)))
         \<and> (fst (snd a) \<noteq> [] \<longrightarrow> reason \<noteq> [] \<and> fst a = Some Unverified)) s"
  unfolding verify_completion_failure_def Let_def set_infra_def
  by (intro wp_intros) (simp_all add: verify_frame_def gate_ok_def less_Suc_eq_le)

lemma verify_frame_upd [simp]:
  "verify_frame s (t\<lparr>g_world := w\<rparr>) = verify_frame s t"
  "verify_frame s (t\<lparr>g_ev := e\<rparr>) = verify_frame s t"
  "verify_frame s (t\<lparr>g_closing := c\<rparr>) = verify_frame s t"
  "verify_frame s (t\<lparr>g_closing_gen := n\<rparr>) = verify_frame s t"
  by (simp_all add: verify_frame_def)

lemma world_only_frame: "world_only s t \<Longrightarrow> verify_frame s t"
  by (auto simp: verify_frame_refl elim!: world_onlyE)

lemma world_ev_only_frame:
  assumes "world_ev_only s t"
  shows "verify_frame s t" "g_closing t = g_closing s" "g_vs t = g_vs s"
  using assms by (auto simp: verify_frame_refl elim!: world_ev_onlyE)

lemma verified_cong: "verify_frame s t \<Longrightarrow> g_closing t = g_closing s \<Longrightarrow> verified D t = verified D s"
  by (simp add: verify_frame_def verified_def)

lemma unchanged_green_cong: "verify_frame s t \<Longrightarrow> unchanged_green D t = unchanged_green D s"
  by (simp add: verify_frame_def unchanged_green_def)

lemma wp_nothing_to_verify:
  "wp (nothing_to_verify D)
      (\<lambda>b t. world_only s t \<and>
         (b \<longrightarrow> g_run_base s \<noteq> [] \<and> tree_answered D (g_run_base s)
            \<and> (vs_auto_soft (g_vs s) \<or> \<not> vs_skip_baseline (g_vs s) \<and> g_base_measured s))) s"
  unfolding nothing_to_verify_def
  by (intro wp_intros wp_write_tree) auto

lemma wp_run_and_judge:
  "wp (run_and_judge D b)
      (\<lambda>a t. verify_frame s t
         \<and> (fst (snd a) = [] \<longrightarrow> a = gate_ok \<and>
              (vs_cmd (g_vs s) \<noteq> [] \<longrightarrow> \<not> vs_auto_soft (g_vs s) \<longrightarrow> verified D t))
         \<and> (fst (snd a) \<noteq> [] \<longrightarrow> fst a = Some Unverified)) s"
  unfolding run_and_judge_def capture_closing_verification_def
proof (intro wp_intros wp_write_tree wp_use [OF wp_verify_termination] wp_use [OF wp_completion_failure], goal_cases)
  case (1 r w v t a u)
  then obtain w' e where t: "t = s\<lparr>g_world := w, g_world := w', g_ev := e\<rparr>" by (auto elim: world_ev_onlyE)
  let ?cl = "new_verification_record (vs_cmd (g_vs s)) (snd v) (case r of Inl _ \<Rightarrow> [] | Inr t \<Rightarrow> t)"
  have v: "vs_cmd (g_vs s) \<noteq> []" "fst v = []" using 1 t by simp_all
  then obtain q where q: "exec_answered D (vs_cmd (g_vs s)) (vs_timeout (g_vs s)) (Inr q)"
      "exit_code q = 0" "snd v = format_run q" using 1 by (auto simp: passed_run_def)
  have u: "verify_frame s u" "g_closing u = Some ?cl"
    using 1 t by (simp_all add: verify_frame_def)
  then have "verified D u" using q by (auto simp: verified_def verify_frame_def)
  with u 1 show ?case by simp
next
  case (2 r w v t a u)
  then have t: "verify_frame s t" "g_vs t = g_vs s" "verify_frame t u"
    using world_ev_only_frame [of "s\<lparr>g_world := w\<rparr>" t] by (auto simp: verify_frame_def)
  have "verify_frame s u" using t verify_frame_trans by blast
  moreover have "fst v \<noteq> [] \<or> vs_cmd (g_vs s) = []" using 2 t by simp
  ultimately show ?case using 2 t by auto
qed

lemma wp_verify_completion:
  "wp (verify_completion D b)
      (\<lambda>a t. verify_frame s t
         \<and> (fst (snd a) = [] \<longrightarrow> a = gate_ok \<and>
              (vs_cmd (g_vs s) \<noteq> [] \<longrightarrow> \<not> vs_auto_soft (g_vs s) \<longrightarrow> verified D t \<or> unchanged_green D t))
         \<and> (fst (snd a) \<noteq> [] \<longrightarrow> fst a = Some Unverified)) s"
  unfolding verify_completion_def
proof (intro wp_intros wp_use [OF wp_require_diff] wp_use [OF wp_nothing_to_verify]
    wp_use [OF wp_run_and_judge] wp_use [OF wp_completion_failure], goal_cases)
  case (1 rd t)
  then show ?case using world_only_frame by auto
next
  case (2 rd t b u)
  then have f: "verify_frame s t" "verify_frame t u" using world_only_frame by blast+
  then have "verify_frame s u" using verify_frame_trans by blast
  with 2 f show ?case by (auto simp: unchanged_green_def verify_frame_def)
next
  case (3 rd t b u a v)
  then have f: "verify_frame s t" "verify_frame t u" using world_only_frame by blast+
  with 3 have "verify_frame s v" using verify_frame_trans by blast
  with 3 f show ?case by (auto simp: verify_frame_def)
next
  case (4 rd t b u a v)
  then have f: "verify_frame s t" "verify_frame t u" using world_only_frame by blast+
  with 4 have "verify_frame s v" using verify_frame_trans by blast
  with 4 f show ?case by (auto simp: verify_frame_def)
qed

lemma wp_verify_finish:
  "wp (verify_finish D b trusted)
      (\<lambda>a t. verify_frame s t
         \<and> (fst (snd a) = [] \<longrightarrow> a = gate_ok \<and> fence_held D s \<and> scope_held D s
              \<and> (\<not> trusted \<longrightarrow> vs_cmd (g_vs s) \<noteq> [] \<longrightarrow> \<not> vs_auto_soft (g_vs s) \<longrightarrow> verified D t \<or> unchanged_green D t))
         \<and> (fst (snd a) \<noteq> [] \<longrightarrow> fst a = Some Unverified \<or> fst a = Some ScopeViolation)) s"
  unfolding verify_finish_def
proof (intro wp_intros wp_use [OF wp_verify_safety] wp_use [OF wp_require_diff]
    wp_use [OF wp_verify_completion], goal_cases)
  case (1 a t)
  then show ?case using world_only_frame by auto
next
  case (2 a t b u)
  then have f: "verify_frame s t" "verify_frame t u" using world_only_frame by blast+
  then have "verify_frame s u" using verify_frame_trans by blast
  with 2 f show ?case by auto
next
  case (3 a t b u)
  then have f: "verify_frame s t" using world_only_frame by blast
  with 3 have "verify_frame s u" using verify_frame_trans by blast
  with 3 f show ?case by (auto simp: verify_frame_def)
qed

end
