(* ===== verification/ReviewGate.thy ===== *)
theory ReviewGate
  imports VerifyGate
begin

text \<open>
  Stage 2 of the closing gates (\<open>agent/review.go\<close>, \<open>agent/gate.go\<close>): the reviewer's rounds.
  A finding goes through the validation ladder (quote, severity, execution of its repro
  command with the workspace put back, confidence); blockers and advisories are fed back
  while rounds are left, blockers that stand at the end block the finish. Infrastructure
  failures are recorded and block only under a policy that requires the review.
\<close>

section \<open>The review policy\<close>

definition rp_valid :: "int \<Rightarrow> bool" where "rp_valid p \<longleftrightarrow> 0 \<le> p \<and> p \<le> 5"
definition rp_required :: "int \<Rightarrow> bool" where "rp_required p \<longleftrightarrow> p = 1 \<or> p = 4"
definition rp_fail_open :: "int \<Rightarrow> bool" where "rp_fail_open p \<longleftrightarrow> p = 2 \<or> p = 5"
definition rp_optional :: "int \<Rightarrow> bool" where "rp_optional p \<longleftrightarrow> p = 3 \<or> p = 4 \<or> p = 5"

text \<open>\<open>ReviewPolicyFrom\<close>: the three flags; requiring and failing open contradict.\<close>

definition review_policy_from :: "bool \<Rightarrow> bool \<Rightarrow> bool \<Rightarrow> string + int" where
  "review_policy_from required fail_open optional =
     (if required \<and> fail_open then Inl ''review required and fail-open cannot both be enabled''
      else Inr (if required \<and> optional then 4 else if fail_open \<and> optional then 5
                else if required then 1 else if fail_open then 2 else if optional then 3 else 0))"

definition effective_review_required :: "'w gate_deps \<Rightarrow> bool" where
  "effective_review_required D =
     (let rp = pv_review_policy (d_pol D) in
      if rp_fail_open rp then False else rp_required rp \<or> d_has_reviewer D)"

section \<open>The review state\<close>

definition zero_review :: "'w gate_deps \<Rightarrow> review_state" where
  "zero_review D =
     \<lparr> rv_max_rounds = pv_review_rounds (d_pol D), rv_base_tree = [], rv_skip = [], rv_rounds = 0,
       rv_status = ReviewNone, rv_blocked = False, rv_salvage = False, rv_model = [], rv_summaries = [],
       rv_run_ids = [], rv_findings = [], rv_pending = [], rv_usage = zero_usage \<rparr>"

definition new_review_state :: "'w gate_deps \<Rightarrow> ('w gates, setup_error + review_state option) state" where
  "new_review_state D =
     (if \<not> d_has_reviewer D then ret (Inr None)
      else do {
        base \<leftarrow> (if d_root D = [] then ret (Inl ''review skipped: no workspace root configured'')
                 else do {
                   repo \<leftarrow> ext (d_is_repo D);
                   if \<not> repo then ret (Inl ''review skipped: not a git workspace'')
                   else do {
                     r \<leftarrow> write_tree D;
                     ret (case r of
                            Inl e \<Rightarrow> Inl (''review skipped: could not capture the base tree: '' @ err_text e)
                          | Inr t \<Rightarrow> Inr t) } });
        ret (case base of
               Inr t \<Rightarrow> Inr (Some ((zero_review D)\<lparr>rv_base_tree := t\<rparr>))
             | Inl why \<Rightarrow>
                 if \<not> rp_optional (pv_review_policy (d_pol D))
                 then Inl (SetupError ''review_unavailable''
                        (why @ '' (review gate was armed; pass -review-optional to skip and continue)''))
                 else Inr (Some ((zero_review D)\<lparr>rv_skip := why, rv_status := ReviewUnavailable\<rparr>))) })"

definition set_fate :: "fate \<Rightarrow> reviewed_finding \<Rightarrow> reviewed_finding" where
  "set_fate f r = (if rd_fate r = FatePending then r\<lparr>rd_fate := f\<rparr> else r)"

text \<open>\<open>resolvePending\<close>: every listed finding that still waits gets the fate.\<close>

fun update_at :: "nat list \<Rightarrow> ('a \<Rightarrow> 'a) \<Rightarrow> 'a list \<Rightarrow> 'a list" where
  "update_at [] f xs = xs"
| "update_at (i # is) f xs = update_at is f (if i < length xs then xs[i := f (xs ! i)] else xs)"

definition resolve_pending :: "fate \<Rightarrow> review_state \<Rightarrow> review_state" where
  "resolve_pending f rv =
     rv\<lparr>rv_findings := update_at (rv_pending rv) (set_fate f) (rv_findings rv), rv_pending := []\<rparr>"

definition report_of :: "review_state \<Rightarrow> review_report" where
  "report_of rv =
     (let rv = resolve_pending FateExpired rv;
          blockers = filter (\<lambda>f. rf_severity (rd_finding f) = ''blocker'') (rv_findings rv)
      in \<lparr> rr_rounds = rv_rounds rv, rr_status = rv_status rv, rr_blocked = rv_blocked rv,
           rr_salvage = rv_salvage rv, rr_skipped = rv_skip rv, rr_model = rv_model rv,
           rr_runs = rv_run_ids rv, rr_summaries = rv_summaries rv, rr_findings = rv_findings rv,
           rr_usage = rv_usage rv,
           rr_confirmed_blockers = length (filter rd_confirmed blockers),
           rr_unconfirmed_blockers = length (filter (\<lambda>f. \<not> rd_confirmed f) blockers) \<rparr>)"

text \<open>\<open>findRecurringConfirmedBlocker\<close>: a waiting confirmed finding and the first earlier one
  with its file and quote.\<close>

definition recurs :: "nat \<Rightarrow> reviewed_finding \<Rightarrow> reviewed_finding \<Rightarrow> bool" where
  "recurs rounds cur prev \<longleftrightarrow>
     rd_round prev < rounds \<and> rd_confirmed prev
     \<and> rf_file (rd_finding prev) = rf_file (rd_finding cur)
     \<and> rf_quote (rd_finding prev) = rf_quote (rd_finding cur)"

fun first_index :: "('a \<Rightarrow> bool) \<Rightarrow> 'a list \<Rightarrow> nat option" where
  "first_index P [] = None"
| "first_index P (x # xs) = (if P x then Some 0 else map_option Suc (first_index P xs))"

fun recurring_from :: "nat \<Rightarrow> reviewed_finding list \<Rightarrow> nat list \<Rightarrow> (nat \<times> nat) option" where
  "recurring_from rounds fs [] = None"
| "recurring_from rounds fs (i # is) =
     (if rd_confirmed (fs ! i) then
        (case first_index (recurs rounds (fs ! i)) fs of
           Some j \<Rightarrow> Some (i, j)
         | None \<Rightarrow> recurring_from rounds fs is)
      else recurring_from rounds fs is)"

definition find_recurring :: "review_state \<Rightarrow> (nat \<times> nat) option" where
  "find_recurring rv = recurring_from (rv_rounds rv) (rv_findings rv) (rv_pending rv)"

section \<open>Infrastructure failures\<close>

definition classify_review_err :: "err_kind \<Rightarrow> err_kind option \<Rightarrow> review_status" where
  "classify_review_err e gate =
     (if e = ErrCanceled \<or> gate = Some ErrCanceled then ReviewCanceled
      else if e = ErrDeadline \<or> gate = Some ErrDeadline then ReviewTimeout
      else if e = ErrParse then ReviewParseError else ReviewUnavailable)"

definition infra_status :: "review_status \<Rightarrow> bool" where
  "infra_status st \<longleftrightarrow> st = ReviewUnavailable \<or> st = ReviewParseError \<or> st = ReviewTimeout"

fun status_text :: "review_status \<Rightarrow> string" where
  "status_text ReviewNone = []"
| "status_text ReviewClean = ''clean''"
| "status_text ReviewBlocked = ''blocked''"
| "status_text ReviewAdvisory = ''advisory''"
| "status_text ReviewUnavailable = ''unavailable''"
| "status_text ReviewParseError = ''parse_error''"
| "status_text ReviewTimeout = ''timeout''"
| "status_text ReviewCanceled = ''canceled''"

definition fail_open_rv :: "review_status \<Rightarrow> string \<Rightarrow> review_state \<Rightarrow> review_state" where
  "fail_open_rv st msg rv =
     (let rv = rv\<lparr>rv_status := st\<rparr> in
      if rv_findings rv = [] \<and> rv_skip rv = [] then rv\<lparr>rv_skip := msg\<rparr> else rv)"

definition set_semantic :: "review_status \<Rightarrow> review_state \<Rightarrow> review_state" where
  "set_semantic st rv = (if infra_status (rv_status rv) then rv else rv\<lparr>rv_status := st\<rparr>)"

definition block_reason :: "'w gate_deps \<Rightarrow> review_state \<Rightarrow> string" where
  "block_reason D rv =
     (if \<not> effective_review_required D \<or> \<not> infra_status (rv_status rv) then []
      else ''review required but review status is '' @ status_text (rv_status rv))"

definition required_block_reason :: "'w gate_deps \<Rightarrow> ('w gates, string) state" where
  "required_block_reason D = do {
     rv \<leftarrow> gets g_review;
     ret (case rv of None \<Rightarrow> [] | Some rv \<Rightarrow> block_reason D rv) }"

text \<open>What a failed diff or a failed reviewer call does to the gate.\<close>

definition review_failed :: "'w gate_deps \<Rightarrow> go_error \<Rightarrow> ('w gates, string \<times> string) state" where
  "review_failed D e = do {
     g \<leftarrow> ext (d_gate_done D);
     upd_review (fail_open_rv (classify_review_err (err_kind e) g)
                  (''review error (gate fails open): '' @ err_text e));
     why \<leftarrow> required_block_reason D;
     ret ([], why) }"

definition capture_diff :: "'w gate_deps \<Rightarrow> string \<Rightarrow> ('w gates, go_error + string) state" where
  "capture_diff D base = do {
     r \<leftarrow> write_tree D;
     case r of
       Inl e \<Rightarrow> ret (Inl e)
     | Inr cur \<Rightarrow> if cur = base then ret (Inr []) else ext (d_diff_trees D base cur) }"

section \<open>The validation ladder\<close>

definition review_block_confidence :: int where "review_block_confidence = 8"
definition review_advise_confidence :: int where "review_advise_confidence = 5"
definition review_repro_cap :: nat where "review_repro_cap = 2"
definition solicit_confidence :: int where "solicit_confidence = 7"

definition path_summary :: "string list \<Rightarrow> string" where
  "path_summary ps =
     (if ps = [] then ''tree hash changed''
      else if length ps \<le> 5 then str_join ps '', ''
      else itoa (int (length ps)) @ '' paths ('' @ str_join (take 5 ps) '', '' @ '', '' @ ellipsis @ '')'')"

definition blocker_severity :: "review_finding \<Rightarrow> bool" where
  "blocker_severity f \<longleftrightarrow> to_lower (trim_space (rf_severity f)) = ''blocker''"

definition as_reviewed :: "review_finding \<Rightarrow> reviewed_finding" where
  "as_reviewed f =
     \<lparr> rd_finding = f, rd_round = 0, rd_fate = FatePending, rd_confirmed = False,
       rd_repro_out = [], rd_drop_why = [] \<rparr>"

definition dropped :: "string \<Rightarrow> reviewed_finding \<Rightarrow> reviewed_finding" where
  "dropped why r = r\<lparr>rd_fate := FateDropped, rd_drop_why := why\<rparr>"

text \<open>What the outcome of a repro that left the workspace alone says of the finding.\<close>

definition settle :: "string \<Rightarrow> reviewed_finding \<Rightarrow> reviewed_finding" where
  "settle out r =
     (let r = r\<lparr>rd_repro_out := clip out run_stream_cap\<rparr> in
      if is_run_failure out then r\<lparr>rd_confirmed := True\<rparr>
      else if rf_confidence (rd_finding r) < review_block_confidence then r\<lparr>rd_fate := FateRefuted\<rparr>
      else r\<lparr>rd_fate := FateAdvised\<rparr>)"

definition fence_drift :: "'w gate_deps \<Rightarrow> ('w gates, string list) state" where
  "fence_drift D = do {
     f \<leftarrow> gets g_fence;
     case f of
       None \<Rightarrow> ret []
     | Some f \<Rightarrow> do { sb \<leftarrow> ext (d_walk D); ret (drift (d_sha D) (Some f) sb) } }"

text \<open>Putting the workspace back: the fenced paths from the snapshot, then the tree. Failures
  are only noted.\<close>

definition undo_repro :: "'w gate_deps \<Rightarrow> string \<Rightarrow> go_error + string \<Rightarrow> string list \<Rightarrow> ('w gates, unit) state" where
  "undo_repro D pre post fenced = do {
     f \<leftarrow> gets g_fence;
     (if fenced \<noteq> [] then
        (case f of
           None \<Rightarrow> ret ()
         | Some f \<Rightarrow> do {
             ext (restore (d_remove D) (d_write D) (case fn_base f of Inr b \<Rightarrow> b | Inl _ \<Rightarrow> []) fenced);
             ret () })
      else ret ());
     whenever (post \<noteq> Inr pre) (do { ext (d_restore_tree D pre); ret () }) }"

definition escalate ::
  "'w gate_deps \<Rightarrow> string \<Rightarrow> reviewed_finding \<Rightarrow> ('w gates, bool \<times> reviewed_finding) state" where
  "escalate D cmd rd = do {
     pre \<leftarrow> write_tree D;
     case pre of
       Inl e \<Rightarrow> ret (False, rd)
     | Inr pre \<Rightarrow> do {
         r \<leftarrow> run_op D cmd (d_run_timeout D);
         fenced \<leftarrow> fence_drift D;
         post \<leftarrow> write_tree D;
         if post \<noteq> Inr pre \<or> fenced \<noteq> [] then do {
           changed \<leftarrow> (case post of
              Inl _ \<Rightarrow> ret []
            | Inr t \<Rightarrow> if t = pre then ret []
                       else do { n \<leftarrow> ext (d_diff_names D pre t); ret (case n of Inl _ \<Rightarrow> [] | Inr ns \<Rightarrow> ns) });
           undo_repro D pre post fenced;
           ret (True, dropped
             (if fenced \<noteq> [] then ''repro command modified fenced paths: '' @ str_join fenced '', ''
              else case post of
                Inl e \<Rightarrow> ''repro command left the workspace unsnapshottable: '' @ err_text e
              | Inr _ \<Rightarrow> ''repro command modified the workspace: '' @ path_summary changed) rd) }
         else (case r of
                 Inl e \<Rightarrow> ret (False, rd)
               | Inr out \<Rightarrow> ret (True, settle out rd)) } }"

text \<open>The prose end of the ladder: confidence alone.\<close>

definition by_confidence :: "reviewed_finding \<Rightarrow> reviewed_finding" where
  "by_confidence r =
     (if rf_confidence (rd_finding r) < review_block_confidence then
        (if rf_confidence (rd_finding r) \<ge> review_advise_confidence then r\<lparr>rd_fate := FateAdvised\<rparr>
         else r\<lparr>rd_fate := FateNote\<rparr>)
      else r)"

text \<open>The quote must stand in the named file. A finding that names no file, or one that does
  not exist, is let through.\<close>

definition quote_check :: "'w gate_deps \<Rightarrow> review_finding \<Rightarrow> ('w gates, string) state" where
  "quote_check D f =
     (let file = trim_space (rf_file f) in
      if file = [] \<or> equal_fold file ''n/a'' then ret []
      else do {
        r \<leftarrow> ext (d_read D (fence_rel_path (d_alias D) (rf_file f)));
        ret (case r of
               Inl FileNotExist \<Rightarrow> []
             | Inl (ReadFailed e) \<Rightarrow> ''quoted file unreadable: '' @ e
             | Inr bytes \<Rightarrow> if str_contains bytes (trim_space (rf_quote f)) then []
                            else ''quote does not appear verbatim in '' @ rf_file f) })"

definition classify ::
  "'w gate_deps \<Rightarrow> review_finding \<Rightarrow> nat \<Rightarrow> ('w gates, reviewed_finding \<times> nat) state" where
  "classify D f budget =
     (let rd = as_reviewed f in
      if trim_space (rf_quote f) = [] then ret (dropped ''empty quote'' rd, budget)
      else do {
        why \<leftarrow> quote_check D f;
        if why \<noteq> [] then ret (dropped why rd, budget)
        else if \<not> blocker_severity f then ret (rd\<lparr>rd_fate := FateNote\<rparr>, budget)
        else if trim_space (rf_repro_cmd f) \<noteq> [] \<and> budget > 0 then do {
          e \<leftarrow> escalate D (trim_space (rf_repro_cmd f)) rd;
          ret (if fst e then snd e else by_confidence (snd e), budget - 1) }
        else ret (by_confidence rd, budget) })"

section \<open>Asking for repro commands\<close>

definition eligible :: "review_finding \<Rightarrow> bool" where
  "eligible f \<longleftrightarrow>
     blocker_severity f \<and> rf_confidence f \<ge> solicit_confidence \<and> trim_space (rf_repro_cmd f) = []"

definition same_claim :: "review_finding \<Rightarrow> review_finding \<Rightarrow> bool" where
  "same_claim f m \<longleftrightarrow>
     trim_space (rf_file f) = trim_space (rf_file m) \<and> trim_space (rf_quote f) = trim_space (rf_quote m)"

definition merge_claim :: "review_finding list \<Rightarrow> review_finding \<Rightarrow> review_finding" where
  "merge_claim answers f =
     (case find (same_claim f) answers of
        None \<Rightarrow> f
      | Some m \<Rightarrow>
          (let f = (if rf_repro_cmd m \<noteq> [] then f\<lparr>rf_repro_cmd := rf_repro_cmd m\<rparr> else f) in
           if rf_no_repro_reason m \<noteq> [] then f\<lparr>rf_no_repro_reason := rf_no_repro_reason m\<rparr> else f))"

definition solicit_input :: "'w gate_deps \<Rightarrow> nat \<Rightarrow> review_input" where
  "solicit_input D rounds =
     \<lparr> ri_task = d_task D, ri_diff = [], ri_root = d_root D, ri_signals = [], ri_round = rounds \<rparr>"

definition solicit :: "'w gate_deps \<Rightarrow> nat \<Rightarrow> review_verdict \<Rightarrow> ('w gates, review_finding list) state" where
  "solicit D rounds v =
     (case d_solicitor D of
        None \<Rightarrow> ret (rx_findings v)
      | Some ask \<Rightarrow>
          (let el = filter eligible (rx_findings v) in
           if el = [] then ret (rx_findings v)
           else do {
             a \<leftarrow> ext (ask (solicit_input D rounds) el);
             upd_review (\<lambda>rv. rv\<lparr>rv_usage := add_usage (rv_usage rv) (snd a)\<rparr>);
             charge D (rx_model v) (snd a);
             case fst a of
               Inl e \<Rightarrow> do {
                 g \<leftarrow> ext (d_gate_done D);
                 let st = classify_review_err (err_kind e) g in
                 do {
                   whenever (st \<noteq> ReviewCanceled) (upd_review (\<lambda>rv. rv\<lparr>rv_status := st\<rparr>));
                   ret (rx_findings v) } }
             | Inr answers \<Rightarrow> ret (map (merge_claim answers) (rx_findings v)) }))"

section \<open>A round\<close>

text \<open>\<open>tally\<close> keeps the blockers and the advisories of the round, in order.\<close>

record tally =
  ta_blockers :: "reviewed_finding list"
  ta_advisories :: "reviewed_finding list"
  ta_budget :: nat

definition finding_id :: "nat \<Rightarrow> nat \<Rightarrow> string" where
  "finding_id rounds n = ''r'' @ itoa (int rounds) @ ''-f'' @ itoa (int n)"

text \<open>A classified finding enters the records; one without a fate is a blocker and waits.\<close>

definition stamp :: "review_state \<Rightarrow> reviewed_finding \<Rightarrow> reviewed_finding" where
  "stamp rv rd =
     (let f = rd_finding rd;
          f = (if rf_id f = [] then f\<lparr>rf_id := finding_id (rv_rounds rv) (length (rv_findings rv) + 1)\<rparr> else f)
      in rd\<lparr>rd_finding := f, rd_round := rv_rounds rv\<rparr>)"

definition add_finding :: "reviewed_finding \<Rightarrow> review_state \<Rightarrow> review_state" where
  "add_finding rd rv =
     (let rd = stamp rv rd in
      rv\<lparr>rv_findings := rv_findings rv @ [rd],
         rv_pending := (if rd_fate rd = FatePending then rv_pending rv @ [length (rv_findings rv)]
                        else rv_pending rv)\<rparr>)"

definition count_finding :: "reviewed_finding \<Rightarrow> tally \<Rightarrow> tally" where
  "count_finding rd ta =
     (if rd_fate rd = FatePending then ta\<lparr>ta_blockers := ta_blockers ta @ [rd]\<rparr>
      else if rd_fate rd = FateAdvised then ta\<lparr>ta_advisories := ta_advisories ta @ [rd]\<rparr>
      else ta)"

fun classify_all :: "'w gate_deps \<Rightarrow> review_finding list \<Rightarrow> tally \<Rightarrow> ('w gates, tally) state" where
  "classify_all D [] ta = ret ta"
| "classify_all D (f # fs) ta = do {
     c \<leftarrow> classify D f (ta_budget ta);
     rv \<leftarrow> gets g_review;
     let rd = (case rv of Some rv \<Rightarrow> stamp rv (fst c) | None \<Rightarrow> fst c) in
     do {
       upd_review (add_finding (fst c));
       classify_all D fs (count_finding rd (ta\<lparr>ta_budget := snd c\<rparr>)) } }"

definition feedback_blocker :: "reviewed_finding \<Rightarrow> string" where
  "feedback_blocker r =
     (let f = rd_finding r in
      ''[review] a reviewer found a blocking defect: '' @ rf_scenario f @ '' ('' @ rf_file f @ '': ''
      @ go_quote (rf_quote f) @ '').'' @ nl
      @ (if rd_confirmed r
         then ''The defect was CONFIRMED by executing `'' @ rf_repro_cmd f @ ''`, which failed:'' @ nl
              @ rd_repro_out r @ nl
         else []))"

definition feedback_advisory :: "reviewed_finding \<Rightarrow> string" where
  "feedback_advisory r =
     (let f = rd_finding r in
      ''[review] a reviewer flagged a LIKELY defect (advisory '' @ emdash @ '' this will not block): ''
      @ rf_scenario f @ '' ('' @ rf_file f @ '': '' @ go_quote (rf_quote f) @ '').'' @ nl)"

definition review_feedback :: "reviewed_finding list \<Rightarrow> reviewed_finding list \<Rightarrow> string" where
  "review_feedback blockers advisories =
     concat (map feedback_blocker blockers) @ concat (map feedback_advisory advisories)
     @ ''Fix what is real without breaking the verified tests, verifying an advisory against the code before acting on it; do not argue with the review in prose.''"

text \<open>A confirmed blocker that came back: the earlier record is corrected, everything expires.\<close>

definition stop_recurring :: "nat \<Rightarrow> review_state \<Rightarrow> review_state" where
  "stop_recurring prev rv =
     resolve_pending FateExpired
       (rv\<lparr>rv_status := ReviewBlocked,
           rv_findings := (rv_findings rv)[prev := (rv_findings rv ! prev)\<lparr>rd_fate := FateExpired\<rparr>],
           rv_blocked := True\<rparr>)"

definition stop_blocked :: "review_state \<Rightarrow> review_state" where
  "stop_blocked rv = resolve_pending FateExpired (rv\<lparr>rv_status := ReviewBlocked, rv_blocked := True\<rparr>)"

definition judge_round :: "'w gate_deps \<Rightarrow> bool \<Rightarrow> tally \<Rightarrow> review_state \<Rightarrow> ('w gates, string \<times> string) state" where
  "judge_round D can_continue ta rv =
     (let none = (ta_blockers ta = []) in
      case find_recurring rv of
        Some (cur, prev) \<Rightarrow> do {
          upd_review (stop_recurring prev);
          ret ([], ''confirmed review blocker recurred unresolved after repair round '' @ itoa (int (rv_rounds rv))) }
      | None \<Rightarrow>
          if none \<and> ta_advisories ta = [] then do {
            upd_review (set_semantic ReviewClean);
            why \<leftarrow> required_block_reason D;
            ret ([], why) }
          else if can_continue \<and> int (rv_rounds rv) < rv_max_rounds rv then do {
            upd_review (set_semantic ReviewBlocked);
            whenever none (upd_review (set_semantic ReviewAdvisory));
            ret (review_feedback (ta_blockers ta) (ta_advisories ta), []) }
          else if none then do {
            upd_review (set_semantic ReviewAdvisory);
            why \<leftarrow> required_block_reason D;
            ret ([], why) }
          else do {
            upd_review stop_blocked;
            ret ([], ''review blockers remain after '' @ itoa (int (rv_rounds rv)) @ '' round(s)'') })"

definition record_verdict :: "review_verdict \<Rightarrow> review_state \<Rightarrow> review_state" where
  "record_verdict v rv =
     rv\<lparr>rv_usage := add_usage (rv_usage rv) (rx_usage v),
        rv_model := (if rv_model rv = [] then rx_model v else rv_model rv),
        rv_summaries := rv_summaries rv @ [rx_summary v],
        rv_run_ids := (if rx_run_id v \<noteq> [] then rv_run_ids rv @ [rx_run_id v] else rv_run_ids rv)\<rparr>"

definition mark_reviewed :: "evidence_log \<Rightarrow> evidence_log" where
  "mark_reviewed l = l\<lparr>ev_reviewed_gen := ev_mut_gen l, ev_review_reached := True\<rparr>"

definition begin_round :: "review_state \<Rightarrow> review_state" where
  "begin_round rv = (resolve_pending FateRepaired rv)\<lparr>rv_rounds := rv_rounds rv + 1\<rparr>"

definition review_input_of :: "'w gate_deps \<Rightarrow> string \<Rightarrow> nat \<Rightarrow> review_input" where
  "review_input_of D diff rounds =
     \<lparr> ri_task = d_task D, ri_diff = diff, ri_root = d_root D, ri_signals = substance_signals diff,
       ri_round = rounds \<rparr>"

text \<open>One call of the reviewer on a nonempty diff, and its verdict.\<close>

definition review_round :: "'w gate_deps \<Rightarrow> bool \<Rightarrow> string \<Rightarrow> review_state \<Rightarrow> ('w gates, string \<times> string) state" where
  "review_round D can_continue diff rv0 = do {
     upd_review begin_round;
     let rounds = rv_rounds rv0 + 1 in
     do {
       a \<leftarrow> ext (d_reviewer D (review_input_of D diff rounds));
       (case (case a of ReviewOk v \<Rightarrow> Some v | ReviewFailed v _ \<Rightarrow> v) of
          None \<Rightarrow> ret ()
        | Some v \<Rightarrow> do { upd_review (record_verdict v); charge D (rx_model v) (rx_usage v) });
       case a of
         ReviewFailed _ e \<Rightarrow> review_failed D e
       | ReviewOk v \<Rightarrow> do {
           fs \<leftarrow> solicit D rounds v;
           ta \<leftarrow> classify_all D fs \<lparr> ta_blockers = [], ta_advisories = [], ta_budget = review_repro_cap \<rparr>;
           rv \<leftarrow> gets g_review;
           (case rv of None \<Rightarrow> ret ([], []) | Some rv \<Rightarrow> judge_round D can_continue ta rv) } } }"

text \<open>\<open>reviewFinish\<close>: the feedback to send back, or the reason that blocks; both empty when
  the finish passes.\<close>

definition review_finish :: "'w gate_deps \<Rightarrow> bool \<Rightarrow> ('w gates, string \<times> string) state" where
  "review_finish D can_continue = do {
     rv \<leftarrow> gets g_review;
     case rv of
       None \<Rightarrow> ret ([], [])
     | Some rv \<Rightarrow>
         if rv_skip rv \<noteq> [] then
           ret ([], if effective_review_required D
                    then ''review required but review was skipped: '' @ rv_skip rv else [])
         else do {
           c \<leftarrow> canceled D;
           if c then do {
             upd_review (\<lambda>rv. rv\<lparr>rv_status := ReviewCanceled\<rparr>);
             ret ([], []) }
           else do {
             diff \<leftarrow> capture_diff D (rv_base_tree rv);
             case diff of
               Inl e \<Rightarrow> review_failed D e
             | Inr diff \<Rightarrow> do {
                 upd_ev mark_reviewed;
                 if trim_space diff = [] then do {
                   upd_review (set_semantic ReviewClean);
                   ret ([], []) }
                 else review_round D can_continue diff rv } } } }"

text \<open>\<open>reviewUnverified\<close>: at most one advisory round on an exit that is not verified.\<close>

definition review_unverified :: "'w gate_deps \<Rightarrow> ('w gates, unit) state" where
  "review_unverified D = do {
     rv \<leftarrow> gets g_review;
     case rv of
       None \<Rightarrow> ret ()
     | Some rv \<Rightarrow>
         if \<not> pv_review_unverified (d_pol D) \<or> rv_skip rv \<noteq> [] \<or> rv_rounds rv > 0 \<or> rv_findings rv \<noteq> []
         then ret ()
         else do {
           c \<leftarrow> canceled D;
           if c then ret ()
           else do {
             diff \<leftarrow> capture_diff D (rv_base_tree rv);
             upd_ev mark_reviewed;
             case diff of
               Inl e \<Rightarrow> whenever (rv_status rv = ReviewNone) (upd_review (\<lambda>rv. rv
                 \<lparr>rv_skip := ''review skipped: could not capture diff for unverified advisory review: '' @ err_text e,
                  rv_status := ReviewUnavailable\<rparr>))
             | Inr diff \<Rightarrow>
                 if trim_space diff = [] then
                   whenever (rv_status rv = ReviewNone) (upd_review (\<lambda>rv. rv
                     \<lparr>rv_skip := ''review skipped: no changes to review on unverified exit''\<rparr>))
                 else do {
                   upd_review (\<lambda>rv. rv\<lparr>rv_salvage := True\<rparr>);
                   review_finish D False;
                   ret () } } } }"

section \<open>Rules for the gate's own steps\<close>

lemma wp_upd_reviewI: "Q () (s\<lparr>g_review := map_option f (g_review s)\<rparr>) \<Longrightarrow> wp (upd_review f) Q s"
  by (simp add: wp_upd_review)

lemma wp_upd_evI: "Q () (s\<lparr>g_ev := map_option f (g_ev s)\<rparr>) \<Longrightarrow> wp (upd_ev f) Q s"
  by (simp add: wp_upd_ev)

lemma wp_chargeI:
  "Q () (s\<lparr>g_spend := map_option (spend_add (d_pricer D) m u) (g_spend s)\<rparr>) \<Longrightarrow> wp (charge D m u) Q s"
  by (simp add: wp_charge)

lemma wp_answerI:
  "(\<And>v. a = ReviewOk v \<Longrightarrow> wp (f v) Q s) \<Longrightarrow> (\<And>v e. a = ReviewFailed v e \<Longrightarrow> wp (g v e) Q s) \<Longrightarrow>
   wp (case a of ReviewOk v \<Rightarrow> f v | ReviewFailed v e \<Rightarrow> g v e) Q s"
  by (simp split: review_answer.split)

lemmas gate_intros = wp_intros wp_extI wp_upd_reviewI wp_upd_evI wp_chargeI wp_answerI

section \<open>What a review leaves alone\<close>

text \<open>A review changes its own records, the evidence marks, the dollars and the world.\<close>

definition review_only :: "'w gates \<Rightarrow> 'w gates \<Rightarrow> bool" where
  "review_only s t \<longleftrightarrow>
     g_vs t = g_vs s \<and> g_cache t = g_cache s \<and> g_fence t = g_fence s \<and> g_scope t = g_scope s
     \<and> g_repro t = g_repro s \<and> g_base_red t = g_base_red s \<and> g_base_out t = g_base_out s
     \<and> g_base_measured t = g_base_measured s \<and> g_infra t = g_infra s \<and> g_run_base t = g_run_base s
     \<and> g_std_base t = g_std_base s \<and> g_grace_used t = g_grace_used s
     \<and> g_auto_feedback t = g_auto_feedback s \<and> g_closing t = g_closing s \<and> g_closing_gen t = g_closing_gen s"

lemma review_only_refl: "review_only s s"
  by (simp add: review_only_def)

lemma review_only_upd [simp]:
  "review_only s (t\<lparr>g_world := w\<rparr>) = review_only s t"
  "review_only s (t\<lparr>g_review := r\<rparr>) = review_only s t"
  "review_only s (t\<lparr>g_ev := e\<rparr>) = review_only s t"
  "review_only s (t\<lparr>g_spend := d\<rparr>) = review_only s t"
  by (simp_all add: review_only_def)

lemma review_only_calls:
  "preserves (review_only s) (ext f)" "preserves (review_only s) (upd_review g)"
  "preserves (review_only s) (upd_ev h)" "preserves (review_only s) (charge D m u)"
  by (auto simp: preserves_def wp_simps split: prod.splits)

lemmas review_only_rules = preserves_rules review_only_calls

lemma review_only_classify: "preserves (review_only s) (classify D f n)"
  unfolding classify_def quote_check_def escalate_def undo_repro_def fence_drift_def write_tree_def run_op_def Let_def
  by (intro review_only_rules)

lemma review_only_classify_all: "preserves (review_only s) (classify_all D fs ta)"
  by (induction fs arbitrary: ta) (auto simp: Let_def intro!: review_only_rules review_only_classify)

lemma preserves_answer:
  "(\<And>v. preserves I (f v)) \<Longrightarrow> (\<And>v e. preserves I (g v e)) \<Longrightarrow>
   preserves I (case a of ReviewOk v \<Rightarrow> f v | ReviewFailed v e \<Rightarrow> g v e)"
  by (simp split: review_answer.split)

lemma review_only_failed: "preserves (review_only s) (review_failed D e)"
  unfolding review_failed_def required_block_reason_def by (intro review_only_rules)

lemma review_only_finish: "preserves (review_only s) (review_finish D b)"
  unfolding review_finish_def review_round_def judge_round_def solicit_def capture_diff_def
    write_tree_def canceled_def required_block_reason_def Let_def
  by (intro review_only_rules preserves_answer review_only_classify_all review_only_failed)

lemma review_only_unverified: "preserves (review_only s) (review_unverified D)"
  unfolding review_unverified_def capture_diff_def write_tree_def canceled_def
  by (intro review_only_rules review_only_finish)

section \<open>The ladder, proved\<close>

lemma wp_same_review:
  assumes "preserves (\<lambda>t. g_review t = g_review s) m" and "wp m Q s"
  shows "wp m (\<lambda>a t. Q a t \<and> g_review t = g_review s) s"
  using assms by (simp add: preserves_def wp_conj)

lemma same_review_calls:
  "preserves (\<lambda>t. g_review t = x) (ext f)" "preserves (\<lambda>t. g_review t = x) (charge D m u)"
  "preserves (\<lambda>t. g_review t = x) (upd_ev h)"
  by (auto simp: preserves_def wp_simps split: prod.splits)

lemma same_review_classify: "preserves (\<lambda>t. g_review t = x) (classify D f n)"
  unfolding classify_def quote_check_def escalate_def undo_repro_def fence_drift_def write_tree_def run_op_def Let_def
  by (intro preserves_rules same_review_calls)

definition repro_answered :: "'w gate_deps \<Rightarrow> review_finding \<Rightarrow> result \<Rightarrow> bool" where
  "repro_answered D f r \<longleftrightarrow> exec_answered D (trim_space (rf_repro_cmd f)) (d_run_timeout D) (Inr r)"

definition ladder :: "'w gate_deps \<Rightarrow> review_finding \<Rightarrow> reviewed_finding \<Rightarrow> bool" where
  "ladder D f rd \<longleftrightarrow>
     rd_finding rd = f
     \<and> (rd_fate rd = FatePending \<longrightarrow> blocker_severity f \<and> trim_space (rf_quote f) \<noteq> []
          \<and> (rd_confirmed rd \<or> review_block_confidence \<le> rf_confidence f))
     \<and> (rd_confirmed rd \<longrightarrow> rd_fate rd = FatePending
          \<and> (\<exists>r. repro_answered D f r \<and> exit_code r \<noteq> 0 \<and> rd_repro_out rd = clip (format_run r) run_stream_cap))
     \<and> (rd_fate rd = FateAdvised \<longrightarrow> blocker_severity f \<and> review_advise_confidence \<le> rf_confidence f)
     \<and> (rd_fate rd = FateRefuted \<longrightarrow> rf_confidence f < review_block_confidence
          \<and> (\<exists>r. repro_answered D f r \<and> exit_code r = 0))
     \<and> rd_fate rd \<noteq> FateRepaired \<and> rd_fate rd \<noteq> FateExpired"

lemma ladder_dropped: "ladder D f (dropped why (as_reviewed f))"
  by (simp add: ladder_def dropped_def as_reviewed_def)

lemma ladder_note: "ladder D f ((as_reviewed f)\<lparr>rd_fate := FateNote\<rparr>)"
  by (simp add: ladder_def as_reviewed_def)

lemma ladder_confidence:
  "blocker_severity f \<Longrightarrow> trim_space (rf_quote f) \<noteq> [] \<Longrightarrow> ladder D f (by_confidence (as_reviewed f))"
  by (simp add: ladder_def by_confidence_def as_reviewed_def)

lemma ladder_settle:
  "blocker_severity f \<Longrightarrow> trim_space (rf_quote f) \<noteq> [] \<Longrightarrow> repro_answered D f r \<Longrightarrow>
   ladder D f (settle (format_run r) (as_reviewed f))"
  by (auto simp: ladder_def settle_def as_reviewed_def Let_def review_block_confidence_def review_advise_confidence_def)

lemma run_answer [simp]:
  "map_sum id format_run r = Inr out \<longleftrightarrow> (\<exists>q. r = Inr q \<and> out = format_run q)"
  "map_sum id format_run r = Inl e \<longleftrightarrow> r = Inl e"
  by (cases r; auto)+

lemma wp_escalate_ladder:
  assumes "blocker_severity f" "trim_space (rf_quote f) \<noteq> []"
  shows "wp (escalate D (trim_space (rf_repro_cmd f)) (as_reviewed f))
     (\<lambda>e t. if fst e then ladder D f (snd e) else snd e = as_reviewed f) s"
  unfolding escalate_def undo_repro_def fence_drift_def write_tree_def
  by (intro wp_intros wp_extI wp_run_op)
     (auto simp: ladder_dropped repro_answered_def intro!: ladder_settle [OF assms])

lemma wp_quote_check: "wp (quote_check D f) (\<lambda>why t. True) s"
  by simp

lemma wp_classify_ladder: "wp (classify D f n) (\<lambda>c t. ladder D f (fst c) \<and> snd c \<le> n) s"
  unfolding classify_def Let_def
  by (intro wp_intros wp_use [OF wp_quote_check] wp_use [OF wp_escalate_ladder])
     (auto simp: ladder_dropped ladder_note intro: ladder_confidence)

lemma wp_classify:
  "wp (classify D f n) (\<lambda>c t. ladder D f (fst c) \<and> g_review t = g_review s) s"
  by (rule wp_use [OF wp_same_review [OF same_review_classify wp_classify_ladder]]) simp

section \<open>The records stay well formed\<close>

text \<open>Waiting findings are exactly tracked, no finding is from a later round, and a gate that
  was switched off has none.\<close>

definition review_wf :: "review_state \<Rightarrow> bool" where
  "review_wf rv \<longleftrightarrow>
     (\<forall>i \<in> set (rv_pending rv). i < length (rv_findings rv))
     \<and> (\<forall>i < length (rv_findings rv). rd_fate (rv_findings rv ! i) = FatePending \<longrightarrow> i \<in> set (rv_pending rv))
     \<and> (\<forall>f \<in> set (rv_findings rv). rd_round f \<le> rv_rounds rv)
     \<and> (rv_skip rv \<noteq> [] \<longrightarrow> rv_findings rv = [])"

lemma length_update_at [simp]: "length (update_at is f xs) = length xs"
  by (induction "is" f xs rule: update_at.induct) auto

lemma update_at_nth:
  "(\<And>x. f (f x) = f x) \<Longrightarrow> i < length xs \<Longrightarrow>
   update_at is f xs ! i = (if i \<in> set is then f (xs ! i) else xs ! i)"
  by (induction "is" f xs rule: update_at.induct) (auto simp: nth_list_update)

lemma set_fate_idem [simp]: "f \<noteq> FatePending \<Longrightarrow> set_fate f (set_fate f x) = set_fate f x"
  by (simp add: set_fate_def)

lemma set_fate_sel [simp]:
  "rd_round (set_fate f r) = rd_round r" "rd_finding (set_fate f r) = rd_finding r"
  "rd_confirmed (set_fate f r) = rd_confirmed r"
  "rd_fate (set_fate f r) = (if rd_fate r = FatePending then f else rd_fate r)"
  by (simp_all add: set_fate_def)

lemma resolved_nth:
  assumes "f \<noteq> FatePending" "review_wf rv" "i < length (rv_findings rv)"
  shows "rv_findings (resolve_pending f rv) ! i = set_fate f (rv_findings rv ! i)"
  using assms by (auto simp: resolve_pending_def update_at_nth review_wf_def set_fate_def)

text \<open>Resolving is mapping the fate over all findings: every waiting one was listed.\<close>

lemma resolved_findings:
  assumes "f \<noteq> FatePending" "review_wf rv"
  shows "rv_findings (resolve_pending f rv) = map (set_fate f) (rv_findings rv)"
proof (rule nth_equalityI)
  show "length (rv_findings (resolve_pending f rv)) = length (map (set_fate f) (rv_findings rv))"
    by (simp add: resolve_pending_def)
  then show "rv_findings (resolve_pending f rv) ! i = map (set_fate f) (rv_findings rv) ! i"
    if "i < length (rv_findings (resolve_pending f rv))" for i
    using that resolved_nth [OF assms, of i] by simp
qed

lemma resolve_pending_sel [simp]:
  "rv_pending (resolve_pending f rv) = []" "rv_skip (resolve_pending f rv) = rv_skip rv"
  "rv_rounds (resolve_pending f rv) = rv_rounds rv" "rv_max_rounds (resolve_pending f rv) = rv_max_rounds rv"
  "rv_blocked (resolve_pending f rv) = rv_blocked rv" "rv_status (resolve_pending f rv) = rv_status rv"
  "rv_base_tree (resolve_pending f rv) = rv_base_tree rv"
  by (simp_all add: resolve_pending_def)

lemma resolve_pending_wf:
  assumes "f \<noteq> FatePending" "review_wf rv"
  shows "review_wf (resolve_pending f rv)"
  using assms by (auto simp: review_wf_def resolved_findings)

lemma begin_round_wf: "review_wf rv \<Longrightarrow> review_wf (begin_round rv)"
  using resolve_pending_wf [of FateRepaired rv]
  by (auto simp: begin_round_def review_wf_def intro: le_SucI)

lemma review_wf_upd [simp]:
  "review_wf (rv\<lparr>rv_status := a\<rparr>) = review_wf rv" "review_wf (rv\<lparr>rv_blocked := b\<rparr>) = review_wf rv"
  "review_wf (rv\<lparr>rv_usage := c\<rparr>) = review_wf rv" "review_wf (rv\<lparr>rv_salvage := d\<rparr>) = review_wf rv"
  "review_wf (record_verdict v rv) = review_wf rv" "review_wf (set_semantic st rv) = review_wf rv"
  by (simp_all add: review_wf_def record_verdict_def set_semantic_def)

lemma stamp_sel [simp]:
  "rd_round (stamp rv rd) = rv_rounds rv" "rd_fate (stamp rv rd) = rd_fate rd"
  "rd_confirmed (stamp rv rd) = rd_confirmed rd"
  by (simp_all add: stamp_def Let_def)

lemma add_finding_wf: "review_wf rv \<Longrightarrow> rv_skip rv = [] \<Longrightarrow> review_wf (add_finding rd rv)"
  by (auto simp: review_wf_def add_finding_def Let_def nth_append less_Suc_eq)

lemma fail_open_wf: "review_wf rv \<Longrightarrow> review_wf (fail_open_rv st msg rv)"
  by (auto simp: review_wf_def fail_open_rv_def Let_def)

section \<open>What a round establishes\<close>

text \<open>A finding blocks for a reason: it claims to be a blocker and was executed red, or is
  confident enough.\<close>

definition block_grounds :: "reviewed_finding \<Rightarrow> bool" where
  "block_grounds x \<longleftrightarrow>
     (rd_fate x = FatePending \<longrightarrow> blocker_severity (rd_finding x) \<and> trim_space (rf_quote (rd_finding x)) \<noteq> []
        \<and> (rd_confirmed x \<or> review_block_confidence \<le> rf_confidence (rd_finding x)))
     \<and> (rd_confirmed x \<longrightarrow> rd_fate x = FatePending)"

definition round_inv :: "review_state \<Rightarrow> tally \<Rightarrow> review_state \<Rightarrow> bool" where
  "round_inv rv0 ta rv \<longleftrightarrow>
     review_wf rv \<and> rv_skip rv = [] \<and> rv_rounds rv = rv_rounds rv0 \<and> rv_max_rounds rv = rv_max_rounds rv0
     \<and> rv_status rv = rv_status rv0 \<and> rv_blocked rv = rv_blocked rv0
     \<and> (ta_blockers ta = [] \<longrightarrow> rv_pending rv = rv_pending rv0)
     \<and> (\<exists>new. rv_findings rv = rv_findings rv0 @ new
         \<and> (\<forall>x \<in> set new. rd_round x = rv_rounds rv0 \<and> block_grounds x
              \<and> (rd_fate x = FatePending \<longrightarrow> ta_blockers ta \<noteq> [])))"

lemma ladder_grounds: "ladder D f c \<Longrightarrow> block_grounds (stamp rv c)"
  by (auto simp: ladder_def block_grounds_def stamp_def Let_def blocker_severity_def)

lemma round_inv_add:
  assumes "round_inv rv0 ta rv" "ladder D f c"
  shows "round_inv rv0 (count_finding (stamp rv c) (ta\<lparr>ta_budget := n\<rparr>)) (add_finding c rv)"
proof -
  obtain new where new: "rv_findings rv = rv_findings rv0 @ new"
      "\<forall>x \<in> set new. rd_round x = rv_rounds rv0 \<and> block_grounds x \<and> (rd_fate x = FatePending \<longrightarrow> ta_blockers ta \<noteq> [])"
    using assms(1) by (auto simp: round_inv_def)
  have w: "review_wf (add_finding c rv)" using assms(1) by (intro add_finding_wf) (auto simp: round_inv_def)
  have "rv_findings (add_finding c rv) = rv_findings rv0 @ (new @ [stamp rv c])"
    using new(1) by (simp add: add_finding_def Let_def)
  moreover have "\<forall>x \<in> set (new @ [stamp rv c]). rd_round x = rv_rounds rv0 \<and> block_grounds x
      \<and> (rd_fate x = FatePending \<longrightarrow> ta_blockers (count_finding (stamp rv c) (ta\<lparr>ta_budget := n\<rparr>)) \<noteq> [])"
    using new(2) assms(1) ladder_grounds [OF assms(2), of rv] by (auto simp: count_finding_def round_inv_def)
  ultimately have "\<exists>new. rv_findings (add_finding c rv) = rv_findings rv0 @ new
      \<and> (\<forall>x \<in> set new. rd_round x = rv_rounds rv0 \<and> block_grounds x
          \<and> (rd_fate x = FatePending \<longrightarrow> ta_blockers (count_finding (stamp rv c) (ta\<lparr>ta_budget := n\<rparr>)) \<noteq> []))"
    by blast
  with assms(1) w show ?thesis
    by (auto simp: round_inv_def add_finding_def Let_def count_finding_def)
qed

lemma wp_classify_all:
  assumes "g_review s = Some rv" "round_inv rv0 ta rv"
  shows "wp (classify_all D fs ta) (\<lambda>ta' t. \<exists>rv'. g_review t = Some rv' \<and> round_inv rv0 ta' rv') s"
  using assms
proof (induction fs arbitrary: ta s rv)
  case Nil
  then show ?case by (auto simp: wp_simps)
next
  case (Cons f fs)
  show ?case
    unfolding classify_all.simps Let_def
  proof (intro wp_intros wp_use [OF wp_classify], goal_cases)
    case (1 c t)
    then have t: "g_review t = Some rv" and l: "ladder D f (fst c)" using Cons.prems by auto
    have "round_inv rv0 (count_finding (stamp rv (fst c)) (ta\<lparr>ta_budget := snd c\<rparr>)) (add_finding (fst c) rv)"
      using round_inv_add Cons.prems(2) l by blast
    then show ?case using t Cons.IH [of "t\<lparr>g_review := Some (add_finding (fst c) rv)\<rparr>"]
      by (simp add: wp_upd_review)
  qed
qed

lemma round_inv_start:
  "review_wf rv \<Longrightarrow> rv_skip rv = [] \<Longrightarrow> ta_blockers ta = [] \<Longrightarrow> round_inv rv ta rv"
  by (auto simp: round_inv_def intro: exI [of _ "[]"])

definition same_book :: "review_state \<Rightarrow> review_state \<Rightarrow> bool" where
  "same_book rv rv' \<longleftrightarrow>
     rv_findings rv' = rv_findings rv \<and> rv_pending rv' = rv_pending rv \<and> rv_rounds rv' = rv_rounds rv
     \<and> rv_max_rounds rv' = rv_max_rounds rv \<and> rv_skip rv' = rv_skip rv \<and> rv_blocked rv' = rv_blocked rv"

lemma same_book_refl [simp]: "same_book rv rv"
  by (simp add: same_book_def)

lemma same_book_wf: "same_book rv rv' \<Longrightarrow> review_wf rv' = review_wf rv"
  by (simp add: same_book_def review_wf_def)

lemma wp_solicit:
  assumes "g_review s = Some rv"
  shows "wp (solicit D n v) (\<lambda>fs t. \<exists>rv'. g_review t = Some rv' \<and> same_book rv rv') s"
  unfolding solicit_def Let_def
  by (intro wp_intros wp_extI) (auto simp: wp_upd_review wp_charge same_book_def assms intro!: wp_intros wp_extI)

text \<open>How a round may end.\<close>

definition passed_clean :: "'w gate_deps \<Rightarrow> review_state \<Rightarrow> bool" where
  "passed_clean D rv \<longleftrightarrow>
     rv_pending rv = [] \<and> (effective_review_required D \<longrightarrow> \<not> infra_status (rv_status rv))
     \<and> (\<forall>f \<in> set (rv_findings rv). rd_round f = rv_rounds rv \<longrightarrow> rd_fate f \<noteq> FatePending \<and> \<not> rd_confirmed f)"

definition judged :: "'w gate_deps \<Rightarrow> bool \<Rightarrow> review_state \<Rightarrow> string \<times> string \<Rightarrow> review_state \<Rightarrow> bool" where
  "judged D cc rv a rv' \<longleftrightarrow>
     review_wf rv' \<and> rv_rounds rv' = rv_rounds rv \<and> rv_max_rounds rv' = rv_max_rounds rv
     \<and> (fst a \<noteq> [] \<longrightarrow> cc \<and> int (rv_rounds rv) < rv_max_rounds rv \<and> snd a = [])
     \<and> (rv_blocked rv' \<longrightarrow> rv_blocked rv \<or> snd a \<noteq> [])
     \<and> (a = ([], []) \<longrightarrow> passed_clean D rv')"

lemma block_reason_empty: "block_reason D rv = [] \<longleftrightarrow> \<not> (effective_review_required D \<and> infra_status (rv_status rv))"
  by (auto simp: block_reason_def)

lemma feedback_nonempty: "review_feedback bs as \<noteq> []"
  by (simp add: review_feedback_def)

lemma set_fates_wf:
  assumes "review_wf rv" "f \<noteq> FatePending"
  shows "review_wf (rv\<lparr>rv_findings := (rv_findings rv)[i := (rv_findings rv ! i)\<lparr>rd_fate := f\<rparr>]\<rparr>)"
proof (cases "i < length (rv_findings rv)")
  case True
  have "rd_round (rv_findings rv ! i) \<le> rv_rounds rv" using assms(1) True by (simp add: review_wf_def)
  then have "\<forall>x \<in> set ((rv_findings rv)[i := (rv_findings rv ! i)\<lparr>rd_fate := f\<rparr>]). rd_round x \<le> rv_rounds rv"
    using assms(1) True set_update_subset_insert by (fastforce simp: review_wf_def)
  with assms True show ?thesis by (auto simp: review_wf_def nth_list_update)
next
  case False
  then have "(rv_findings rv)[i := (rv_findings rv ! i)\<lparr>rd_fate := f\<rparr>] = rv_findings rv"
    by (intro list_update_beyond) simp
  then show ?thesis using assms(1) by simp
qed

lemma set_semantic_sel [simp]:
  "rv_findings (set_semantic st rv) = rv_findings rv" "rv_pending (set_semantic st rv) = rv_pending rv"
  "rv_rounds (set_semantic st rv) = rv_rounds rv" "rv_max_rounds (set_semantic st rv) = rv_max_rounds rv"
  "rv_skip (set_semantic st rv) = rv_skip rv" "rv_blocked (set_semantic st rv) = rv_blocked rv"
  by (simp_all add: set_semantic_def)

text \<open>With no blocker in the tally nothing of this round waits and nothing was confirmed.\<close>

lemma round_inv_quiet:
  assumes "round_inv rv0 ta rv" "ta_blockers ta = []" "rv_pending rv0 = []"
    and "\<forall>f \<in> set (rv_findings rv0). rd_round f < rv_rounds rv0"
  shows "rv_pending rv = [] \<and>
    (\<forall>f \<in> set (rv_findings rv). rd_round f = rv_rounds rv \<longrightarrow> rd_fate f \<noteq> FatePending \<and> \<not> rd_confirmed f)"
  using assms by (fastforce simp: round_inv_def block_grounds_def)

lemma wp_judge_round:
  assumes "g_review s = Some rv" "round_inv rv0 ta rv" "rv_pending rv0 = []"
    and "\<forall>f \<in> set (rv_findings rv0). rd_round f < rv_rounds rv0"
  shows "wp (judge_round D cc ta rv) (\<lambda>a t. \<exists>rv'. g_review t = Some rv' \<and> judged D cc rv a rv') s"
proof -
  have wf: "review_wf rv" using assms(2) by (simp add: round_inv_def)
  have quiet: "ta_blockers ta = [] \<Longrightarrow> rv_pending rv = [] \<and>
      (\<forall>f \<in> set (rv_findings rv). rd_round f = rv_rounds rv \<longrightarrow> rd_fate f \<noteq> FatePending \<and> \<not> rd_confirmed f)"
    using round_inv_quiet [OF assms(2) _ assms(3,4)] by blast
  have rec: "review_wf (stop_recurring p rv)" for p
    using set_fates_wf [OF wf, of FateExpired p] unfolding stop_recurring_def
    by (intro resolve_pending_wf) (auto simp: review_wf_def)
  have blk: "review_wf (stop_blocked rv)"
    using wf unfolding stop_blocked_def by (intro resolve_pending_wf) auto
  have sel: "rv_rounds (stop_recurring p rv) = rv_rounds rv" "rv_max_rounds (stop_recurring p rv) = rv_max_rounds rv"
      "rv_rounds (stop_blocked rv) = rv_rounds rv" "rv_max_rounds (stop_blocked rv) = rv_max_rounds rv" for p
    by (simp_all add: stop_recurring_def stop_blocked_def)
  show ?thesis
    unfolding judge_round_def required_block_reason_def Let_def
    by (intro wp_intros)
       (auto simp: wp_upd_review assms(1) judged_def wf rec blk sel feedback_nonempty block_reason_empty
          passed_clean_def quiet intro!: wp_intros)
qed

lemma fail_open_sel [simp]:
  "rv_findings (fail_open_rv st msg rv) = rv_findings rv" "rv_pending (fail_open_rv st msg rv) = rv_pending rv"
  "rv_rounds (fail_open_rv st msg rv) = rv_rounds rv" "rv_max_rounds (fail_open_rv st msg rv) = rv_max_rounds rv"
  "rv_blocked (fail_open_rv st msg rv) = rv_blocked rv" "rv_status (fail_open_rv st msg rv) = st"
  by (simp_all add: fail_open_rv_def Let_def)

lemma classified_err: "infra_status (classify_review_err e g) \<or> classify_review_err e g = ReviewCanceled"
  by (simp add: classify_review_err_def infra_status_def)

text \<open>A failure keeps the books, and blocks exactly if the review was required.\<close>

definition failed_as :: "'w gate_deps \<Rightarrow> review_state \<Rightarrow> string \<times> string \<Rightarrow> review_state \<Rightarrow> bool" where
  "failed_as D rv a rv' \<longleftrightarrow>
     review_wf rv' \<and> fst a = []
     \<and> rv_findings rv' = rv_findings rv \<and> rv_pending rv' = rv_pending rv \<and> rv_rounds rv' = rv_rounds rv
     \<and> rv_max_rounds rv' = rv_max_rounds rv \<and> rv_blocked rv' = rv_blocked rv
     \<and> (infra_status (rv_status rv') \<or> rv_status rv' = ReviewCanceled)
     \<and> (snd a = [] \<longleftrightarrow> \<not> (effective_review_required D \<and> infra_status (rv_status rv')))"

lemma wp_review_failed:
  assumes "g_review s = Some rv" "review_wf rv"
  shows "wp (review_failed D e) (\<lambda>a t. \<exists>rv'. g_review t = Some rv' \<and> failed_as D rv a rv') s"
proof -
  have wf: "review_wf (fail_open_rv st msg rv)" for st msg using fail_open_wf assms(2) by blast
  show ?thesis
    unfolding review_failed_def required_block_reason_def upd_review_def
    by (intro wp_intros wp_extI) (simp_all add: assms(1) wf block_reason_empty classified_err failed_as_def)
qed

lemma record_verdict_sel [simp]:
  "rv_findings (record_verdict v rv) = rv_findings rv" "rv_pending (record_verdict v rv) = rv_pending rv"
  "rv_rounds (record_verdict v rv) = rv_rounds rv" "rv_max_rounds (record_verdict v rv) = rv_max_rounds rv"
  "rv_skip (record_verdict v rv) = rv_skip rv" "rv_blocked (record_verdict v rv) = rv_blocked rv"
  by (simp_all add: record_verdict_def)

lemma begin_round_sel [simp]:
  "rv_pending (begin_round rv) = []" "rv_rounds (begin_round rv) = rv_rounds rv + 1"
  "rv_max_rounds (begin_round rv) = rv_max_rounds rv" "rv_skip (begin_round rv) = rv_skip rv"
  "rv_blocked (begin_round rv) = rv_blocked rv"
  by (simp_all add: begin_round_def)

lemma begin_round_old: "review_wf rv \<Longrightarrow> f \<in> set (rv_findings (begin_round rv)) \<Longrightarrow> rd_round f < rv_rounds rv + 1"
  by (auto simp: begin_round_def resolved_findings review_wf_def less_Suc_eq_le)

lemma round_inv_verdict:
  assumes "review_wf rv" "rv_skip rv = []" "same_book rv rv'" "ta_blockers ta = []"
  shows "round_inv rv' ta rv'"
  using assms(1,2,4) same_book_wf [OF assms(3)] assms(3) by (intro round_inv_start) (auto simp: same_book_def)

text \<open>The verdict of the reviewer, whatever it says, ends in a judgement on well-formed records
  whose round is the next one.\<close>

lemma wp_review_round:
  fixes s :: "'w gates"
  assumes "g_review s = Some rv" "review_wf rv" "rv_skip rv = []"
  shows "wp (review_round D cc diff rv)
     (\<lambda>a t. \<exists>rv'. g_review t = Some rv' \<and> rv_rounds rv' = rv_rounds rv + 1
        \<and> judged D cc (begin_round rv) a rv') s"
proof -
  let ?b = "begin_round rv"
  have b: "review_wf ?b" "rv_skip ?b = []" "rv_pending ?b = []"
    using assms begin_round_wf by auto
  have fail: "wp (review_failed D e) (\<lambda>a t. \<exists>rv'. g_review t = Some rv' \<and> rv_rounds rv' = rv_rounds rv + 1
        \<and> judged D cc ?b a rv') t"
    if "g_review t = Some rb" "same_book ?b rb" for e t rb
  proof (rule wp_use [OF wp_review_failed [OF that(1)]])
    show wf: "review_wf rb" using b(1) same_book_wf [OF that(2)] by simp
    fix a u
    assume "\<exists>rv'. g_review u = Some rv' \<and> failed_as D rb a rv'"
    then obtain rv' where rv': "g_review u = Some rv'" "failed_as D rb a rv'" by blast
    have "\<forall>f \<in> set (rv_findings rv'). rd_round f \<noteq> rv_rounds rv'"
      using rv' that(2) begin_round_old [OF assms(2)] by (fastforce simp: same_book_def failed_as_def)
    with rv' that(2) show "\<exists>rv'. g_review u = Some rv' \<and> rv_rounds rv' = rv_rounds rv + 1 \<and> judged D cc ?b a rv'"
      by (auto simp: judged_def passed_clean_def same_book_def failed_as_def)
  qed
  have ok: "wp (do { fs \<leftarrow> solicit D n v;
           ta \<leftarrow> classify_all D fs \<lparr> ta_blockers = [], ta_advisories = [], ta_budget = review_repro_cap \<rparr>;
           rv \<leftarrow> gets g_review;
           (case rv of None \<Rightarrow> (ret ([], []) :: ('w gates, string \<times> string) state) | Some rv \<Rightarrow> judge_round D cc ta rv) })
        (\<lambda>a t. \<exists>rv'. g_review t = Some rv' \<and> rv_rounds rv' = rv_rounds rv + 1 \<and> judged D cc ?b a rv') t"
    if rb: "g_review t = Some rb" "same_book ?b rb" for t rb n v
  proof (intro wp_bindI, rule wp_use [OF wp_solicit [OF rb(1)]], goal_cases)
    case (1 fs u)
    then obtain rc where rc: "g_review u = Some rc" "same_book ?b rc"
      using rb(2) by (auto simp: same_book_def)
    have inv: "round_inv rc \<lparr> ta_blockers = [], ta_advisories = [], ta_budget = review_repro_cap \<rparr> rc"
      by (rule round_inv_verdict [OF b(1,2) rc(2)]) simp
    show ?case
    proof (intro wp_bindI, rule wp_use [OF wp_classify_all [OF rc(1) inv]], goal_cases)
      case (1 ta q)
      then obtain rd where rd: "g_review q = Some rd" "round_inv rc ta rd" by blast
      have old: "\<forall>f \<in> set (rv_findings rc). rd_round f < rv_rounds rc"
        using rc(2) begin_round_old [OF assms(2)] by (simp add: same_book_def)
      have pend: "rv_pending rc = []" using rc(2) by (simp add: same_book_def)
      have rr: "rv_rounds rd = rv_rounds rv + 1" "rv_max_rounds rd = rv_max_rounds ?b" "rv_blocked rd = rv_blocked ?b"
        using rd(2) rc(2) by (auto simp: round_inv_def same_book_def)
      show ?case
        apply (rule wp_bindI, rule wp_getsI)
        apply (simp add: rd(1))
        apply (rule wp_use [OF wp_judge_round [OF rd pend old]])
        using rr by (auto simp: judged_def)
    qed
  qed
  show ?thesis
    unfolding review_round_def Let_def
  proof (intro gate_intros, goal_cases)
    case (1 a w v)
    then show ?case by simp
  next
    case (2 a w v e)
    then show ?case by (intro fail [where rb = ?b]) (simp_all add: assms(1))
  next
    case (3 a w v v')
    then show ?case
      by (intro ok [where rb = "record_verdict v ?b", THEN wp_bindD]) (simp_all add: assms(1) same_book_def)
  next
    case (4 a w v v' e)
    then show ?case
      by (intro fail [where rb = "record_verdict v ?b"]) (simp_all add: assms(1) same_book_def)
  qed
qed

section \<open>What a finish establishes\<close>

text \<open>There was nothing to review: the tree is the base, or their diff is blank.\<close>

definition no_changes :: "'w gate_deps \<Rightarrow> string \<Rightarrow> bool" where
  "no_changes D base \<longleftrightarrow>
     tree_answered D base \<or>
     (\<exists>cur w d w'. tree_answered D cur \<and> d_diff_trees D base cur w = (Inr d, w') \<and> trim_space d = [])"

definition review_outcome :: "'w gate_deps \<Rightarrow> bool \<Rightarrow> review_state \<Rightarrow> string \<times> string \<Rightarrow> review_state \<Rightarrow> bool" where
  "review_outcome D cc rv a rv' \<longleftrightarrow>
     review_wf rv' \<and> rv_max_rounds rv' = rv_max_rounds rv
     \<and> (rv_rounds rv' = rv_rounds rv \<or> rv_rounds rv' = rv_rounds rv + 1)
     \<and> (fst a \<noteq> [] \<longrightarrow> cc \<and> rv_rounds rv' = rv_rounds rv + 1 \<and> int (rv_rounds rv') < rv_max_rounds rv \<and> snd a = [])
     \<and> (rv_blocked rv' \<longrightarrow> rv_blocked rv \<or> snd a \<noteq> [])
     \<and> (a = ([], []) \<longrightarrow>
          (rv_rounds rv' = rv_rounds rv + 1 \<and> passed_clean D rv')
          \<or> (rv_skip rv \<noteq> [] \<and> \<not> effective_review_required D)
          \<or> rv_status rv' = ReviewCanceled
          \<or> (infra_status (rv_status rv') \<and> \<not> effective_review_required D)
          \<or> no_changes D (rv_base_tree rv))"

lemma wp_capture_diff:
  "wp (capture_diff D base)
     (\<lambda>r t. world_only s t \<and> (\<forall>d. r = Inr d \<longrightarrow> trim_space d = [] \<longrightarrow> no_changes D base)) s"
  unfolding capture_diff_def
  by (intro gate_intros wp_write_tree) (auto simp: no_changes_def)

lemma wp_review_finish:
  assumes "g_review s = Some rv" "review_wf rv"
  shows "wp (review_finish D cc) (\<lambda>a t. \<exists>rv'. g_review t = Some rv' \<and> review_outcome D cc rv a rv') s"
  unfolding review_finish_def
proof (intro gate_intros wp_canceled wp_use [OF wp_capture_diff], goal_cases)
  case 1
  then show ?case using assms by simp
next
  case (2 rv1)
  then show ?case using assms by (auto simp: review_outcome_def)
next
  case (3 rv1 b w)
  then show ?case using assms by (auto simp: review_outcome_def)
next
  case (4 rv1 b w r t e)
  then have r: "g_review t = Some rv" using assms by (auto elim: world_onlyE)
  show ?case
    by (rule wp_use [OF wp_review_failed [OF r assms(2)]]) (auto simp: review_outcome_def failed_as_def)
next
  case (5 rv1 b w r t d)
  then have "g_review t = Some rv" using assms by (auto elim: world_onlyE)
  with 5 assms show ?case by (auto simp: review_outcome_def)
next
  case (6 rv1 b w r t d)
  then have r: "g_review (t\<lparr>g_ev := map_option mark_reviewed (g_ev t)\<rparr>) = Some rv" and rv1: "rv1 = rv"
    using assms by (auto elim: world_onlyE)
  have "rv_skip rv = []" using 6 rv1 by simp
  from wp_review_round [OF r assms(2) this] show ?case
    unfolding rv1 by (rule wp_use) (auto simp: judged_def review_outcome_def)
qed

lemma wp_review_finish_None:
  "g_review s = None \<Longrightarrow> wp (review_finish D cc) (\<lambda>a t. a = ([], []) \<and> t = s) s"
  by (simp add: review_finish_def wp_simps)

lemma new_review_wf:
  "wp (new_review_state D) (\<lambda>r t. world_only s t \<and> (\<forall>rv. r = Inr (Some rv) \<longrightarrow> review_wf rv \<and> rv_blocked rv = False)) s"
  unfolding new_review_state_def
  by (intro gate_intros wp_write_tree)
     (auto simp: review_wf_def zero_review_def split: sum.splits if_splits)

end
