(* ===== verification/ReproGate.thy ===== *)
theory ReproGate
  imports ReviewGate
begin

text \<open>
  Reproduction first (\<open>agent/repro.go\<close>): the solver declares a new test file and a command,
  which must fail as a test on the run's base tree; the file is then locked by its digest,
  the mutation tools refuse it, and a finish needs it unchanged and green. Validation swaps
  the workspace to the base tree and back; the deferred restoration of the Go code is the
  flag \<open>restored\<close> that \<open>validate_repro\<close> returns.
\<close>

section \<open>Grading a red run\<close>

datatype red_grade = GradeTest | GradeBuild | GradeUnrecognized

definition grade_repro_red :: "string \<Rightarrow> red_grade" where
  "grade_repro_red out =
     (if str_contains out ''--- FAIL'' then GradeTest
      else let s = to_lower out in
        if str_contains s ''[build failed]'' \<or> str_contains s ''[setup failed]''
           \<or> str_contains s ''[vet failed]'' \<or> str_contains s ''build constraints exclude''
        then GradeBuild
        else if str_contains out (''FAIL'' @ [CHR 0x09]) then GradeTest
        else GradeUnrecognized)"

section \<open>Declaring\<close>

definition excerpt_cap :: nat where "excerpt_cap = 4000"

definition validated :: "repro_state option \<Rightarrow> bool" where
  "validated r \<longleftrightarrow> (case r of Some r \<Rightarrow> rp_status r = ReproValidated | None \<Rightarrow> False)"

text \<open>The run of the candidate on the base tree, up to the restoration of the workspace: the
  command's answer or a refusal, and whether the tree \<open>cur\<close> is back.\<close>

definition validate_repro ::
  "'w gate_deps \<Rightarrow> string \<Rightarrow> string \<Rightarrow> string \<Rightarrow> string \<Rightarrow> string
   \<Rightarrow> ('w gates, (string + string) \<times> bool) state" where
  "validate_repro D base cur full bytes cmd = do {
     e \<leftarrow> ext (d_restore_tree D base);
     case e of
       Some e \<Rightarrow> ret (Inl (''could not restore base tree for validation: '' @ err_text e), False)
     | None \<Rightarrow> do {
         there \<leftarrow> ext (d_host_exists D full);
         if there then do {
           e2 \<leftarrow> ext (d_restore_tree D cur);
           ret (Inl ''repro must be a NEW file, not an edit to an existing test'', base = cur \<or> e2 = None) }
         else do {
           mk \<leftarrow> ext (d_host_mkdir D (path_dir full));
           case mk of
             Some msg \<Rightarrow> ret (Inl msg, base = cur)
           | None \<Rightarrow> do {
               wr \<leftarrow> ext (d_host_write D full bytes);
               case wr of
                 Some msg \<Rightarrow> ret (Inl msg, base = cur)
               | None \<Rightarrow> do {
                   vs \<leftarrow> gets g_vs;
                   r \<leftarrow> run_op D cmd (vs_timeout vs);
                   e3 \<leftarrow> ext (d_restore_tree D cur);
                   case e3 of
                     Some e \<Rightarrow> ret (Inl (''could not restore workspace after base run: '' @ err_text e), base = cur)
                   | None \<Rightarrow> ret (case r of
                       Inl msg \<Rightarrow> Inl (''could not run repro command: '' @ msg)
                     | Inr out \<Rightarrow> Inr out, True) } } } } }"

text \<open>What the output on the base tree says; an empty text accepts.\<close>

definition red_refusal :: "string \<Rightarrow> string" where
  "red_refusal out =
     (if is_run_timeout out then
        ''repro base run was inconclusive (timed out); narrow the command:'' @ nl @ clip out excerpt_cap
      else if \<not> is_run_failure out then
        ''repro PASSES on the base tree '' @ emdash @ '' it does not demonstrate the bug''
      else if grade_repro_red out = GradeBuild then
        ''repro fails to BUILD on the base tree '' @ emdash
        @ '' it must compile against the unfixed code and fail an assertion:'' @ nl @ clip out excerpt_cap
      else [])"

definition lock_fence ::
  "'w gate_deps \<Rightarrow> string \<Rightarrow> string \<Rightarrow> string fence_state option \<Rightarrow> string fence_state option" where
  "lock_fence D rel bytes f =
     map_option (\<lambda>f. if matches_fence (pv_test_fence (d_pol D)) rel
        then f\<lparr>fn_base := map_sum id (AList.update rel
               \<lparr> ff_hash = d_sha D bytes, ff_content = Some bytes, ff_full_hash = None, ff_size = 0 \<rparr>) (fn_base f)\<rparr>
        else f) f"

definition locked_repro :: "'w gate_deps \<Rightarrow> string \<Rightarrow> string \<Rightarrow> string \<Rightarrow> string \<Rightarrow> repro_state" where
  "locked_repro D rel cmd bytes out =
     \<lparr> rp_status = ReproValidated, rp_path = rel, rp_cmd = cmd, rp_skip_reason = [],
       rp_red_excerpt = clip out excerpt_cap, rp_green = None,
       rp_detail = (if grade_repro_red out = GradeUnrecognized then ''red_signature:unrecognized'' else []),
       rp_sha = d_sha D bytes \<rparr>"

definition declare_repro :: "'w gate_deps \<Rightarrow> string \<Rightarrow> string \<Rightarrow> ('w gates, string + string) state" where
  "declare_repro D p cmd = do {
     s \<leftarrow> gets id;
     if trim_space cmd = [] then ret (Inl ''cmd is empty'')
     else if validated (g_repro s) then
       ret (Inl ''repro already locked; to replace it, this run does not support re-declaration'')
     else (case safe_join (d_root D) p of
         Inl e \<Rightarrow> ret (Inl e)
       | Inr (rel, full) \<Rightarrow> do {
           b \<leftarrow> ext (d_host_read D full);
           case b of
             None \<Rightarrow> ret (Inl ''write the repro test file first, then declare it'')
           | Some bytes \<Rightarrow>
               if g_run_base s = [] then ret (Inl ''repro-first needs a captured git base tree'')
               else do {
                 c \<leftarrow> write_tree D;
                 case c of
                   Inl e \<Rightarrow> ret (Inl (err_text e))
                 | Inr cur \<Rightarrow> do {
                     v \<leftarrow> validate_repro D (g_run_base s) cur full bytes cmd;
                     answer \<leftarrow> (case fst v of
                         Inl msg \<Rightarrow> ret (Inl msg)
                       | Inr out \<Rightarrow>
                           if red_refusal out \<noteq> [] then ret (Inl (red_refusal out))
                           else do {
                             modify (\<lambda>s. s\<lparr>g_repro := Some (locked_repro D rel cmd bytes out),
                                            g_fence := lock_fence D rel bytes (g_fence s)\<rparr>);
                             ret (Inr (''repro validated and locked. Base failure:'' @ nl @ clip out excerpt_cap)) });
                     whenever (\<not> snd v) (do { ext (d_restore_tree D cur); ret () });
                     ret answer } } }) }"

definition skip_repro :: "string \<Rightarrow> ('w gates, string + string) state" where
  "skip_repro reason = do {
     s \<leftarrow> gets id;
     let why = trim_space reason in
     if why = [] then ret (Inl ''reason is empty'')
     else if validated (g_repro s) then ret (Inl ''repro already locked; cannot skip'')
     else do {
       modify (\<lambda>s. s\<lparr>g_repro := Some \<lparr> rp_status = ReproSkipped, rp_path = [], rp_cmd = [],
          rp_skip_reason = why, rp_red_excerpt = [], rp_green = None, rp_detail = [], rp_sha = [] \<rparr>\<rparr>);
       ret (Inr (''repro skipped: '' @ why)) } }"

section \<open>The lock\<close>

definition repro_locked_path :: "'w gate_deps \<Rightarrow> repro_state option \<Rightarrow> string \<Rightarrow> bool" where
  "repro_locked_path D r p \<longleftrightarrow>
     (case r of
        Some r \<Rightarrow> rp_status r = ReproValidated \<and> clean_rel (fence_rel_path (d_alias D) p) = rp_path r
      | None \<Rightarrow> False)"

definition repro_fence_closed :: "'w gate_deps \<Rightarrow> repro_state option \<Rightarrow> string \<Rightarrow> bool" where
  "repro_fence_closed D r p \<longleftrightarrow>
     validated r \<and> matches_fence (pv_test_fence (d_pol D)) (fence_rel_path (d_alias D) p)"

text \<open>Only the JSON handler is wrapped; a missing path field reads as the empty path. The
  handler acts on the gate state, whose reproduction it consults on every call.\<close>

definition lock_repro_tool ::
  "'w gate_deps \<Rightarrow> ('j \<Rightarrow> string option) \<Rightarrow> ('w gates, 'j) tool \<Rightarrow> ('w gates, 'j) tool" where
  "lock_repro_tool D json_path t =
     t\<lparr>t_run_json := map_option (\<lambda>run raw s.
         let p = (case json_path raw of Some p \<Rightarrow> p | None \<Rightarrow> []) in
         if repro_locked_path D (g_repro s) p
         then (Inl (''repro file '' @ go_quote p @ '' is locked after declare_repro''), s)
         else if repro_fence_closed D (g_repro s) p
         then (Inl (fence_refusal p (pv_test_fence (d_pol D))), s)
         else run raw s) (t_run_json t)\<rparr>"

section \<open>At the finish\<close>

text \<open>The feedback and the detail; both empty when the reproduction lets the finish through.\<close>

definition repro_finish :: "'w gate_deps \<Rightarrow> ('w gates, string \<times> string) state" where
  "repro_finish D = do {
     s \<leftarrow> gets id;
     if \<not> pv_repro_first (d_pol D) then ret ([], [])
     else (case g_repro s of
         None \<Rightarrow> ret (''You must declare a failing reproduction test (declare_repro) or explicitly skip_repro before answering'',
                       ''repro_missing'')
       | Some rp \<Rightarrow>
           if rp_status rp = ReproSkipped then ret ([], [])
           else do {
             b \<leftarrow> ext (d_host_read D (path_join (d_root D) (rp_path rp)));
             case b of
               None \<Rightarrow> ret (''declared repro file is missing'', ''repro_red'')
             | Some bytes \<Rightarrow>
                 if d_sha D bytes \<noteq> rp_sha rp then ret (''declared repro file changed after it was locked'', ''repro_red'')
                 else do {
                   c \<leftarrow> write_tree D;
                   case c of
                     Inl _ \<Rightarrow> ret (''could not snapshot before repro check'', ''repro_red'')
                   | Inr cur \<Rightarrow> do {
                       r \<leftarrow> run_op D (rp_cmd rp) (vs_timeout (g_vs s));
                       ext (d_restore_tree D cur);
                       case r of
                         Inl _ \<Rightarrow> ret (''could not run declared repro'', ''repro_red'')
                       | Inr out \<Rightarrow>
                           if is_run_timeout out then do {
                             modify (\<lambda>s. s\<lparr>g_repro := Some (rp\<lparr>rp_detail := ''repro_timeout''\<rparr>)\<rparr>);
                             ret ([], []) }
                           else do {
                             modify (\<lambda>s. s\<lparr>g_repro := Some (rp\<lparr>rp_green := Some (\<not> is_run_failure out)\<rparr>)\<rparr>);
                             ret (if is_run_failure out
                                  then (''your fix does not make the declared repro pass:'' @ nl @ clip out excerpt_cap, ''repro_red'')
                                  else ([], [])) } } } }) }"

section \<open>What the gate leaves alone\<close>

text \<open>What a passing finish knows: the reproduction was skipped, or its file still has the
  locked digest and its command ended with exit code zero (or was cut by the timeout, and
  that is recorded).\<close>

definition repro_held :: "'w gate_deps \<Rightarrow> int \<Rightarrow> repro_state \<Rightarrow> bool" where
  "repro_held D timeout rp \<longleftrightarrow>
     rp_status rp = ReproSkipped \<or>
     (\<exists>w bytes w'. d_host_read D (path_join (d_root D) (rp_path rp)) w = (Some bytes, w') \<and> d_sha D bytes = rp_sha rp)
     \<and> (\<exists>r. exec_answered D (rp_cmd rp) timeout (Inr r)
           \<and> (if timed_out r then rp_detail rp = ''repro_timeout'' else exit_code r = 0 \<and> rp_green rp = Some True))"

lemma repro_heldI:
  assumes "d_host_read D (path_join (d_root D) (rp_path rp)) w = (Some bytes, w')" "d_sha D bytes = rp_sha rp"
    and "exec_answered D (rp_cmd rp) timeout (Inr r)"
  shows "timed_out r \<Longrightarrow> repro_held D timeout (rp\<lparr>rp_detail := ''repro_timeout''\<rparr>)"
    and "\<not> timed_out r \<Longrightarrow> exit_code r = 0 \<Longrightarrow> repro_held D timeout (rp\<lparr>rp_green := Some True\<rparr>)"
proof -
  have f: "\<exists>w bytes w'. d_host_read D (path_join (d_root D) (rp_path rp)) w = (Some bytes, w') \<and> d_sha D bytes = rp_sha rp"
    using assms(1,2) by blast
  show "timed_out r \<Longrightarrow> repro_held D timeout (rp\<lparr>rp_detail := ''repro_timeout''\<rparr>)"
    using f assms(3) unfolding repro_held_def by fastforce
  show "\<not> timed_out r \<Longrightarrow> exit_code r = 0 \<Longrightarrow> repro_held D timeout (rp\<lparr>rp_green := Some True\<rparr>)"
    using f assms(3) unfolding repro_held_def by fastforce
qed

lemma repro_held_skipped: "rp_status rp = ReproSkipped \<Longrightarrow> repro_held D timeout rp"
  by (simp add: repro_held_def)

definition repro_only :: "'w gates \<Rightarrow> 'w gates \<Rightarrow> bool" where
  "repro_only s t \<longleftrightarrow> t = s\<lparr>g_repro := g_repro t, g_world := g_world t\<rparr>"

lemma repro_onlyI [simp]:
  "repro_only s (s\<lparr>g_world := w\<rparr>)" "repro_only s (s\<lparr>g_world := w, g_repro := r\<rparr>)" "repro_only s s"
  by (simp_all add: repro_only_def)

lemma repro_onlyE: "repro_only s t \<Longrightarrow> (\<And>w r. t = s\<lparr>g_repro := r, g_world := w\<rparr> \<Longrightarrow> P) \<Longrightarrow> P"
  by (auto simp: repro_only_def)

lemma wp_repro_finish:
  "wp (repro_finish D)
     (\<lambda>a t. repro_only s t \<and> (a = ([], []) \<or> (fst a \<noteq> [] \<and> snd a \<noteq> [] \<and> pv_repro_first (d_pol D)))
        \<and> (a = ([], []) \<longrightarrow> pv_repro_first (d_pol D) \<longrightarrow>
             (\<exists>rp. g_repro t = Some rp \<and> repro_held D (vs_timeout (g_vs s)) rp))) s"
  unfolding repro_finish_def
  by (intro gate_intros wp_write_tree wp_run_op)
     (auto intro: repro_heldI repro_held_skipped)

text \<open>A declaration that is accepted was earned: the file was absent from the base tree, and
  the command, run there with the file added, failed as a test.\<close>

definition earned :: "'w gate_deps \<Rightarrow> 'w gates \<Rightarrow> string \<Rightarrow> string \<Rightarrow> repro_state \<Rightarrow> bool" where
  "earned D s p cmd rp \<longleftrightarrow>
     \<not> validated (g_repro s) \<and>
     (\<exists>rel full bytes r w w'. safe_join (d_root D) p = Inr (rel, full)
        \<and> d_host_exists D full w = (False, w')
        \<and> exec_answered D cmd (vs_timeout (g_vs s)) (Inr r) \<and> exit_code r \<noteq> 0 \<and> \<not> timed_out r
        \<and> grade_repro_red (format_run r) \<noteq> GradeBuild
        \<and> rp = locked_repro D rel cmd bytes (format_run r))"

lemma earnedI:
  "\<not> validated (g_repro s) \<Longrightarrow> safe_join (d_root D) p = Inr (rel, full) \<Longrightarrow>
   d_host_exists D full w = (False, w') \<Longrightarrow> exec_answered D cmd (vs_timeout (g_vs s)) (Inr r) \<Longrightarrow>
   exit_code r \<noteq> 0 \<Longrightarrow> \<not> timed_out r \<Longrightarrow> grade_repro_red (format_run r) \<noteq> GradeBuild \<Longrightarrow>
   earned D s p cmd (locked_repro D rel cmd bytes (format_run r))"
  unfolding earned_def by blast

lemma red_refusal_empty:
  "red_refusal (format_run r) = [] \<longleftrightarrow>
     \<not> timed_out r \<and> exit_code r \<noteq> 0 \<and> grade_repro_red (format_run r) \<noteq> GradeBuild"
  by (simp add: red_refusal_def)

lemma wp_validate:
  "wp (validate_repro D base cur full bytes cmd)
     (\<lambda>v t. world_only s t \<and>
        (\<forall>out. fst v = Inr out \<longrightarrow> snd v \<and>
           (\<exists>w w' r. d_host_exists D full w = (False, w')
              \<and> exec_answered D cmd (vs_timeout (g_vs s)) (Inr r) \<and> out = format_run r))) s"
  unfolding validate_repro_def
  by (intro gate_intros wp_run_op) (auto split: sum.splits)

lemma wp_declare:
  "wp (declare_repro D p cmd)
     (\<lambda>a t. g_vs t = g_vs s \<and>
        (case a of Inl _ \<Rightarrow> g_repro t = g_repro s \<and> g_fence t = g_fence s
         | Inr _ \<Rightarrow> \<exists>rp. g_repro t = Some rp \<and> earned D s p cmd rp)) s"
  unfolding declare_repro_def
  by (intro gate_intros wp_write_tree wp_use [OF wp_validate])
     (auto elim!: world_onlyE simp: red_refusal_empty intro: earnedI)

end
