(* ===== verification/Finish.thy ===== *)
theory Finish
  imports ReproGate
begin

text \<open>
  The closing gates composed (\<open>agent/gate.go\<close>, \<open>agent/finish.go\<close>): their construction at the
  start of a run, the decision on a model's claim to be done (\<open>finish\<close>), the rescue of a run
  that was stopped (\<open>upgradeIfVerified\<close>), the standalone gate (\<open>NewGate\<close>, \<open>Check\<close>), and the
  refusal to start on a red baseline.
\<close>

section \<open>Construction\<close>

definition start_gates :: "verify_state \<Rightarrow> evidence_log option \<Rightarrow> spend option \<Rightarrow> baseline_cache option \<Rightarrow> 'w \<Rightarrow> 'w gates" where
  "start_gates vs ev sp cache w =
     \<lparr> g_vs = vs, g_ev = ev, g_spend = sp, g_cache = cache, g_fence = None, g_scope = None,
       g_review = None, g_repro = None, g_base_red = False, g_base_out = [], g_base_measured = False,
       g_infra = [], g_run_base = [], g_std_base = [], g_grace_used = False, g_auto_feedback = 0,
       g_closing = None, g_closing_gen = 0, g_world = w \<rparr>"

text \<open>\<open>newGates\<close>: review baseline, fence and scope snapshots, measured baseline, run tree. The
  alias of the fence is the sandbox's, which is \<open>d_alias\<close>.\<close>

definition new_gates :: "'w gate_deps \<Rightarrow> ('w gates, setup_error option) state" where
  "new_gates D = do {
     r \<leftarrow> new_review_state D;
     case r of
       Inl e \<Rightarrow> ret (Some e)
     | Inr rv \<Rightarrow> do {
         fence \<leftarrow> (if pv_test_fence (d_pol D) = [] then ret None
           else do {
             sb \<leftarrow> ext (d_walk D);
             ret (Some \<lparr> fn_globs = pv_test_fence (d_pol D), fn_alias = d_alias D,
                        fn_base = walk_fenced (d_sha D) (pv_test_fence (d_pol D)) sb \<rparr>) });
         scope \<leftarrow> new_scope_state D;
         modify (\<lambda>s. s\<lparr>g_review := rv, g_fence := fence, g_scope := scope\<rparr>);
         measure_verify_baseline D;
         e \<leftarrow> capture_run_base_tree D;
         case e of
           Some err \<Rightarrow> ret (Some err)
         | None \<Rightarrow> do { capture_standing_base_tree D; ret None } } }"

section \<open>The decision on a finish\<close>

record finish_input =
  fi_answer :: string
  fi_last_run_failed :: bool
  fi_can_continue :: bool
  fi_trusted :: bool
  fi_phrase :: string

datatype finish_decision =
    FinishContinue string
  | FinishStop outcome string string
  | FinishAnswered string

definition not_verified_feedback :: "string \<Rightarrow> string \<Rightarrow> string" where
  "not_verified_feedback phrase reason =
     ''OBSERVATION:'' @ nl @ ''Not finished '' @ emdash @ '' '' @ phrase @ '', but the task is not verified:'' @ nl
     @ reason @ nl @ ''Keep working: fix the code and re-run until it passes.''"

definition repro_feedback :: "string \<Rightarrow> string" where
  "repro_feedback fb =
     ''OBSERVATION:'' @ nl @ ''Not finished '' @ emdash @ '' '' @ fb @ nl
     @ ''Keep working: satisfy the repro-first gate before answering.''"

definition stop_unverified :: "'w gate_deps \<Rightarrow> outcome \<Rightarrow> string \<Rightarrow> string \<Rightarrow> ('w gates, finish_decision) state" where
  "stop_unverified D oc reason answer = do {
     review_unverified D;
     ret (FinishStop oc reason answer) }"

text \<open>The stages after verification: the reproduction, an answer at all, the review.\<close>

definition finish_review :: "'w gate_deps \<Rightarrow> finish_input \<Rightarrow> ('w gates, finish_decision) state" where
  "finish_review D fi =
     (if fi_trusted fi then ret (FinishAnswered (fi_answer fi))
      else do {
        rv \<leftarrow> review_finish D (fi_can_continue fi);
        ret (if fst rv \<noteq> [] then FinishContinue (''OBSERVATION:'' @ nl @ fst rv)
             else if snd rv \<noteq> [] then FinishStop Unverified (snd rv) (fi_answer fi)
             else FinishAnswered (fi_answer fi)) })"

definition finish_repro :: "'w gate_deps \<Rightarrow> finish_input \<Rightarrow> ('w gates, finish_decision) state" where
  "finish_repro D fi = do {
     rp \<leftarrow> repro_finish D;
     cont \<leftarrow> gets (vs_verify_continue \<circ> g_vs);
     if fst rp \<noteq> [] then
       (if fi_can_continue fi \<and> (snd rp = ''repro_missing'' \<or> cont) then ret (FinishContinue (repro_feedback (fst rp)))
        else stop_unverified D Unverified (snd rp) (fi_answer fi))
     else if trim_space (fi_answer fi) = [] then
       stop_unverified D Unverified
         (''empty final answer '' @ emdash @ '' the model stopped without producing an answer'') (fi_answer fi)
     else finish_review D fi }"

definition finish :: "'w gate_deps \<Rightarrow> finish_input \<Rightarrow> ('w gates, finish_decision) state" where
  "finish D fi = do {
     v \<leftarrow> verify_finish D (fi_last_run_failed fi) (fi_trusted fi);
     if fst v = Some ScopeViolation then ret (FinishStop ScopeViolation (fst (snd v)) [])
     else do {
       c \<leftarrow> canceled D;
       if c then ret (FinishStop Canceled ''run canceled by the caller (interrupt)'' [])
       else do {
         cont \<leftarrow> gets (vs_verify_continue \<circ> g_vs);
         if fst (snd v) \<noteq> [] \<and> cont \<and> fi_can_continue fi \<and> \<not> snd (snd v) then
           ret (FinishContinue (not_verified_feedback (fi_phrase fi) (fst (snd v))))
         else if fst (snd v) \<noteq> [] then
           stop_unverified D (case fst v of Some oc \<Rightarrow> oc | None \<Rightarrow> Unverified) (fst (snd v)) (fi_answer fi)
         else finish_repro D fi } } }"

section \<open>The rescue of a stopped run\<close>

record run_result =
  rr_outcome :: outcome
  rr_reason :: string
  rr_answer :: string
  rr_rescued_from :: "outcome option"
  rr_infra :: string

fun outcome_text :: "outcome \<Rightarrow> string" where
  "outcome_text Answered = ''answered''"
| "outcome_text Unverified = ''unverified''"
| "outcome_text HitCap = ''hit_cap''"
| "outcome_text KilledRepeat = ''killed_repeat''"
| "outcome_text KilledSpiral = ''killed_spiral''"
| "outcome_text KilledStagnant = ''killed_stagnant''"
| "outcome_text HitDeadline = ''hit_deadline''"
| "outcome_text HitBudget = ''hit_budget''"
| "outcome_text ProviderErr = ''provider_error''"
| "outcome_text HitContextLimit = ''hit_context_limit''"
| "outcome_text RefusedUnsafe = ''refused_unsafe''"
| "outcome_text ScopeViolation = ''scope_violation''"
| "outcome_text Canceled = ''canceled''"

definition append_reason :: "string \<Rightarrow> string \<Rightarrow> string" where
  "append_reason old extra = (if old = [] then extra else old @ ''; '' @ extra)"

text \<open>The verify command of the rescue: a result to return, or the green output. An environment
  fault is tried once more.\<close>

definition inconclusive :: "string \<Rightarrow> run_result \<Rightarrow> run_result" where
  "inconclusive sig res =
     res\<lparr>rr_reason := rr_reason res @ ''; verification inconclusive due to environment fault ('' @ sig @ '')'',
         rr_infra := sig\<rparr>"

definition upgrade_retry :: "'w gate_deps \<Rightarrow> string \<Rightarrow> run_result \<Rightarrow> ('w gates, run_result + string) state" where
  "upgrade_retry D sig res = do {
     set_infra sig;
     b \<leftarrow> verify_run D;
     case b of
       Skipped \<Rightarrow> ret (Inl (inconclusive sig res))
     | Attempt r \<Rightarrow>
         (case r of
            Inl _ \<Rightarrow> ret (Inl (inconclusive sig res))
          | Inr out \<Rightarrow>
              if is_run_failure out then do {
                let sig2 = infra_fault_signature out in
                do {
                  whenever (sig2 \<noteq> []) (set_infra sig2);
                  review_unverified D;
                  ret (Inl (if sig2 \<noteq> [] then inconclusive sig2 res else res)) } }
              else do { set_infra []; ret (Inr out) }) }"

definition upgrade_verify :: "'w gate_deps \<Rightarrow> run_result \<Rightarrow> ('w gates, run_result + string) state" where
  "upgrade_verify D res = do {
     a \<leftarrow> verify_run D;
     case a of
       Skipped \<Rightarrow> ret (Inl res)
     | Attempt r \<Rightarrow>
         (case r of
            Inl _ \<Rightarrow> ret (Inl res)
          | Inr out \<Rightarrow>
              if \<not> is_run_failure out then ret (Inr out)
              else if infra_fault_signature out \<noteq> [] then upgrade_retry D (infra_fault_signature out) res
              else do { review_unverified D; ret (Inl res) }) }"

definition rescued :: "string \<Rightarrow> run_result \<Rightarrow> run_result" where
  "rescued cmd res =
     res\<lparr>rr_reason := ''completed despite '' @ outcome_text (rr_outcome res) @ '' '' @ emdash @ '' '' @ go_quote cmd @ '' passed'',
         rr_rescued_from := Some (rr_outcome res), rr_outcome := Answered,
         rr_answer := (if rr_answer res = [] then ''task verified complete ('' @ go_quote cmd @ '' passed)'' else rr_answer res)\<rparr>"

definition upgrade_close :: "'w gate_deps \<Rightarrow> string \<Rightarrow> string \<Rightarrow> run_result \<Rightarrow> ('w gates, run_result) state" where
  "upgrade_close D out pre res = do {
     capture_closing_verification out pre;
     rp \<leftarrow> repro_finish D;
     if fst rp \<noteq> [] then do {
       review_unverified D;
       ret (res\<lparr>rr_outcome := Unverified, rr_reason := snd rp\<rparr>) }
     else do {
       rv \<leftarrow> review_finish D False;
       vs \<leftarrow> gets g_vs;
       ret (if snd rv \<noteq> [] then res else rescued (vs_cmd vs) res) } }"

definition unchanged_refusal :: "string \<Rightarrow> run_result \<Rightarrow> run_result" where
  "unchanged_refusal cmd res =
     res\<lparr>rr_reason := ''verify passed but the run changed nothing '' @ emdash
       @ '' refusing upgrade (baseline was already green): '' @ go_quote cmd @ '' passed''\<rparr>"

definition upgrade_run :: "'w gate_deps \<Rightarrow> run_result \<Rightarrow> ('w gates, run_result) state" where
  "upgrade_run D res = do {
     fc \<leftarrow> fence_check D;
     if gc_reason fc \<noteq> [] then
       ret (res\<lparr>rr_reason := append_reason (rr_reason res) (''upgrade refused '' @ emdash @ '' '' @ gc_reason fc)\<rparr>)
     else do {
       s \<leftarrow> gets id;
       pre \<leftarrow> (if g_run_base s = [] then ret []
              else do { r \<leftarrow> write_tree D; ret (case r of Inl _ \<Rightarrow> [] | Inr t \<Rightarrow> t) });
       if g_run_base s \<noteq> [] \<and> pre = g_run_base s then ret (unchanged_refusal (vs_cmd (g_vs s)) res)
       else do {
         v \<leftarrow> upgrade_verify D res;
         case v of Inl r \<Rightarrow> ret r | Inr out \<Rightarrow> upgrade_close D out pre res } } }"

definition upgrade_if_verified :: "'w gate_deps \<Rightarrow> run_result \<Rightarrow> ('w gates, run_result) state" where
  "upgrade_if_verified D res = do {
     sc \<leftarrow> scope_check D;
     if gc_reason sc \<noteq> [] then
       ret (if gc_unverifiable sc
            then res\<lparr>rr_reason := append_reason (rr_reason res) (''upgrade refused '' @ emdash @ '' '' @ gc_reason sc)\<rparr>
            else res\<lparr>rr_outcome := ScopeViolation, rr_reason := gc_reason sc\<rparr>)
     else do {
       rd \<leftarrow> require_diff_failure D;
       vs \<leftarrow> gets g_vs;
       if fst (snd rd) \<noteq> [] then
         ret (res\<lparr>rr_outcome := (case fst rd of Some oc \<Rightarrow> oc | None \<Rightarrow> rr_outcome res), rr_reason := fst (snd rd)\<rparr>)
       else if vs_cmd vs = [] then ret res
       else upgrade_run D res } }"

section \<open>The standalone gate\<close>

record gate_report =
  gp_blocked :: bool
  gp_fence_violation :: string
  gp_verify_reason :: string
  gp_review :: "review_report option"

definition standalone_verify_state :: "policy_value \<Rightarrow> verify_state" where
  "standalone_verify_state pol = (new_verify_state pol)\<lparr>vs_skip_baseline := True\<rparr>"

definition complete_error :: "resolved_spec \<Rightarrow> string" where
  "complete_error spec =
     (if rs_hash spec = [] then ''runspec: incomplete ResolvedSpec (zero value) '' @ emdash @ '' construct it with Resolve''
      else case validate_policy (rs_policy spec) of
        Some (OutOfRange field) \<Rightarrow> field @ '': value out of range''
      | _ \<Rightarrow> [])"

definition new_gate :: "'w gate_deps \<Rightarrow> resolved_spec \<Rightarrow> 'w \<Rightarrow> setup_error + 'w gate_deps \<times> 'w gates" where
  "new_gate D0 spec w =
     (if \<not> complete_spec spec then Inl (SetupError ''invalid_config'' (complete_error spec))
      else (let pol = rs_policy spec; D = D0\<lparr>d_pol := pol, d_run_timeout := pv_run_timeout pol\<rparr> in
        case run_state (new_gates D) (start_gates (standalone_verify_state pol) None None None w) of
          (Some e, _) \<Rightarrow> Inl e
        | (None, g) \<Rightarrow> Inr (D, g)))"

definition check_gate :: "'w gate_deps \<Rightarrow> ('w gates, gate_report) state" where
  "check_gate D = do {
     fc \<leftarrow> fence_check D;
     rep \<leftarrow> (if gc_reason fc \<noteq> [] then
         ret \<lparr> gp_blocked = True, gp_fence_violation = gc_reason fc, gp_verify_reason = [], gp_review = None \<rparr>
       else do {
         v \<leftarrow> verify_termination D False;
         if fst v \<noteq> [] then
           ret \<lparr> gp_blocked = True, gp_fence_violation = [], gp_verify_reason = fst v, gp_review = None \<rparr>
         else do {
           rv \<leftarrow> review_finish D False;
           ret \<lparr> gp_blocked = (snd rv \<noteq> []), gp_fence_violation = [], gp_verify_reason = [], gp_review = None \<rparr> } });
     rv \<leftarrow> gets g_review;
     upd_review (resolve_pending FateExpired);
     ret (rep\<lparr>gp_review := map_option report_of rv\<rparr>) }"

section \<open>Refusing to start\<close>

definition red_baseline_refusal :: "verify_state \<Rightarrow> bool \<Rightarrow> run_result option" where
  "red_baseline_refusal vs base_red =
     (if vs_abort_on_red vs \<and> base_red then
        Some \<lparr> rr_outcome = Unverified,
          rr_reason = ''refused to run: the verify command '' @ go_quote (vs_cmd vs)
            @ '' is ALREADY failing on the untouched workspace '' @ emdash
            @ '' the gate is unsatisfiable at base (-verify-baseline=abort caused this refusal)'',
          rr_answer = [], rr_rescued_from = None, rr_infra = [] \<rparr>
      else None)"

section \<open>What an answered run has passed\<close>

definition review_passed :: "'w gate_deps \<Rightarrow> 'w gates \<Rightarrow> 'w gates \<Rightarrow> bool" where
  "review_passed D s t \<longleftrightarrow>
     (case g_review s of
        None \<Rightarrow> True
      | Some rv \<Rightarrow> \<exists>cc rv'. g_review t = Some rv' \<and> review_outcome D cc rv ([], []) rv')"

lemma review_only_frame: "review_only s t \<Longrightarrow> g_vs t = g_vs s \<and> g_fence t = g_fence s \<and> g_scope t = g_scope s
    \<and> g_repro t = g_repro s \<and> g_closing t = g_closing s \<and> g_run_base t = g_run_base s
    \<and> g_base_measured t = g_base_measured s \<and> g_base_red t = g_base_red s"
  by (simp add: review_only_def)

lemma review_wf_ok: "\<forall>rv. g_review s = Some rv \<longrightarrow> review_wf rv \<Longrightarrow>
  wp (review_finish D cc) (\<lambda>a t. review_only s t \<and>
    (g_review s = None \<longrightarrow> a = ([], [])) \<and>
    (\<forall>rv. g_review s = Some rv \<longrightarrow> (\<exists>rv'. g_review t = Some rv' \<and> review_outcome D cc rv a rv'))) s"
proof -
  assume wf: "\<forall>rv. g_review s = Some rv \<longrightarrow> review_wf rv"
  have r: "wp (review_finish D cc) (\<lambda>_ t. review_only s t) s"
    by (rule preservesD [OF review_only_finish review_only_refl])
  show ?thesis
  proof (cases "g_review s")
    case None
    with r wp_review_finish_None [OF None, where D = D and cc = cc] show ?thesis
      by (auto simp: wp_def split: prod.splits)
  next
    case (Some rv)
    with wf have "review_wf rv" by blast
    with Some r wp_review_finish [OF Some, where D = D and cc = cc] show ?thesis
      by (auto simp: wp_def split: prod.splits)
  qed
qed

lemma wp_review_unverified: "wp (review_unverified D) (\<lambda>_ t. review_only s t) s"
  by (rule preservesD [OF review_only_unverified review_only_refl])

text \<open>What the stages after verification keep of its facts.\<close>

definition late_frame :: "'w gates \<Rightarrow> 'w gates \<Rightarrow> bool" where
  "late_frame s t \<longleftrightarrow>
     g_vs t = g_vs s \<and> g_closing t = g_closing s \<and> g_run_base t = g_run_base s
     \<and> g_base_measured t = g_base_measured s \<and> g_base_red t = g_base_red s"

lemma late_frameI: "review_only s t \<Longrightarrow> late_frame s t" "repro_only s t \<Longrightarrow> late_frame s t"
    "world_only s t \<Longrightarrow> late_frame s t"
  by (auto simp: late_frame_def review_only_def elim: repro_onlyE world_onlyE)

lemma late_frame_trans: "late_frame s t \<Longrightarrow> late_frame t u \<Longrightarrow> late_frame s u"
  by (simp add: late_frame_def)

lemma late_frame_facts: "late_frame s t \<Longrightarrow> verified D t = verified D s \<and> unchanged_green D t = unchanged_green D s"
  by (simp add: late_frame_def verified_def unchanged_green_def)

text \<open>Everything that an answer has behind it.\<close>

definition answer_backed :: "'w gate_deps \<Rightarrow> finish_input \<Rightarrow> 'w gates \<Rightarrow> 'w gates \<Rightarrow> bool" where
  "answer_backed D fi s t \<longleftrightarrow>
     trim_space (fi_answer fi) \<noteq> [] \<and> fence_held D s \<and> scope_held D s
     \<and> (\<not> fi_trusted fi \<longrightarrow> vs_cmd (g_vs s) \<noteq> [] \<longrightarrow> \<not> vs_auto_soft (g_vs s) \<longrightarrow> verified D t \<or> unchanged_green D t)
     \<and> (pv_repro_first (d_pol D) \<longrightarrow> (\<exists>rp. g_repro t = Some rp \<and> repro_held D (vs_timeout (g_vs s)) rp))
     \<and> (\<not> fi_trusted fi \<longrightarrow> review_passed D s t)"

lemma wp_finish_review:
  assumes "\<forall>rv. g_review s = Some rv \<longrightarrow> review_wf rv"
  shows "wp (finish_review D fi) (\<lambda>d t. review_only s t \<and>
     (case d of FinishAnswered ans \<Rightarrow> ans = fi_answer fi \<and> (\<not> fi_trusted fi \<longrightarrow> review_passed D s t)
      | FinishContinue _ \<Rightarrow> fi_can_continue fi \<and> \<not> fi_trusted fi
      | FinishStop oc _ _ \<Rightarrow> oc = Unverified)) s"
  unfolding finish_review_def
proof (intro gate_intros wp_use [OF review_wf_ok [OF assms]], goal_cases)
  case 1
  then show ?case by (simp add: review_only_refl)
next
  case (2 a t)
  then show ?case
    by (cases "g_review s") (auto simp: review_passed_def review_outcome_def prod_eq_iff)
qed

lemma wp_stop_unverified:
  "wp (stop_unverified D oc reason ans) (\<lambda>d t. late_frame s t \<and> d = FinishStop oc reason ans) s"
  unfolding stop_unverified_def
  by (intro gate_intros wp_use [OF wp_review_unverified]) (simp add: late_frameI)

definition late_backed :: "'w gate_deps \<Rightarrow> finish_input \<Rightarrow> 'w gates \<Rightarrow> 'w gates \<Rightarrow> bool" where
  "late_backed D fi s t \<longleftrightarrow>
     trim_space (fi_answer fi) \<noteq> []
     \<and> (pv_repro_first (d_pol D) \<longrightarrow> (\<exists>rp. g_repro t = Some rp \<and> repro_held D (vs_timeout (g_vs s)) rp))
     \<and> (\<not> fi_trusted fi \<longrightarrow> review_passed D s t)"

lemma wp_finish_repro:
  assumes "\<forall>rv. g_review s = Some rv \<longrightarrow> review_wf rv"
  shows "wp (finish_repro D fi) (\<lambda>d t. late_frame s t \<and>
     (case d of FinishAnswered ans \<Rightarrow> ans = fi_answer fi \<and> late_backed D fi s t
      | FinishContinue _ \<Rightarrow> fi_can_continue fi
      | FinishStop oc _ _ \<Rightarrow> oc = Unverified)) s"
  unfolding finish_repro_def
proof (intro gate_intros wp_use [OF wp_repro_finish] wp_use [OF wp_stop_unverified], goal_cases)
  case (4 a t)
  then have t: "repro_only s t" "a = ([], [])" by auto
  then have rv: "g_review t = g_review s" and f: "late_frame s t" by (auto elim: repro_onlyE intro: late_frameI)
  show ?case
    apply (rule wp_use [OF wp_finish_review])
    using assms rv apply simp
    subgoal for d u
      using 4 rv f late_frame_trans [OF f late_frameI(1) [of t u]]
      by (auto simp: late_backed_def review_passed_def review_only_def split: finish_decision.splits)
    done
qed (auto dest: late_frameI intro: late_frame_trans)

lemma wp_finish:
  assumes "\<forall>rv. g_review s = Some rv \<longrightarrow> review_wf rv"
  shows "wp (finish D fi) (\<lambda>d t.
     (case d of FinishAnswered ans \<Rightarrow> ans = fi_answer fi \<and> answer_backed D fi s t
      | FinishContinue _ \<Rightarrow> fi_can_continue fi
      | FinishStop oc _ _ \<Rightarrow> oc \<in> {Unverified, ScopeViolation, Canceled})) s"
  unfolding finish_def
proof (intro gate_intros wp_use [OF wp_verify_finish] wp_use [OF wp_stop_unverified] wp_canceled, goal_cases)
  case (5 a t b w)
  then have a: "a = gate_ok" "verify_frame s t" by auto
  let ?u = "t\<lparr>g_world := w\<rparr>"
  have u: "\<forall>rv. g_review ?u = Some rv \<longrightarrow> review_wf rv" "g_review ?u = g_review s" "g_vs ?u = g_vs s"
    using assms a(2) by (auto simp: verify_frame_def)
  have facts: "fence_held D s \<and> scope_held D s \<and> (\<not> fi_trusted fi \<longrightarrow> vs_cmd (g_vs s) \<noteq> [] \<longrightarrow>
      \<not> vs_auto_soft (g_vs s) \<longrightarrow> verified D ?u \<or> unchanged_green D ?u)"
    using 5 by (auto simp: verified_def unchanged_green_def)
  show ?case
    apply (rule wp_use [OF wp_finish_repro [OF u(1)]])
    subgoal for d v
      using facts late_frame_facts [of ?u v D] u(2,3)
      by (auto simp: answer_backed_def late_backed_def review_passed_def split: finish_decision.splits)
    done
qed auto

section \<open>What a rescue establishes\<close>

lemma wp_set_infraI: "Q () (s\<lparr>g_infra := sig\<rparr>) \<Longrightarrow> wp (set_infra sig) Q s"
  by (simp add: wp_set_infra)

text \<open>While the verify command of the rescue runs, the rest of the gate stands still, unless
  the rescue is given up.\<close>

definition rescue_frame :: "'w gates \<Rightarrow> 'w gates \<Rightarrow> bool" where
  "rescue_frame s t \<longleftrightarrow>
     g_vs t = g_vs s \<and> g_review t = g_review s \<and> g_repro t = g_repro s \<and> g_run_base t = g_run_base s"

lemma rescue_frame_upd [simp]:
  "rescue_frame s (t\<lparr>g_world := w\<rparr>) = rescue_frame s t" "rescue_frame s (t\<lparr>g_ev := e\<rparr>) = rescue_frame s t"
  "rescue_frame s (t\<lparr>g_infra := i\<rparr>) = rescue_frame s t" "rescue_frame s s"
  by (simp_all add: rescue_frame_def)

lemma inconclusive_outcome [simp]: "rr_outcome (inconclusive sig res) = rr_outcome res"
  by (simp add: inconclusive_def)

definition rescue_step :: "'w gate_deps \<Rightarrow> run_result \<Rightarrow> 'w gates \<Rightarrow> run_result + string \<Rightarrow> 'w gates \<Rightarrow> bool" where
  "rescue_step D res s v t \<longleftrightarrow>
     (case v of Inl r \<Rightarrow> rr_outcome r = rr_outcome res | Inr out \<Rightarrow> rescue_frame s t \<and> passed_run D s out)"

lemma wp_upgrade_retry:
  "wp (upgrade_retry D sig res) (rescue_step D res s) s"
  unfolding upgrade_retry_def Let_def
  by (intro gate_intros wp_set_infraI wp_verify_run wp_attemptI wp_use [OF wp_review_unverified])
     (auto simp: rescue_step_def passed_run_def)

lemma wp_upgrade_verify: "wp (upgrade_verify D res) (rescue_step D res s) s"
  unfolding upgrade_verify_def
  apply (intro gate_intros wp_verify_run wp_attemptI wp_use [OF wp_review_unverified] wp_use [OF wp_upgrade_retry])
  apply (auto simp: rescue_step_def passed_run_def rescue_frame_def split: sum.splits)
  done

definition rescue_backed :: "'w gate_deps \<Rightarrow> 'w gates \<Rightarrow> 'w gates \<Rightarrow> bool" where
  "rescue_backed D s t \<longleftrightarrow>
     vs_cmd (g_vs s) \<noteq> [] \<and> scope_held D s \<and> fence_held D s
     \<and> (\<exists>out tree. passed_run D s out \<and> g_closing t = Some (new_verification_record (vs_cmd (g_vs s)) out tree)
          \<and> (g_run_base s \<noteq> [] \<longrightarrow> tree \<noteq> g_run_base s))
     \<and> (pv_repro_first (d_pol D) \<longrightarrow> (\<exists>rp. g_repro t = Some rp \<and> repro_held D (vs_timeout (g_vs s)) rp))
     \<and> review_passed D s t"

lemma review_passed_close:
  assumes "g_review t = g_review s" "snd b = []"
    "g_review t = None \<longrightarrow> b = ([], [])"
    "\<forall>rv. g_review t = Some rv \<longrightarrow> (\<exists>rv'. g_review v = Some rv' \<and> review_outcome D False rv b rv')"
  shows "review_passed D s v"
proof (cases "g_review s")
  case None
  then show ?thesis by (simp add: review_passed_def)
next
  case (Some rv)
  then obtain rv' where v: "g_review v = Some rv'" "review_outcome D False rv b rv'"
    using assms by auto
  then have "b = ([], [])"
    using assms(2) unfolding review_outcome_def by (cases b) fastforce
  then show ?thesis using v Some by (auto simp: review_passed_def)
qed

lemma wp_upgrade_close:
  assumes "\<forall>rv. g_review s = Some rv \<longrightarrow> review_wf rv"
  shows "wp (upgrade_close D out pre res) (\<lambda>r t.
     r = res \<or> (rr_outcome r = Unverified \<and> pv_repro_first (d_pol D))
     \<or> (r = rescued (vs_cmd (g_vs s)) res
        \<and> g_closing t = Some (new_verification_record (vs_cmd (g_vs s)) out pre)
        \<and> (pv_repro_first (d_pol D) \<longrightarrow> (\<exists>rp. g_repro t = Some rp \<and> repro_held D (vs_timeout (g_vs s)) rp))
        \<and> review_passed D s t)) s"
  unfolding upgrade_close_def capture_closing_verification_def
proof (intro gate_intros wp_use [OF wp_repro_finish] wp_use [OF wp_review_unverified], goal_cases)
  case (1 a t)
  then show ?case by auto
next
  case (2 a t)
  then have ro: "g_review t = g_review s" "g_vs t = g_vs s"
      "g_closing t = Some (new_verification_record (vs_cmd (g_vs s)) out pre)"
      "pv_repro_first (d_pol D) \<longrightarrow> (\<exists>rp. g_repro t = Some rp \<and> repro_held D (vs_timeout (g_vs s)) rp)"
    by (auto elim: repro_onlyE)
  have wf: "\<forall>rv. g_review t = Some rv \<longrightarrow> review_wf rv" using assms ro by simp
  show ?case
    by (intro gate_intros wp_use [OF review_wf_ok [OF wf]])
       (use ro review_passed_close [of t s _ _ D] in \<open>auto simp: review_only_def\<close>)
qed

definition upgrade_result :: "'w gate_deps \<Rightarrow> run_result \<Rightarrow> 'w gates \<Rightarrow> run_result \<Rightarrow> 'w gates \<Rightarrow> bool" where
  "upgrade_result D res s r t \<longleftrightarrow>
     (rr_outcome r = Answered \<longrightarrow> r = rescued (vs_cmd (g_vs s)) res \<and> rescue_backed D s t)
     \<and> (rr_outcome r \<noteq> Answered \<longrightarrow> rr_outcome r \<in> {rr_outcome res, Unverified, ScopeViolation})"

lemma upgrade_result_same:
  "rr_outcome r = rr_outcome res \<Longrightarrow> rr_outcome res \<noteq> Answered \<Longrightarrow> upgrade_result D res s r t"
  by (simp add: upgrade_result_def)

lemma wp_fence_spec:
  "wp (fence_check D) (\<lambda>c t. world_only s t \<and> (gc_reason c = [] \<longrightarrow> fence_held D s)) s"
  by (rule wp_fence_check) simp

lemma wp_scope_spec:
  "wp (scope_check D) (\<lambda>c t. world_only s t \<and> (gc_reason c = [] \<longrightarrow> scope_held D s)) s"
  by (rule wp_scope_check) simp

text \<open>From a green command to the verdict of the rescue.\<close>

lemma upgrade_tail:
  assumes "\<forall>rv. g_review s = Some rv \<longrightarrow> review_wf rv" "vs_cmd (g_vs s) \<noteq> []" "scope_held D s" "fence_held D s"
    "rr_outcome res \<noteq> Answered" "rescue_frame s t" "passed_run D s out" "g_run_base s \<noteq> [] \<longrightarrow> pre \<noteq> g_run_base s"
  shows "wp (upgrade_close D out pre res) (upgrade_result D res s) t"
proof (rule wp_use [OF wp_upgrade_close], goal_cases)
  case 1
  then show ?case using assms by (simp add: rescue_frame_def)
next
  case (2 r u)
  have eq: "g_vs t = g_vs s" "g_review t = g_review s" using assms by (auto simp: rescue_frame_def)
  from 2 consider "r = res" | "rr_outcome r = Unverified"
    | "r = rescued (vs_cmd (g_vs s)) res" "rescue_backed D s u"
    unfolding eq rescue_backed_def review_passed_def using assms by blast
  then show ?case
    using assms(5) by cases (auto simp: upgrade_result_def rescued_def)
qed

lemma upgrade_result_step:
  "rescue_step D res t (Inl e) u \<Longrightarrow> rr_outcome res \<noteq> Answered \<Longrightarrow> upgrade_result D res s e u"
  by (simp add: rescue_step_def upgrade_result_def)

lemma rescue_world [simp]:
  "rescue_frame (s\<lparr>g_world := w\<rparr>) t = rescue_frame s t"
  "passed_run D (s\<lparr>g_world := w\<rparr>) out = passed_run D s out"
  "rescue_step D res (s\<lparr>g_world := w\<rparr>) v t = rescue_step D res s v t"
  by (auto simp: rescue_step_def rescue_frame_def passed_run_def split: sum.splits)

lemma wp_upgrade_run:
  assumes "\<forall>rv. g_review s = Some rv \<longrightarrow> review_wf rv" "vs_cmd (g_vs s) \<noteq> []" "scope_held D s"
    "rr_outcome res \<noteq> Answered"
  shows "wp (upgrade_run D res) (upgrade_result D res s) (s\<lparr>g_world := w0\<rparr>)"
  unfolding upgrade_run_def
proof (intro gate_intros wp_use [OF wp_fence_spec] wp_write_tree wp_use [OF wp_upgrade_verify], goal_cases)
  case (4 a t aa ta out)
  then show ?case
    by (intro upgrade_tail assms) (auto simp: rescue_step_def elim!: world_onlyE)
next
  case (7 a t r w' aa ta out)
  then show ?case
    by (intro upgrade_tail assms) (auto simp: rescue_step_def elim!: world_onlyE)
next
  case 1
  then show ?case by (intro upgrade_result_same assms) simp
next
  case 5
  then show ?case by (intro upgrade_result_same assms) (simp add: unchanged_refusal_def)
qed (auto intro!: upgrade_result_step [OF _ assms(4)])

theorem wp_upgrade:
  assumes "\<forall>rv. g_review s = Some rv \<longrightarrow> review_wf rv" "rr_outcome res \<noteq> Answered"
  shows "wp (upgrade_if_verified D res) (upgrade_result D res s) s"
  unfolding upgrade_if_verified_def
proof (intro gate_intros wp_use [OF wp_scope_spec] wp_use [OF wp_require_diff], goal_cases)
qed (auto simp: upgrade_result_def gate_ok_def assms(2) elim!: world_onlyE intro!: wp_upgrade_run assms(2) assms(1))

end
