(* ===== verification/Generate.thy ===== *)
theory Generate
  imports Messages
begin

text \<open>
  One call of the model (\<open>agent/generate.go\<close>, \<open>llm/errors.go\<close>, \<open>llm/chunk.go\<close>): the collection of
  a stream, retries of transient faults, the reaction to an overflow of the context and to a
  rejected replay of reasoning, and the dollar budget checked between turns. The provider is a
  function from a request and the world to its answer and the next world; an answer may carry
  a partial response beside its error.
\<close>

section \<open>Requests, responses, errors\<close>

datatype error_kind =
    KindRateLimit | KindAuth | KindContextLength | KindContentFilter | KindCanceled | KindUnsupported | KindUnknown

text \<open>An error either wraps a \<open>ProviderError\<close> or does not; the text is what \<open>Error()\<close> prints.\<close>

datatype model_error =
    ProviderError (pe_kind: error_kind) (pe_status: int) (pe_retryable: bool) (me_text: string)
  | PlainError (me_text: string)

text \<open>A stream without its terminal chunk leaves the reason unset.\<close>

datatype finish_reason =
    FinishUnset | FinishNatural | FinishLength | FinishToolUse | FinishContentFilter | FinishOther

record request =
  req_system :: string
  req_messages :: "message list"
  req_max_tokens :: int
  req_effort :: string
  req_tools :: "string list"

record response =
  rs_content :: "content_part list"
  rs_finish :: finish_reason
  rs_usage :: usage

definition response_text :: "response \<Rightarrow> string" where
  "response_text r = parts_text (rs_content r)"

definition context_length :: "model_error \<Rightarrow> bool" where
  "context_length e \<longleftrightarrow> (case e of ProviderError k st r t \<Rightarrow> k = KindContextLength | PlainError t \<Rightarrow> False)"

definition retryable :: "model_error \<Rightarrow> bool" where
  "retryable e \<longleftrightarrow> (case e of ProviderError k st r t \<Rightarrow> r | PlainError t \<Rightarrow> False)"

definition encrypted_replay_rejection :: "model_error \<Rightarrow> bool" where
  "encrypted_replay_rejection e \<longleftrightarrow>
     (case e of
        PlainError t \<Rightarrow> False
      | ProviderError k st r t \<Rightarrow>
          (st = 0 \<or> st = 400) \<and>
          (let m = to_lower t in
           str_contains m ''invalid_encrypted_content''
           \<or> str_contains m ''encrypted content could not be decrypted''
           \<or> (str_contains m ''could not be decrypted'' \<and> str_contains m ''parsed'')))"

type_synonym model_answer = "response option \<times> model_error option"

text \<open>\<open>mo_streaming\<close> is the capability of the provider. A chunk is what the collector's switch makes of
  it; one without any content is an empty text. \<open>mo_interrupted\<close> is the wait between two
  attempts: was it cut short by the context?\<close>

datatype chunk =
    ChunkDone finish_reason usage
  | ChunkReasoning string
  | ChunkToolCall string string string
  | ChunkText string

record 'w model_deps =
  mo_generate :: "request \<Rightarrow> 'w \<Rightarrow> model_answer \<times> 'w"
  mo_stream :: "request \<Rightarrow> 'w \<Rightarrow> (chunk + model_error) list \<times> 'w"
  mo_streaming :: bool
  mo_interrupted :: "nat \<Rightarrow> 'w \<Rightarrow> bool \<times> 'w"

section \<open>Streams\<close>

record collected =
  co_text :: string
  co_calls :: "content_part list"
  co_reasoning :: "content_part list"
  co_finish :: finish_reason
  co_usage :: usage

definition nothing_collected :: collected where
  "nothing_collected =
     \<lparr> co_text = [], co_calls = [], co_reasoning = [], co_finish = FinishUnset, co_usage = zero_usage \<rparr>"

fun take_chunk :: "chunk \<Rightarrow> collected \<Rightarrow> collected" where
  "take_chunk (ChunkDone f u) c = c\<lparr>co_finish := f, co_usage := u\<rparr>"
| "take_chunk (ChunkReasoning raw) c = c\<lparr>co_reasoning := co_reasoning c @ [ReasoningPart raw]\<rparr>"
| "take_chunk (ChunkToolCall i n a) c = c\<lparr>co_calls := co_calls c @ [ToolCallPart i n a]\<rparr>"
| "take_chunk (ChunkText t) c = c\<lparr>co_text := co_text c @ t\<rparr>"

definition assemble :: "collected \<Rightarrow> response" where
  "assemble c =
     \<lparr> rs_content = co_reasoning c @ (if co_text c \<noteq> [] then [TextPart (co_text c)] else []) @ co_calls c,
       rs_finish = co_finish c, rs_usage = co_usage c \<rparr>"

fun collect_from :: "collected \<Rightarrow> (chunk + model_error) list \<Rightarrow> model_answer" where
  "collect_from c [] = (Some (assemble c), None)"
| "collect_from c (Inr e # xs) = (Some (assemble c), Some e)"
| "collect_from c (Inl k # xs) = collect_from (take_chunk k c) xs"

definition collect_stream :: "(chunk + model_error) list \<Rightarrow> model_answer" where
  "collect_stream xs = collect_from nothing_collected xs"

section \<open>Attempts\<close>

definition generate_once :: "'w model_deps \<Rightarrow> bool \<Rightarrow> request \<Rightarrow> 'w \<Rightarrow> model_answer \<times> 'w" where
  "generate_once M stream req w =
     (if stream \<and> mo_streaming M then (case mo_stream M req w of (xs, w') \<Rightarrow> (collect_stream xs, w'))
      else mo_generate M req w)"

definition transient_max_retries :: nat where "transient_max_retries = 2"
definition eviction_max_retries :: nat where "eviction_max_retries = 3"

definition resend :: "model_error option \<Rightarrow> bool" where
  "resend e \<longleftrightarrow> (case e of None \<Rightarrow> False | Some e \<Rightarrow> \<not> encrypted_replay_rejection e \<and> retryable e)"

text \<open>The argument counts the re-sends left.\<close>

fun retry_from :: "'w model_deps \<Rightarrow> bool \<Rightarrow> request \<Rightarrow> nat \<Rightarrow> 'w \<Rightarrow> model_answer \<times> 'w" where
  "retry_from M stream req 0 w = generate_once M stream req w"
| "retry_from M stream req (Suc left) w =
     (case generate_once M stream req w of
        ((resp, e), w1) \<Rightarrow>
          if resend e then
            (case mo_interrupted M (transient_max_retries - Suc left) w1 of
               (True, w2) \<Rightarrow> ((resp, e), w2)
             | (False, w2) \<Rightarrow> retry_from M stream req left w2)
          else ((resp, e), w1))"

definition generate_with_retry :: "'w model_deps \<Rightarrow> bool \<Rightarrow> request \<Rightarrow> 'w \<Rightarrow> model_answer \<times> 'w" where
  "generate_with_retry M stream req w = retry_from M stream req transient_max_retries w"

definition rejected_replay :: "model_error option \<Rightarrow> bool" where
  "rejected_replay e \<longleftrightarrow> (case e of None \<Rightarrow> False | Some e \<Rightarrow> encrypted_replay_rejection e)"

definition overflowed :: "model_error option \<Rightarrow> bool" where
  "overflowed e \<longleftrightarrow> (case e of None \<Rightarrow> False | Some e \<Rightarrow> context_length e)"

text \<open>The loop counts its attempts; reasoning is scrubbed at most once, and an eviction needs an
  attempt number below the cap.\<close>

function evicting :: "'w model_deps \<Rightarrow> bool \<Rightarrow> nat \<Rightarrow> bool \<Rightarrow> request \<Rightarrow> 'w
    \<Rightarrow> (response option \<times> message list \<times> model_error option) \<times> 'w" where
  "evicting M stream attempt dropped req w =
     (case generate_with_retry M stream req w of
        ((resp, e), w1) \<Rightarrow>
          let scrubbed = drop_replay_reasoning (req_messages req);
              shrunk = evict_oldest_turns (req_messages req)
          in
          if rejected_replay e \<and> \<not> dropped \<and> 0 < snd scrubbed then
            evicting M stream (attempt + 1) True (req\<lparr>req_messages := fst scrubbed\<rparr>) w1
          else if \<not> overflowed e then ((resp, req_messages req, e), w1)
          else if eviction_max_retries \<le> attempt then ((None, req_messages req, e), w1)
          else if snd shrunk = 0 then ((None, req_messages req, e), w1)
          else evicting M stream (attempt + 1) dropped (req\<lparr>req_messages := fst shrunk\<rparr>) w1)"
  by pat_completeness auto

termination
  by (relation "measure (\<lambda>(M, stream, attempt, dropped, req, w). (if dropped then 0 else 2) + (eviction_max_retries - attempt))")
     auto

definition generate_with_eviction :: "'w model_deps \<Rightarrow> bool \<Rightarrow> request \<Rightarrow> 'w
    \<Rightarrow> (response option \<times> message list \<times> model_error option) \<times> 'w" where
  "generate_with_eviction M stream req w = evicting M stream 0 False req w"

declare evicting.simps [simp del]

section \<open>Streams, proved\<close>

fun chunk_text :: "chunk \<Rightarrow> string" where
  "chunk_text (ChunkText t) = t"
| "chunk_text _ = []"

fun chunk_call :: "chunk \<Rightarrow> content_part list" where
  "chunk_call (ChunkToolCall i n a) = [ToolCallPart i n a]"
| "chunk_call _ = []"

fun chunk_reasoning :: "chunk \<Rightarrow> content_part list" where
  "chunk_reasoning (ChunkReasoning raw) = [ReasoningPart raw]"
| "chunk_reasoning _ = []"

lemma collect_from_append:
  "collect_from c (map Inl ks @ xs) = collect_from (fold take_chunk ks c) xs"
  by (induction ks arbitrary: c) auto

lemma fold_take_chunk:
  "co_text (fold take_chunk ks c) = co_text c @ concat (map chunk_text ks)
   \<and> co_calls (fold take_chunk ks c) = co_calls c @ concat (map chunk_call ks)
   \<and> co_reasoning (fold take_chunk ks c) = co_reasoning c @ concat (map chunk_reasoning ks)"
proof (induction ks arbitrary: c)
  case (Cons k ks)
  show ?case by (cases k) (use Cons in auto)
qed simp

lemma parts_text_append [simp]:
  "parts_text (xs @ ys) = parts_text xs @ parts_text ys" "parts_text [TextPart t] = t" "parts_text [] = []"
  by (simp_all add: parts_text_def)

lemma no_text_parts:
  "parts_text (concat (map chunk_reasoning ks)) = []" "parts_text (concat (map chunk_call ks)) = []"
proof -
  have "part_text p = []" if "p \<in> set (chunk_reasoning k) \<union> set (chunk_call k)" for p k
    using that by (cases k) auto
  then show "parts_text (concat (map chunk_reasoning ks)) = []" "parts_text (concat (map chunk_call ks)) = []"
    by (auto simp: parts_text_def)
qed

lemma part_kinds:
  "p \<in> set (chunk_reasoning k) \<Longrightarrow> is_reasoning p" "p \<in> set (chunk_call k) \<Longrightarrow> \<not> is_reasoning p"
  by (cases k; auto)+



section \<open>Attempts, bounded\<close>

text \<open>\<open>ticks\<close> counts the paid calls of a world; waiting is free.\<close>

definition paid_by :: "'w model_deps \<Rightarrow> ('w \<Rightarrow> nat) \<Rightarrow> bool" where
  "paid_by M ticks \<longleftrightarrow>
     (\<forall>req w. ticks (snd (mo_generate M req w)) = ticks w + 1)
     \<and> (\<forall>req w. ticks (snd (mo_stream M req w)) = ticks w + 1)
     \<and> (\<forall>k w. ticks (snd (mo_interrupted M k w)) = ticks w)"

lemma once_paid: "paid_by M ticks \<Longrightarrow> ticks (snd (generate_once M stream req w)) = ticks w + 1"
  by (simp add: generate_once_def paid_by_def case_prod_beta)

lemma retry_paid: "paid_by M ticks \<Longrightarrow>
  ticks w < ticks (snd (retry_from M stream req n w)) \<and> ticks (snd (retry_from M stream req n w)) \<le> ticks w + n + 1"
proof (induction n arbitrary: w)
  case 0
  then show ?case by (simp add: once_paid)
next
  case (Suc n)
  obtain resp e w1 where g: "generate_once M stream req w = ((resp, e), w1)" by (metis prod.exhaust)
  then have w1: "ticks w1 = ticks w + 1" using once_paid [OF Suc.prems] by (metis snd_conv)
  obtain b w2 where i: "mo_interrupted M (transient_max_retries - Suc n) w1 = (b, w2)" by fastforce
  then have w2: "ticks w2 = ticks w1" using Suc.prems unfolding paid_by_def by (metis snd_conv)
  show ?case using Suc.IH [OF Suc.prems, of w2] g w1 i w2 by (cases b) auto
qed

definition attempts_left :: "nat \<Rightarrow> bool \<Rightarrow> nat" where
  "attempts_left attempt dropped = (if dropped then 1 else 2) + (eviction_max_retries - attempt)"

text \<open>One step of the loop: it ends, or goes on with a smaller budget and a compacted request.\<close>

definition compacted :: "message list \<Rightarrow> message list \<Rightarrow> bool" where
  "compacted a b \<longleftrightarrow> b = fst (drop_replay_reasoning a) \<or> b = fst (evict_oldest_turns a)"

lemma evicting_cases:
  obtains resp e w1 where "generate_with_retry M stream req w = ((resp, e), w1)"
      "evicting M stream attempt dropped req w = ((resp, req_messages req, e), w1)" "\<not> overflowed e"
  | resp e w1 where "generate_with_retry M stream req w = ((resp, e), w1)"
      "evicting M stream attempt dropped req w = ((None, req_messages req, e), w1)" "overflowed e"
  | resp e w1 dropped' msgs where "generate_with_retry M stream req w = ((resp, e), w1)"
      "evicting M stream attempt dropped req w = evicting M stream (attempt + 1) dropped' (req\<lparr>req_messages := msgs\<rparr>) w1"
      "compacted (req_messages req) msgs"
      "attempts_left (attempt + 1) dropped' < attempts_left attempt dropped"
proof -
  obtain resp e w1 where g: "generate_with_retry M stream req w = ((resp, e), w1)" by (metis prod.exhaust)
  note eq = evicting.simps [of M stream attempt dropped req w, unfolded g prod.case Let_def]
  show thesis
  proof (cases "rejected_replay e \<and> \<not> dropped \<and> 0 < snd (drop_replay_reasoning (req_messages req))")
    case True
    then show thesis using that(3) [OF g, of True "fst (drop_replay_reasoning (req_messages req))"] eq
      by (simp add: compacted_def attempts_left_def)
  next
    case False
    note no_scrub = this
    show thesis
    proof (cases "\<not> overflowed e")
      case True
      then show thesis using that(1) [OF g] eq no_scrub by simp
    next
      case over: False
      show thesis
      proof (cases "eviction_max_retries \<le> attempt \<or> snd (evict_oldest_turns (req_messages req)) = 0")
        case True
        then show thesis using that(2) [OF g] eq no_scrub over by auto
      next
        case False
        then have "attempts_left (attempt + 1) dropped < attempts_left attempt dropped"
          by (auto simp: attempts_left_def)
        then show thesis using that(3) [OF g, of dropped "fst (evict_oldest_turns (req_messages req))"] eq no_scrub over False
          by (simp add: compacted_def)
      qed
    qed
  qed
qed

lemma evicting_paid:
  assumes "paid_by M ticks"
  shows "ticks (snd (evicting M stream attempt dropped req w)) \<le> ticks w + 3 * attempts_left attempt dropped"
proof (induction "attempts_left attempt dropped" arbitrary: attempt dropped req w rule: less_induct)
  case less
  have paid: "ticks w1 \<le> ticks w + 3" if "generate_with_retry M stream req w = ((resp, e), w1)" for resp e w1
    using retry_paid [OF assms, of w stream req transient_max_retries] that
    by (simp add: generate_with_retry_def transient_max_retries_def)
  have left: "0 < attempts_left attempt dropped" by (simp add: attempts_left_def)
  show ?case
  proof (rule evicting_cases [of M stream req w attempt dropped])
    fix resp e w1 d msgs
    assume "generate_with_retry M stream req w = ((resp, e), w1)"
      and eq: "evicting M stream attempt dropped req w = evicting M stream (attempt + 1) d (req\<lparr>req_messages := msgs\<rparr>) w1"
      and l: "attempts_left (attempt + 1) d < attempts_left attempt dropped"
    with paid less.hyps [OF l, of "req\<lparr>req_messages := msgs\<rparr>" w1] show ?thesis by fastforce
  qed (use paid left in fastforce)+
qed

text \<open>C36: One turn of the agent pays for at most fifteen calls of the model, whatever the provider
  answers: five attempts (one after reasoning was scrubbed, three after evictions) of at most
  three sends each.\<close>

theorem calls_bounded:
  assumes "paid_by M ticks"
  shows "ticks (snd (generate_with_eviction M stream req w)) \<le> ticks w + 15"
  using evicting_paid [OF assms, of stream 0 False req w]
  by (simp add: generate_with_eviction_def attempts_left_def eviction_max_retries_def)

definition overflowing :: "nat model_deps" where
  "overflowing =
     \<lparr> mo_generate = (\<lambda>req n. ((None, Some (ProviderError KindContextLength 400 False ''too long'')), n + 1)),
       mo_stream = (\<lambda>req n. ([], n + 1)), mo_streaming = False, mo_interrupted = (\<lambda>k n. (False, n)) \<rparr>"

theorem calls_bounded_witness:
  "snd (generate_with_eviction overflowing False
     \<lparr> req_system = [], req_messages = [user_msg ''t''], req_max_tokens = 1, req_effort = [], req_tools = [] \<rparr> 0) \<le> (15::nat)"
  using calls_bounded [of overflowing id False _ 0] by (simp add: paid_by_def overflowing_def)

section \<open>What compaction keeps\<close>

lemma compacted_paired: "compacted a b \<Longrightarrow> well_paired a \<Longrightarrow> well_paired b"
  by (auto simp: compacted_def drop_replay_reasoning_def Let_def intro: scrub_paired evict_paired)

text \<open>What is left is the old transcript without some of its oldest turns, perhaps scrubbed.\<close>

definition compact_of :: "message \<Rightarrow> message list \<Rightarrow> message list list \<Rightarrow> message list \<Rightarrow> bool" where
  "compact_of m pre ts b \<longleftrightarrow>
     (\<exists>n f. (f = id \<or> f = scrub) \<and> (ts \<noteq> [] \<longrightarrow> n < length ts) \<and> b = map f (transcript m pre (drop n ts)))"

lemma map_transcript: "map f (transcript m pre ts) = transcript (f m) (map f pre) (map (map f) ts)"
  by (simp add: transcript_def map_concat)

lemma scrub_scrub [simp]: "scrub (scrub m) = scrub m"
  by (simp add: scrub_def is_assistant_def)

lemma compact_step:
  assumes "compact_of m pre ts a" "compacted a b" "preamble pre" "\<forall>t \<in> set ts. turn t"
  shows "compact_of m pre ts b"
proof -
  obtain n f where f: "f = id \<or> f = scrub" "ts \<noteq> [] \<longrightarrow> n < length ts" "a = map f (transcript m pre (drop n ts))"
    using assms(1) by (auto simp: compact_of_def)
  consider "b = fst (drop_replay_reasoning a)" | "b = fst (evict_oldest_turns a)"
    using assms(2) by (auto simp: compacted_def)
  then show ?thesis
  proof cases
    case 1
    then have "b = a \<or> b = map scrub a" by (auto simp: drop_replay_reasoning_def Let_def)
    moreover have "map scrub a = map scrub (transcript m pre (drop n ts))" using f by auto
    ultimately show ?thesis using assms(1) f(2) unfolding compact_of_def by metis
  next
    case 2
    let ?us = "drop n ts"
    have "preamble (map f pre)" using assms(3) f(1) by (auto simp: preamble_def)
    moreover have "\<forall>t \<in> set (map (map f) ?us). turn t"
    proof -
      have "turn (map f t)" if "turn t" for t using that f(1) by (auto simp: turn_def)
      then show ?thesis using assms(4) by (auto dest: in_set_dropD)
    qed
    ultimately have "b = map f (transcript m pre (drop (length ?us div 2) ?us))"
      using 2 f(3) evict_older_half' [of "map f pre" "map (map f) ?us" "f m"] by (simp add: map_transcript drop_map)
    moreover have "ts \<noteq> [] \<longrightarrow> length ?us div 2 + n < length ts" using f(2) by auto
    ultimately show ?thesis using f(1) unfolding compact_of_def by (metis add.commute drop_drop)
  qed
qed

lemma evicting_compact:
  fixes fresh :: bool and req :: request
  assumes "compact_of m pre ts (req_messages req)" "preamble pre" "\<forall>t \<in> set ts. turn t"
  shows "compact_of m pre ts (fst (snd (fst (evicting M stream attempt fresh req w))))"
  using assms(1)
proof (induction "attempts_left attempt fresh" arbitrary: attempt fresh req w rule: less_induct)
  case less
  show ?case
  proof (rule evicting_cases [of M stream req w attempt fresh])
    fix resp e w1 d msgs
    assume eq: "evicting M stream attempt fresh req w = evicting M stream (attempt + 1) d (req\<lparr>req_messages := msgs\<rparr>) w1"
      and c: "compacted (req_messages req) msgs" and l: "attempts_left (attempt + 1) d < attempts_left attempt fresh"
    have "compact_of m pre ts msgs" using compact_step [OF less.prems c assms(2,3)] .
    then show ?thesis using less.hyps [OF l, of "req\<lparr>req_messages := msgs\<rparr>" w1] eq by auto
  qed (use less.prems in auto)
qed

lemma compact_of_refl: "compact_of m pre ts (transcript m pre ts)"
  unfolding compact_of_def by (intro exI [of _ 0] exI [of _ id]) auto

lemma evicting_paired:
  fixes req :: request and fresh :: bool
  assumes "well_paired (req_messages req)"
  shows "well_paired (fst (snd (fst (evicting M stream attempt fresh req w))))"
  using assms
proof (induction "attempts_left attempt fresh" arbitrary: attempt fresh req w rule: less_induct)
  case less
  show ?case
  proof (rule evicting_cases [of M stream req w attempt fresh])
    fix resp e w1 d msgs
    assume eq: "evicting M stream attempt fresh req w = evicting M stream (attempt + 1) d (req\<lparr>req_messages := msgs\<rparr>) w1"
      and c: "compacted (req_messages req) msgs" and l: "attempts_left (attempt + 1) d < attempts_left attempt fresh"
    then show ?thesis
      using less.hyps [OF l, of "req\<lparr>req_messages := msgs\<rparr>" w1] compacted_paired [OF c] less.prems by auto
  qed (use less.prems in auto)
qed

text \<open>C34: Whatever the provider answers, the transcript that a turn hands on is the one it was given
  without some of its oldest turns, perhaps with replayed reasoning removed: the task, the
  preamble and the most recent turn are always there, and a transcript in which calls and
  results match stays one.\<close>

theorem turn_keeps_grounding:
  assumes "req_messages req = transcript m pre ts" and "preamble pre" and "\<forall>t \<in> set ts. turn t"
    and "generate_with_eviction M stream req w = ((resp, msgs, e), w')"
  shows "(\<exists>n f. (f = id \<or> f = scrub) \<and> (ts \<noteq> [] \<longrightarrow> n < length ts) \<and> msgs = map f (transcript m pre (drop n ts)))
    \<and> (well_paired (req_messages req) \<longrightarrow> well_paired msgs)"
proof -
  have "compact_of m pre ts (req_messages req)"
    using assms(1) compact_of_refl by metis
  from evicting_compact [OF this assms(2,3)] have "compact_of m pre ts msgs"
    using assms(4) by (metis fst_conv snd_conv generate_with_eviction_def)
  moreover have "well_paired (req_messages req) \<longrightarrow> well_paired msgs"
    using evicting_paired assms(4) by (metis fst_conv snd_conv generate_with_eviction_def)
  ultimately show ?thesis unfolding compact_of_def by metis
qed

definition demo_request :: request where
  "demo_request =
     \<lparr> req_system = [], req_messages = transcript (user_msg ''t'') [] [[assistant_msg ''a''], [assistant_msg ''b''], [assistant_msg ''c'']],
       req_max_tokens = 1, req_effort = [], req_tools = [] \<rparr>"

theorem turn_keeps_grounding_witness:
  "\<exists>n. n < 3 \<and> fst (snd (fst (generate_with_eviction overflowing False demo_request 0)))
     \<in> {transcript (user_msg ''t'') [] (drop n [[assistant_msg ''a''], [assistant_msg ''b''], [assistant_msg ''c'']]),
        map scrub (transcript (user_msg ''t'') [] (drop n [[assistant_msg ''a''], [assistant_msg ''b''], [assistant_msg ''c'']]))}"
proof -
  let ?ts = "[[assistant_msg ''a''], [assistant_msg ''b''], [assistant_msg ''c'']]"
  obtain resp msgs e w' where g: "generate_with_eviction overflowing False demo_request 0 = ((resp, msgs, e), w')"
    by (metis prod.exhaust)
  have "\<exists>n f. (f = id \<or> f = scrub) \<and> (?ts \<noteq> [] \<longrightarrow> n < length ?ts) \<and> msgs = map f (transcript (user_msg ''t'') [] (drop n ?ts))"
    using turn_keeps_grounding [of demo_request "user_msg ''t''" "[]" ?ts, OF _ _ _ g]
    by (simp add: demo_request_def preamble_def turn_def is_assistant_def assistant_msg_def)
  then obtain n f where f: "f = id \<or> f = scrub" and n: "?ts \<noteq> [] \<longrightarrow> n < length ?ts"
      and m: "msgs = map f (transcript (user_msg ''t'') [] (drop n ?ts))" by blast
  have "n < 3" using n by simp
  moreover have "fst (snd (fst (generate_with_eviction overflowing False demo_request 0)))
      \<in> {transcript (user_msg ''t'') [] (drop n ?ts), map scrub (transcript (user_msg ''t'') [] (drop n ?ts))}"
    unfolding g fst_conv snd_conv m using f by (elim disjE) (simp_all only: list.map_id insert_iff simp_thms)
  ultimately show ?thesis by blast
qed

end
