(* ===== verification/Budget.thy ===== *)
theory Budget
  imports Generate GateState
begin

text \<open>
  What is decided around a model call: the dollar budget at the turn boundary
  (\<open>dollarBudgetStop\<close> in \<open>agent/generate.go\<close>), the outcome of a failed call
  (\<open>classifyGenerateErr\<close> in \<open>agent/loop_shared.go\<close>), and the opening plan stage
  (\<open>agent/plan.go\<close>). Dollars are exact reals; \<open>fixed6\<close> is the verb \<open>%.6f\<close>.
\<close>

section \<open>Printed amounts\<close>

definition round_half_even :: "real \<Rightarrow> int" where
  "round_half_even x =
     (let n = \<lfloor>x\<rfloor>; d = x - of_int n in
      if d < 1 / 2 then n else if 1 / 2 < d then n + 1 else if even n then n else n + 1)"

definition fixed6 :: "real \<Rightarrow> string" where
  "fixed6 x =
     (let m = nat (round_half_even (\<bar>x\<bar> * 1000000)) in
      (if x < 0 then ''-'' else []) @ nat_digits (m div 1000000) @ ''.'' @ zero_pad 6 (m mod 1000000))"

section \<open>The dollar budget\<close>

definition dollar_hit :: "real \<Rightarrow> real \<Rightarrow> int \<Rightarrow> string" where
  "dollar_hit cost cap turns =
     ''hit dollar budget ($'' @ fixed6 cost @ '' spent >= cap $'' @ fixed6 cap @ '') after '' @ itoa turns @ '' turn(s)''"

definition dollar_unpriceable :: "real \<Rightarrow> string" where
  "dollar_unpriceable cap =
     ''dollar budget $'' @ fixed6 cap @ '' configured but spend is unpriceable; failing closed '' @ emdash
     @ '' set AllowUnpricedSpend to continue unpriced''"

text \<open>The price of the run so far: not to be judged, a floor that already reaches the cap, or an
  amount that may be missing.\<close>

datatype priced = NotReported | FloorHit real | Priced "real option"

definition spend_priced :: "real \<Rightarrow> spend \<Rightarrow> priced" where
  "spend_priced cap sp =
     (case spend_floor (Some sp) of
        (cost, ok) \<Rightarrow>
          if \<not> ok \<and> \<not> spend_reported (Some sp) then NotReported
          else if ok \<and> cap \<le> cost then FloorHit cost
          else if snd (spend_usd (Some sp)) \<and> ok then Priced (Some cost)
          else Priced None)"

definition usage_priced :: "(usage \<Rightarrow> real option) option \<Rightarrow> usage \<Rightarrow> priced" where
  "usage_priced cost_fn u =
     (if \<not> usage_reported u then NotReported
      else (case cost_fn of None \<Rightarrow> Priced None | Some f \<Rightarrow> Priced (f u)))"

text \<open>\<open>dollarBudgetStop\<close>: the reason to stop, and the evidence log, in which a run that goes on
  without a price is marked.\<close>

definition dollar_budget_stop ::
  "real \<Rightarrow> bool \<Rightarrow> spend option \<Rightarrow> (usage \<Rightarrow> real option) option \<Rightarrow> usage \<Rightarrow> int \<Rightarrow> evidence_log option
     \<Rightarrow> string option \<times> evidence_log option" where
  "dollar_budget_stop cap allow sp cost_fn u turns ev =
     (if cap \<le> 0 then (None, ev)
      else
        (case (case sp of Some s \<Rightarrow> spend_priced cap s | None \<Rightarrow> usage_priced cost_fn u) of
           NotReported \<Rightarrow> (None, ev)
         | FloorHit cost \<Rightarrow> (Some (dollar_hit cost cap turns), ev)
         | Priced None \<Rightarrow>
             if \<not> allow then (Some (dollar_unpriceable cap), ev)
             else (None, map_option (\<lambda>l. l\<lparr>ev_unpriced := True\<rparr>) ev)
         | Priced (Some cost) \<Rightarrow>
             if cap \<le> cost then (Some (dollar_hit cost cap turns), ev) else (None, ev)))"

section \<open>A failed call\<close>

text \<open>\<open>expired\<close>: the loop's context ended at the wall clock; \<open>by_caller\<close>: the caller's was
  canceled. The last component is the error handed to the caller.\<close>

definition classify_generate_err :: "bool \<Rightarrow> bool \<Rightarrow> int \<Rightarrow> model_error \<Rightarrow> outcome \<times> string \<times> model_error option" where
  "classify_generate_err by_caller expired max_wall e =
     (if max_wall > 0 \<and> expired then
        (HitDeadline, ''hit wall-clock budget ('' @ dur_string max_wall @ '') mid-turn'', None)
      else if context_length e then
        (HitContextLimit, ''context window exceeded and could not be compacted further'', None)
      else if by_caller then (Canceled, ''run canceled by the caller (interrupt)'', None)
      else (ProviderErr, me_text e, Some e))"

section \<open>The plan stage\<close>

record plan_result =
  pr_plan :: string
  pr_model :: string
  pr_usage :: usage
  pr_run_id :: string

record plan_report =
  pp_model :: string
  pp_plan :: string
  pp_skipped :: string
  pp_planner_run :: string
  pp_usage :: usage

definition plan_header :: string where
  "plan_header =
     nl @ nl @ ''----'' @ nl @ ''IMPLEMENTATION PLAN '' @ emdash
     @ '' prepared by a separate planning pass that explored this repository read-only. Follow its approach unless the code you read contradicts it; when you deviate, say why:'' @ nl @ nl"

text \<open>\<open>runPlanStage\<close>: the planner is a function of the task and whether the conversation goes on,
  and answers with a result, an error, or both. The task that seeds the run, the report, and
  the shared spend.\<close>

definition plan_report_of :: "plan_result option \<Rightarrow> string option \<Rightarrow> plan_report" where
  "plan_report_of pr e =
     (let plan = (case pr of None \<Rightarrow> [] | Some p \<Rightarrow> trim_space (pr_plan p));
          skipped = (case e of
              Some err \<Rightarrow> ''plan skipped (stage fails open): '' @ err
            | None \<Rightarrow> if plan = [] then ''plan skipped: the planner returned an empty plan'' else [])
      in \<lparr> pp_model = (case pr of None \<Rightarrow> [] | Some p \<Rightarrow> pr_model p),
           pp_plan = (if skipped \<noteq> [] then [] else plan), pp_skipped = skipped,
           pp_planner_run = (case pr of None \<Rightarrow> [] | Some p \<Rightarrow> pr_run_id p),
           pp_usage = (case pr of None \<Rightarrow> zero_usage | Some p \<Rightarrow> pr_usage p) \<rparr>)"

definition run_plan_stage ::
  "pricer option \<Rightarrow> (string \<Rightarrow> bool \<Rightarrow> 'w \<Rightarrow> (plan_result option \<times> string option) \<times> 'w) option
     \<Rightarrow> string \<Rightarrow> bool \<Rightarrow> spend option \<Rightarrow> 'w \<Rightarrow> (string \<times> plan_report option) \<times> spend option \<times> 'w" where
  "run_plan_stage price planner task continuing sp w =
     (case planner of
        None \<Rightarrow> ((task, None), sp, w)
      | Some plan \<Rightarrow>
          (case plan task continuing w of
             ((pr, e), w') \<Rightarrow>
               let rep = plan_report_of pr e;
                   sp' = (case pr of None \<Rightarrow> sp
                          | Some p \<Rightarrow> map_option (spend_add price (pr_model p) (pr_usage p)) sp)
               in ((if pp_skipped rep \<noteq> [] then task else task @ plan_header @ pp_plan rep, Some rep), sp', w')))"

section \<open>Properties\<close>

definition total_spend :: "(string \<Rightarrow> usage \<Rightarrow> real option) \<Rightarrow> (string \<times> usage) list \<Rightarrow> spend" where
  "total_spend pr calls = fold (\<lambda>(m, u). spend_add (Some pr) m u) calls new_spend"

lemma spend_sum:
  "sp_usd (fold (\<lambda>(m, u). spend_add (Some pr) m u) calls s) = sp_usd s +
     (\<Sum>(m, u) \<leftarrow> filter (\<lambda>(m, u). usage_reported u) calls. case pr m u of Some c \<Rightarrow> c | None \<Rightarrow> 0)"
  "sp_priced (fold (\<lambda>(m, u). spend_add (Some pr) m u) calls s) \<longleftrightarrow> sp_priced s
     \<or> (\<exists>(m, u) \<in> set (filter (\<lambda>(m, u). usage_reported u) calls). pr m u \<noteq> None)"
  "sp_unpriced (fold (\<lambda>(m, u). spend_add (Some pr) m u) calls s) \<longleftrightarrow> sp_unpriced s
     \<or> (\<exists>(m, u) \<in> set (filter (\<lambda>(m, u). usage_reported u) calls). pr m u = None)"
  by (induction calls arbitrary: s) (auto simp: spend_add_def split: option.splits)

text \<open>The dollar budget is exact and fails closed. With a positive cap and a shared spend, a run
  whose calls were \<open>calls\<close> stops at the turn boundary exactly when the priced calls sum up to
  the cap, or a call with reported usage had no price and unpriced spend is not allowed; when
  an unpriced run is let through, the evidence log says so.\<close>

theorem dollar_stop_exact:
  assumes "0 < cap" and "paid = filter (\<lambda>(m, u). usage_reported u) calls"
  shows "(fst (dollar_budget_stop cap allow (Some (total_spend pr calls)) cf u turns ev) \<noteq> None \<longleftrightarrow>
      cap \<le> (\<Sum>(m, u) \<leftarrow> paid. case pr m u of Some c \<Rightarrow> c | None \<Rightarrow> 0)
      \<or> ((\<exists>(m, u) \<in> set paid. pr m u = None) \<and> \<not> allow))
    \<and> (fst (dollar_budget_stop cap allow (Some (total_spend pr calls)) cf u turns ev) = None \<longrightarrow>
      (\<exists>(m, u) \<in> set paid. pr m u = None) \<longrightarrow>
      snd (dollar_budget_stop cap allow (Some (total_spend pr calls)) cf u turns ev)
        = map_option (\<lambda>l. l\<lparr>ev_unpriced := True\<rparr>) ev)"
proof -
  let ?s = "total_spend pr calls"
  have s: "sp_usd ?s = (\<Sum>(m, u) \<leftarrow> paid. case pr m u of Some c \<Rightarrow> c | None \<Rightarrow> 0)"
      "sp_priced ?s \<longleftrightarrow> (\<exists>(m, u) \<in> set paid. pr m u \<noteq> None)"
      "sp_unpriced ?s \<longleftrightarrow> (\<exists>(m, u) \<in> set paid. pr m u = None)"
    unfolding total_spend_def assms(2) spend_sum by (simp_all add: new_spend_def)
  have z: "sp_usd ?s = 0" if "\<not> sp_priced ?s"
  proof -
    have "map (\<lambda>(m, u). case pr m u of Some c \<Rightarrow> c | None \<Rightarrow> 0) paid = map (\<lambda>_. 0) paid"
      using that by (auto simp: s(2))
    then show ?thesis unfolding s(1) by (metis sum_list_0)
  qed
  show ?thesis unfolding s [symmetric] using assms(1) z
    by (auto simp: dollar_budget_stop_def spend_priced_def spend_floor_def spend_usd_def spend_reported_def split: if_splits)
qed

definition demo_calls :: "(string \<times> usage) list" where
  "demo_calls = [(''a'', zero_usage\<lparr>u_total := 1\<rparr>), (''b'', zero_usage), (''c'', zero_usage\<lparr>u_total := 1\<rparr>)]"

theorem dollar_stop_exact_witness:
  "fst (dollar_budget_stop 3 False (Some (total_spend (\<lambda>m u. Some 2) demo_calls)) None zero_usage 2 None) \<noteq> None"
proof -
  have "filter (\<lambda>(m, u). usage_reported u) demo_calls = [(''a'', zero_usage\<lparr>u_total := 1\<rparr>), (''c'', zero_usage\<lparr>u_total := 1\<rparr>)]"
    by (simp add: demo_calls_def usage_reported_def zero_usage_def)
  with dollar_stop_exact [of 3 _ demo_calls False "\<lambda>m u. Some 2" None zero_usage 2 None, OF _ refl]
  show ?thesis by simp
qed

text \<open>The plan stage fails open and is paid for. Whatever the planner does, the run is seeded with
  the original task, followed by a nonempty plan exactly when the planner gave one without an
  error; otherwise the report says why there is none; tokens it used are charged in both cases.\<close>

theorem plan_fails_open:
  "run_plan_stage price (Some plan) task cont (Some sp) w = ((seed, Some rep), sp', w') \<Longrightarrow>
     \<exists>pr e. plan task cont w = ((pr, e), w')
     \<and> (if e = None \<and> pr \<noteq> None \<and> trim_space (pr_plan (the pr)) \<noteq> []
        then seed = task @ plan_header @ trim_space (pr_plan (the pr)) \<and> pp_skipped rep = []
        else seed = task \<and> pp_skipped rep \<noteq> [] \<and> pp_plan rep = [])
     \<and> sp' = Some (case pr of None \<Rightarrow> sp | Some p \<Rightarrow> spend_add price (pr_model p) (pr_usage p) sp)"
proof -
  assume r: "run_plan_stage price (Some plan) task cont (Some sp) w = ((seed, Some rep), sp', w')"
  obtain pr' e' w1 where p: "plan task cont w = ((pr', e'), w1)" by (metis prod.exhaust)
  then show "\<exists>pr e. plan task cont w = ((pr, e), w')
     \<and> (if e = None \<and> pr \<noteq> None \<and> trim_space (pr_plan (the pr)) \<noteq> []
        then seed = task @ plan_header @ trim_space (pr_plan (the pr)) \<and> pp_skipped rep = []
        else seed = task \<and> pp_skipped rep \<noteq> [] \<and> pp_plan rep = [])
     \<and> sp' = Some (case pr of None \<Rightarrow> sp | Some p \<Rightarrow> spend_add price (pr_model p) (pr_usage p) sp)"
    using r by (cases pr'; cases e') (auto simp: run_plan_stage_def plan_report_of_def Let_def)
qed

theorem plan_fails_open_witness:
  "\<exists>rep sp'. run_plan_stage None (Some (\<lambda>t c (w :: nat). ((None, Some ''no model''), w))) ''task'' False (Some new_spend) 0
     = ((''task'', Some rep), sp', 0) \<and> pp_skipped rep \<noteq> []"
proof -
  let ?plan = "\<lambda>t c (w :: nat). ((None :: plan_result option, Some ''no model''), w)"
  obtain seed rep sp' w' where r: "run_plan_stage None (Some ?plan) ''task'' False (Some new_spend) 0 = ((seed, Some rep), sp', w')"
    by (simp add: run_plan_stage_def Let_def)
  from plan_fails_open [OF r] r show ?thesis by auto
qed

end
