(* ===== verification/TextLoop.thy ===== *)
theory TextLoop
  imports Finish ParseAction Budget
begin

text \<open>
  The text loop (\<open>Run\<close> in \<open>agent/loop_text.go\<close>): turn after turn it checks the budgets, sends
  the whole conversation to the model, parses one action, and either puts a claim to be done
  before the closing gate or runs the named tool under the no-progress detectors and feeds the
  observation back. A turn is a program of the gates' state monad; what the Go function keeps in
  local variables is the record \<open>turn_state\<close>, which a turn takes and hands on.
\<close>

section \<open>State\<close>

record step =
  st_iter :: int
  st_reply :: string
  st_verb :: string
  st_arg :: string
  st_observation :: string
  st_grounded :: bool
  st_usage :: usage
  st_finish :: finish_reason
  st_advanced :: bool

record turn_state =
  ts_messages :: "message list"
  ts_usage :: usage
  ts_iterations :: int
  ts_steps :: "step list"
  ts_last_action :: string
  ts_last_read_sig :: string
  ts_last_read_obs :: string
  ts_last_executed :: string
  ts_seen :: "(string \<times> int) list"
  ts_repeats :: int
  ts_spiral :: spiral
  ts_last_reasoning :: string
  ts_tracker :: tracker
  ts_grounded :: bool

definition start_turns :: "policy_value \<Rightarrow> string \<Rightarrow> message list \<Rightarrow> turn_state" where
  "start_turns pol verify_cmd msgs =
     \<lparr> ts_messages = msgs, ts_usage = zero_usage, ts_iterations = 0, ts_steps = [], ts_last_action = [],
       ts_last_read_sig = [], ts_last_read_obs = [], ts_last_executed = [], ts_seen = [], ts_repeats = 0,
       ts_spiral = new_spiral (pv_termination pol), ts_last_reasoning = [],
       ts_tracker = new_tracker pol verify_cmd (pv_max_iterations pol), ts_grounded = False \<rparr>"

text \<open>What a run of the loop is given. A tool takes its argument and the world; \<open>lp_expired\<close> is the wall
  clock, asked between turns and after a failed call; \<open>lp_by_caller\<close> asks whether the caller
  canceled.\<close>

record 'w loop_deps =
  lp_gate :: "'w gate_deps"
  lp_model :: "'w model_deps"
  lp_tools :: "(string \<times> (string \<Rightarrow> 'w \<Rightarrow> (string + string) \<times> 'w)) list"
  lp_system :: string
  lp_cost_fn :: "(usage \<Rightarrow> real option) option"
  lp_expired :: "'w \<Rightarrow> bool \<times> 'w"

text \<open>How a turn ends: on to the next one, out of the loop with a result (and the error of the provider
  that is returned beside it), or in the panic of a provider that gave neither response nor
  error.\<close>

datatype turn_end =
    TurnNext turn_state
  | TurnStop run_result "model_error option" turn_state
  | TurnPanic

definition run_ended :: "outcome \<Rightarrow> string \<Rightarrow> run_result" where
  "run_ended oc reason = \<lparr> rr_outcome = oc, rr_reason = reason, rr_answer = [], rr_rescued_from = None, rr_infra = [] \<rparr>"

text \<open>Out of the loop through the rescue.\<close>

definition stop_rescued :: "'w loop_deps \<Rightarrow> outcome \<Rightarrow> string \<Rightarrow> turn_state \<Rightarrow> ('w gates, turn_end) state" where
  "stop_rescued L oc reason ts = do {
     r \<leftarrow> upgrade_if_verified (lp_gate L) (run_ended oc reason);
     ret (TurnStop r None ts) }"

section \<open>Texts\<close>

definition churn_nudge_text :: string where
  "churn_nudge_text =
     nl @ nl @ ''[hint: the tests have failed several times. If you've been making incremental edits, ''
     @ ''stop and rewrite the whole file in ONE write_file with a complete, correct implementation '' @ emdash
     @ '' that is usually faster than chasing line-by-line edits, and avoids line-number drift.]''"

definition green_repeat_nudge_text :: string where
  "green_repeat_nudge_text =
     nl @ nl @ ''[harness: the same command has now passed 3 times with no file changes in between '' @ emdash
     @ '' re-running it gains nothing; either finish (answer) or take a genuinely new action.]''"

definition finish_nudge_text :: string where
  "finish_nudge_text =
     nl @ nl @ ''[hint: your last build/test run passed and you haven't edited any files for several turns '' @ emdash
     @ '' the task may already be complete. If it is, FINISH NOW with `answer <one-line summary of what you did>`. ''
     @ ''If something still remains, say what and keep working.]''"

definition escalating_repeat_nudge :: "int \<Rightarrow> string" where
  "escalating_repeat_nudge count =
     (if count = 3 then
        ''[harness: you have produced the identical tool result 3 times. If you are just confirming a green state, stop and either finish or take a genuinely different action.]''
      else if count = 4 then
        ''[harness: this is now 4 identical tool-result turns; repeating it again will not change the outcome. Finish if the work is done, or take a genuinely different action.]''
      else if count = 5 then
        ''[harness: this is the 5th identical tool-result turn; the next identical turn ENDS the run. Write your FINAL answer / bank your patch NOW.]''
      else [])"

definition spiral_reason :: "spiral_kill \<Rightarrow> spiral \<Rightarrow> string" where
  "spiral_reason kind sp =
     (case kind of
        SpiralKillCycle \<Rightarrow>
          ''no progress: '' @ itoa (sp_cycle_run sp) @ '' discovery turns revisiting only already-seen targets (list_dir/search) '' @ emdash
          @ '' read or edit a specific target, or answer''
      | SpiralKillWander \<Rightarrow>
          ''no progress: '' @ itoa (sp_wander sp) @ '' discovery-only turns without reading, editing, or running anything '' @ emdash
          @ '' follow a pointer to a concrete target, or answer''
      | SpiralKillNone \<Rightarrow> [])"

definition repeated_reason :: "string \<Rightarrow> int \<Rightarrow> string" where
  "repeated_reason action n = ''no progress: repeated '' @ go_quote action @ '' '' @ itoa n @ '' times''"

definition stagnant_reason :: "int \<Rightarrow> string" where
  "stagnant_reason n =
     ''no progress: the same command failure recurred '' @ itoa n @ '' times despite changing actions '' @ emdash
     @ '' the approach is stuck; change strategy or rewrite the file''"

section \<open>Tools\<close>

definition discovery_tools :: "string list" where "discovery_tools = [''list_dir'', ''search'']"
definition read_only_tools :: "string list" where "read_only_tools = [''read_file'', ''search'', ''list_dir'']"
definition observation_cap :: nat where "observation_cap = 12000"

definition normalize_dir_path :: "string \<Rightarrow> string" where
  "normalize_dir_path p = (let q = trim_space p in if q = [] then ''.'' else path_clean q)"

definition text_discovery_target :: "string \<Rightarrow> string \<Rightarrow> string" where
  "text_discovery_target verb arg =
     (if verb = ''list_dir'' then ''list_dir '' @ normalize_dir_path arg else verb @ '' '' @ trim_space arg)"

definition reasoning_signature :: "content_part list \<Rightarrow> string" where
  "reasoning_signature ps = concat (map (\<lambda>p. case p of ReasoningPart raw \<Rightarrow> raw | _ \<Rightarrow> []) ps)"

definition unknown_action :: "string list \<Rightarrow> string" where
  "unknown_action names =
     ''ERROR: no action recognized '' @ emdash @ '' your line must START with `answer` or a tool ('' @ str_join names '', '' @ ''). ''
     @ ''To finish, prefix your conclusion with `answer` (e.g. `answer config.yaml does not exist`); a confirmed absence is a valid answer.''"

text \<open>A tool that fails gives the model an observation, never an end of the run.\<close>

definition dispatch :: "'w loop_deps \<Rightarrow> string \<Rightarrow> string \<Rightarrow> ('w gates, string) state" where
  "dispatch L verb arg =
     (case map_of (lp_tools L) verb of
        None \<Rightarrow> ret (unknown_action (sort (map fst (lp_tools L))))
      | Some run \<Rightarrow> do {
          r \<leftarrow> ext (run arg);
          ret (case r of Inl e \<Rightarrow> ''ERROR: '' @ e | Inr out \<Rightarrow> clip out observation_cap) })"

definition is_error :: "string \<Rightarrow> bool" where
  "is_error obs \<longleftrightarrow> has_prefix obs ''ERROR:''"

section \<open>The turn boundary\<close>

definition stop_here :: "('w gates, turn_end) state \<Rightarrow> ('w gates, turn_end option) state" where
  "stop_here m = do { r \<leftarrow> m; ret (Some r) }"

definition interrupted_result :: run_result where
  "interrupted_result = run_ended Canceled ''run canceled by the caller (interrupt)''"

definition check_budgets :: "'w loop_deps \<Rightarrow> int \<Rightarrow> turn_state \<Rightarrow> ('w gates, turn_end option) state" where
  "check_budgets L i ts = do {
     let pol = d_pol (lp_gate L);
     c \<leftarrow> canceled (lp_gate L);
     if c then ret (Some (TurnStop interrupted_result None (ts\<lparr>ts_iterations := i - 1\<rparr>)))
     else do {
       late \<leftarrow> (if pv_max_wall_clock pol > 0 then ext (lp_expired L) else ret False);
       if late then
         stop_here (stop_rescued L HitDeadline
           (''hit wall-clock budget ('' @ dur_string (pv_max_wall_clock pol) @ '') after '' @ itoa (i - 1) @ '' turn(s)'') ts)
       else if pv_max_total_tokens pol > 0 \<and> pv_max_total_tokens pol \<le> u_total (ts_usage ts) then
         stop_here (stop_rescued L HitBudget
           (''hit token budget ('' @ itoa (u_total (ts_usage ts)) @ '' total tokens >= cap '' @ itoa (pv_max_total_tokens pol)
            @ '') after '' @ itoa (i - 1) @ '' turn(s)'') ts)
       else do {
         sp \<leftarrow> gets g_spend;
         ev \<leftarrow> gets g_ev;
         let d = dollar_budget_stop (pv_max_total_cost_usd pol) (pv_allow_unpriced_spend pol) sp (lp_cost_fn L)
                   (ts_usage ts) (i - 1) ev;
         modify (\<lambda>s. s\<lparr>g_ev := snd d\<rparr>);
         case fst d of
           Some reason \<Rightarrow> stop_here (stop_rescued L HitBudget reason ts)
         | None \<Rightarrow> ret None } } }"

section \<open>The model's turn\<close>

definition loop_request :: "'w loop_deps \<Rightarrow> turn_state \<Rightarrow> request" where
  "loop_request L ts =
     \<lparr> req_system = lp_system L, req_messages = ts_messages ts, req_max_tokens = pv_max_tokens (d_pol (lp_gate L)),
       req_effort = pv_reasoning_effort (d_pol (lp_gate L)), req_tools = [] \<rparr>"

text \<open>A failed call ends the run: as a typed stop that may still be rescued, or with the error.\<close>

definition model_failed :: "'w loop_deps \<Rightarrow> model_error \<Rightarrow> turn_state \<Rightarrow> ('w gates, turn_end) state" where
  "model_failed L e ts = do {
     expired \<leftarrow> ext (lp_expired L);
     c \<leftarrow> canceled (lp_gate L);
     case classify_generate_err c expired (pv_max_wall_clock (d_pol (lp_gate L))) e of
       (oc, reason, err) \<Rightarrow>
         if err \<noteq> None then ret (TurnStop (run_ended oc reason) err ts)
         else if oc = Canceled then ret (TurnStop (run_ended oc reason) None ts)
         else stop_rescued L oc reason ts }"

definition took_reply :: "int \<Rightarrow> message list \<Rightarrow> response \<Rightarrow> turn_state \<Rightarrow> turn_state" where
  "took_reply i msgs resp ts =
     ts\<lparr>ts_iterations := i, ts_usage := add_usage (ts_usage ts) (rs_usage resp),
        ts_messages := msgs @ [assistant_msg (trim_space (response_text resp))],
        ts_last_reasoning := reasoning_signature (rs_content resp)\<rparr>"

definition feed_back :: "string \<Rightarrow> turn_state \<Rightarrow> turn_state" where
  "feed_back s ts = ts\<lparr>ts_messages := ts_messages ts @ [user_msg s]\<rparr>"

definition record_step :: "step \<Rightarrow> turn_state \<Rightarrow> turn_state" where
  "record_step st ts = ts\<lparr>ts_steps := ts_steps ts @ [st]\<rparr>"

section \<open>A claim to be done\<close>

definition claim_input :: "int \<Rightarrow> string \<Rightarrow> turn_state \<Rightarrow> policy_value \<Rightarrow> finish_input" where
  "claim_input i arg ts pol =
     \<lparr> fi_answer = arg, fi_last_run_failed = tk_last_run_failed (ts_tracker ts),
       fi_can_continue = (i < pv_max_iterations pol), fi_trusted = False, fi_phrase = ''you answered'' \<rparr>"

definition answer_turn :: "'w loop_deps \<Rightarrow> int \<Rightarrow> string \<Rightarrow> step \<Rightarrow> turn_state \<Rightarrow> ('w gates, turn_end) state" where
  "answer_turn L i arg st ts0 = do {
     let ts = record_step (st\<lparr>st_grounded := ts_grounded ts0\<rparr>) ts0;
     dec \<leftarrow> finish (lp_gate L) (claim_input i arg ts (d_pol (lp_gate L)));
     ret (case dec of
            FinishContinue fb \<Rightarrow> TurnNext (feed_back fb ts)
          | FinishStop oc reason ans \<Rightarrow> TurnStop ((run_ended oc reason)\<lparr>rr_answer := ans\<rparr>) None ts
          | FinishAnswered ans \<Rightarrow> TurnStop ((run_ended Answered [])\<lparr>rr_answer := ans\<rparr>) None ts) }"

section \<open>Detectors before the action\<close>

text \<open>The same action again: counted, and cut at the threshold that fits the model's reasoning.\<close>

definition action_sig :: "string \<Rightarrow> string \<Rightarrow> string" where "action_sig verb arg = verb @ '' '' @ arg"

definition count_repeat :: "string \<Rightarrow> turn_state \<Rightarrow> turn_state" where
  "count_repeat sig ts =
     ts\<lparr>ts_repeats := (if sig = ts_last_action ts then ts_repeats ts + 1 else 0), ts_last_action := sig\<rparr>"

definition repeat_kill :: "policy_value \<Rightarrow> bool \<Rightarrow> string \<Rightarrow> turn_state \<Rightarrow> bool" where
  "repeat_kill pol advanced sig ts \<longleftrightarrow>
     sig = ts_last_action ts \<and> repeat_threshold (pv_termination pol) advanced \<le> ts_repeats ts + 1"

definition spiral_turn :: "string \<Rightarrow> string \<Rightarrow> turn_state \<Rightarrow> spiral_kill \<times> turn_state" where
  "spiral_turn verb arg ts =
     (if verb \<in> set discovery_tools then
        (case observe_discovery_turn [text_discovery_target verb arg] (ts_spiral ts) of
           (kind, sp) \<Rightarrow> (kind, ts\<lparr>ts_spiral := sp\<rparr>))
      else (SpiralKillNone, ts\<lparr>ts_spiral := spiral_reset (ts_spiral ts)\<rparr>))"

section \<open>The action\<close>

definition skip_note :: string where
  "skip_note = ''(skipped: identical to your previous read; result unchanged) ''"

definition skips_read :: "string \<Rightarrow> string \<Rightarrow> bool \<Rightarrow> turn_state \<Rightarrow> bool" where
  "skips_read verb arg advanced ts \<longleftrightarrow>
     verb \<in> set read_only_tools \<and> action_sig verb arg = ts_last_read_sig ts
     \<and> action_sig verb arg = ts_last_executed ts \<and> \<not> advanced"

text \<open>The observation and what is remembered of it; a repeated read is answered from memory.\<close>

definition act :: "'w loop_deps \<Rightarrow> string \<Rightarrow> string \<Rightarrow> bool \<Rightarrow> turn_state \<Rightarrow> ('w gates, string \<times> turn_state) state" where
  "act L verb arg advanced ts =
     (if skips_read verb arg advanced ts then ret (skip_note @ ts_last_read_obs ts, ts)
      else do {
        obs \<leftarrow> dispatch L verb arg;
        let ts1 = ts\<lparr>ts_last_executed := action_sig verb arg\<rparr>;
        ret (obs,
          if verb \<in> set read_only_tools \<and> \<not> is_error obs
          then ts1\<lparr>ts_last_read_sig := action_sig verb arg, ts_last_read_obs := obs\<rparr> else ts1) })"

text \<open>Diagnostics run only when enough edits are waiting for a green build.\<close>

definition diagnose_due :: "tracker \<Rightarrow> bool" where
  "diagnose_due t \<longleftrightarrow>
     tk_diagnose_cmd t \<noteq> [] \<and> tk_diagnose_after_edits t > 0 \<and> tk_diagnose_after_edits t \<le> tk_edits_since_green t"

definition run_diagnostics :: "'w loop_deps \<Rightarrow> tracker \<Rightarrow> ('w gates, string \<times> tracker) state" where
  "run_diagnostics L t =
     (if diagnose_due t then do {
        r \<leftarrow> run_op (lp_gate L) (tk_diagnose_cmd t) (pv_run_timeout (d_pol (lp_gate L)));
        ret (diagnostics r t) }
      else ret ([], t))"

definition after_action :: "'w loop_deps \<Rightarrow> int \<Rightarrow> string \<Rightarrow> string \<Rightarrow> turn_state \<Rightarrow> ('w gates, string \<times> turn_state) state" where
  "after_action L i verb obs ts =
     (case observe_action i verb (ts_tracker ts) of
        (edited, t1) \<Rightarrow>
          if edited then do {
            d \<leftarrow> run_diagnostics L t1;
            ret (if fst d \<noteq> [] then obs @ nl @ nl @ fst d else obs, ts\<lparr>ts_tracker := snd d\<rparr>) }
          else ret (obs, ts\<lparr>ts_tracker := t1\<rparr>))"

text \<open>One-time hints, in the order in which they are appended.\<close>

definition add_nudges :: "int \<Rightarrow> string \<Rightarrow> turn_state \<Rightarrow> string \<times> turn_state" where
  "add_nudges i obs ts =
     (let (churn, t1) = churn_nudge (ts_tracker ts); (green, t2) = green_repeat_nudge t1; (near_cap, t3) = finish_nudge i t2
      in (obs @ (if churn then churn_nudge_text else []) @ (if green then green_repeat_nudge_text else [])
              @ (if near_cap then finish_nudge_text else []),
          ts\<lparr>ts_tracker := t3\<rparr>))"

text \<open>What goes over the wire: an observation seen before is replaced by a stub, the hints stay.\<close>

definition wire_observation :: "(string \<Rightarrow> string) \<Rightarrow> string \<Rightarrow> int \<Rightarrow> string \<Rightarrow> turn_state \<Rightarrow> string \<times> turn_state" where
  "wire_observation sha raw i obs ts =
     (case dedup_stub sha raw i (ts_seen ts) of
        (Some stub, seen) \<Rightarrow> (stub @ trim_prefix obs raw, ts\<lparr>ts_seen := seen\<rparr>)
      | (None, seen) \<Rightarrow> (obs, ts\<lparr>ts_seen := seen\<rparr>))"

text \<open>After the tool: the stagnation detector, diagnostics, hints, the observation detector, and the
  message to the model.\<close>

definition settle_turn :: "'w loop_deps \<Rightarrow> int \<Rightarrow> string \<Rightarrow> string \<Rightarrow> step \<Rightarrow> string \<Rightarrow> turn_state \<Rightarrow> ('w gates, turn_end) state" where
  "settle_turn L i verb arg st raw ts0 = do {
     let run = (if verb = ''run'' then observe_run raw (ts_tracker ts0) else ((False, 0), ts_tracker ts0));
     let ts1 = ts0\<lparr>ts_tracker := snd run\<rparr>;
     if fst (fst run) then
       stop_rescued L KilledStagnant (stagnant_reason (snd (fst run))) (record_step (st\<lparr>st_observation := raw\<rparr>) ts1)
     else do {
       a \<leftarrow> after_action L i verb raw ts1;
       let fp = action_sig verb arg @ nl @ ''OBSERVATION:'' @ nl @ fst a;
       let n = add_nudges i (fst a) (snd a);
       let seen = observe_tool_observation fp (ts_tracker (snd n));
       let ts2 = (snd n)\<lparr>ts_tracker := snd seen\<rparr>;
       if fst (fst seen) then
         stop_rescued L KilledRepeat (repeated_reason (action_sig verb arg) (snd (fst seen)))
           (record_step (st\<lparr>st_observation := fst n\<rparr>) ts2)
       else do {
         let w = wire_observation (d_sha (lp_gate L)) raw i (fst n) ts2;
         let ts3 = feed_back (''OBSERVATION:'' @ nl @ fst w) (record_step (st\<lparr>st_observation := fst w\<rparr>) (snd w));
         let nudge = escalating_repeat_nudge (snd (fst seen));
         ret (TurnNext (if nudge \<noteq> [] then feed_back nudge ts3 else ts3)) } } }"

definition tool_turn :: "'w loop_deps \<Rightarrow> int \<Rightarrow> string \<Rightarrow> string \<Rightarrow> step \<Rightarrow> turn_state \<Rightarrow> ('w gates, turn_end) state" where
  "tool_turn L i verb arg st ts = do {
     let pol = d_pol (lp_gate L);
     if repeat_kill pol (st_advanced st) (action_sig verb arg) ts then
       stop_rescued L KilledRepeat (repeated_reason (ts_last_action ts) (ts_repeats ts + 1))
         (record_step st ((ts\<lparr>ts_repeats := ts_repeats ts + 1\<rparr>)))
     else do {
       let sp = spiral_turn verb arg (count_repeat (action_sig verb arg) ts);
       if fst sp \<noteq> SpiralKillNone then
         stop_rescued L KilledSpiral (spiral_reason (fst sp) (ts_spiral (snd sp)))
           (record_step (st\<lparr>st_observation := ''harness: run killed by explore-spiral detector: '' @ spiral_reason (fst sp) (ts_spiral (snd sp))\<rparr>) (snd sp))
       else do {
         a \<leftarrow> act L verb arg (st_advanced st) (snd sp);
         whenever (is_mutating_tool verb \<and> \<not> is_error (fst a)) (upd_ev log_mutation);
         let ts1 = (snd a)\<lparr>ts_grounded := ts_grounded (snd a) \<or> \<not> is_error (fst a)\<rparr>;
         settle_turn L i verb arg (st\<lparr>st_grounded := ts_grounded ts1\<rparr>) (fst a) ts1 } } }"

section \<open>The loop\<close>

definition text_turn :: "'w loop_deps \<Rightarrow> int \<Rightarrow> turn_state \<Rightarrow> ('w gates, turn_end) state" where
  "text_turn L i ts = do {
     stop \<leftarrow> check_budgets L i ts;
     case stop of
       Some done \<Rightarrow> ret done
     | None \<Rightarrow> do {
         g \<leftarrow> ext (generate_with_eviction (lp_model L) (pv_stream (d_pol (lp_gate L))) (loop_request L ts));
         case g of
           (resp, msgs, Some e) \<Rightarrow> model_failed L e (ts\<lparr>ts_messages := msgs\<rparr>)
         | (None, msgs, None) \<Rightarrow> ret TurnPanic
         | (Some resp, msgs, None) \<Rightarrow> do {
             charge (lp_gate L) (pv_solver_model (d_pol (lp_gate L))) (rs_usage resp);
             let reply = trim_space (response_text resp);
             let sig = reasoning_signature (rs_content resp);
             let advanced = (sig \<noteq> [] \<and> sig \<noteq> ts_last_reasoning ts);
             let va = parse_action (map fst (lp_tools L)) reply;
             let st = \<lparr> st_iter = i, st_reply = reply, st_verb = fst va, st_arg = snd va, st_observation = [],
                        st_grounded = False, st_usage = rs_usage resp, st_finish = rs_finish resp, st_advanced = advanced \<rparr>;
             let ts1 = took_reply i msgs resp ts;
             if fst va = ''answer'' then answer_turn L i (snd va) st ts1
             else tool_turn L i (fst va) (snd va) st ts1 } } }"

text \<open>The argument counts the turns left.\<close>

fun text_loop :: "'w loop_deps \<Rightarrow> nat \<Rightarrow> turn_state \<Rightarrow> ('w gates, turn_end) state" where
  "text_loop L 0 ts =
     stop_rescued L HitCap
       (''hit iteration cap ('' @ itoa (pv_max_iterations (d_pol (lp_gate L))) @ '') without an answer'') ts"
| "text_loop L (Suc left) ts = do {
     r \<leftarrow> text_turn L (pv_max_iterations (d_pol (lp_gate L)) - int left) ts;
     case r of TurnNext ts' \<Rightarrow> text_loop L left ts' | _ \<Rightarrow> ret r }"

definition run_text_loop :: "'w loop_deps \<Rightarrow> turn_state \<Rightarrow> ('w gates, turn_end) state" where
  "run_text_loop L ts = text_loop L (nat (pv_max_iterations (d_pol (lp_gate L)))) ts"

end
