(* ===== verification/NativeTools.thy ===== *)
theory NativeTools
  imports EditTools TextLoop
begin

text \<open>
  Typed tool calls (\<open>agent/loop_tools.go\<close>, \<open>agent/tools.go\<close>): how the JSON arguments of a call are
  decoded, what a tool makes of them, and the texts by which the detectors recognise a call.
  Field names are matched as \<open>encoding/json\<close> does, without regard to (ASCII) case.
\<close>

section \<open>Decoding arguments\<close>

definition json_struct :: "string \<Rightarrow> (string \<times> json) list option" where
  "json_struct raw = Option.bind (json_parse raw) json_members"

text \<open>What the fields of a target struct accept. A \<open>null\<close> is accepted by all.\<close>

datatype field_kind = FString | FBool | FInt

definition field_accepts :: "field_kind \<Rightarrow> json \<Rightarrow> bool" where
  "field_accepts kind v =
     (case v of
        JNull \<Rightarrow> True
      | JStr s \<Rightarrow> kind = FString
      | JBool b \<Rightarrow> kind = FBool
      | JNum t \<Rightarrow> kind = FInt \<and> atoi t \<noteq> None
      | _ \<Rightarrow> False)"

definition fields_accept :: "(string \<times> field_kind) list \<Rightarrow> (string \<times> json) list \<Rightarrow> bool" where
  "fields_accept spec ms \<longleftrightarrow>
     list_all (\<lambda>(k, v). list_all (\<lambda>(name, kind). equal_fold k name \<longrightarrow> field_accepts kind v) spec) ms"

text \<open>The members of the object, unless the text is no object or a field does not fit.\<close>

definition decode_args :: "(string \<times> field_kind) list \<Rightarrow> string \<Rightarrow> (string \<times> json) list option" where
  "decode_args spec raw =
     (case json_struct raw of None \<Rightarrow> None | Some ms \<Rightarrow> if fields_accept spec ms then Some ms else None)"

text \<open>The value left in a field: the last member of the name that fits; \<open>null\<close> clears a pointer only.\<close>

definition string_field :: "string \<Rightarrow> (string \<times> json) list \<Rightarrow> string" where
  "string_field name ms =
     fold (\<lambda>(k, v) cur. if equal_fold k name then (case v of JStr s \<Rightarrow> s | _ \<Rightarrow> cur) else cur) ms []"

definition bool_field :: "string \<Rightarrow> (string \<times> json) list \<Rightarrow> bool" where
  "bool_field name ms =
     fold (\<lambda>(k, v) cur. if equal_fold k name then (case v of JBool b \<Rightarrow> b | _ \<Rightarrow> cur) else cur) ms False"

definition int_field :: "string \<Rightarrow> (string \<times> json) list \<Rightarrow> int option" where
  "int_field name ms =
     fold (\<lambda>(k, v) cur. if equal_fold k name then (case v of JNum t \<Rightarrow> atoi t | JNull \<Rightarrow> None | _ \<Rightarrow> cur) else cur) ms None"

section \<open>Canonical texts\<close>

text \<open>\<open>json.Compact\<close>: white space outside strings goes; a text that is not JSON stays.\<close>

fun squeeze :: "bool \<Rightarrow> string \<Rightarrow> string" where
  "squeeze quoted [] = []"
| "squeeze True (c # s) =
     (if c = backslash then (case s of [] \<Rightarrow> [c] | e # t \<Rightarrow> c # e # squeeze True t)
      else c # squeeze (c \<noteq> dquote) s)"
| "squeeze False (c # s) = (if json_space c then squeeze False s else c # squeeze (c = dquote) s)"

definition compact_json :: "string \<Rightarrow> string" where
  "compact_json raw = (if json_parse raw = None then raw else squeeze False raw)"

text \<open>\<open>json.Marshal\<close>: a string with the characters of HTML and the two line separators escaped.\<close>

definition unicode_escaped :: "nat \<Rightarrow> string" where
  "unicode_escaped n =
     [backslash, CHR ''u'', hex_digit (n div 4096), hex_digit (n div 256 mod 16), hex_digit (n div 16 mod 16), hex_digit (n mod 16)]"

definition json_byte :: "char \<Rightarrow> string" where
  "json_byte c =
     (let n = (of_char c :: nat) in
      if c = dquote \<or> c = backslash then [backslash, c]
      else if n = 8 then [backslash, CHR ''b''] else if n = 12 then [backslash, CHR ''f'']
      else if n = 10 then [backslash, CHR ''n''] else if n = 13 then [backslash, CHR ''r'']
      else if n = 9 then [backslash, CHR ''t'']
      else if n < 32 \<or> c \<in> set ''<>&'' then unicode_escaped n
      else [c])"

fun json_text :: "string \<Rightarrow> string" where
  "json_text [] = []"
| "json_text (c # s) =
     (if has_prefix (c # s) [CHR 0xE2, CHR 0x80, CHR 0xA8] then unicode_escaped 8232 @ json_text (drop 2 s)
      else if has_prefix (c # s) [CHR 0xE2, CHR 0x80, CHR 0xA9] then unicode_escaped 8233 @ json_text (drop 2 s)
      else json_byte c @ json_text s)"

definition json_quote :: "string \<Rightarrow> string" where
  "json_quote s = dquote # json_text s @ [dquote]"

text \<open>A map has each key once, with its last value, and is written in the order of the keys.\<close>

definition encode_members :: "(string \<times> string) list \<Rightarrow> string" where
  "encode_members es =
     ''{'' @ str_join (map (\<lambda>k. json_quote k @ '':'' @ the (map_of (rev es) k)) (sort (remdups (map fst es)))) '','' @ ''}''"

fun json_encode :: "json \<Rightarrow> string" where
  "json_encode JNull = ''null''"
| "json_encode (JBool b) = (if b then ''true'' else ''false'')"
| "json_encode (JNum t) = t"
| "json_encode (JStr s) = json_quote s"
| "json_encode (JArr vs) = ''['' @ str_join (map json_encode vs) '','' @ '']''"
| "json_encode (JObj ms) = encode_members (map (\<lambda>(k, v). (k, json_encode v)) ms)"

definition canonical_json :: "string \<Rightarrow> string" where
  "canonical_json raw = (case json_parse raw of Some v \<Rightarrow> json_encode v | None \<Rightarrow> compact_json raw)"

section \<open>Calls\<close>

record tool_call =
  tc_id :: string
  tc_name :: string
  tc_args :: string

fun call_of_part :: "content_part \<Rightarrow> tool_call list" where
  "call_of_part (ToolCallPart cid n a) = [\<lparr> tc_id = cid, tc_name = n, tc_args = a \<rparr>]"
| "call_of_part _ = []"

definition tool_calls :: "content_part list \<Rightarrow> tool_call list" where
  "tool_calls ps = concat (map call_of_part ps)"

definition find_call :: "tool_call list \<Rightarrow> string \<Rightarrow> tool_call option" where
  "find_call cs name = find (\<lambda>c. tc_name c = name) cs"

text \<open>A tool of the run (\<open>tool\<close>) has a handler of one argument text, one of typed arguments, or both;
  it acts on the state of the gates, since declaring a reproduction is a tool too. A plain tool
  acts on the world alone.\<close>

type_synonym 'w plain_toolbox = "(string \<times> ('w, string) tool) list"
type_synonym 'w toolbox = "(string \<times> ('w gates, string) tool) list"

definition lift_tool :: "('w, string) tool \<Rightarrow> ('w gates, string) tool" where
  "lift_tool t =
     \<lparr> t_run = map_option (\<lambda>run arg. run_state (ext (run arg))) (t_run t),
       t_run_json = map_option (\<lambda>run raw. run_state (ext (run raw))) (t_run_json t) \<rparr>"

definition lift_tools :: "'w plain_toolbox \<Rightarrow> 'w toolbox" where
  "lift_tools T = map (\<lambda>(name, t). (name, lift_tool t)) T"

definition structured :: "'w toolbox \<Rightarrow> string \<Rightarrow> bool" where
  "structured T name \<longleftrightarrow> (case map_of T name of Some t \<Rightarrow> t_run_json t \<noteq> None | None \<Rightarrow> False)"

definition bridge_arg :: "tool_call \<Rightarrow> string" where
  "bridge_arg c = (case decode_args [(''arg'', FString)] (tc_args c) of Some ms \<Rightarrow> string_field ''arg'' ms | None \<Rightarrow> [])"

definition call_arg :: "'w toolbox \<Rightarrow> tool_call \<Rightarrow> string" where
  "call_arg T c = (if structured T (tc_name c) then compact_json (tc_args c) else bridge_arg c)"

definition signature_arg :: "'w toolbox \<Rightarrow> tool_call \<Rightarrow> string" where
  "signature_arg T c = (if structured T (tc_name c) then canonical_json (tc_args c) else bridge_arg c)"

definition call_sig :: "'w toolbox \<Rightarrow> tool_call \<Rightarrow> string" where
  "call_sig T c = tc_name c @ '' '' @ signature_arg T c"

definition turn_signature :: "'w toolbox \<Rightarrow> tool_call list \<Rightarrow> string" where
  "turn_signature T cs = str_join (map (call_sig T) cs) '' | ''"

definition finish_tool_message :: "tool_call \<Rightarrow> string" where
  "finish_tool_message c =
     (let m = (case decode_args [(''message'', FString)] (tc_args c) of
                 Some ms \<Rightarrow> trim_space (string_field ''message'' ms) | None \<Rightarrow> [])
      in if m \<noteq> [] then m else trim_space (bridge_arg c))"

definition run_command_arg :: "'w toolbox \<Rightarrow> tool_call \<Rightarrow> string" where
  "run_command_arg T c =
     (case (structured T (tc_name c), decode_args [(''command'', FString)] (tc_args c)) of
        (True, Some ms) \<Rightarrow> trim_space (string_field ''command'' ms)
      | _ \<Rightarrow> trim_space (bridge_arg c))"

definition parallel_safe :: "string \<Rightarrow> bool" where
  "parallel_safe name \<longleftrightarrow> name \<in> set [''read_file'', ''search'', ''list_dir'', ''go_doc'']"

definition observe_only_tools :: "string list" where
  "observe_only_tools = [''list_dir'', ''read_file'', ''search'', ''go_doc'']"

definition is_observe_only :: "'w toolbox \<Rightarrow> bool" where
  "is_observe_only T \<longleftrightarrow> list_all (\<lambda>t. fst t \<in> set observe_only_tools) T"

section \<open>Discovery\<close>

definition all_calls_discovery :: "tool_call list \<Rightarrow> bool" where
  "all_calls_discovery cs \<longleftrightarrow> cs \<noteq> [] \<and> list_all (\<lambda>c. tc_name c \<in> set discovery_tools) cs"

text \<open>The decoding error is ignored here: fields that fit are used.\<close>

definition discovery_target_for_call :: "'w toolbox \<Rightarrow> tool_call \<Rightarrow> string" where
  "discovery_target_for_call T c =
     (let ms = (case json_struct (tc_args c) of Some x \<Rightarrow> x | None \<Rightarrow> []);
          path = string_field ''path'' ms; pattern = string_field ''pattern'' ms; arg = string_field ''arg'' ms
      in if tc_name c = ''list_dir'' then ''list_dir '' @ normalize_dir_path (if path = [] then arg else path)
         else if tc_name c = ''search'' then
           ''search '' @ trim_space (if pattern = [] then arg else pattern)
           @ (if pattern \<noteq> [] \<and> trim_space path \<noteq> [] then '' @ '' @ normalize_dir_path path else [])
         else call_sig T c)"

definition discovery_targets :: "'w toolbox \<Rightarrow> tool_call list \<Rightarrow> string list" where
  "discovery_targets T cs = map (discovery_target_for_call T) cs"

section \<open>Running a call\<close>

text \<open>A tool without any handler has no meaning (a nil call).\<close>

definition run_call :: "('s, string) tool \<Rightarrow> tool_call \<Rightarrow> 's \<Rightarrow> (string + string) \<times> 's" where
  "run_call t c = (case t_run_json t of Some f \<Rightarrow> f (tc_args c) | None \<Rightarrow> the (t_run t) (bridge_arg c))"

text \<open>The observation, and whether it is an error.\<close>

definition dispatch_native :: "'w toolbox \<Rightarrow> tool_call \<Rightarrow> ('w gates, string \<times> bool) state" where
  "dispatch_native T c =
     (case map_of T (tc_name c) of
        None \<Rightarrow>
          ret (''ERROR: unknown tool '' @ go_quote (tc_name c) @ '' '' @ emdash @ '' available: ''
               @ str_join (sort (map fst T)) '', '', True)
      | Some t \<Rightarrow> do {
          r \<leftarrow> State (run_call t c);
          ret (case r of Inl e \<Rightarrow> (''ERROR: '' @ e, True) | Inr out \<Rightarrow> (clip out observation_cap, False)) })"

section \<open>The typed handlers of the toolbox\<close>

text \<open>\<open>jerr\<close> is the text of the decoder's error on a raw argument.\<close>

definition with_args :: "(string \<Rightarrow> string) \<Rightarrow> string \<Rightarrow> (string \<times> field_kind) list \<Rightarrow> ((string \<times> json) list \<Rightarrow> 'w tool_run)
    \<Rightarrow> string \<Rightarrow> 'w \<Rightarrow> (string + string) \<times> 'w" where
  "with_args jerr name spec body raw =
     run_state (case decode_args spec raw of
                  None \<Rightarrow> ret (Inl (''invalid '' @ name @ '' arguments: '' @ jerr raw))
                | Some ms \<Rightarrow> body ms)"

definition truncated_args_hint :: "string \<Rightarrow> string \<Rightarrow> string \<Rightarrow> string" where
  "truncated_args_hint name err raw =
     (if \<not> str_contains err ''unexpected end of JSON input'' then []
      else ''your '' @ name @ '' call arrived TRUNCATED: its arguments ('' @ itoa (int (length raw))
        @ '' bytes) were cut off mid-content '' @ emdash
        @ '' the call was too large for one tool call. Do NOT retry the same call; it will be truncated again.'')"

definition with_large_args :: "(string \<Rightarrow> string) \<Rightarrow> string \<Rightarrow> string \<Rightarrow> (string \<times> field_kind) list
    \<Rightarrow> ((string \<times> json) list \<Rightarrow> 'w tool_run) \<Rightarrow> string \<Rightarrow> 'w \<Rightarrow> (string + string) \<times> 'w" where
  "with_large_args jerr name advice spec body raw =
     (let hint = truncated_args_hint name (jerr raw) raw in
      if decode_args spec raw = None \<and> hint \<noteq> [] then run_state (ret (Inl (hint @ advice)))
      else with_args jerr name spec body raw)"

definition write_advice :: string where
  "write_advice =
     '' Write the file in PIECES instead: write_file the first ~40 lines (keep every piece under 1500 bytes '' @ emdash
     @ '' calls start truncating around 2.5 KB), then write_file with '' @ [dquote] @ ''append'' @ [dquote] @ '':true for each next piece.''"

definition edit_advice :: string where
  "edit_advice =
     '' Split the change into several smaller edit_file calls, or rebuild the file with chunked write_file calls (''
     @ [dquote] @ ''append'' @ [dquote] @ '':true).''"

definition read_json :: "'w file_ops \<Rightarrow> read_options \<Rightarrow> (string \<times> json) list \<Rightarrow> 'w tool_run" where
  "read_json F ro ms =
     (let lo = int_field ''from'' ms; hi = int_field ''to'' ms in
      read_file_op F ro (string_field ''path'' ms) (case lo of Some n \<Rightarrow> n | None \<Rightarrow> 1) (case hi of Some n \<Rightarrow> n | None \<Rightarrow> 0)
        (lo \<noteq> None \<or> hi \<noteq> None))"

definition doc_json :: "(string list \<Rightarrow> string list \<Rightarrow> 'w \<Rightarrow> (string + string) \<times> 'w) \<Rightarrow> (string \<times> json) list \<Rightarrow> 'w tool_run" where
  "doc_json doc ms =
     (let package = string_field ''package'' ms; symbol = trim_space (string_field ''symbol'' ms) in
      if trim_space package = [] then
        ret (Inl (''go_doc needs a package import path, e.g. '' @ [dquote] @ ''strings'' @ [dquote] @ '' or '' @ [dquote]
                  @ ''github.com/openai/openai-go'' @ [dquote]))
      else call (doc ((if bool_field ''all'' ms then [''-all''] else []) @ (if bool_field ''src'' ms then [''-src''] else []))
                     (package # (if symbol \<noteq> [] then [symbol] else []))))"

text \<open>\<open>go_doc\<close> itself is given: by its text argument, and by flags and target.\<close>

definition native_toolbox :: "'w file_ops \<Rightarrow> int \<Rightarrow> read_options \<Rightarrow> (string \<Rightarrow> string)
    \<Rightarrow> (string \<Rightarrow> 'w \<Rightarrow> (string + string) \<times> 'w) \<Rightarrow> (string list \<Rightarrow> string list \<Rightarrow> 'w \<Rightarrow> (string + string) \<times> 'w) \<Rightarrow> 'w plain_toolbox" where
  "native_toolbox F timeout ro jerr doc_text doc =
     (let typed = (\<lambda>name.
        if name = ''list_dir'' then
          with_args jerr name [(''path'', FString)] (\<lambda>ms. list_dir_op F (string_field ''path'' ms))
        else if name = ''read_file'' then
          with_args jerr name [(''path'', FString), (''from'', FInt), (''to'', FInt)] (read_json F ro)
        else if name = ''run'' then
          with_args jerr name [(''command'', FString)] (\<lambda>ms. run_tool F (string_field ''command'' ms) timeout)
        else if name = ''search'' then
          with_args jerr name [(''pattern'', FString), (''path'', FString)]
            (\<lambda>ms. search_op F (string_field ''pattern'' ms) (string_field ''path'' ms) timeout)
        else if name = ''go_doc'' then
          with_args jerr name [(''package'', FString), (''symbol'', FString), (''all'', FBool), (''src'', FBool)] (doc_json doc)
        else if name = ''write_file'' then
          with_large_args jerr name write_advice [(''path'', FString), (''content'', FString), (''append'', FBool)]
            (\<lambda>ms. write_file_op F (string_field ''path'' ms) (string_field ''content'' ms) (bool_field ''append'' ms))
        else
          with_large_args jerr name edit_advice [(''path'', FString), (''old'', FString), (''new'', FString), (''mode'', FString)]
            (\<lambda>ms. edit_file_op F (string_field ''path'' ms) (string_field ''old'' ms) (string_field ''new'' ms) (string_field ''mode'' ms)))
      in map (\<lambda>(name, run). (name, \<lparr> t_run = Some run, t_run_json = Some (typed name) \<rparr>)) (default_tools F timeout ro doc_text))"

end
