(* ===== verification/Environment.thy ===== *)
theory Environment
  imports EditTools NativeTools
begin

text \<open>
  What a run sees of its surroundings before the first turn (\<open>agent/env.go\<close>, \<open>agent/gate.go\<close>): the
  working directory, the entries of the root, the dependencies of a Go module, and the warning of
  a baseline that is red.
\<close>

section \<open>Dependencies\<close>

text \<open>The output of \<open>go list -m -json all\<close> is a sequence of objects. A decoder takes one value after
  the other: a literal, or the tokens up to the bracket that closes the first.\<close>

fun closing :: "nat \<Rightarrow> json_token list \<Rightarrow> json_token list \<times> json_token list" where
  "closing d [] = ([], [])"
| "closing d (t # ts) =
     (let d' = (if t = TLBrace \<or> t = TLBrack then Suc d else if t = TRBrace \<or> t = TRBrack then d - 1 else d) in
      if d' = 0 then ([t], ts) else (case closing d' ts of (us, rest) \<Rightarrow> (t # us, rest)))"

lemma closing_shorter: "closing d ts = (us, rest) \<Longrightarrow> ts \<noteq> [] \<Longrightarrow> length rest < length ts"
proof (induction d ts arbitrary: us rest rule: closing.induct)
  case (2 d t ts)
  show ?case
  proof (cases "ts = []")
    case True
    then show ?thesis using "2.prems" by (auto simp: Let_def split: if_splits)
  next
    case False
    then show ?thesis using 2 by (fastforce simp: Let_def split: if_splits prod.splits)
  qed
qed simp

text \<open>The values of the sequence, unless one does not parse.\<close>

function json_values :: "json_token list \<Rightarrow> json list option" where
  "json_values ts =
     (if ts = [] then Some []
      else (case closing 0 ts of (us, rest) \<Rightarrow>
        (case want_value [] us of
           None \<Rightarrow> None
         | Some v \<Rightarrow> map_option (Cons v) (json_values rest))))"
  by auto
termination
  by (relation "measure length") (auto dest: closing_shorter [OF sym])

record go_module =
  gm_path :: string
  gm_version :: string
  gm_main :: bool
  gm_indirect :: bool
  gm_go :: string
  gm_replace :: "(string \<times> string) option"

text \<open>The members of a nested struct pointer: a \<open>null\<close> drops it, an object fills it further.\<close>

definition pointer_field :: "string \<Rightarrow> (string \<times> json) list \<Rightarrow> (string \<times> json) list option" where
  "pointer_field name ms =
     fold (\<lambda>(k, v) cur. if equal_fold k name
       then (case v of JObj es \<Rightarrow> Some ((case cur of None \<Rightarrow> [] | Some xs \<Rightarrow> xs) @ es) | _ \<Rightarrow> None) else cur) ms None"

definition replace_fits :: "(string \<times> json) list \<Rightarrow> bool" where
  "replace_fits ms \<longleftrightarrow>
     list_all (\<lambda>(k, v). equal_fold k ''Replace'' \<longrightarrow>
       (case v of
          JNull \<Rightarrow> True
        | JObj es \<Rightarrow> fields_accept [(''Path'', FString), (''Version'', FString)] es
        | _ \<Rightarrow> False)) ms"

definition decode_module :: "json \<Rightarrow> go_module option" where
  "decode_module v =
     (case json_members v of
        None \<Rightarrow> None
      | Some ms \<Rightarrow>
          if fields_accept [(''Path'', FString), (''Version'', FString), (''Main'', FBool), (''Indirect'', FBool), (''GoVersion'', FString)] ms
             \<and> replace_fits ms
          then Some \<lparr> gm_path = string_field ''Path'' ms, gm_version = string_field ''Version'' ms,
                 gm_main = bool_field ''Main'' ms, gm_indirect = bool_field ''Indirect'' ms,
                 gm_go = string_field ''GoVersion'' ms,
                 gm_replace = map_option (\<lambda>es. (string_field ''Path'' es, string_field ''Version'' es)) (pointer_field ''Replace'' ms) \<rparr>
          else None)"

fun decode_modules :: "json list \<Rightarrow> go_module list option" where
  "decode_modules [] = Some []"
| "decode_modules (v # vs) =
     (case decode_module v of None \<Rightarrow> None | Some m \<Rightarrow> map_option (Cons m) (decode_modules vs))"

definition ellipsis :: string where "ellipsis = [CHR 0xE2, CHR 0x80, CHR 0xA6]"

definition module_line :: "go_module \<Rightarrow> string" where
  "module_line m =
     nl @ ''    '' @ gm_path m @
     (case gm_replace m of
        Some (path, version) \<Rightarrow> '' => '' @ path @ (if version \<noteq> [] then ''@'' @ version else [])
      | None \<Rightarrow> '' '' @ gm_version m)"

definition format_dep_digest :: "string \<Rightarrow> nat \<Rightarrow> string" where
  "format_dep_digest out limit =
     (case Option.bind (Option.bind (json_tokens out) json_values) decode_modules of
        None \<Rightarrow> []
      | Some ms \<Rightarrow>
          (case find gm_main ms of
             None \<Rightarrow> []
           | Some m \<Rightarrow>
               let direct = filter (\<lambda>m. \<not> gm_main m \<and> \<not> gm_indirect m) ms in
               nl @ ''- dependencies (module '' @ gm_path m @ '', go '' @ gm_go m @ ''; effective versions):''
               @ concat (map module_line (take limit direct))
               @ (if length direct > limit then
                    nl @ ''    '' @ ellipsis @ '' (+'' @ itoa (int (length direct - limit)) @ '' more direct; go_doc a package for details)''
                  else [])))"

section \<open>The environment\<close>

text \<open>The sandbox of a run: its capabilities, its files, the working directory if it reports one, and
  the dependency listing of the go tool on the host.\<close>

record 'w sandbox_view =
  sv_caps :: capabilities
  sv_files :: "'w file_ops"
  sv_workdir :: "string option"
  sv_go_list :: "'w \<Rightarrow> (string + string) \<times> 'w"

definition env_max_entries :: nat where "env_max_entries = 40"

definition workdir_line :: "string option \<Rightarrow> string" where
  "workdir_line wd =
     (case wd of
        None \<Rightarrow> []
      | Some d \<Rightarrow> if d = [] then []
          else nl @ ''- working directory: '' @ d @ '' '' @ emdash
            @ '' `run` commands START here, and file-tool paths are relative to it; do NOT cd elsewhere to find the project'')"

definition entry_text :: "dir_entry \<Rightarrow> string" where
  "entry_text e = (if entry_is_dir e then ''dir '' else ''file '') @ entry_name e"

definition entries_line :: "dir_entry list \<Rightarrow> string" where
  "entries_line es =
     nl @ ''- top-level entries: '' @ str_join (map entry_text (take env_max_entries es)) '', ''
     @ (if length es > env_max_entries then
          '', '' @ ellipsis @ '' (+'' @ itoa (int (length es - env_max_entries)) @ '' more '' @ emdash @ '' list_dir '' @ [dquote] @ ''.'' @ [dquote] @ '' for the rest)''
        else [])"

definition observe_dependencies :: "'w sandbox_view \<Rightarrow> ('w, string) state" where
  "observe_dependencies S = do {
     r \<leftarrow> call (sv_go_list S);
     ret (case r of Inl e \<Rightarrow> [] | Inr out \<Rightarrow> format_dep_digest out 30) }"

text \<open>Whatever cannot be observed is left out.\<close>

definition observe_environment :: "'w sandbox_view option \<Rightarrow> bool \<Rightarrow> ('w, string) state" where
  "observe_environment sb include_deps =
     (case sb of
        None \<Rightarrow> ret []
      | Some S \<Rightarrow> do {
          r \<leftarrow> call (fo_list (sv_files S) ''.'');
          listing \<leftarrow> (case r of
              Inl e \<Rightarrow> ret []
            | Inr es \<Rightarrow>
                if es = [] then ret []
                else do {
                  deps \<leftarrow> (if include_deps \<and> list_ex (\<lambda>e. entry_name e = ''go.mod'' \<and> \<not> entry_is_dir e) es
                           then observe_dependencies S else ret []);
                  ret (entries_line es @ deps) });
          let b = workdir_line (sv_workdir S) @ listing;
          ret (if b = [] then [] else nl @ nl @ ''ENVIRONMENT (observed at start):'' @ b) })"

section \<open>A red baseline\<close>

definition warning_sign :: string where "warning_sign = [CHR 0xE2, CHR 0x9A, CHR 0xA0, CHR 0xEF, CHR 0xB8, CHR 0x8F]"

definition baseline_preamble :: "'w gates \<Rightarrow> string" where
  "baseline_preamble s =
     (if \<not> g_base_red s then []
      else
        nl @ nl @ warning_sign @ '' PRE-FLIGHT VERIFY BASELINE '' @ emdash @ '' RED '' @ warning_sign @ nl
        @ ''The verify command:'' @ nl @ ''  '' @ vs_cmd (g_vs s) @ nl
        @ ''ALREADY fails on the UNTOUCHED workspace (before any changes):'' @ nl
        @ (if g_base_out s = [] then ''(no output)'' else clip (g_base_out s) 2000) @ nl @ nl
        @ ''If your task is to fix this failure, proceed. If your task is unrelated, the gate may be unsatisfiable''
        @ (if deliverable_shaped_gate (vs_cmd (g_vs s)) then
             '' (the gate contains grep/test -f style deliverable checks '' @ emdash
             @ '' a red baseline may be BY DESIGN until the task's artifacts exist)''
           else [])
        @ '' '' @ emdash @ '' complete your task, then answer explaining that the verify command ''
        @ ''was already red before any changes rather than grinding against it.'')"

end
