(* ===== verification/AutoVerify.thy ===== *)
theory AutoVerify
  imports EditTools NativeTools VerifyGate
begin

text \<open>
  Deriving a verify command from the markers of a project (\<open>agent/autoverify.go\<close>), its preflight on
  the untouched workspace, and what the result does to the verification state of a run
  (\<open>agent/loop_shared.go\<close>). The sandbox is a \<open>file_ops\<close>; that the derivation has five seconds shows in
  the answers of its calls.
\<close>

section \<open>Looking at the project\<close>

definition env_observe_timeout :: int where "env_observe_timeout = 5 * second"
definition auto_verify_baseline_timeout :: int where "auto_verify_baseline_timeout = 90 * second"

definition marker_exists :: "'w file_ops \<Rightarrow> string \<Rightarrow> ('w, bool) state" where
  "marker_exists F name = do {
     r \<leftarrow> call (fo_read F name);
     case r of
       Inr data \<Rightarrow> ret True
     | Inl e \<Rightarrow> do {
         l \<leftarrow> call (fo_list F ''.'');
         ret (case l of Inl e \<Rightarrow> False | Inr es \<Rightarrow> list_ex (\<lambda>x. entry_name x = name) es) } }"

fun any_marker :: "'w file_ops \<Rightarrow> string list \<Rightarrow> ('w, bool) state" where
  "any_marker F [] = ret False"
| "any_marker F (n # ns) = do { b \<leftarrow> marker_exists F n; if b then ret True else any_marker F ns }"

definition has_python_marker :: "'w file_ops \<Rightarrow> ('w, bool) state" where
  "has_python_marker F = any_marker F [''pyproject.toml'', ''setup.cfg'', ''pytest.ini'', ''tox.ini'', ''tests'']"

definition succeeds :: "'w file_ops \<Rightarrow> string \<Rightarrow> ('w, bool) state" where
  "succeeds F cmd = do {
     r \<leftarrow> run_tool F cmd env_observe_timeout;
     ret (case r of Inl e \<Rightarrow> False | Inr out \<Rightarrow> \<not> is_run_failure out) }"

definition has_command :: "'w file_ops \<Rightarrow> string \<Rightarrow> ('w, bool) state" where
  "has_command F name = succeeds F (''command -v '' @ name)"

section \<open>package.json and Makefile\<close>

text \<open>A field of type \<open>map[string]string\<close>: \<open>null\<close> empties it, objects add to it, and the last value of a
  key stands. A value that is no string spoils the whole document.\<close>

definition string_value :: "json \<Rightarrow> string option" where
  "string_value v = (case v of JStr s \<Rightarrow> Some s | JNull \<Rightarrow> Some [] | _ \<Rightarrow> None)"

definition strings_fit :: "json \<Rightarrow> bool" where
  "strings_fit v \<longleftrightarrow>
     (case v of JNull \<Rightarrow> True | JObj ms \<Rightarrow> list_all (\<lambda>(k, x). string_value x \<noteq> None) ms | _ \<Rightarrow> False)"

definition map_field :: "string \<Rightarrow> (string \<times> json) list \<Rightarrow> (string \<times> string) list" where
  "map_field name ms =
     fold (\<lambda>(k, v) cur. if equal_fold k name
       then (case v of JObj es \<Rightarrow> map (\<lambda>(x, y). (x, the (string_value y))) (rev es) @ cur | _ \<Rightarrow> [])
       else cur) ms []"

definition decode_maps :: "string list \<Rightarrow> string \<Rightarrow> (string \<times> json) list option" where
  "decode_maps names raw =
     (case json_struct raw of
        None \<Rightarrow> None
      | Some ms \<Rightarrow>
          if list_all (\<lambda>(k, v). list_ex (equal_fold k) names \<longrightarrow> strings_fit v) ms then Some ms else None)"

definition placeholder_test :: string where
  "placeholder_test = ''echo '' @ [dquote] @ ''Error: no test specified'' @ [dquote] @ '' && exit 1''"

definition script_of :: "(string \<times> json) list \<Rightarrow> string \<Rightarrow> string" where
  "script_of ms name = (case map_of (map_field ''scripts'' ms) name of Some s \<Rightarrow> trim_space s | None \<Rightarrow> [])"

definition node_test_clause :: "string \<Rightarrow> bool \<times> bool" where
  "node_test_clause pkg =
     (case decode_maps [''scripts''] pkg of
        None \<Rightarrow> (False, False)
      | Some ms \<Rightarrow>
          (script_of ms ''build'' \<noteq> [], script_of ms ''test'' \<noteq> [] \<and> script_of ms ''test'' \<noteq> placeholder_test))"

definition dependency_fields :: "string list" where
  "dependency_fields = [''dependencies'', ''devDependencies'', ''peerDependencies'', ''optionalDependencies'']"

definition package_has_dep :: "string \<Rightarrow> string \<Rightarrow> bool" where
  "package_has_dep pkg dep =
     (case decode_maps dependency_fields pkg of
        None \<Rightarrow> False
      | Some ms \<Rightarrow> list_ex (\<lambda>f. map_of (map_field f ms) dep \<noteq> None) dependency_fields)"

text \<open>The regular expression \<open>(?m)^target\s*:\<close>. White space may run over line ends.\<close>

definition re_space :: "char \<Rightarrow> bool" where
  "re_space c \<longleftrightarrow> c \<in> {CHR 0x09, CHR 0x0A, CHR 0x0C, CHR 0x0D, CHR '' ''}"

definition target_here :: "string \<Rightarrow> string \<Rightarrow> bool" where
  "target_here target s \<longleftrightarrow> has_prefix s target \<and> has_prefix (dropWhile re_space (drop (length target) s)) '':''"

fun after_newlines :: "string \<Rightarrow> string list" where
  "after_newlines [] = []"
| "after_newlines (c # s) = (if c = CHR 0x0A then [s] else []) @ after_newlines s"

definition make_has_target :: "string \<Rightarrow> string \<Rightarrow> bool" where
  "make_has_target data target \<longleftrightarrow> list_ex (target_here target) (data # after_newlines data)"

section \<open>The derivation\<close>

text \<open>A command and the marker it comes from; both empty when nothing is derived.\<close>

definition detect_go :: "'w file_ops \<Rightarrow> ('w, string \<times> string) state" where
  "detect_go F = do {
     b \<leftarrow> has_command F ''go'';
     ret (if b then (''go build ./... && go test ./...'', ''go.mod'') else ([], [])) }"

definition detect_rust :: "'w file_ops \<Rightarrow> ('w, string \<times> string) state" where
  "detect_rust F = do {
     b \<leftarrow> has_command F ''cargo'';
     ret (if b then (''cargo build && cargo test'', ''Cargo.toml'') else ([], [])) }"

definition pkg_manager :: "'w file_ops \<Rightarrow> ('w, string) state" where
  "pkg_manager F = do {
     pnpm \<leftarrow> marker_exists F ''pnpm-lock.yaml'';
     if pnpm then ret ''pnpm''
     else do {
       yarn \<leftarrow> marker_exists F ''yarn.lock'';
       if yarn then ret ''yarn''
       else do {
         bun \<leftarrow> marker_exists F ''bun.lockb'';
         ret (if bun then ''bun'' else ''npm'') } } }"

definition detect_node :: "'w file_ops \<Rightarrow> ('w, string \<times> string) state" where
  "detect_node F = do {
     r \<leftarrow> call (fo_read F ''package.json'');
     case r of
       Inl e \<Rightarrow> ret ([], [])
     | Inr pkg \<Rightarrow> do {
         pm \<leftarrow> pkg_manager F;
         here \<leftarrow> has_command F pm;
         if \<not> here then ret ([], [])
         else if snd (node_test_clause pkg) then
           ret ((if fst (node_test_clause pkg) then pm @ '' run build && '' else []) @ pm @ '' run test'', ''package.json test script'')
         else do {
           ts \<leftarrow> marker_exists F ''tsconfig.json'';
           if \<not> ts \<or> \<not> package_has_dep pkg ''typescript'' then ret ([], [])
           else do {
             tsc \<leftarrow> has_command F ''tsc'';
             ret (if tsc then (''tsc --noEmit'', ''tsconfig.json'') else ([], [])) } } } }"

definition detect_python :: "'w file_ops \<Rightarrow> ('w, string \<times> string) state" where
  "detect_python F = do {
     pytest \<leftarrow> succeeds F (''python -c '' @ [CHR 0x27] @ ''import pytest'' @ [CHR 0x27]);
     if pytest then ret (''python -m pytest -q'', ''pytest config'')
     else do {
       tests \<leftarrow> any_marker F [''tests'', ''pytest.ini'', ''tox.ini''];
       if tests then ret ([], [])
       else do {
         py \<leftarrow> has_command F ''python'';
         ret (if py then (''python -m compileall .'', ''python project marker'') else ([], [])) } } }"

definition detect_make :: "'w file_ops \<Rightarrow> ('w, string \<times> string) state" where
  "detect_make F = do {
     r \<leftarrow> call (fo_read F ''Makefile'');
     case r of
       Inl e \<Rightarrow> ret ([], [])
     | Inr data \<Rightarrow> do {
         b \<leftarrow> has_command F ''make'';
         ret (if \<not> b then ([], [])
              else if make_has_target data ''test'' then (''make test'', ''Makefile test target'')
              else if make_has_target data ''check'' then (''make check'', ''Makefile check target'')
              else ([], [])) } }"

text \<open>All four root markers are looked for; more than one means no derivation at all.\<close>

definition derive_verify_cmd :: "'w file_ops option \<Rightarrow> string \<Rightarrow> ('w, string \<times> string) state" where
  "derive_verify_cmd sb rdir =
     (case sb of
        None \<Rightarrow> ret ([], [])
      | Some F \<Rightarrow>
          if rdir = [] then ret ([], [])
          else do {
            go \<leftarrow> marker_exists F ''go.mod'';
            rust \<leftarrow> marker_exists F ''Cargo.toml'';
            node \<leftarrow> marker_exists F ''package.json'';
            python \<leftarrow> has_python_marker F;
            if length (filter id [go, rust, node, python]) > 1 then ret ([], [])
            else if go then detect_go F
            else if rust then detect_rust F
            else if node then detect_node F
            else if python then detect_python F
            else detect_make F })"

section \<open>The preflight\<close>

record auto_resolution =
  ar_cmd :: string
  ar_provenance :: string
  ar_derived :: bool
  ar_disarm :: string

definition nothing_derived :: auto_resolution where
  "nothing_derived = \<lparr> ar_cmd = [], ar_provenance = [], ar_derived = False, ar_disarm = [] \<rparr>"

definition disarm_note :: "string \<Rightarrow> string + string \<Rightarrow> string" where
  "disarm_note cmd out =
     (case out of
        Inl e \<Rightarrow> ''auto-verify: disarmed `'' @ cmd @ ''` because the baseline could not run: '' @ e
      | Inr o1 \<Rightarrow>
          if \<not> is_run_failure o1 then []
          else if is_run_timeout o1 then
            ''auto-verify: disarmed `'' @ cmd @ ''` because the baseline timed out after '' @ dur_string auto_verify_baseline_timeout
          else ''auto-verify: disarmed `'' @ cmd @ ''` because it is already red on the untouched workspace'')"

definition probe_auto_verify :: "'w file_ops option \<Rightarrow> string \<Rightarrow> ('w, auto_resolution) state" where
  "probe_auto_verify sb rdir = do {
     d \<leftarrow> derive_verify_cmd sb rdir;
     case (sb, fst d = []) of
       (Some F, False) \<Rightarrow> do {
         out \<leftarrow> run_tool F (fst d) auto_verify_baseline_timeout;
         ret \<lparr> ar_cmd = fst d, ar_provenance = snd d, ar_derived = True, ar_disarm = disarm_note (fst d) out \<rparr> }
     | _ \<Rightarrow> ret nothing_derived }"

definition apply_auto_verify :: "auto_resolution \<Rightarrow> verify_state \<Rightarrow> verify_state" where
  "apply_auto_verify r vs0 =
     (let vs = vs0\<lparr>vs_resolved := True\<rparr>; vs1 = vs\<lparr>vs_skip_baseline := True\<rparr> in
      if \<not> ar_derived r then vs
      else if ar_disarm r \<noteq> [] then
        record_resolution ''pre-run'' ''verify_cmd'' (ar_cmd r) (ar_provenance r) ''verify-gate'' True (ar_disarm r) vs1
      else record_resolution ''pre-run'' ''verify_cmd'' (ar_cmd r) (ar_provenance r) ''verify-gate'' False
             ''auto-derived soft verify gate''
             (vs1\<lparr>vs_cmd := ar_cmd r, vs_auto_soft := True, vs_verify_continue := True, vs_provenance := ar_provenance r\<rparr>))"

definition resolve_auto_verify :: "'w file_ops option \<Rightarrow> policy_value \<Rightarrow> string \<Rightarrow> verify_state \<Rightarrow> ('w, verify_state) state" where
  "resolve_auto_verify sb pol rdir vs =
     (if \<not> vs_auto_verify vs \<or> vs_cmd vs \<noteq> [] \<or> rdir = [] \<or> vs_resolved vs then ret vs
      else if pv_min_isolation pol \<noteq> IsolationNone then ret (vs\<lparr>vs_resolved := True\<rparr>)
      else do { r \<leftarrow> probe_auto_verify sb rdir; ret (apply_auto_verify r vs) })"

text \<open>\<open>runVerifyState\<close>: a run of a session starts from the session's state, another from the policy.\<close>

definition run_verify_state :: "policy_value \<Rightarrow> verify_state option \<Rightarrow> verify_state" where
  "run_verify_state pol session = (case session of Some vs \<Rightarrow> vs | None \<Rightarrow> new_verify_state pol)"

section \<open>What arms a gate\<close>

definition derivable :: "(string \<times> string) set" where
  "derivable = {(''go build ./... && go test ./...'', ''go.mod''), (''cargo build && cargo test'', ''Cargo.toml''),
     (''tsc --noEmit'', ''tsconfig.json''), (''python -m pytest -q'', ''pytest config''),
     (''python -m compileall .'', ''python project marker''), (''make test'', ''Makefile test target''),
     (''make check'', ''Makefile check target'')}
   \<union> {((if b then pm @ '' run build && '' else []) @ pm @ '' run test'', ''package.json test script'')
        |b pm. pm \<in> {''pnpm'', ''yarn'', ''bun'', ''npm''}}"

lemma wp_pkg_manager: "wp (pkg_manager F) (\<lambda>pm _. pm \<in> {''pnpm'', ''yarn'', ''bun'', ''npm''}) w"
  unfolding pkg_manager_def by (intro wp_intros wpI) auto

lemma wp_derive: "wp (derive_verify_cmd sb rdir) (\<lambda>d _. d = ([], []) \<or> (d \<in> derivable \<and> sb \<noteq> None \<and> rdir \<noteq> [])) w"
proof (cases sb)
  case (Some F)
  let ?Q = "\<lambda>d _. d = ([], []) \<or> (d \<in> derivable \<and> Some F \<noteq> None \<and> rdir \<noteq> [])"
  have skip: "wp (State_Monad.bind m f) Q u" if "\<And>a t. wp (f a) Q t" for m f Q u
    using that by (simp add: wp_bind wp_use [OF wp_true])
  have d: "wp (detect_go F) ?Q u" "wp (detect_rust F) ?Q u" "wp (detect_python F) ?Q u" "wp (detect_make F) ?Q u"
    if "rdir \<noteq> []" for u
    using that Some unfolding detect_go_def detect_rust_def detect_python_def detect_make_def
    by (intro skip wp_intros; simp add: derivable_def)+
  have n: "wp (detect_node F) ?Q u" if "rdir \<noteq> []" for u
    using that Some unfolding detect_node_def
    by (intro wp_intros wp_use [OF wp_pkg_manager] wpI) (auto simp: derivable_def)
  show ?thesis unfolding derive_verify_cmd_def Some option.case
    by (intro wp_ifI skip) (rule d n wp_retI | assumption | simp)+
qed (simp add: derive_verify_cmd_def wp_ret)

definition sh_command :: "string \<Rightarrow> int \<Rightarrow> command" where
  "sh_command cmd timeout = \<lparr> cmd_path = ''sh'', cmd_args = [''-c'', cmd], cmd_dir = [], cmd_timeout = timeout \<rparr>"

definition preflighted :: "'w file_ops option \<Rightarrow> auto_resolution \<Rightarrow> 'w \<Rightarrow> bool" where
  "preflighted sb r w' \<longleftrightarrow>
     (ar_derived r \<longrightarrow> (ar_cmd r, ar_provenance r) \<in> derivable
       \<and> (ar_disarm r = [] \<longrightarrow> (\<exists>F w1 out. sb = Some F
            \<and> fo_exec F (sh_command (ar_cmd r) auto_verify_baseline_timeout) w1 = (Inr out, w') \<and> exit_code out = 0)))"

lemma wp_probe: "wp (probe_auto_verify sb rdir) (\<lambda>r w'. preflighted sb r w') w"
  unfolding probe_auto_verify_def
proof (intro wp_bindI, rule wp_use [OF wp_derive], goal_cases)
  case (1 d w1)
  show ?case
  proof (cases "\<exists>F. sb = Some F \<and> fst d \<noteq> []")
    case False
    then show ?thesis by (cases sb) (auto simp: wp_ret preflighted_def nothing_derived_def)
  next
    case True
    then obtain F where F: "sb = Some F" "fst d \<noteq> []" by auto
    then have d: "d \<in> derivable" using 1 by auto
    obtain a w2 where ex: "fo_exec F (sh_command (fst d) auto_verify_baseline_timeout) w1 = (a, w2)" by fastforce
    then show ?thesis using F d
      by (cases a) (auto simp: run_tool_def wp_bind wp_ret wp_call sh_command_def [symmetric] preflighted_def disarm_note_def
          split: if_splits)
  qed
qed

text \<open>C8: An automatic gate is armed only on evidence. If a run without a verify command ends up with one
  that it derived itself, then the user asked for automatic verification and no isolation floor
  was set, no earlier decision had been taken, the command is one of the few that belong to a
  project marker, it has just been run to the end on the untouched workspace and ended with
  exit code zero, the gate it arms is advisory, and the derivation is on the record.\<close>

theorem auto_gate_sound:
  assumes "run_state (resolve_auto_verify sb pol rdir vs) w = (vs', w')" and "vs_cmd vs = []" and "vs_cmd vs' \<noteq> []"
  shows "vs_auto_verify vs \<and> \<not> vs_resolved vs \<and> vs_resolved vs' \<and> pv_min_isolation pol = IsolationNone
    \<and> (vs_cmd vs', vs_provenance vs') \<in> derivable
    \<and> (\<exists>F w1 out. sb = Some F \<and> fo_exec F (sh_command (vs_cmd vs') auto_verify_baseline_timeout) w1 = (Inr out, w')
         \<and> exit_code out = 0)
    \<and> vs_auto_soft vs' \<and> vs_skip_baseline vs'
    \<and> (\<exists>ev. vs_events vs' = vs_events vs @ [ev] \<and> rn_value ev = vs_cmd vs' \<and> \<not> rn_disarmed ev)"
proof -
  have go: "vs_auto_verify vs" "\<not> vs_resolved vs" "rdir \<noteq> []" "pv_min_isolation pol = IsolationNone"
    using assms by (auto simp: resolve_auto_verify_def split: if_splits)
  then obtain r where r: "run_state (probe_auto_verify sb rdir) w = (r, w')" "vs' = apply_auto_verify r vs"
    using assms by (auto simp: resolve_auto_verify_def split: prod.splits)
  have p: "preflighted sb r w'" using wpD [OF wp_probe r(1)] .
  have "ar_derived r \<and> ar_disarm r = []"
    using r(2) assms(2,3) by (auto simp: apply_auto_verify_def record_resolution_def Let_def split: if_splits)
  then show ?thesis using p go r(2)
    by (auto simp: apply_auto_verify_def record_resolution_def preflighted_def Let_def)
qed

text \<open>A Go project in which every command succeeds.\<close>

definition go_project :: "unit file_ops" where
  "go_project =
     \<lparr> fo_go_roots = [], fo_host_read = (\<lambda>p n w. (Inl (NotExist []), w)), fo_host_list = (\<lambda>p w. (Inl (NotExist []), w)),
       fo_host_rg = (\<lambda>a t w. (HostMissing, w)), fo_limit = None,
       fo_read = (\<lambda>p w. (if p = ''go.mod'' then Inr ''module m'' else Inl (NotExist []), w)),
       fo_write = (\<lambda>p c w. (None, w)), fo_append = None, fo_list = (\<lambda>p w. (Inr [], w)),
       fo_exec = (\<lambda>c w. (Inr \<lparr> exit_code = 0, stdout = [], stderr = [], duration = 0, timed_out = False \<rparr>, w)),
       fo_go_symbols = (\<lambda>p s. None) \<rparr>"

lemma go_project_runs:
  "run_state (marker_exists go_project name) w = (name = ''go.mod'', w)"
  "run_state (succeeds go_project cmd) w = (True, w)" "\<exists>out. run_state (run_tool go_project cmd n) w = (Inr out, w) \<and> \<not> is_run_failure out"
  by (simp_all add: marker_exists_def succeeds_def run_tool_def go_project_def call_def)

theorem auto_gate_sound_witness:
  "\<exists>vs' w1 out. run_state (resolve_auto_verify (Some go_project) base_policy ''/p''
       ((new_verify_state base_policy)\<lparr>vs_auto_verify := True\<rparr>)) () = (vs', ())
     \<and> vs_cmd vs' = ''go build ./... && go test ./...''
     \<and> fo_exec go_project (sh_command (vs_cmd vs') auto_verify_baseline_timeout) w1 = (Inr out, ()) \<and> exit_code out = 0"
proof -
  let ?vs = "(new_verify_state base_policy)\<lparr>vs_auto_verify := True\<rparr>"
  have d: "run_state (derive_verify_cmd (Some go_project) ''/p'') () = ((''go build ./... && go test ./...'', ''go.mod''), ())"
    by (simp add: derive_verify_cmd_def has_python_marker_def detect_go_def has_command_def go_project_runs)
  obtain out where o1: "run_state (run_tool go_project ''go build ./... && go test ./...'' auto_verify_baseline_timeout) () = (Inr out, ())"
      "\<not> is_run_failure out" using go_project_runs(3) by blast
  have vs: "vs_auto_verify ?vs" "vs_cmd ?vs = []" "\<not> vs_resolved ?vs" "pv_min_isolation base_policy = IsolationNone"
    by (simp_all add: new_verify_state_def base_policy_def)
  obtain vs' where r: "run_state (resolve_auto_verify (Some go_project) base_policy ''/p'' ?vs) () = (vs', ())"
      "vs_cmd vs' = ''go build ./... && go test ./...''"
    using vs by (simp add: resolve_auto_verify_def probe_auto_verify_def d o1 disarm_note_def apply_auto_verify_def record_resolution_def)
  then show ?thesis using auto_gate_sound [OF r(1) vs(2)] by auto
qed

end
