(* ===== verification/Toolset.thy ===== *)
theory Toolset
  imports NativeTools
begin

text \<open>
  The tools of a run as the loops put them together (\<open>wrapTools\<close> in \<open>agent/loop_shared.go\<close>,
  \<open>addReproTools\<close> in \<open>agent/repro.go\<close>): the write tools behind the diff scope and then behind the
  test fence; in a reproduction-first run two tools more, and the write tools behind the lock.
\<close>

section \<open>The path of a call\<close>

text \<open>The fence and the scope look at a path only if the arguments decode; the lock takes what a failed
  decoding left.\<close>

definition decoded_path :: "string \<Rightarrow> string option" where
  "decoded_path raw = map_option (string_field ''path'') (decode_args [(''path'', FString)] raw)"

definition salvaged_path :: "string \<Rightarrow> string option" where
  "salvaged_path raw = map_option (string_field ''path'') (json_struct raw)"

section \<open>The wrappers\<close>

definition wrap_tools :: "(string \<Rightarrow> 'w \<Rightarrow> bool) \<Rightarrow> policy_value \<Rightarrow> string \<Rightarrow> string \<Rightarrow> 'w plain_toolbox \<Rightarrow> 'w plain_toolbox" where
  "wrap_tools not_exist pol al rdir T =
     apply_test_fence not_exist decoded_path (pv_test_fence pol) al (pv_repro_first pol) rdir
       (apply_diff_scope decoded_path (pv_diff_scope pol) al T)"

definition declare_tool :: "'w gate_deps \<Rightarrow> (string \<Rightarrow> string) \<Rightarrow> ('w gates, string) tool" where
  "declare_tool D jerr =
     \<lparr> t_run = None,
       t_run_json = Some (\<lambda>raw. run_state
         (case decode_args [(''Path'', FString), (''Cmd'', FString)] raw of
            None \<Rightarrow> ret (Inl (jerr raw))
          | Some ms \<Rightarrow> declare_repro D (string_field ''Path'' ms) (string_field ''Cmd'' ms))) \<rparr>"

definition skip_tool :: "(string \<Rightarrow> string) \<Rightarrow> ('w gates, string) tool" where
  "skip_tool jerr =
     \<lparr> t_run = None,
       t_run_json = Some (\<lambda>raw. run_state
         (case decode_args [(''Reason'', FString)] raw of
            None \<Rightarrow> ret (Inl (jerr raw))
          | Some ms \<Rightarrow> skip_repro (string_field ''Reason'' ms))) \<rparr>"

text \<open>A tool of the same name is replaced.\<close>

definition add_repro_tools :: "'w gate_deps \<Rightarrow> (string \<Rightarrow> string) \<Rightarrow> 'w toolbox \<Rightarrow> 'w toolbox" where
  "add_repro_tools D jerr T =
     (if \<not> pv_repro_first (d_pol D) then T
      else map (\<lambda>(name, t). (name, if name \<in> set mutation_tools then lock_repro_tool D salvaged_path t else t))
             (AList.update ''skip_repro'' (skip_tool jerr) (AList.update ''declare_repro'' (declare_tool D jerr) T)))"

text \<open>The tools of a native run, from plain ones.\<close>

definition native_tools :: "'w gate_deps \<Rightarrow> (string \<Rightarrow> 'w \<Rightarrow> bool) \<Rightarrow> (string \<Rightarrow> string) \<Rightarrow> 'w plain_toolbox \<Rightarrow> 'w toolbox" where
  "native_tools D not_exist jerr T =
     add_repro_tools D jerr (lift_tools (wrap_tools not_exist (d_pol D) (d_alias D) (d_root D) T))"

text \<open>Those of a text run, where every tool needs its handler of one argument text.\<close>

definition text_tools :: "'w gate_deps \<Rightarrow> (string \<Rightarrow> 'w \<Rightarrow> bool) \<Rightarrow> 'w plain_toolbox
    \<Rightarrow> (string \<times> (string \<Rightarrow> 'w \<Rightarrow> (string + string) \<times> 'w)) list" where
  "text_tools D not_exist T =
     map (\<lambda>(name, t). (name, the (t_run t))) (wrap_tools not_exist (d_pol D) (d_alias D) (d_root D) T)"

end
