(* ===== verification/Standing.thy ===== *)
theory Standing
  imports Finish
begin

text \<open>
  The standing block of the native loop (\<open>agent/standing.go\<close>): what the run changed so far and what
  was last verified, with a tag that says whether the files moved since. Also the opening text
  about the verify gate and the skip filter it carries over (\<open>agent/env.go\<close>).
\<close>

section \<open>The skip filter of a verify command\<close>

definition blank_char :: "char \<Rightarrow> bool" where
  "blank_char c \<longleftrightarrow> c = CHR '' '' \<or> c = CHR 0x09"

definition skip_value :: "string \<Rightarrow> string" where
  "skip_value v =
     (if v = [] then []
      else if hd v \<in> {CHR 0x27, dquote} then
        (let q = hd v; body = takeWhile (\<lambda>c. c \<noteq> q) (tl v) in
         if length body = length (tl v) then [] else ''-skip '' @ q # body @ [q])
      else (let w = takeWhile (\<lambda>c. \<not> blank_char c) v in if w = [] then [] else ''-skip '' @ w))"

text \<open>The rest of the command, with the character before it.\<close>

function skip_filter :: "char option \<Rightarrow> string \<Rightarrow> string" where
  "skip_filter before s =
     (case str_index s ''-skip'' of
        None \<Rightarrow> []
      | Some k \<Rightarrow>
          (let prev = (if k = 0 then before else Some (s ! (k - 1))); rest = drop (k + 5) s in
           if (case prev of Some c \<Rightarrow> \<not> blank_char c | None \<Rightarrow> False) then skip_filter (Some (CHR ''p'')) rest
           else if rest = [] then []
           else if hd rest = CHR ''='' then skip_value (tl rest)
           else if blank_char (hd rest) then skip_value (dropWhile blank_char rest)
           else skip_filter (Some (CHR ''p'')) rest))"
  by pat_completeness auto

termination
proof (relation "measure (\<lambda>(before, s). length s)", goal_cases)
  case (2 before s k prev rest)
  from str_index_Some [OF 2(1)] have "k + 5 \<le> length s" by simp
  then have "length s - (k + 5) < length s" by linarith
  with 2 show ?case by simp
next
  case (3 before s k prev rest)
  from str_index_Some [OF 3(1)] have "k + 5 \<le> length s" by simp
  then have "length s - (k + 5) < length s" by linarith
  with 3 show ?case by simp
qed simp

definition verify_skip_filter :: "string \<Rightarrow> string" where
  "verify_skip_filter cmd = skip_filter None cmd"

definition skip_hint :: string where
  "skip_hint = '' The gate deliberately skips these '' @ emdash @ '' carry the filter or you will see unrelated red tests.''"

definition verify_gate_preamble :: "verify_state \<Rightarrow> string" where
  "verify_gate_preamble vs =
     (let filtered = verify_skip_filter (vs_cmd vs) in
      if vs_cmd vs = [] then []
      else nl @ nl @ ''VERIFY GATE: `'' @ vs_cmd vs @ ''`''
        @ (if vs_provenance vs \<noteq> [] then '' (auto-derived from '' @ vs_provenance vs @ '')'' else [])
        @ ''. The harness runs this authoritatively when you finish. If you want mid-run signal, run ONLY tests scoped to the package(s) you changed (for example, `''
        @ ''go test ./pkg/you/changed/'' @ (if filtered \<noteq> [] then '' '' @ filtered else []) @ ''`).''
        @ (if filtered \<noteq> [] then skip_hint else [])
        @ '' NEVER run the full suite or the full verify command yourself.'')"

section \<open>What changed\<close>

definition standing_diff_cap :: nat where "standing_diff_cap = 6000"
definition standing_stat_file_cap :: nat where "standing_stat_file_cap = 40"

definition rune_count :: "string \<Rightarrow> nat" where "rune_count s = length (runes s)"

definition trim_newlines :: "string \<Rightarrow> string" where "trim_newlines s = trim_right_by (\<lambda>c. c = CHR 0x0A) s"

definition bounded_stat :: "string \<Rightarrow> string" where
  "bounded_stat stat =
     (if rune_count stat \<le> standing_diff_cap then stat
      else (let ls = split_on (CHR 0x0A) (trim_newlines stat);
                short = trim_space (last ls); files = butlast ls;
                kept = take standing_stat_file_cap files
            in str_join ((if short \<noteq> [] then [short] else []) @ kept
                 @ (if length kept < length files then
                      [ellipsis @ '' and '' @ itoa (int (length files - length kept)) @ '' more files'']
                    else [])) nl))"

definition changes_title :: string where "changes_title = ''# Your changes so far (vs session start)'' @ nl"

definition render_diff_section :: "string \<Rightarrow> string \<Rightarrow> string" where
  "render_diff_section stat0 diff0 =
     (let diff = trim_newlines diff0; body = bounded_stat (trim_newlines stat0);
          under_body = (\<lambda>t. if body \<noteq> [] then body @ nl @ t else t);
          shown = (if standing_diff_cap \<le> rune_count body \<or> diff = [] then body
                   else if int (rune_count diff) \<le> int standing_diff_cap - int (rune_count body) - 2 then under_body diff
                   else under_body (''(full diff is '' @ itoa (int (rune_count diff)) @ '' runes '' @ emdash @ '' over the ''
                          @ itoa (int standing_diff_cap) @ '' cap; showing summary only, use read_file for specifics)''))
      in changes_title @ clip shown standing_diff_cap)"

text \<open>\<open>standingState\<close> without its index file.\<close>

record standing =
  sd_last_tree :: string
  sd_last_diff :: string

definition new_standing :: standing where
  "new_standing = \<lparr> sd_last_tree = [], sd_last_diff = [] \<rparr>"

text \<open>The trees of the workspace, read through an index of their own; a missing root is an error.\<close>

record 'w standing_deps =
  so_root :: string
  so_tree :: "'w \<Rightarrow> (string + string) \<times> 'w"
  so_stat :: "string \<Rightarrow> string \<Rightarrow> 'w \<Rightarrow> (string + string) \<times> 'w"
  so_diff :: "string \<Rightarrow> string \<Rightarrow> 'w \<Rightarrow> (string + string) \<times> 'w"

definition current_tree :: "'w standing_deps \<Rightarrow> ('w gates, string option) state" where
  "current_tree S =
     (if so_root S = [] then ret None
      else do { r \<leftarrow> ext (so_tree S); ret (case r of Inl e \<Rightarrow> None | Inr t \<Rightarrow> Some t) })"

definition no_changes_text :: string where
  "no_changes_text = ''# Your changes so far: none yet (working tree matches session start)''"

definition render_diff :: "'w standing_deps \<Rightarrow> string \<Rightarrow> string \<Rightarrow> standing \<Rightarrow> ('w gates, standing) state" where
  "render_diff S base cur sd =
     (let keep = (\<lambda>t. sd\<lparr>sd_last_tree := cur, sd_last_diff := t\<rparr>) in
      if base = [] then ret (keep ''# Your changes so far: unavailable (no session-start git baseline)'')
      else if cur = sd_last_tree sd \<and> sd_last_diff sd \<noteq> [] then ret sd
      else if cur = base then ret (keep no_changes_text)
      else do {
        stat \<leftarrow> ext (so_stat S base cur);
        case stat of
          Inl e \<Rightarrow> ret (keep (''# Your changes so far: unavailable (could not render diff stat: '' @ e @ '')''))
        | Inr st \<Rightarrow> do {
            diff \<leftarrow> ext (so_diff S base cur);
            ret (keep (case diff of
                         Inl e \<Rightarrow> ''# Your changes so far: unavailable (could not render diff: '' @ e @ '')''
                       | Inr d \<Rightarrow> render_diff_section st d)) } })"

section \<open>What was verified\<close>

definition arrow :: string where "arrow = [CHR 0xE2, CHR 0x86, CHR 0x92]"

definition verification_word :: "verification_record \<Rightarrow> string" where
  "verification_word r =
     (case vr_status r of
        EvidencePassed \<Rightarrow> ''PASS''
      | EvidenceFailed \<Rightarrow> ''FAIL''
      | _ \<Rightarrow>
          (case vr_cause r of
             CauseTimeout \<Rightarrow> ''TIMEOUT'' | CauseEnvironment \<Rightarrow> ''ENV-FAULT'' | CauseCancellation \<Rightarrow> ''CANCELED''
           | CauseExecutionError \<Rightarrow> ''EXEC-ERROR'' | _ \<Rightarrow> ''UNKNOWN''))"

definition stale_tag :: string where
  "stale_tag = ''  [STALE: files changed since this ran '' @ emdash @ '' re-run to confirm]''"

text \<open>An unread tree is \<open>None\<close>.\<close>

definition freshness_tag :: "string \<Rightarrow> string option \<Rightarrow> string" where
  "freshness_tag run_tree cur =
     (if run_tree = [] then []
      else if cur = None \<or> cur = Some [] then ''  [FRESHNESS UNKNOWN: could not read working tree]''
      else if cur \<noteq> Some run_tree then stale_tag else [])"

definition run_line :: "string \<Rightarrow> verification_record \<Rightarrow> string \<Rightarrow> string" where
  "run_line label r tag = label @ '': `'' @ vr_command r @ ''` '' @ arrow @ '' '' @ verification_word r @ tag"

definition gate_lines :: "tracker \<Rightarrow> string \<Rightarrow> string option \<Rightarrow> bool \<Rightarrow> string list" where
  "gate_lines t cmd cur unchanged =
     (let v = tk_last_verify t in
      if vr_command v = [] then
        [if unchanged then
           ''gate: `'' @ cmd @ ''` '' @ emdash @ '' no file changes yet this session; nothing to verify (the harness runs it authoritatively at finish)''
         else
           ''gate: `'' @ cmd @ ''` '' @ emdash @ '' NOT run yet this session; the closing gate runs authoritatively at finish. For mid-run confidence, run only tests scoped to the package(s) you changed.''
           @ (if verify_skip_filter cmd \<noteq> [] then skip_hint else [])]
      else run_line ''gate'' v (if unchanged then [] else freshness_tag (vr_tree v) cur)
           # (if vr_output v \<noteq> [] then [vr_output v] else []))"

definition render_verification :: "tracker \<Rightarrow> string \<Rightarrow> string option \<Rightarrow> bool \<Rightarrow> string" where
  "render_verification t cmd cur unchanged =
     (let r = tk_last_run t in
      if cmd \<noteq> [] then
        str_join (gate_lines t cmd cur unchanged
          @ (if vr_command r \<noteq> [] \<and> trim_space (vr_command r) \<noteq> trim_space (vr_command (tk_last_verify t)) then
               [run_line ''last check (not the gate)'' r (freshness_tag (vr_tree r) cur)]
             else [])) nl
      else if vr_command r \<noteq> [] then
        str_join (run_line ''last check'' r (freshness_tag (vr_tree r) cur) # (if vr_output r \<noteq> [] then [vr_output r] else [])) nl
      else ''last check: none yet'')"

definition standing_header :: "string \<Rightarrow> bool \<Rightarrow> bool \<Rightarrow> string" where
  "standing_header diff_section measured red =
     ''=== STANDING CONTEXT (auto-refreshed each turn '' @ emdash @ '' do NOT run `git diff` or re-read'' @ nl
     @ ''    files just to reconstruct this summary; read files when you need details not'' @ nl
     @ ''    shown here) ==='' @ nl @ nl
     @ trim_newlines diff_section
     @ nl @ nl @ ''# Last verification'' @ nl
     @ (if measured then ''baseline at session start: '' @ (if red then ''RED'' else ''GREEN'') @ nl else [])"

definition render_standing_block :: "string \<Rightarrow> tracker \<Rightarrow> string \<Rightarrow> string option \<Rightarrow> bool \<Rightarrow> bool \<Rightarrow> bool \<Rightarrow> string" where
  "render_standing_block diff_section t cmd cur unchanged measured red =
     standing_header diff_section measured red @ render_verification t cmd cur unchanged
     @ nl @ ''=== END STANDING CONTEXT ===''"

definition standing_block :: "'w standing_deps \<Rightarrow> string \<Rightarrow> tracker \<Rightarrow> standing \<Rightarrow> ('w gates, string \<times> standing) state" where
  "standing_block S cmd t sd = do {
     cur \<leftarrow> current_tree S;
     base \<leftarrow> gets g_std_base;
     measured \<leftarrow> gets g_base_measured;
     red \<leftarrow> gets g_base_red;
     sd' \<leftarrow> (case cur of None \<Rightarrow> ret sd | Some c \<Rightarrow> render_diff S base c sd);
     ret (render_standing_block
            (case cur of None \<Rightarrow> ''# Your changes so far: unavailable (could not read working tree)'' | Some c \<Rightarrow> sd_last_diff sd')
            t (trim_space cmd) cur (base \<noteq> [] \<and> cur = Some base) measured red, sd') }"

section \<open>Freshness\<close>

lemma str_contains_join: "s \<in> set ls \<Longrightarrow> str_contains s p \<Longrightarrow> str_contains (str_join ls sep) p"
proof (induction ls sep rule: str_join.induct)
  case (3 w v ws sep)
  then show ?case
    by (auto intro: str_contains_append1 str_contains_append2)
qed auto

lemma contains_self: "str_contains (a @ p @ b) p"
  by (auto simp: str_contains_iff)

lemma run_line_tag: "str_contains (run_line label r tag) tag"
  unfolding run_line_def by (metis append.assoc append_Nil2 contains_self)

lemma run_line_word: "str_contains (run_line label r tag) (arrow @ '' '' @ verification_word r)"
proof -
  have "run_line label r tag = (label @ '': `'' @ vr_command r @ ''` '') @ (arrow @ '' '' @ verification_word r) @ tag"
    by (simp add: run_line_def)
  then show ?thesis using contains_self by metis
qed

lemma block_freshness:
  assumes "cmd \<noteq> []" "vr_command (tk_last_verify t) \<noteq> []" "vr_tree (tk_last_verify t) \<noteq> []"
  shows "(cur \<noteq> Some (vr_tree (tk_last_verify t)) \<longrightarrow> cur \<noteq> None \<longrightarrow> cur \<noteq> Some [] \<longrightarrow>
      str_contains (render_standing_block d t cmd cur False measured red) stale_tag)
    \<and> (cur = None \<longrightarrow>
      str_contains (render_standing_block d t cmd cur False measured red) ''[FRESHNESS UNKNOWN'')
    \<and> str_contains (render_standing_block d t cmd cur u measured red) (arrow @ '' '' @ verification_word (tk_last_verify t))"
proof -
  have up: "str_contains (render_standing_block d t cmd cur u measured red) p"
    if "str_contains l p" "l \<in> set (gate_lines t cmd cur u)" for l p u cur
  proof -
    have "str_contains (render_verification t cmd cur u) p"
      unfolding render_verification_def Let_def using assms(1) str_contains_join [OF _ that(1)] that(2) by auto
    then show ?thesis unfolding render_standing_block_def
      by (rule str_contains_append2 [OF str_contains_append1])
  qed
  have line: "run_line ''gate'' (tk_last_verify t) (if u then [] else freshness_tag (vr_tree (tk_last_verify t)) cur)
      \<in> set (gate_lines t cmd cur u)" for u cur
    using assms(2) by (simp add: gate_lines_def Let_def)
  have tag: "str_contains (render_standing_block d t cmd cur False measured red) (freshness_tag (vr_tree (tk_last_verify t)) cur)"
    using up [OF run_line_tag line [of False cur, unfolded if_False]] .
  have unread: "freshness_tag (vr_tree (tk_last_verify t)) None = ''  [FRESHNESS UNKNOWN: could not read working tree]''"
    using assms(3) by (simp add: freshness_tag_def)
  have in_tag: "str_contains ''  [FRESHNESS UNKNOWN: could not read working tree]'' ''[FRESHNESS UNKNOWN''"
    by code_simp
  have "str_contains (run_line label r ''  [FRESHNESS UNKNOWN: could not read working tree]'') ''[FRESHNESS UNKNOWN''" for label r
    unfolding run_line_def by (intro str_contains_append2 in_tag)
  then have unknown: "str_contains (render_standing_block d t cmd None False measured red) ''[FRESHNESS UNKNOWN''"
    using up line [of False None] unread by (metis (full_types))
  have stale: "freshness_tag (vr_tree (tk_last_verify t)) cur = stale_tag"
    if "cur \<noteq> Some (vr_tree (tk_last_verify t))" "cur \<noteq> None" "cur \<noteq> Some []"
    using that assms(3) by (cases cur) (simp_all add: freshness_tag_def)
  show ?thesis using tag stale unknown up [OF run_line_word line [of u cur]] by metis
qed

text \<open>C33: The standing block does not pass off an old verification as current. Say the gate has
  run and its run was tied to a tree. Then the block the turn is shown names the outcome of
  that run, and when the workspace now reads as another tree, which is not the tree of the
  session's start, it marks the run as stale; when the workspace cannot be read it says that
  freshness is unknown.\<close>

theorem standing_freshness:
  assumes "so_root S \<noteq> []" "trim_space cmd \<noteq> []" "vr_command (tk_last_verify t) \<noteq> []"
    and "vr_tree (tk_last_verify t) \<noteq> []"
    and run: "run_state (standing_block S cmd t sd) g = ((block, sd'), g')"
  shows "str_contains block (arrow @ '' '' @ verification_word (tk_last_verify t))
    \<and> (case fst (so_tree S (g_world g)) of
         Inl e \<Rightarrow> str_contains block ''[FRESHNESS UNKNOWN''
       | Inr now \<Rightarrow> now \<notin> {[], vr_tree (tk_last_verify t), g_std_base g} \<longrightarrow> str_contains block stale_tag)"
proof (cases "so_tree S (g_world g)")
  case (Pair answer w)
  show ?thesis
  proof (cases answer)
    case (Inl e)
    then show ?thesis using run Pair assms(1) block_freshness [OF assms(2-4)]
      by (auto simp: standing_block_def current_tree_def ext_def)
  next
    case (Inr now)
    obtain x h where r: "run_state (render_diff S (g_std_base g) now sd) (g\<lparr>g_world := w\<rparr>) = (x, h)"
      by (metis prod.exhaust)
    have block: "block = render_standing_block (sd_last_diff x) t (trim_space cmd) (Some now)
        (g_std_base g \<noteq> [] \<and> Some now = Some (g_std_base g)) (g_base_measured g) (g_base_red g)"
      using run Pair Inr assms(1) r by (auto simp: standing_block_def current_tree_def ext_def)
    show ?thesis
      using block_freshness [OF assms(2-4)] Pair Inr unfolding block by auto
  qed
qed

definition demo_standing :: "unit standing_deps" where
  "demo_standing = \<lparr> so_root = ''/w'', so_tree = (\<lambda>w. (Inr ''t2'', w)),
     so_stat = (\<lambda>a b w. (Inr '' f.go | 2 +-'', w)), so_diff = (\<lambda>a b w. (Inr ''+x'', w)) \<rparr>"

definition demo_verified :: tracker where
  "demo_verified = (new_tracker base_policy ''go test'' 8)\<lparr>tk_last_verify :=
     zero_record\<lparr>vr_status := EvidencePassed, vr_command := ''go test'', vr_tree := ''t1''\<rparr>\<rparr>"

theorem standing_freshness_witness:
  "str_contains (fst (fst (run_state (standing_block demo_standing ''go test'' demo_verified new_standing)
     (start_gates (new_verify_state base_policy) None None None ())))) stale_tag"
proof -
  let ?g = "start_gates (new_verify_state base_policy) None None None ()"
  obtain b sd g' where run: "run_state (standing_block demo_standing ''go test'' demo_verified new_standing) ?g = ((b, sd), g')"
    by (metis prod.exhaust)
  have "trim_space ''go test'' \<noteq> []" by code_simp
  moreover have "so_root demo_standing \<noteq> []"
    "vr_command (tk_last_verify demo_verified) \<noteq> []" "vr_tree (tk_last_verify demo_verified) = ''t1''"
    by (simp_all add: demo_standing_def demo_verified_def)
  ultimately show ?thesis
    using standing_freshness [of demo_standing "''go test''" demo_verified new_standing ?g b sd g'] run
    by (simp add: demo_standing_def start_gates_def)
qed

end
