(* ===== verification/NativeLoop.thy ===== *)
theory NativeLoop
  imports TextLoop NativeTools Standing
begin

text \<open>
  The native loop (\<open>RunNative\<close> in \<open>agent/loop_tools.go\<close>): the model answers with typed tool calls,
  any number in a turn, and ends by calling none or by calling the finish tool. The budgets, the
  closing gate, the detectors and the rescue are those of the text loop, which this theory uses;
  what differs is the transcript (every call must be answered by a result), the detectors' keys
  (a turn, not a call) and the standing block.
\<close>

section \<open>State\<close>

text \<open>\<open>cacheStats\<close>: how much of a prompt could have come from the cache, and how much did.\<close>

record cache_stats =
  cs_prev :: int
  cs_expected :: int
  cs_actual :: int
  cs_miss :: int

definition cache_observe :: "int \<Rightarrow> int \<Rightarrow> cache_stats \<Rightarrow> cache_stats" where
  "cache_observe prompt cached cs =
     (let expected = (if cs_prev cs > 0 then min (cs_prev cs) prompt else 0) in
      \<lparr> cs_prev = prompt, cs_expected = cs_expected cs + expected, cs_actual = cs_actual cs + cached,
        cs_miss = cs_miss cs + max 0 (expected - cached) \<rparr>)"

definition hit_pct :: "cache_stats \<Rightarrow> real" where
  "hit_pct cs = (if cs_expected cs = 0 then 0 else 100 * of_int (cs_actual cs) / of_int (cs_expected cs))"

text \<open>The variables of the loop: those it shares with the text loop, where \<open>ts_last_action\<close> is the
  signature of the last turn, and its own.\<close>

record native_state =
  ns_turns :: turn_state
  ns_last_text :: string
  ns_block :: string
  ns_standing :: standing
  ns_cache :: cache_stats
  ns_answer_nudged :: bool
  ns_say_nudged :: bool

definition start_native :: "turn_state \<Rightarrow> native_state" where
  "start_native ts =
     \<lparr> ns_turns = ts, ns_last_text = [], ns_block = [], ns_standing = new_standing,
       ns_cache = \<lparr> cs_prev = 0, cs_expected = 0, cs_actual = 0, cs_miss = 0 \<rparr>,
       ns_answer_nudged = False, ns_say_nudged = False \<rparr>"

record 'w native_deps =
  nd_loop :: "'w loop_deps"
  nd_tools :: "'w toolbox"
  nd_schemas :: "string list"
  nd_standing :: "'w standing_deps"

abbreviation nd_gate :: "'w native_deps \<Rightarrow> 'w gate_deps" where "nd_gate N \<equiv> lp_gate (nd_loop N)"
abbreviation nd_pol :: "'w native_deps \<Rightarrow> policy_value" where "nd_pol N \<equiv> d_pol (nd_gate N)"

datatype native_end =
    NativeNext native_state
  | NativeStop run_result "model_error option" native_state
  | NativePanic

definition lift_end :: "native_state \<Rightarrow> turn_end \<Rightarrow> native_end" where
  "lift_end ns e =
     (case e of
        TurnNext ts \<Rightarrow> NativeNext (ns\<lparr>ns_turns := ts\<rparr>)
      | TurnStop r err ts \<Rightarrow> NativeStop r err (ns\<lparr>ns_turns := ts\<rparr>)
      | TurnPanic \<Rightarrow> NativePanic)"

definition native_stopped :: "'w native_deps \<Rightarrow> outcome \<Rightarrow> string \<Rightarrow> native_state \<Rightarrow> ('w gates, native_end) state" where
  "native_stopped N oc reason ns = do {
     e \<leftarrow> stop_rescued (nd_loop N) oc reason (ns_turns ns);
     ret (lift_end ns e) }"

definition on_turns :: "(turn_state \<Rightarrow> turn_state) \<Rightarrow> native_state \<Rightarrow> native_state" where
  "on_turns f ns = ns\<lparr>ns_turns := f (ns_turns ns)\<rparr>"

definition say :: "message \<Rightarrow> turn_state \<Rightarrow> turn_state" where
  "say m ts = ts\<lparr>ts_messages := ts_messages ts @ [m]\<rparr>"

definition assistant_turn :: "content_part list \<Rightarrow> message" where
  "assistant_turn ps = \<lparr> m_role = RoleAssistant, m_parts = ps \<rparr>"

section \<open>Texts\<close>

definition empty_turn_text :: "string \<Rightarrow> string" where
  "empty_turn_text name =
     ''You ended your turn without saying anything. Use the '' @ go_quote name
     @ '' tool to send a short message '' @ emdash @ '' that is how you finish your turn.''"

definition finish_nudge_native :: string where
  "finish_nudge_native =
     ''[hint: your last build/test run passed and you haven't edited any files for several turns '' @ emdash
     @ '' the task may already be complete. If it is, FINISH NOW: reply with your final answer as plain text and do NOT call a tool. ''
     @ ''If something still remains, keep working.]''"

definition answer_nudge_native :: string where
  "answer_nudge_native =
     ''[hint: you are almost out of turns. STOP exploring now and give your FINAL answer as plain text '' @ emdash
     @ '' do NOT call another tool. Answer from what you have already read; an unanswered run produces nothing.]''"

definition say_nudge_text :: "int \<Rightarrow> string \<Rightarrow> string" where
  "say_nudge_text left name =
     ''[hint: your action budget is nearly spent ('' @ itoa left @ '' turn(s) left). Wrap up NOW: call the ''
     @ go_quote name @ '' tool with a short message '' @ emdash
     @ '' your files are saved either way, but a message you never send is lost.]''"

definition finish_tool_nudge_window :: int where "finish_tool_nudge_window = 2"

definition not_executed :: string where
  "not_executed = ''not executed: run stopped by the no-progress detector''"

section \<open>Before the model\<close>

text \<open>The standing block is sent when it changed.\<close>

definition standing_message :: "'w native_deps \<Rightarrow> native_state \<Rightarrow> ('w gates, native_state) state" where
  "standing_message N ns =
     (if \<not> pv_standing_context (nd_pol N) then ret ns
      else do {
        cmd \<leftarrow> gets (\<lambda>s. vs_cmd (g_vs s));
        b \<leftarrow> standing_block (nd_standing N) cmd (ts_tracker (ns_turns ns)) (ns_standing ns);
        let ns1 = ns\<lparr>ns_standing := snd b\<rparr>;
        ret (if fst b \<noteq> [] \<and> fst b \<noteq> ns_block ns then (on_turns (feed_back (fst b)) ns1)\<lparr>ns_block := fst b\<rparr> else ns1) })"

definition native_request :: "'w native_deps \<Rightarrow> turn_state \<Rightarrow> request" where
  "native_request N ts = (loop_request (nd_loop N) ts)\<lparr>req_tools := nd_schemas N\<rparr>"

text \<open>The last prose, which is the answer of a run that ends without one.\<close>

definition heard :: "response \<Rightarrow> native_state \<Rightarrow> native_state" where
  "heard resp ns =
     (let txt = trim_space (response_text resp) in if txt \<noteq> [] then ns\<lparr>ns_last_text := txt\<rparr> else ns)"

definition took_response :: "int \<Rightarrow> message list \<Rightarrow> response \<Rightarrow> native_state \<Rightarrow> native_state" where
  "took_response i msgs resp ns =
     heard resp (on_turns (\<lambda>ts. ts\<lparr>ts_iterations := i, ts_usage := add_usage (ts_usage ts) (rs_usage resp), ts_messages := msgs\<rparr>)
       (ns\<lparr>ns_cache := cache_observe (u_prompt (rs_usage resp)) (u_cached (rs_usage resp)) (ns_cache ns)\<rparr>))"

section \<open>A claim to be done\<close>

definition native_claim :: "int \<Rightarrow> string \<Rightarrow> bool \<Rightarrow> string \<Rightarrow> native_state \<Rightarrow> policy_value \<Rightarrow> finish_input" where
  "native_claim i ans trusted phrase ns pol =
     (claim_input i ans (ns_turns ns) pol)\<lparr>fi_trusted := trusted, fi_phrase := phrase\<rparr>"

definition native_decision :: "finish_decision \<Rightarrow> native_state \<Rightarrow> native_end" where
  "native_decision dec ns =
     (case dec of
        FinishContinue fb \<Rightarrow> NativeNext (on_turns (feed_back fb) ns)
      | FinishStop oc reason ans \<Rightarrow> NativeStop ((run_ended oc reason)\<lparr>rr_answer := ans\<rparr>) None ns
      | FinishAnswered ans \<Rightarrow> NativeStop ((run_ended Answered [])\<lparr>rr_answer := ans\<rparr>) None ns)"

text \<open>A turn without calls. A silent one is not accepted while a finish tool is asked for and turns
  are left: a model that is still thinking goes on, another one is told how to finish.\<close>

definition no_call_turn :: "'w native_deps \<Rightarrow> int \<Rightarrow> response \<Rightarrow> step \<Rightarrow> native_state \<Rightarrow> ('w gates, native_end) state" where
  "no_call_turn N i resp st ns =
     (let pol = nd_pol N; answer = trim_space (response_text resp); said = say (assistant_turn (rs_content resp)) in
      if answer = [] \<and> pv_finish_tool pol \<noteq> [] \<and> i < pv_max_iterations pol then
        ret (NativeNext
          (if st_advanced st then on_turns (\<lambda>ts. (said ts)\<lparr>ts_last_reasoning := reasoning_signature (rs_content resp)\<rparr>) ns
           else on_turns (\<lambda>ts. feed_back (empty_turn_text (pv_finish_tool pol)) (said ts)) ns))
      else do {
        let ns1 = on_turns (\<lambda>ts. said (record_step (st\<lparr>st_reply := answer, st_verb := ''answer'', st_arg := answer, st_grounded := ts_grounded ts\<rparr>) ts)) ns;
        dec \<leftarrow> finish (nd_gate N) (native_claim i answer False ''you stopped calling tools'' ns1 pol);
        ret (native_decision dec ns1) })"

section \<open>Runs of commands\<close>

text \<open>\<open>observeRun\<close> and \<open>recordNativeRun\<close> after a \<open>run\<close>; the run is tied to the tree of the workspace.\<close>

definition saw_run :: "'w native_deps \<Rightarrow> tool_call \<Rightarrow> string \<Rightarrow> turn_state \<Rightarrow> ('w gates, (bool \<times> int) \<times> turn_state) state" where
  "saw_run N c obs ts =
     (if tc_name c \<noteq> ''run'' then ret ((False, 0), ts)
      else (case observe_run obs (ts_tracker ts) of
        (kill, t1) \<Rightarrow> do {
          tree \<leftarrow> (if pv_standing_context (nd_pol N) then current_tree (nd_standing N) else ret None);
          ret (kill, ts\<lparr>ts_tracker := record_run (run_command_arg (nd_tools N) c) obs (case tree of Some t \<Rightarrow> t | None \<Rightarrow> []) t1\<rparr>) }))"

text \<open>Usage and narration of a turn ride on its first step.\<close>

definition rest_of :: "step \<Rightarrow> step" where
  "rest_of st = st\<lparr>st_usage := zero_usage, st_reply := []\<rparr>"

definition step_of_call :: "'w native_deps \<Rightarrow> step \<Rightarrow> tool_call \<Rightarrow> step" where
  "step_of_call N st c = st\<lparr>st_verb := tc_name c, st_arg := call_arg (nd_tools N) c\<rparr>"

definition grounded_by :: "bool \<Rightarrow> turn_state \<Rightarrow> turn_state" where
  "grounded_by is_err ts = ts\<lparr>ts_grounded := ts_grounded ts \<or> \<not> is_err\<rparr>"

section \<open>The finish tool\<close>

text \<open>Calls beside the finish call run first; those that carry its identifier are passed over.\<close>

definition beside_call :: "'w native_deps \<Rightarrow> step \<Rightarrow> tool_call \<Rightarrow> turn_state \<Rightarrow> ('w gates, turn_state) state" where
  "beside_call N st c ts = do {
     r \<leftarrow> dispatch_native (nd_tools N) c;
     whenever (is_mutating_tool (tc_name c) \<and> \<not> snd r) (upd_ev log_mutation);
     k \<leftarrow> saw_run N c (fst r) (grounded_by (snd r) ts);
     let ts1 = snd k;
     ret (say (tool_result_msg (tc_id c) (fst r) (snd r))
            (record_step ((step_of_call N st c)\<lparr>st_grounded := ts_grounded ts1, st_observation := fst r\<rparr>) ts1)) }"

fun beside_calls :: "'w native_deps \<Rightarrow> string \<Rightarrow> step \<Rightarrow> tool_call list \<Rightarrow> turn_state \<Rightarrow> ('w gates, step \<times> turn_state) state" where
  "beside_calls N fin st [] ts = ret (st, ts)"
| "beside_calls N fin st (c # cs) ts =
     (if tc_id c = fin then beside_calls N fin st cs ts
      else do { ts1 \<leftarrow> beside_call N st c ts; beside_calls N fin (rest_of st) cs ts1 })"

definition finish_tool_turn :: "'w native_deps \<Rightarrow> int \<Rightarrow> response \<Rightarrow> step \<Rightarrow> tool_call list \<Rightarrow> tool_call \<Rightarrow> native_state
    \<Rightarrow> ('w gates, native_end) state" where
  "finish_tool_turn N i resp st cs fin ns = do {
     b \<leftarrow> beside_calls N (tc_id fin) st cs (say (assistant_turn (rs_content resp)) (ns_turns ns));
     let msg = finish_tool_message fin;
     let ts1 = say (tool_result_msg (tc_id fin) msg False) (snd b);
     let ts2 = record_step ((fst b)\<lparr>st_reply := msg, st_verb := tc_name fin, st_arg := msg, st_grounded := ts_grounded ts1\<rparr>) ts1;
     let ns1 = ns\<lparr>ns_turns := ts2\<rparr>;
     dec \<leftarrow> finish (nd_gate N)
              (native_claim i msg (pv_finish_tool_trusts_caller (nd_pol N)) ''you called the finish tool'' ns1 (nd_pol N));
     ret (native_decision dec ns1) }"

section \<open>Detectors before the calls\<close>

definition turn_steps :: "'w native_deps \<Rightarrow> step \<Rightarrow> tool_call list \<Rightarrow> string \<Rightarrow> bool \<Rightarrow> step list" where
  "turn_steps N st cs why grounded =
     (case cs of
        [] \<Rightarrow> []
      | c # rest \<Rightarrow>
          (step_of_call N st c)\<lparr>st_grounded := grounded, st_observation := why\<rparr>
          # map (\<lambda>d. (step_of_call N (rest_of st) d)\<lparr>st_grounded := grounded\<rparr>) rest)"

definition record_steps :: "step list \<Rightarrow> turn_state \<Rightarrow> turn_state" where
  "record_steps sts ts = ts\<lparr>ts_steps := ts_steps ts @ sts\<rparr>"

definition native_spiral :: "'w native_deps \<Rightarrow> tool_call list \<Rightarrow> turn_state \<Rightarrow> spiral_kill \<times> turn_state" where
  "native_spiral N cs ts =
     (if all_calls_discovery cs then
        (case observe_discovery_turn (discovery_targets (nd_tools N) cs) (ts_spiral ts) of
           (kind, sp) \<Rightarrow> (kind, ts\<lparr>ts_spiral := sp\<rparr>))
      else (SpiralKillNone, ts\<lparr>ts_spiral := spiral_reset (ts_spiral ts)\<rparr>))"

section \<open>The calls\<close>

definition skips_call :: "'w native_deps \<Rightarrow> tool_call \<Rightarrow> bool \<Rightarrow> turn_state \<Rightarrow> bool" where
  "skips_call N c advanced ts \<longleftrightarrow>
     tc_name c \<in> set read_only_tools \<and> call_sig (nd_tools N) c = ts_last_read_sig ts
     \<and> call_sig (nd_tools N) c = ts_last_executed ts \<and> \<not> advanced"

fun dispatch_all :: "'w native_deps \<Rightarrow> tool_call list \<Rightarrow> ('w gates, (string \<times> bool) list) state" where
  "dispatch_all N [] = ret []"
| "dispatch_all N (c # cs) = do {
     r \<leftarrow> dispatch_native (nd_tools N) c;
     rs \<leftarrow> dispatch_all N cs;
     ret (r # rs) }"

text \<open>The leading calls without effects run together, when there are two of them or more and the first
  is not to be skipped. The order in which the calls reach the world is that of the turn here; in
  the program it is any order.\<close>

definition prefetch :: "'w native_deps \<Rightarrow> tool_call list \<Rightarrow> bool \<Rightarrow> ('w gates, (string \<times> bool) list) state" where
  "prefetch N cs skip_leading =
     (let lead = takeWhile (\<lambda>c. parallel_safe (tc_name c)) cs in
      if length lead < 2 \<or> skip_leading then ret [] else dispatch_all N lead)"

definition with_prefetched :: "tool_call list \<Rightarrow> (string \<times> bool) list \<Rightarrow> (tool_call \<times> (string \<times> bool) option) list" where
  "with_prefetched cs rs = zip cs (map Some rs @ replicate (length cs - length rs) None)"

definition act_call :: "'w native_deps \<Rightarrow> tool_call \<Rightarrow> (string \<times> bool) option \<Rightarrow> bool \<Rightarrow> turn_state
    \<Rightarrow> ('w gates, (string \<times> bool) \<times> turn_state) state" where
  "act_call N c pre advanced ts =
     (if skips_call N c advanced ts then ret ((skip_note @ ts_last_read_obs ts, False), ts)
      else do {
        r \<leftarrow> (case pre of Some x \<Rightarrow> ret x | None \<Rightarrow> dispatch_native (nd_tools N) c);
        let ts1 = ts\<lparr>ts_last_executed := call_sig (nd_tools N) c\<rparr>;
        ret (r, if tc_name c \<in> set read_only_tools \<and> \<not> snd r
                then ts1\<lparr>ts_last_read_sig := call_sig (nd_tools N) c, ts_last_read_obs := fst r\<rparr> else ts1) })"

definition call_hints :: "string \<Rightarrow> turn_state \<Rightarrow> string \<times> turn_state" where
  "call_hints obs ts =
     (let (churn, t1) = churn_nudge (ts_tracker ts); (green, t2) = green_repeat_nudge t1
      in (obs @ (if churn then churn_nudge_text else []) @ (if green then green_repeat_nudge_text else []),
          ts\<lparr>ts_tracker := t2\<rparr>))"

record call_report =
  cr_kill :: "int option"
  cr_edited :: bool
  cr_print :: string

definition native_call :: "'w native_deps \<Rightarrow> int \<Rightarrow> step \<Rightarrow> tool_call \<Rightarrow> (string \<times> bool) option \<Rightarrow> turn_state
    \<Rightarrow> ('w gates, call_report \<times> turn_state) state" where
  "native_call N i st c pre ts = do {
     a \<leftarrow> act_call N c pre (st_advanced st) ts;
     let obs = fst (fst a);
     let is_err = snd (fst a);
     whenever (is_mutating_tool (tc_name c) \<and> \<not> is_err) (upd_ev log_mutation);
     k \<leftarrow> saw_run N c obs (grounded_by is_err (snd a));
     let kill = fst (fst k);
     let e = observe_action i (tc_name c) (ts_tracker (snd k));
     let ts1 = (snd k)\<lparr>ts_tracker := snd e\<rparr>;
     let h = (if kill then (obs, ts1) else call_hints obs ts1);
     let w = wire_observation (d_sha (nd_gate N)) obs i (fst h) (snd h);
     let ts2 = record_step ((step_of_call N st c)\<lparr>st_grounded := ts_grounded (snd w), st_observation := fst w\<rparr>) (snd w);
     ret (\<lparr> cr_kill = (if kill then Some (snd (fst k)) else None), cr_edited = fst e,
            cr_print = call_sig (nd_tools N) c @ nl @ ''OBSERVATION:'' @ nl @ obs \<rparr>,
          say (tool_result_msg (tc_id c) (fst w) is_err) ts2) }"

definition unrun :: "tool_call list \<Rightarrow> turn_state \<Rightarrow> turn_state" where
  "unrun cs ts = ts\<lparr>ts_messages := ts_messages ts @ map (\<lambda>c. tool_result_msg (tc_id c) not_executed True) cs\<rparr>"

text \<open>All calls in order, until a failure that recurs stops the run; then the rest is answered for.\<close>

fun native_calls :: "'w native_deps \<Rightarrow> int \<Rightarrow> step \<Rightarrow> (tool_call \<times> (string \<times> bool) option) list \<Rightarrow> turn_state
    \<Rightarrow> ('w gates, call_report list \<times> turn_state) state" where
  "native_calls N i st [] ts = ret ([], ts)"
| "native_calls N i st ((c, pre) # cs) ts = do {
     r \<leftarrow> native_call N i st c pre ts;
     if cr_kill (fst r) \<noteq> None then ret ([fst r], unrun (map fst cs) (snd r))
     else do {
       q \<leftarrow> native_calls N i (rest_of st) cs (snd r);
       ret (fst r # fst q, snd q) } }"

definition killed_by :: "call_report list \<Rightarrow> int option" where
  "killed_by rs = (case filter (\<lambda>r. cr_kill r \<noteq> None) rs of [] \<Rightarrow> None | r # _ \<Rightarrow> cr_kill r)"

section \<open>After the calls\<close>

definition native_nudges :: "'w native_deps \<Rightarrow> int \<Rightarrow> native_state \<Rightarrow> native_state" where
  "native_nudges N i ns =
     (let pol = nd_pol N; left = pv_max_iterations pol - i;
          f = finish_nudge i (ts_tracker (ns_turns ns));
          ns1 = on_turns (\<lambda>ts. (if fst f then feed_back finish_nudge_native else id) (ts\<lparr>ts_tracker := snd f\<rparr>)) ns;
          forced = \<not> ns_answer_nudged ns \<and> pv_answer_nudge_window pol > 0 \<and> is_observe_only (nd_tools N)
                   \<and> 0 < left \<and> left \<le> pv_answer_nudge_window pol;
          ns2 = (if forced then (on_turns (feed_back answer_nudge_native) ns1)\<lparr>ns_answer_nudged := True\<rparr> else ns1);
          remind = \<not> ns_say_nudged ns \<and> pv_finish_tool pol \<noteq> [] \<and> 0 < left \<and> left \<le> finish_tool_nudge_window
      in if remind then (on_turns (feed_back (say_nudge_text left (pv_finish_tool pol))) ns2)\<lparr>ns_say_nudged := True\<rparr> else ns2)"

definition settle_calls :: "'w native_deps \<Rightarrow> int \<Rightarrow> string \<Rightarrow> call_report list \<Rightarrow> native_state \<Rightarrow> ('w gates, native_end) state" where
  "settle_calls N i sig rs ns =
     (case killed_by rs of
        Some n \<Rightarrow> native_stopped N KilledStagnant (stagnant_reason n) ns
      | None \<Rightarrow>
          (let seen = observe_tool_observation (str_join (map cr_print rs) (nl @ ''---CALL---'' @ nl)) (ts_tracker (ns_turns ns));
               ns1 = on_turns (\<lambda>ts. ts\<lparr>ts_tracker := snd seen\<rparr>) ns;
               nudge = escalating_repeat_nudge (snd (fst seen));
               ns2 = (if nudge \<noteq> [] then on_turns (feed_back nudge) ns1 else ns1)
           in if fst (fst seen) then native_stopped N KilledRepeat (repeated_reason sig (snd (fst seen))) ns1
              else do {
                ns3 \<leftarrow> (if list_ex cr_edited rs then do {
                    d \<leftarrow> run_diagnostics (nd_loop N) (ts_tracker (ns_turns ns2));
                    ret (on_turns (\<lambda>ts. (if fst d \<noteq> [] then feed_back (fst d) else id) (ts\<lparr>ts_tracker := snd d\<rparr>)) ns2) }
                  else ret ns2);
                ret (NativeNext (native_nudges N i ns3)) }))"

definition calls_turn :: "'w native_deps \<Rightarrow> int \<Rightarrow> response \<Rightarrow> step \<Rightarrow> tool_call list \<Rightarrow> native_state \<Rightarrow> ('w gates, native_end) state" where
  "calls_turn N i resp st cs ns =
     (let pol = nd_pol N; sig = turn_signature (nd_tools N) cs; ts = ns_turns ns in
      if repeat_kill pol (st_advanced st) sig ts then
        (let reason = repeated_reason sig (ts_repeats ts + 1) in
         native_stopped N KilledRepeat reason
           (on_turns (\<lambda>ts. record_steps (turn_steps N st cs (''harness: run killed by tight-loop detector: '' @ reason) (ts_grounded ts))
              (ts\<lparr>ts_repeats := ts_repeats ts + 1\<rparr>)) ns))
      else
        (let sp = native_spiral N cs ((count_repeat sig ts)\<lparr>ts_last_reasoning := reasoning_signature (rs_content resp)\<rparr>);
             reason = spiral_reason (fst sp) (ts_spiral (snd sp))
         in if fst sp \<noteq> SpiralKillNone then
              native_stopped N KilledSpiral reason
                (ns\<lparr>ns_turns := record_steps (turn_steps N st cs (''harness: run killed by explore-spiral detector: '' @ reason) (ts_grounded ts)) (snd sp)\<rparr>)
            else do {
              let ts1 = say (assistant_turn (rs_content resp)) (snd sp);
              pre \<leftarrow> prefetch N cs (case cs of [] \<Rightarrow> False | c # _ \<Rightarrow> skips_call N c (st_advanced st) ts1);
              q \<leftarrow> native_calls N i st (with_prefetched cs pre) ts1;
              settle_calls N i sig (fst q) (ns\<lparr>ns_turns := snd q\<rparr>) }))"

section \<open>The loop\<close>

definition response_turn :: "'w native_deps \<Rightarrow> int \<Rightarrow> response \<Rightarrow> native_state \<Rightarrow> ('w gates, native_end) state" where
  "response_turn N i resp ns =
     (let sig = reasoning_signature (rs_content resp); cs = tool_calls (rs_content resp);
          st = \<lparr> st_iter = i, st_reply = trim_space (response_text resp), st_verb = [], st_arg = [], st_observation = [],
                 st_grounded = False, st_usage = rs_usage resp, st_finish = rs_finish resp,
                 st_advanced = (sig \<noteq> [] \<and> sig \<noteq> ts_last_reasoning (ns_turns ns)) \<rparr>;
          fin = (if pv_finish_tool (nd_pol N) \<noteq> [] then find_call cs (pv_finish_tool (nd_pol N)) else None)
      in if cs = [] then no_call_turn N i resp st ns
         else (case fin of
                 Some f \<Rightarrow> finish_tool_turn N i resp st cs f ns
               | None \<Rightarrow> calls_turn N i resp st cs ns))"

definition native_turn :: "'w native_deps \<Rightarrow> int \<Rightarrow> native_state \<Rightarrow> ('w gates, native_end) state" where
  "native_turn N i ns = do {
     stop \<leftarrow> check_budgets (nd_loop N) i (ns_turns ns);
     case stop of
       Some e \<Rightarrow> ret (lift_end ns e)
     | None \<Rightarrow> do {
         ns0 \<leftarrow> standing_message N ns;
         g \<leftarrow> ext (generate_with_eviction (lp_model (nd_loop N)) (pv_stream (nd_pol N)) (native_request N (ns_turns ns0)));
         case g of
           (resp, msgs, Some e) \<Rightarrow> do {
             r \<leftarrow> model_failed (nd_loop N) e ((ns_turns ns0)\<lparr>ts_messages := msgs\<rparr>);
             ret (lift_end (case resp of Some x \<Rightarrow> heard x ns0 | None \<Rightarrow> ns0) r) }
         | (None, msgs, None) \<Rightarrow> ret NativePanic
         | (Some resp, msgs, None) \<Rightarrow> do {
             charge (nd_gate N) (pv_solver_model (nd_pol N)) (rs_usage resp);
             response_turn N i resp (took_response i msgs resp ns0) } } }"

fun native_loop :: "'w native_deps \<Rightarrow> nat \<Rightarrow> native_state \<Rightarrow> ('w gates, native_end) state" where
  "native_loop N 0 ns =
     native_stopped N HitCap (''hit iteration cap ('' @ itoa (pv_max_iterations (nd_pol N)) @ '') without an answer'') ns"
| "native_loop N (Suc left) ns = do {
     r \<leftarrow> native_turn N (pv_max_iterations (nd_pol N) - int left) ns;
     case r of NativeNext ns' \<Rightarrow> native_loop N left ns' | _ \<Rightarrow> ret r }"

text \<open>A run without an answer carries the last prose.\<close>

definition salvage :: "native_end \<Rightarrow> native_end" where
  "salvage e =
     (case e of
        NativeStop r err ns \<Rightarrow>
          NativeStop (if rr_answer r = [] \<and> rr_outcome r \<noteq> Answered \<and> ns_last_text ns \<noteq> [] then r\<lparr>rr_answer := ns_last_text ns\<rparr> else r) err ns
      | _ \<Rightarrow> e)"

definition run_native_loop :: "'w native_deps \<Rightarrow> turn_state \<Rightarrow> ('w gates, native_end) state" where
  "run_native_loop N ts = do {
     e \<leftarrow> native_loop N (nat (pv_max_iterations (nd_pol N))) (start_native ts);
     ret (salvage e) }"

end
