(* ===== verification/Setup.thy ===== *)
theory Setup
  imports Prompts Environment AutoVerify Toolset NativeLoop
begin

text \<open>
  Whole runs: \<open>Run\<close> and \<open>RunNative\<close> (\<open>agent/loop_text.go\<close>, \<open>agent/loop_tools.go\<close>) from their three
  arguments to the result, with what is refused before the first model call (\<open>agent/agent.go\<close>,
  \<open>agent/runtime.go\<close>, \<open>agent/loop_shared.go\<close>) and what is put on the result afterwards.
\<close>

section \<open>The bindings of a run\<close>

text \<open>\<open>Runtime\<close>. The calls of the gates come in \<open>rt_gate\<close>, whose policy, task, root and timeout are
  those of the run; the reviewer is one of them. A runtime may lack a model, a sandbox, tools, a
  planner, a memory; a session adds its verification state and its baseline cache. \<open>rt_verify\<close>
  is the sandbox that the closing commands run on, which is \<open>rt_sandbox\<close> unless another is set.\<close>

record 'w runtime =
  rt_gate :: "'w gate_deps"
  rt_model :: "'w model_deps option"
  rt_model_id :: string
  rt_sandbox :: "'w sandbox_view option"
  rt_verify_sandbox :: "'w file_ops option"
  rt_memory :: "(string \<Rightarrow> memory_scope \<Rightarrow> nat \<Rightarrow> 'w \<Rightarrow> (string + string list) \<times> 'w) option"
  rt_tools :: "'w plain_toolbox option"
  rt_cost_fn :: "(usage \<Rightarrow> real option) option"
  rt_spend :: "spend option"
  rt_planner :: "(string \<Rightarrow> bool \<Rightarrow> 'w \<Rightarrow> (plan_result option \<times> string option) \<times> 'w) option"
  rt_session_verify :: "verify_state option"
  rt_baseline_cache :: "baseline_cache option"
  rt_expired :: "'w \<Rightarrow> bool \<times> 'w"
  rt_not_exist :: "string \<Rightarrow> 'w \<Rightarrow> bool"
  rt_json_error :: "string \<Rightarrow> string"
  rt_go_doc_text :: "string \<Rightarrow> 'w \<Rightarrow> (string + string) \<times> 'w"
  rt_go_doc :: "string list \<Rightarrow> string list \<Rightarrow> 'w \<Rightarrow> (string + string) \<times> 'w"
  rt_desc :: "string \<Rightarrow> string"
  rt_schemas :: "string list \<Rightarrow> string list"
  rt_standing :: "'w standing_deps"

definition verify_sandbox :: "'w runtime \<Rightarrow> 'w file_ops option" where
  "verify_sandbox rt =
     (case rt_verify_sandbox rt of Some F \<Rightarrow> Some F | None \<Rightarrow> map_option sv_files (rt_sandbox rt))"

definition run_gate :: "'w runtime \<Rightarrow> policy_value \<Rightarrow> content \<Rightarrow> 'w gate_deps" where
  "run_gate rt pol c =
     (rt_gate rt)\<lparr>d_pol := pol, d_task := ct_task c, d_root := ct_root c, d_run_timeout := pv_run_timeout pol\<rparr>"

section \<open>The result of a run\<close>

text \<open>What a run hands to its session (the fields \<open>autoVerify...\<close> of \<open>RunResult\<close>).\<close>

record hand_off =
  ho_cmd :: string
  ho_soft :: bool
  ho_provenance :: string
  ho_continue :: bool
  ho_skip_baseline :: bool

datatype repro_view = ReproMissing | ReproSeen repro_state

record full_result =
  fr_end :: run_result
  fr_error :: "model_error option"
  fr_task :: string
  fr_root :: string
  fr_steps :: "step list"
  fr_iterations :: int
  fr_usage :: usage
  fr_messages :: "message list"
  fr_plan :: "plan_report option"
  fr_review :: "review_report option"
  fr_repro :: "repro_view option"
  fr_closing :: "verification_record option"
  fr_baseline_red :: bool
  fr_baseline_out :: string
  fr_guarantees :: guarantees
  fr_hand_off :: "hand_off option"

text \<open>A run ends with an error and no result, in a panic, or with a result.\<close>

datatype run_end = RunError setup_error | RunPanic | RunDone full_result

definition bare_result :: "content \<Rightarrow> run_result \<Rightarrow> full_result" where
  "bare_result c r =
     \<lparr> fr_end = r, fr_error = None, fr_task = ct_task c, fr_root = ct_root c, fr_steps = [], fr_iterations = 0,
       fr_usage = zero_usage, fr_messages = [], fr_plan = None, fr_review = None, fr_repro = None, fr_closing = None,
       fr_baseline_red = False, fr_baseline_out = [], fr_guarantees = zero_guarantees, fr_hand_off = None \<rparr>"

section \<open>Refusals\<close>

text \<open>\<open>validateRun\<close>.\<close>

definition validate_run :: "policy_value \<Rightarrow> 'w runtime \<Rightarrow> setup_error option" where
  "validate_run pol rt =
     (if rt_model rt = None then Some (SetupError ''invalid_config'' ''Model must not be nil'')
      else if rt_sandbox rt = None \<and> \<not> pv_require_network_off pol then
        Some (SetupError ''invalid_config'' ''Sandbox must not be nil'')
      else if \<not> rp_valid (pv_review_policy pol) then
        Some (SetupError ''invalid_review_config'' ''ReviewPolicy is not a recognized value'')
      else if rp_required (pv_review_policy pol) \<and> \<not> d_has_reviewer (rt_gate rt) then
        Some (SetupError ''invalid_review_config'' ''required review policy needs a Reviewer'')
      else None)"

text \<open>\<open>checkSandboxFloor\<close>: a missing sandbox provides nothing.\<close>

definition caps_of :: "'w runtime \<Rightarrow> capabilities option" where
  "caps_of rt = map_option sv_caps (rt_sandbox rt)"

definition floor_refusal :: "policy_value \<Rightarrow> capabilities option \<Rightarrow> string option" where
  "floor_refusal pol caps =
     (let have = (case caps of None \<Rightarrow> IsolationNone | Some c \<Rightarrow> cap_isolation c) in
      if have < pv_min_isolation pol then
        Some (''refused: task requires isolation >= '' @ isolation_string (pv_min_isolation pol)
          @ '' but the sandbox provides '' @ isolation_string have @ '' '' @ emdash
          @ '' run with a stronger backend (e.g. -sandbox=docker -runtime=runsc)'')
      else if pv_require_network_off pol \<and> (case caps of None \<Rightarrow> True | Some c \<Rightarrow> cap_network c) then
        Some ''refused: task requires network off but the sandbox network floor was violated''
      else None)"

definition observe_caps :: "capabilities option \<Rightarrow> evidence_log \<Rightarrow> evidence_log" where
  "observe_caps caps l =
     (case caps of
        None \<Rightarrow> l
      | Some c \<Rightarrow> l\<lparr>ev_observed_isolation := isolation_string (cap_isolation c), ev_observed_network := Some (cap_network c)\<rparr>)"

definition new_evidence :: "'w runtime \<Rightarrow> policy_value \<Rightarrow> content \<Rightarrow> verify_state \<Rightarrow> evidence_log" where
  "new_evidence rt pol c vs =
     \<lparr> ev_verify = [], ev_mut_gen = 0, ev_isolation = EvidenceAbsent, ev_observed_isolation = [],
       ev_observed_network = None, ev_verify_configured = (trim_space (vs_cmd vs) \<noteq> []),
       ev_review_configured = d_has_reviewer (rt_gate rt), ev_cost_configured = (pv_max_total_cost_usd pol > 0),
       ev_verify_command = [], ev_closing_ready = False, ev_unpriced = False, ev_root = ct_root c, ev_base_tree = [],
       ev_reviewed_gen = 0, ev_review_reached = False \<rparr>"

section \<open>The end of a run\<close>

text \<open>The guarantees are computed from the evidence and, if there was a base tree, from the final one.\<close>

definition closing_guarantees :: "'w gate_deps \<Rightarrow> outcome \<Rightarrow> review_report option \<Rightarrow> ('w gates, guarantees) state" where
  "closing_guarantees D oc review = do {
     s \<leftarrow> gets id;
     case g_ev s of
       None \<Rightarrow> ret zero_guarantees
     | Some l \<Rightarrow>
         if ev_root l \<noteq> [] \<and> ev_base_tree l \<noteq> [] then do {
           t \<leftarrow> ext (d_write_tree D);
           names \<leftarrow> (case t of
               Inl e \<Rightarrow> ret (Inl [])
             | Inr cur \<Rightarrow> do { n \<leftarrow> ext (d_diff_names D (ev_base_tree l) cur); ret (map_sum err_text id n) });
           ret (finalize_guarantees (map_sum err_text id t) (\<lambda>_ _. names) (Some l) oc review) }
         else ret (finalize_guarantees (Inl []) (\<lambda>_ _. Inl []) (Some l) oc review) }"

definition with_guarantees :: "'w gate_deps \<Rightarrow> full_result \<Rightarrow> ('w gates, run_end) state" where
  "with_guarantees D r = do {
     g \<leftarrow> closing_guarantees D (rr_outcome (fr_end r)) (fr_review r);
     ret (RunDone (r\<lparr>fr_guarantees := g\<rparr>)) }"

definition hand_off_of :: "verify_state \<Rightarrow> hand_off option" where
  "hand_off_of vs =
     (if vs_resolved vs then
        Some \<lparr> ho_cmd = vs_cmd vs, ho_soft = vs_auto_soft vs, ho_provenance = vs_provenance vs,
               ho_continue = vs_verify_continue vs, ho_skip_baseline = vs_skip_baseline vs \<rparr>
      else None)"

definition apply_baseline :: "'w gates \<Rightarrow> full_result \<Rightarrow> full_result" where
  "apply_baseline s r =
     r\<lparr>fr_baseline_red := g_base_red s, fr_baseline_out := g_base_out s, fr_end := (fr_end r)\<lparr>rr_infra := g_infra s\<rparr>\<rparr>"

text \<open>A closing check that later mutations have overtaken is degraded.\<close>

definition closing_record :: "'w gates \<Rightarrow> verification_record option" where
  "closing_record s =
     map_option (\<lambda>r. if (case g_ev s of Some l \<Rightarrow> g_closing_gen s < ev_mut_gen l | None \<Rightarrow> False)
                    then r\<lparr>vr_status := EvidenceDegraded\<rparr> else r) (g_closing s)"

definition repro_report :: "'w gate_deps \<Rightarrow> 'w gates \<Rightarrow> repro_view option" where
  "repro_report D s =
     (if \<not> pv_repro_first (d_pol D) then None
      else Some (case g_repro s of None \<Rightarrow> ReproMissing | Some rp \<Rightarrow> ReproSeen rp))"

text \<open>The deferred part of both loops: the gates' records on the result, then the guarantees.\<close>

definition close_run :: "'w gate_deps \<Rightarrow> bool \<Rightarrow> full_result \<Rightarrow> ('w gates, run_end) state" where
  "close_run D native r = do {
     s \<leftarrow> gets id;
     with_guarantees D
       (r\<lparr>fr_end := (fr_end r)\<lparr>rr_infra := g_infra s\<rparr>, fr_closing := closing_record s,
          fr_review := map_option report_of (g_review s),
          fr_repro := (if native then repro_report D s else None)\<rparr>) }"

definition result_of_turns :: "run_result \<Rightarrow> model_error option \<Rightarrow> turn_state \<Rightarrow> full_result \<Rightarrow> full_result" where
  "result_of_turns res e ts r =
     r\<lparr>fr_end := res, fr_error := e, fr_steps := ts_steps ts, fr_iterations := ts_iterations ts,
       fr_usage := ts_usage ts, fr_messages := ts_messages ts\<rparr>"

section \<open>The opening of a run\<close>

text \<open>The automatic verify command, the gates, and what the evidence takes from them.\<close>

definition open_run :: "'w runtime \<Rightarrow> 'w gate_deps \<Rightarrow> ('w gates, setup_error option) state" where
  "open_run rt D = do {
     vs0 \<leftarrow> gets g_vs;
     vs \<leftarrow> ext (run_state (resolve_auto_verify (verify_sandbox rt) (d_pol D) (d_root D) vs0));
     modify (\<lambda>s. s\<lparr>g_vs := vs\<rparr>);
     upd_ev (\<lambda>l. l\<lparr>ev_verify_configured := trim_space (vs_cmd vs) \<noteq> [], ev_verify_command := vs_cmd vs\<rparr>);
     e \<leftarrow> new_gates D;
     case e of
       Some err \<Rightarrow> ret (Some err)
     | None \<Rightarrow> do {
         base \<leftarrow> gets g_run_base;
         upd_ev (\<lambda>l. l\<lparr>ev_base_tree := base, ev_closing_ready := True\<rparr>);
         ret None } }"

text \<open>The plan stage runs on the gates' spend.\<close>

definition plan_stage :: "'w runtime \<Rightarrow> content \<Rightarrow> ('w gates, string \<times> plan_report option) state" where
  "plan_stage rt c =
     State (\<lambda>s. case run_plan_stage (d_pricer (rt_gate rt)) (rt_planner rt) (ct_task c) (ct_history c \<noteq> []) (g_spend s) (g_world s) of
        (r, sp, w) \<Rightarrow> (r, s\<lparr>g_spend := sp, g_world := w\<rparr>))"

definition first_messages :: "'w runtime \<Rightarrow> policy_value \<Rightarrow> content \<Rightarrow> string \<Rightarrow> ('w gates, message list) state" where
  "first_messages rt pol c task = do {
     env \<leftarrow> ext (run_state (observe_environment (rt_sandbox rt) (pv_boot_context pol)));
     s \<leftarrow> gets id;
     ret (seed_messages task c (env @ verify_gate_preamble (g_vs s) @ baseline_preamble s)) }"

definition recalled :: "'w runtime \<Rightarrow> policy_value \<Rightarrow> content \<Rightarrow> ('w gates, string) state" where
  "recalled rt pol c = ext (recall (rt_memory rt) (scope_or_default (pv_memory_scope pol)) (ct_task c))"

definition plain_tools :: "'w runtime \<Rightarrow> policy_value \<Rightarrow> 'w plain_toolbox" where
  "plain_tools rt pol =
     (case (rt_tools rt, rt_sandbox rt) of
        (Some T, _) \<Rightarrow> T
      | (None, Some S) \<Rightarrow>
          native_toolbox (sv_files S) (pv_run_timeout pol) \<lparr> ro_window = pv_read_window pol, ro_outline = pv_read_outline pol \<rparr>
            (rt_json_error rt) (rt_go_doc_text rt) (rt_go_doc rt)
      | (None, None) \<Rightarrow> [])"

section \<open>Whole runs\<close>

text \<open>The prologue up to the loop, and the epilogue; \<open>go\<close> is the loop with its protocol's set-up.\<close>

definition run_opened ::
  "'w runtime \<Rightarrow> policy_value \<Rightarrow> content \<Rightarrow> bool
   \<Rightarrow> ('w gate_deps \<Rightarrow> full_result \<Rightarrow> ('w gates, full_result option) state) \<Rightarrow> ('w gates, run_end) state" where
  "run_opened rt pol c native go = do {
     let D = run_gate rt pol c;
     upd_ev (\<lambda>l. l\<lparr>ev_isolation := EvidencePassed\<rparr>);
     e \<leftarrow> open_run rt D;
     case e of
       Some err \<Rightarrow> ret (RunError err)
     | None \<Rightarrow> do {
         s \<leftarrow> gets id;
         let r0 = apply_baseline s ((bare_result c (run_ended Answered []))\<lparr>fr_hand_off := hand_off_of (g_vs s)\<rparr>);
         case red_baseline_refusal (g_vs s) (g_base_red s) of
           Some refusal \<Rightarrow> with_guarantees D (r0\<lparr>fr_end := refusal\<lparr>rr_infra := g_infra s\<rparr>\<rparr>)
         | None \<Rightarrow> do {
             r \<leftarrow> go D r0;
             case r of None \<Rightarrow> ret RunPanic | Some x \<Rightarrow> close_run D native x } } }"

definition loop_parts :: "'w runtime \<Rightarrow> 'w gate_deps \<Rightarrow> 'w model_deps
    \<Rightarrow> (string \<times> (string \<Rightarrow> 'w \<Rightarrow> (string + string) \<times> 'w)) list \<Rightarrow> string \<Rightarrow> 'w loop_deps" where
  "loop_parts rt D mo tools system =
     \<lparr> lp_gate = D, lp_model = mo, lp_tools = tools, lp_system = system, lp_cost_fn = rt_cost_fn rt,
       lp_expired = rt_expired rt \<rparr>"

definition go_text :: "'w runtime \<Rightarrow> content \<Rightarrow> 'w model_deps \<Rightarrow> 'w gate_deps \<Rightarrow> full_result \<Rightarrow> ('w gates, full_result option) state" where
  "go_text rt c mo D r0 = do {
     let tools = text_tools D (rt_not_exist rt) (plain_tools rt (d_pol D));
     p \<leftarrow> plan_stage rt c;
     msgs \<leftarrow> first_messages rt (d_pol D) c (fst p);
     mem \<leftarrow> recalled rt (d_pol D) c;
     let system = with_persona (pv_persona (d_pol D)) (build_system_prompt (rt_desc rt) (map fst tools)) @ mem;
     cmd \<leftarrow> gets (vs_cmd \<circ> g_vs);
     e \<leftarrow> run_text_loop (loop_parts rt D mo tools system) (start_turns (d_pol D) cmd msgs);
     ret (case e of
            TurnStop res err ts \<Rightarrow> Some (result_of_turns res err ts (r0\<lparr>fr_plan := snd p\<rparr>))
          | _ \<Rightarrow> None) }"

definition native_parts :: "'w runtime \<Rightarrow> 'w gate_deps \<Rightarrow> 'w model_deps \<Rightarrow> string \<Rightarrow> 'w native_deps" where
  "native_parts rt D mo system =
     (let T = native_tools D (rt_not_exist rt) (rt_json_error rt) (plain_tools rt (d_pol D)) in
      \<lparr> nd_loop = loop_parts rt D mo [] system, nd_tools = T, nd_schemas = rt_schemas rt (sort (map fst T)),
        nd_standing = (rt_standing rt)\<lparr>so_root := d_root D\<rparr> \<rparr>)"

definition go_native :: "'w runtime \<Rightarrow> content \<Rightarrow> 'w model_deps \<Rightarrow> string \<Rightarrow> 'w gate_deps \<Rightarrow> full_result
    \<Rightarrow> ('w gates, full_result option) state" where
  "go_native rt c mo base D r0 = do {
     p \<leftarrow> plan_stage rt c;
     msgs \<leftarrow> first_messages rt (d_pol D) c (fst p);
     mem \<leftarrow> recalled rt (d_pol D) c;
     cmd \<leftarrow> gets (vs_cmd \<circ> g_vs);
     e \<leftarrow> run_native_loop (native_parts rt D mo (with_persona (pv_persona (d_pol D)) base @ mem))
            (start_turns (d_pol D) cmd msgs);
     ret (case e of
            NativeStop res err ns \<Rightarrow> Some (result_of_turns res err (ns_turns ns) (r0\<lparr>fr_plan := snd p\<rparr>))
          | _ \<Rightarrow> None) }"

text \<open>The refusal of a sandbox that is too weak is returned as it is.\<close>

definition refused_run :: "'w runtime \<Rightarrow> policy_value \<Rightarrow> content \<Rightarrow> string \<Rightarrow> ('w gates, run_end) state" where
  "refused_run rt pol c why = do {
     upd_ev (\<lambda>l. l\<lparr>ev_isolation := EvidenceFailed\<rparr>);
     with_guarantees (run_gate rt pol c) (bare_result c (run_ended RefusedUnsafe why)) }"

definition run_text :: "'w runtime \<Rightarrow> resolved_spec \<Rightarrow> content \<Rightarrow> ('w gates, run_end) state" where
  "run_text rt spec c =
     (let pol = rs_policy spec in
      if \<not> complete_spec spec then ret (RunError (SetupError ''invalid_config'' (complete_error spec)))
      else (case (validate_run pol rt, rt_model rt) of
              (Some err, _) \<Rightarrow> ret (RunError err)
            | (None, Some mo) \<Rightarrow>
                if pv_repro_first pol then
                  ret (RunError (SetupError ''repro_first'' ''repro-first requires the native tool protocol''))
                else do {
                  upd_ev (observe_caps (caps_of rt));
                  case floor_refusal pol (caps_of rt) of
                    Some why \<Rightarrow> refused_run rt pol c why
                  | None \<Rightarrow> run_opened rt pol c False (go_text rt c mo) }))"

definition run_native :: "'w runtime \<Rightarrow> resolved_spec \<Rightarrow> content \<Rightarrow> ('w gates, run_end) state" where
  "run_native rt spec c =
     (let pol = rs_policy spec in
      if \<not> complete_spec spec then ret (RunError (SetupError ''invalid_config'' (complete_error spec)))
      else (case (validate_run pol rt, rt_model rt) of
              (Some err, _) \<Rightarrow> ret (RunError err)
            | (None, Some mo) \<Rightarrow> do {
                upd_ev (observe_caps (caps_of rt));
                case floor_refusal pol (caps_of rt) of
                  Some why \<Rightarrow> refused_run rt pol c why
                | None \<Rightarrow>
                    (case resolve_system_prompt pol (rt_model_id rt) of
                       Inl msg \<Rightarrow> ret (RunError (SetupError [] msg))
                     | Inr base \<Rightarrow> run_opened rt pol c True (go_native rt c mo base)) }))"

text \<open>The state a run starts from.\<close>

definition first_gates :: "'w runtime \<Rightarrow> resolved_spec \<Rightarrow> content \<Rightarrow> 'w \<Rightarrow> 'w gates" where
  "first_gates rt spec c w =
     (let pol = rs_policy spec; vs = run_verify_state pol (rt_session_verify rt) in
      start_gates vs (Some (new_evidence rt pol c vs)) (rt_spend rt) (rt_baseline_cache rt) w)"

end
