(* ===== verification/Session.thy ===== *)
theory Session
  imports Setup
begin

text \<open>
  A continuing conversation over one of the loops (\<open>agent/session.go\<close>, \<open>agent/session_config.go\<close>):
  what a session keeps between turns, a turn (\<open>SendParts\<close>), the automatic verify probe that runs
  beside the turns, and live reconfiguration. The probe is two steps here, its start and its end,
  between which any other step may happen.
\<close>

section \<open>A turn of the loop, as a session sees it\<close>

text \<open>\<open>LoopFunc\<close>: beside its end, a run may have changed the two values it shares with the session,
  the baseline cache and the spend.\<close>

record loop_report =
  lr_end :: run_end
  lr_cache :: "baseline_cache option"
  lr_spend :: "spend option"

type_synonym 'w loop_func = "'w runtime \<Rightarrow> resolved_spec \<Rightarrow> content \<Rightarrow> 'w \<Rightarrow> loop_report \<times> 'w"

definition loop_of :: "('w runtime \<Rightarrow> resolved_spec \<Rightarrow> content \<Rightarrow> ('w gates, run_end) state) \<Rightarrow> 'w loop_func" where
  "loop_of run rt spec c w =
     (case run_state (run rt spec c) (first_gates rt spec c w) of
        (e, t) \<Rightarrow> (\<lparr> lr_end = e, lr_cache = g_cache t, lr_spend = g_spend t \<rparr>, g_world t))"

definition text_run :: "'w loop_func" where "text_run = loop_of run_text"
definition native_run :: "'w loop_func" where "native_run = loop_of run_native"

section \<open>State\<close>

text \<open>The slot of the probe; its target is what the goroutine captured when it was started.\<close>

record 'w probe_slot =
  pb_started :: bool
  pb_done :: bool
  pb_applied :: bool
  pb_noted :: bool
  pb_target :: "'w file_ops option \<times> string"
  pb_resolution :: auto_resolution

record 'w session =
  ss_req :: requested_config
  ss_spec :: resolved_spec
  ss_rt :: "'w runtime"
  ss_root :: string
  ss_messages :: "message list"
  ss_vs :: verify_state
  ss_cache :: "baseline_cache option"
  ss_probe :: "'w probe_slot"

definition empty_cache :: baseline_cache where
  "empty_cache = \<lparr> bc_tree = [], bc_cmd = [], bc_measured = False, bc_red = False, bc_out = [], bc_infra = [] \<rparr>"

definition idle_probe :: "'w probe_slot" where
  "idle_probe =
     \<lparr> pb_started = False, pb_done = False, pb_applied = False, pb_noted = False, pb_target = (None, []),
       pb_resolution = nothing_derived \<rparr>"

text \<open>How a specification comes from a request: \<open>runspec.Resolve\<close> with its two digests.\<close>

type_synonym resolver = "requested_config \<Rightarrow> spec_error + resolved_spec"

definition new_session :: "resolver \<Rightarrow> requested_config \<Rightarrow> 'w runtime \<Rightarrow> string \<Rightarrow> message list \<Rightarrow> spec_error + 'w session" where
  "new_session rsv req rt rdir history =
     (case rsv req of
        Inl e \<Rightarrow> Inl e
      | Inr spec \<Rightarrow>
          Inr \<lparr> ss_req = req, ss_spec = spec, ss_rt = rt, ss_root = rdir, ss_messages = history,
                ss_vs = new_verify_state (rs_policy spec), ss_cache = Some empty_cache, ss_probe = idle_probe \<rparr>)"

section \<open>Reconfiguration\<close>

text \<open>A request that does not resolve leaves the session as it is.\<close>

definition reresolve :: "resolver \<Rightarrow> (requested_config \<Rightarrow> requested_config) \<Rightarrow> 'w session \<Rightarrow> 'w session" where
  "reresolve rsv mutate s =
     (case rsv (mutate (ss_req s)) of
        Inl e \<Rightarrow> s
      | Inr spec \<Rightarrow> s\<lparr>ss_req := mutate (ss_req s), ss_spec := spec\<rparr>)"

definition set_max_iterations :: "resolver \<Rightarrow> int \<Rightarrow> 'w session \<Rightarrow> 'w session" where
  "set_max_iterations rsv n = reresolve rsv (\<lambda>r. r\<lparr>rq_max_iterations := Some n\<rparr>)"

definition set_max_tokens :: "resolver \<Rightarrow> int \<Rightarrow> 'w session \<Rightarrow> 'w session" where
  "set_max_tokens rsv n = reresolve rsv (\<lambda>r. r\<lparr>rq_max_tokens := Some n\<rparr>)"

definition set_reasoning_effort :: "resolver \<Rightarrow> string \<Rightarrow> 'w session \<Rightarrow> 'w session" where
  "set_reasoning_effort rsv e = reresolve rsv (\<lambda>r. r\<lparr>rq_reasoning_effort := Some e\<rparr>)"

definition set_review_policy :: "resolver \<Rightarrow> int \<Rightarrow> 'w session \<Rightarrow> 'w session" where
  "set_review_policy rsv p = reresolve rsv (\<lambda>r. r\<lparr>rq_review_policy := Some p\<rparr>)"

definition on_rt :: "('w runtime \<Rightarrow> 'w runtime) \<Rightarrow> 'w session \<Rightarrow> 'w session" where
  "on_rt f s = s\<lparr>ss_rt := f (ss_rt s)\<rparr>"

definition set_model :: "'w model_deps option \<Rightarrow> string \<Rightarrow> 'w session \<Rightarrow> 'w session" where
  "set_model m ident = on_rt (\<lambda>rt. rt\<lparr>rt_model := m, rt_model_id := ident\<rparr>)"

definition set_planner :: "(string \<Rightarrow> bool \<Rightarrow> 'w \<Rightarrow> (plan_result option \<times> string option) \<times> 'w) option \<Rightarrow> 'w session \<Rightarrow> 'w session" where
  "set_planner p = on_rt (\<lambda>rt. rt\<lparr>rt_planner := p\<rparr>)"

definition set_tools :: "'w plain_toolbox option \<Rightarrow> 'w session \<Rightarrow> 'w session" where
  "set_tools T = on_rt (\<lambda>rt. rt\<lparr>rt_tools := T\<rparr>)"

text \<open>A reviewer is a call of the gates; without one the two calls are never made.\<close>

definition set_reviewer ::
  "((review_input \<Rightarrow> 'w \<Rightarrow> review_answer \<times> 'w)
    \<times> (review_input \<Rightarrow> review_finding list \<Rightarrow> 'w \<Rightarrow> ((go_error + review_finding list) \<times> usage) \<times> 'w) option) option
   \<Rightarrow> 'w session \<Rightarrow> 'w session" where
  "set_reviewer r =
     on_rt (\<lambda>rt. rt\<lparr>rt_gate :=
       (case r of
          None \<Rightarrow> (rt_gate rt)\<lparr>d_has_reviewer := False\<rparr>
        | Some (rv, so) \<Rightarrow> (rt_gate rt)\<lparr>d_has_reviewer := True, d_reviewer := rv, d_solicitor := so\<rparr>)\<rparr>)"

text \<open>The calls of the gates belong to the workspace; the verify sandbox of the old one goes.\<close>

definition set_workspace :: "string \<Rightarrow> 'w sandbox_view option \<Rightarrow> ('w gate_deps \<Rightarrow> 'w gate_deps) \<Rightarrow> 'w session \<Rightarrow> 'w session" where
  "set_workspace rdir sb calls s =
     on_rt (\<lambda>rt. rt\<lparr>rt_sandbox := sb, rt_verify_sandbox := None, rt_gate := calls (rt_gate rt)\<rparr>) (s\<lparr>ss_root := rdir\<rparr>)"

definition set_verify_cmd :: "string \<Rightarrow> 'w session \<Rightarrow> 'w session" where
  "set_verify_cmd cmd s =
     (let vs = record_resolution ''session'' ''verify_cmd'' cmd ''user'' ''verify-gate'' (cmd = []) ''session /verify override''
                 ((ss_vs s)\<lparr>vs_cmd := cmd, vs_auto_soft := False, vs_provenance := []\<rparr>)
      in s\<lparr>ss_vs := (if cmd = [] \<and> vs_auto_verify vs then vs\<lparr>vs_resolved := True\<rparr> else vs)\<rparr>)"

definition session_reset :: "'w session \<Rightarrow> 'w session" where
  "session_reset s = s\<lparr>ss_messages := []\<rparr>"

section \<open>The probe\<close>

definition prewarm :: "'w session \<Rightarrow> 'w session" where
  "prewarm s =
     (if \<not> vs_auto_verify (ss_vs s) \<or> vs_cmd (ss_vs s) \<noteq> [] \<or> ss_root s = []
         \<or> pv_min_isolation (rs_policy (ss_spec s)) \<noteq> IsolationNone \<or> pb_started (ss_probe s)
      then s
      else s\<lparr>ss_probe := (ss_probe s)\<lparr>pb_started := True, pb_target := (verify_sandbox (ss_rt s), ss_root s)\<rparr>\<rparr>)"

text \<open>The goroutine ends: the derivation and its preflight have run on what it captured.\<close>

definition probe_ends :: "'w session \<Rightarrow> ('w, 'w session) state" where
  "probe_ends s = do {
     r \<leftarrow> probe_auto_verify (fst (pb_target (ss_probe s))) (snd (pb_target (ss_probe s)));
     ret (s\<lparr>ss_probe := (ss_probe s)\<lparr>pb_resolution := r, pb_done := True\<rparr>\<rparr>) }"

section \<open>A turn\<close>

text \<open>What a turn takes from the probe: nothing, the mark that it still runs, or its result, once.\<close>

definition take_probe :: "'w session \<Rightarrow> 'w session \<times> verify_state" where
  "take_probe s =
     (let p = ss_probe s; vs = ss_vs s in
      if \<not> pb_started p then (s, vs)
      else if \<not> pb_done p then (s\<lparr>ss_probe := p\<lparr>pb_noted := True\<rparr>\<rparr>, vs\<lparr>vs_resolved := True\<rparr>)
      else if pb_applied p then (s, vs)
      else (let vs' = apply_auto_verify (pb_resolution p) vs in
            (s\<lparr>ss_probe := p\<lparr>pb_applied := True\<rparr>, ss_vs := vs'\<rparr>, vs')))"

definition persist_auto_verify :: "run_end \<Rightarrow> 'w session \<Rightarrow> 'w session" where
  "persist_auto_verify e s =
     (case e of
        RunDone x \<Rightarrow>
          (case fr_hand_off x of
             None \<Rightarrow> s
           | Some h \<Rightarrow>
               let vs = (ss_vs s)\<lparr>vs_resolved := True\<rparr> in
               s\<lparr>ss_vs := (if ho_cmd h = [] then vs
                  else vs\<lparr>vs_cmd := ho_cmd h, vs_auto_soft := ho_soft h, vs_provenance := ho_provenance h,
                          vs_verify_continue := ho_continue h, vs_skip_baseline := ho_skip_baseline h\<rparr>)\<rparr>)
      | _ \<Rightarrow> s)"

definition keep_transcript :: "bool \<Rightarrow> run_end \<Rightarrow> 'w session \<Rightarrow> 'w session" where
  "keep_transcript interrupted e s =
     (case e of
        RunDone x \<Rightarrow> if \<not> interrupted \<and> fr_messages x \<noteq> [] then s\<lparr>ss_messages := fr_messages x\<rparr> else s
      | _ \<Rightarrow> s)"

definition turn_runtime :: "'w session \<Rightarrow> verify_state \<Rightarrow> 'w runtime" where
  "turn_runtime s vs = (ss_rt s)\<lparr>rt_baseline_cache := ss_cache s, rt_session_verify := Some vs\<rparr>"

definition turn_content :: "'w session \<Rightarrow> string \<Rightarrow> (string \<times> string \<times> string) list \<Rightarrow> content" where
  "turn_content s txt imgs = \<lparr> ct_task = txt, ct_images = imgs, ct_history = ss_messages s, ct_root = ss_root s \<rparr>"

text \<open>\<open>SendParts\<close>. The error of the context is asked after the run; a panic ends the program and leaves
  no session behind.\<close>

definition send_parts :: "'w loop_func \<Rightarrow> ('w \<Rightarrow> bool \<times> 'w) \<Rightarrow> string \<Rightarrow> (string \<times> string \<times> string) list \<Rightarrow> 'w session
    \<Rightarrow> ('w, run_end \<times> 'w session) state" where
  "send_parts loop ctx_err txt imgs s0 = do {
     let (s, vs) = take_probe s0;
     r \<leftarrow> call (loop (turn_runtime s vs) (ss_spec s) (turn_content s txt imgs));
     interrupted \<leftarrow> call ctx_err;
     let s1 = on_rt (\<lambda>rt. rt\<lparr>rt_spend := lr_spend r\<rparr>) (s\<lparr>ss_cache := lr_cache r\<rparr>);
     ret (lr_end r, keep_transcript interrupted (lr_end r) (persist_auto_verify (lr_end r) s1)) }"

section \<open>Steps\<close>

text \<open>Everything a front end may do with a session, one after the other, with the end of the probe
  anywhere in between. \<open>good\<close> holds of the models it offers, and a conversation that is resumed starts
  from a transcript in which calls and results match.\<close>

inductive session_step :: "resolver \<Rightarrow> 'w loop_func \<Rightarrow> ('w model_deps \<Rightarrow> bool) \<Rightarrow> 'w session \<times> 'w \<Rightarrow> 'w session \<times> 'w \<Rightarrow> bool"
  for rsv loop good where
  step_send: "run_state (send_parts loop ctx_err txt imgs s) w = ((e, s'), w') \<Longrightarrow> e \<noteq> RunPanic \<Longrightarrow>
     session_step rsv loop good (s, w) (s', w')"
| step_reset: "session_step rsv loop good (s, w) (session_reset s, w)"
| step_reresolve: "session_step rsv loop good (s, w) (reresolve rsv mutate s, w)"
| step_verify: "session_step rsv loop good (s, w) (set_verify_cmd cmd s, w)"
| step_model: "good m \<Longrightarrow> session_step rsv loop good (s, w) (set_model (Some m) ident s, w)"
| step_planner: "session_step rsv loop good (s, w) (set_planner p s, w)"
| step_tools: "session_step rsv loop good (s, w) (set_tools T s, w)"
| step_reviewer: "session_step rsv loop good (s, w) (set_reviewer r s, w)"
| step_workspace: "session_step rsv loop good (s, w) (set_workspace rdir sb calls s, w)"
| step_prewarm: "session_step rsv loop good (s, w) (prewarm s, w)"
| step_probe: "pb_started (ss_probe s) \<Longrightarrow> \<not> pb_done (ss_probe s) \<Longrightarrow> run_state (probe_ends s) w = (s', w') \<Longrightarrow>
     session_step rsv loop good (s, w) (s', w')"
| step_world: "session_step rsv loop good (s, w) (s, w')"

inductive session_reach :: "resolver \<Rightarrow> 'w loop_func \<Rightarrow> ('w model_deps \<Rightarrow> bool) \<Rightarrow> 'w session \<times> 'w \<Rightarrow> bool"
  for rsv loop good where
  reach_new: "new_session rsv req rt rdir history = Inr s \<Longrightarrow> rt_model rt = Some m \<Longrightarrow> good m \<Longrightarrow>
     history = [] \<or> well_paired history \<Longrightarrow> session_reach rsv loop good (s, w)"
| reach_step: "session_reach rsv loop good p \<Longrightarrow> session_step rsv loop good p q \<Longrightarrow> session_reach rsv loop good q"

end
