(* ===== verification/GateFacts.thy ===== *)
theory GateFacts
  imports Finish
begin

text \<open>
  What the stages of the closing gates guarantee, one theorem each, and a small gate they are
  tried on: a workspace that is a single string, a snapshot that is that string, a sandbox
  with a handful of commands and a reviewer with one finding.
\<close>

section \<open>A small gate\<close>

definition demo_run :: "int \<Rightarrow> string \<Rightarrow> string + result" where
  "demo_run code out =
     Inr \<lparr> exit_code = code, stdout = out, stderr = [], duration = 0, timed_out = False \<rparr>"

text \<open>\<open>pass\<close> succeeds, \<open>fix\<close> succeeds once the workspace is repaired, \<open>touch\<close> fails and
  leaves a mess; everything else fails.\<close>

definition demo_exec :: "command \<Rightarrow> string \<Rightarrow> (string + result) \<times> string" where
  "demo_exec c w =
     (if cmd_args c = [''-c'', ''pass''] then (demo_run 0 ''ok'', w)
      else if cmd_args c = [''-c'', ''fix''] then (demo_run (if w = ''good'' then 0 else 1) ''--- FAIL'', w)
      else if cmd_args c = [''-c'', ''touch''] then (demo_run 1 ''--- FAIL'', ''mess'')
      else (demo_run 1 ''--- FAIL'', w))"

definition demo_finding :: review_finding where
  "demo_finding =
     \<lparr> rf_id = [], rf_file = ''n/a'', rf_quote = ''x'', rf_severity = ''blocker'', rf_confidence = 9,
       rf_scenario = ''bad'', rf_repro_cmd = ''touch'', rf_no_repro_reason = [] \<rparr>"

definition demo_verdict :: "review_finding list \<Rightarrow> review_verdict" where
  "demo_verdict fs = \<lparr> rx_findings = fs, rx_usage = zero_usage, rx_model = ''m'', rx_summary = ''s'', rx_run_id = [] \<rparr>"

definition demo_deps :: "string gate_deps" where
  "demo_deps =
     \<lparr> d_pol = base_policy\<lparr>pv_review_rounds := 2\<rparr>, d_task = ''t'', d_root = ''r'', d_alias = [],
       d_run_timeout = 0, d_pricer = None, d_sha = id, d_done = (\<lambda>w. (False, w)),
       d_gate_done = (\<lambda>w. (None, w)), d_exec = demo_exec, d_is_repo = (\<lambda>w. (True, w)),
       d_write_tree = (\<lambda>w. (Inr w, w)), d_diff_names = (\<lambda>a b w. (Inr [''f''], w)),
       d_diff_trees = (\<lambda>a b w. (Inr ''diff'', w)), d_restore_tree = (\<lambda>t w. (None, t)),
       d_walk = (\<lambda>w. (Some (Inr []), w)), d_remove = (\<lambda>p w. (None, w)), d_write = (\<lambda>p b w. (None, w)),
       d_read = (\<lambda>p w. (Inl FileNotExist, w)), d_host_read = (\<lambda>p w. (Some w, w)),
       d_host_exists = (\<lambda>p w. (False, w)), d_host_mkdir = (\<lambda>p w. (None, w)),
       d_host_write = (\<lambda>p b w. (None, w)), d_has_reviewer = True,
       d_reviewer = (\<lambda>i w. (ReviewOk (demo_verdict [demo_finding]), w)), d_solicitor = None \<rparr>"

definition demo_vs :: "string \<Rightarrow> verify_state" where
  "demo_vs cmd = (new_verify_state (base_policy\<lparr>pv_verify_cmd := cmd\<rparr>))\<lparr>vs_timeout := 0\<rparr>"

definition demo_gate :: "string \<Rightarrow> string \<Rightarrow> string gates" where
  "demo_gate cmd w = start_gates (demo_vs cmd) None None None w"

section \<open>The reproduction of a finding\<close>

definition failed_alone :: "'w gate_deps \<Rightarrow> ('w \<Rightarrow> string) \<Rightarrow> string \<Rightarrow> bool" where
  "failed_alone D tree cmd \<longleftrightarrow>
     (\<exists>w r w'. d_exec D (shell_command cmd (d_run_timeout D)) w = (Inr r, w') \<and> exit_code r \<noteq> 0 \<and> tree w' = tree w)"

lemma failed_aloneI:
  "d_exec D (shell_command cmd (d_run_timeout D)) w = (Inr r, w') \<Longrightarrow> exit_code r \<noteq> 0 \<Longrightarrow> tree w' = tree w \<Longrightarrow>
   failed_alone D tree cmd"
  by (auto simp: failed_alone_def)

lemma wp_no_drift: "g_fence s = None \<Longrightarrow> Q [] s \<Longrightarrow> wp (fence_drift D) Q s"
  by (simp add: fence_drift_def wp_simps)

lemma wp_undo_unfenced:
  "(post = Inr pre \<Longrightarrow> Q () s) \<Longrightarrow>
   (\<And>e w. post \<noteq> Inr pre \<Longrightarrow> d_restore_tree D pre (g_world s) = (e, w) \<Longrightarrow> Q () (s\<lparr>g_world := w\<rparr>)) \<Longrightarrow>
   wp (undo_repro D pre post []) Q s"
  by (auto simp: undo_repro_def wp_simps split: prod.splits)

lemma settle_confirmed: "\<not> rd_confirmed rd \<Longrightarrow> rd_confirmed (settle (format_run r) rd) \<longleftrightarrow> exit_code r \<noteq> 0"
  by (simp add: settle_def Let_def)

lemma wp_ret_dropped: "(\<And>why. Q (True, dropped why rd) s) \<Longrightarrow> wp (ret (True, dropped why rd)) Q s"
  by (simp add: wp_ret)



text \<open>What counts as confirmation: the exit code of the reproduction alone. A reproduction cut
  off by its timeout (non-zero code) confirms its finding, which then blocks at any
  confidence, while verification records the very same output as inconclusive.\<close>

theorem confirmation_by_exit_code:
  "(rd_confirmed (settle (format_run r) (as_reviewed f)) \<longleftrightarrow> exit_code r \<noteq> 0)
   \<and> (attempt_status (Inr (format_run r)) = EvidenceFailed
      \<longleftrightarrow> exit_code r \<noteq> 0 \<and> \<not> timed_out r \<and> infra_fault_signature (format_run r) = [])
   \<and> (timed_out r \<longrightarrow> attempt_status (Inr (format_run r)) = EvidenceInconclusive)"
  by (simp add: settle_def as_reviewed_def Let_def attempt_status_def)

theorem confirmation_by_exit_code_witness:
  "\<exists>r. timed_out r \<and> rd_confirmed (settle (format_run r) (as_reviewed demo_finding))
     \<and> attempt_status (Inr (format_run r)) = EvidenceInconclusive"
  by (rule exI [of _ "\<lparr> exit_code = -1, stdout = [], stderr = [], duration = 0, timed_out = True \<rparr>"])
     (use confirmation_by_exit_code in \<open>metis result.select_convs(1) result.select_convs(5) zero_neq_neg_one\<close>)

text \<open>The validation ladder of one finding: it blocks only if its severity is blocker, it
  quotes something, and its reproduction was executed and failed or its confidence is at
  least the blocking threshold; it is refuted only by a reproduction that passed; it is
  advisory only as a blocker above the advisory threshold; and the budget of executions never
  grows.\<close>

theorem classify_ladder:
  assumes "run_state (classify D f n) s = ((rd, m), t)"
  shows "rd_finding rd = f \<and> m \<le> n
     \<and> (rd_fate rd = FatePending \<longrightarrow> blocker_severity f \<and> trim_space (rf_quote f) \<noteq> []
          \<and> (rd_confirmed rd \<or> review_block_confidence \<le> rf_confidence f))
     \<and> (rd_confirmed rd \<longrightarrow> rd_fate rd = FatePending \<and> (\<exists>r. repro_answered D f r \<and> exit_code r \<noteq> 0))
     \<and> (rd_fate rd = FateAdvised \<longrightarrow> blocker_severity f \<and> review_advise_confidence \<le> rf_confidence f)
     \<and> (rd_fate rd = FateRefuted \<longrightarrow> rf_confidence f < review_block_confidence
          \<and> (\<exists>r. repro_answered D f r \<and> exit_code r = 0))
     \<and> rd_fate rd \<notin> {FateRepaired, FateExpired}"
  using wpD [OF wp_classify_ladder assms] by (auto simp: ladder_def)

theorem classify_ladder_witness:
  "fst (run_state (classify demo_deps (demo_finding\<lparr>rf_repro_cmd := ''crash'', rf_confidence := 1\<rparr>) 2) (demo_gate [] ''good''))
     = (settle (format_run \<lparr> exit_code = 1, stdout = ''--- FAIL'', stderr = [], duration = 0, timed_out = False \<rparr>)
          (as_reviewed (demo_finding\<lparr>rf_repro_cmd := ''crash'', rf_confidence := 1\<rparr>)), 1)
   \<and> (1::nat) \<le> 2"
proof -
  let ?f = "demo_finding\<lparr>rf_repro_cmd := ''crash'', rf_confidence := 1\<rparr>"
  obtain rd m t where r: "run_state (classify demo_deps ?f 2) (demo_gate [] ''good'') = ((rd, m), t)"
    by (metis prod.exhaust)
  have "m \<le> 2" using classify_ladder [OF r] by blast
  moreover have "fst (run_state (classify demo_deps ?f 2) (demo_gate [] ''good''))
     = (settle (format_run \<lparr> exit_code = 1, stdout = ''--- FAIL'', stderr = [], duration = 0, timed_out = False \<rparr>) (as_reviewed ?f), 1)"
    by code_simp
  ultimately show ?thesis using r by simp
qed

section \<open>The reviewer's rounds\<close>

text \<open>C10: What a call of the review gate leaves behind. The records stay well formed and gain at most
  one round; feedback is sent back only while the loop can go on and rounds are left; and when
  neither feedback nor a blocking reason comes back, then either a round was completed that
  leaves nothing waiting, no confirmed finding of its own and, where the review is required, no
  infrastructure failure, or the review was legitimately not run: switched off or failed while
  not required, canceled by the user, or without any change to look at.\<close>

theorem review_finish_outcome:
  assumes "g_review s = Some rv" and "review_wf rv" and "run_state (review_finish D cc) s = ((fb, why), t)"
  shows "\<exists>rv'. g_review t = Some rv' \<and> review_wf rv' \<and> review_only s t
    \<and> rv_rounds rv' \<in> {rv_rounds rv, rv_rounds rv + 1}
    \<and> (fb \<noteq> [] \<longrightarrow> cc \<and> why = [] \<and> rv_rounds rv' = rv_rounds rv + 1 \<and> int (rv_rounds rv') < rv_max_rounds rv)
    \<and> (rv_blocked rv' \<longrightarrow> rv_blocked rv \<or> why \<noteq> [])
    \<and> (fb = [] \<and> why = [] \<longrightarrow>
         (rv_rounds rv' = rv_rounds rv + 1 \<and> rv_pending rv' = []
            \<and> (\<forall>f \<in> set (rv_findings rv'). rd_round f = rv_rounds rv' \<longrightarrow> rd_fate f \<noteq> FatePending \<and> \<not> rd_confirmed f)
            \<and> (effective_review_required D \<longrightarrow> \<not> infra_status (rv_status rv')))
         \<or> (\<not> effective_review_required D \<and> (rv_skip rv \<noteq> [] \<or> infra_status (rv_status rv')))
         \<or> rv_status rv' = ReviewCanceled \<or> no_changes D (rv_base_tree rv))"
proof -
  have "review_only s t"
    using wpD [OF preservesD [OF review_only_finish review_only_refl] assms(3)] .
  with wpD [OF wp_review_finish [OF assms(1,2)] assms(3)] show ?thesis
    by (auto simp: review_outcome_def passed_clean_def)
qed

definition demo_review :: "string \<Rightarrow> review_state" where
  "demo_review base = (zero_review demo_deps)\<lparr>rv_base_tree := base\<rparr>"

lemma demo_review_wf: "review_wf (demo_review base)"
  by (simp add: demo_review_def zero_review_def review_wf_def)

theorem review_finish_outcome_witness:
  "\<exists>fb why t rv'. run_state (review_finish demo_deps True) ((demo_gate [] ''good'')\<lparr>g_review := Some (demo_review ''old'')\<rparr>)
       = ((fb, why), t)
     \<and> g_review t = Some rv' \<and> review_wf rv' \<and> why = [] \<and> fb = []"
proof -
  let ?s = "(demo_gate [] ''good'')\<lparr>g_review := Some (demo_review ''old'')\<rparr>"
  obtain fb why t where r: "run_state (review_finish demo_deps True) ?s = ((fb, why), t)"
    by (metis prod.exhaust)
  moreover have "fst (run_state (review_finish demo_deps True) ?s) = ([], [])"
    by code_simp
  ultimately show ?thesis
    using review_finish_outcome [OF _ demo_review_wf r] by auto
qed

text \<open>A reviewer that fails after feedback was sent back does not review the repair, yet every
  finding that still waited is recorded as repaired: the fate is assigned before the call. The
  failure itself lets the finish through unless the review is required.\<close>

theorem reviewer_error_marks_repaired:
  assumes "g_review s = Some rv" and "review_wf rv"
    and "d_reviewer D (review_input_of D diff (rv_rounds rv + 1)) (g_world s) = (ReviewFailed None e, w)"
    and "run_state (review_round D cc diff rv) s = ((fb, why), t)"
  shows "fb = [] \<and> (why = [] \<or> effective_review_required D)
    \<and> (\<exists>rv'. g_review t = Some rv' \<and> rv_pending rv' = [] \<and> length (rv_findings rv') = length (rv_findings rv)
        \<and> (\<forall>i < length (rv_findings rv). rd_fate (rv_findings rv ! i) = FatePending \<longrightarrow>
             rd_fate (rv_findings rv' ! i) = FateRepaired))"
proof -
  let ?rv = "begin_round rv"
  let ?s = "s\<lparr>g_review := Some ?rv, g_world := w\<rparr>"
  have run: "run_state (review_round D cc diff rv) s = run_state (review_failed D e) ?s"
    using assms(1,3) by (simp add: review_round_def Let_def run_state_bind upd_review_def ext_def)
  have wf: "review_wf ?rv"
    using begin_round_wf assms(2) by blast
  have f: "rv_pending ?rv = []" "rv_findings ?rv = update_at (rv_pending rv) (set_fate FateRepaired) (rv_findings rv)"
    by (simp_all add: begin_round_def resolve_pending_def)
  have "wp (review_failed D e) (\<lambda>a t. \<exists>rv'. g_review t = Some rv' \<and> failed_as D ?rv a rv') ?s"
    by (rule wp_review_failed) (simp_all add: wf)
  with assms(4) run obtain rv' where rv': "g_review t = Some rv'" "failed_as D ?rv (fb, why) rv'"
    by (auto simp: wp_def)
  have fate: "rd_fate (rv_findings rv' ! i) = FateRepaired"
    if "i < length (rv_findings rv)" "rd_fate (rv_findings rv ! i) = FatePending" for i
    using that assms(2) rv'(2) f
    by (simp add: failed_as_def review_wf_def update_at_nth set_fate_def)
  show ?thesis
    using rv' f fate by (auto simp: failed_as_def)
qed

definition demo_waiting :: review_state where
  "demo_waiting =
     (demo_review ''old'')\<lparr>rv_rounds := 1, rv_pending := [0],
        rv_findings := [(as_reviewed demo_finding)\<lparr>rd_round := 1\<rparr>]\<rparr>"

theorem reviewer_error_marks_repaired_witness:
  "\<exists>t rv'. snd (run_state (review_round (demo_deps\<lparr>d_reviewer := \<lambda>i w. (ReviewFailed None (GoError ErrDeadline ''slow''), w)\<rparr>)
        True ''diff'' demo_waiting) ((demo_gate [] ''good'')\<lparr>g_review := Some demo_waiting\<rparr>)) = t
     \<and> g_review t = Some rv' \<and> map rd_fate (rv_findings rv') = [FateRepaired]"
proof -
  let ?D = "demo_deps\<lparr>d_reviewer := \<lambda>i w. (ReviewFailed None (GoError ErrDeadline ''slow''), w)\<rparr>"
  let ?s = "(demo_gate [] ''good'')\<lparr>g_review := Some demo_waiting\<rparr>"
  obtain fb why t where r: "run_state (review_round ?D True ''diff'' demo_waiting) ?s = ((fb, why), t)"
    by (metis prod.exhaust)
  have wf: "review_wf demo_waiting"
    by (simp add: demo_waiting_def demo_review_def zero_review_def review_wf_def)
  obtain rv' where "g_review t = Some rv'" "length (rv_findings rv') = 1" "rd_fate (rv_findings rv' ! 0) = FateRepaired"
    using reviewer_error_marks_repaired [OF _ wf _ r]
    by (auto simp: demo_waiting_def as_reviewed_def)
  then have "map rd_fate (rv_findings rv') = [FateRepaired]"
    by (cases "rv_findings rv'") auto
  with r \<open>g_review t = Some rv'\<close> show ?thesis by auto
qed

section \<open>Repeated claims\<close>

text \<open>The same gate asked again and again: each claim is a reason and the output behind it.\<close>

fun claims :: "(string \<times> string) list \<Rightarrow> ('w gates, gate_answer list) state" where
  "claims [] = ret []"
| "claims ((reason, out) # xs) = do {
     a \<leftarrow> verify_completion_failure reason out;
     as \<leftarrow> claims xs;
     ret (a # as) }"

definition refused :: "gate_answer \<Rightarrow> bool" where
  "refused a \<longleftrightarrow> fst (snd a) \<noteq> []"

lemma claims_Cons:
  "run_state (claims (x # xs)) s = (as, t) \<longleftrightarrow>
     (\<exists>a u bs. run_state (verify_completion_failure (fst x) (snd x)) s = (a, u)
        \<and> run_state (claims xs) u = (bs, t) \<and> as = a # bs)"
  by (cases x) (auto simp: run_state_bind split: prod.splits)

lemma soft_step:
  assumes "vs_auto_soft (g_vs s)" "run_state (verify_completion_failure reason out) s = (a, u)"
  shows "vs_auto_soft (g_vs u)
    \<and> g_auto_feedback u = (if reason = [] then g_auto_feedback s else g_auto_feedback s + 1)
    \<and> (refused a \<longleftrightarrow> reason \<noteq> [] \<and> g_auto_feedback s < auto_verify_max_feedback \<and> \<not> is_infra_fault out)"
proof -
  have "wp (verify_completion_failure reason out) (\<lambda>a u. vs_auto_soft (g_vs u)
    \<and> g_auto_feedback u = (if reason = [] then g_auto_feedback s else g_auto_feedback s + 1)
    \<and> (refused a \<longleftrightarrow> reason \<noteq> [] \<and> g_auto_feedback s < auto_verify_max_feedback \<and> \<not> is_infra_fault out)) s"
    unfolding verify_completion_failure_def Let_def set_infra_def
    by (intro wp_intros)
       (use assms(1) in \<open>auto simp: refused_def is_infra_fault_def red_note_def less_Suc_eq_le\<close>)
  from wpD [OF this assms(2)] show ?thesis .
qed

text \<open>A derived verify command is advisory in the end: over any sequence of failing claims in a
  run, it refuses exactly the first two that are not environment faults by position, and
  accepts every later one; so it sends the model back to work at most twice.\<close>

theorem soft_gate_budget:
  assumes "vs_auto_soft (g_vs s)" and "run_state (claims xs) s = (as, t)" and "\<forall>x \<in> set xs. fst x \<noteq> []"
  shows "length as = length xs
    \<and> (\<forall>i < length xs. refused (as ! i) \<longleftrightarrow> g_auto_feedback s + i < auto_verify_max_feedback \<and> \<not> is_infra_fault (snd (xs ! i)))
    \<and> length (filter refused as) \<le> auto_verify_max_feedback - g_auto_feedback s"
  using assms
proof (induction xs arbitrary: s as)
  case Nil
  then show ?case by simp
next
  case (Cons x xs)
  obtain a u bs where r: "run_state (verify_completion_failure (fst x) (snd x)) s = (a, u)"
      "run_state (claims xs) u = (bs, t)" "as = a # bs"
    using Cons.prems(2) unfolding claims_Cons by blast
  have u: "vs_auto_soft (g_vs u)" "g_auto_feedback u = g_auto_feedback s + 1"
      "refused a \<longleftrightarrow> g_auto_feedback s < auto_verify_max_feedback \<and> \<not> is_infra_fault (snd x)"
    using soft_step [OF Cons.prems(1) r(1)] Cons.prems(3) by auto
  show ?case
    using Cons.IH [OF u(1) r(2)] Cons.prems(3) r(3) u
    by (auto simp: nth_Cons split: nat.splits)
qed

definition demo_soft :: "string gates" where
  "demo_soft = (demo_gate ''crash'' ''good'')\<lparr>g_vs := (demo_vs ''crash'')\<lparr>vs_auto_soft := True\<rparr>\<rparr>"

theorem soft_gate_budget_witness:
  "\<exists>as t. run_state (claims [(''red'', ''x''), (''red'', ''x''), (''red'', ''x'')]) demo_soft = (as, t)
     \<and> map refused as = [True, True, False]"
proof -
  obtain as t where r: "run_state (claims [(''red'', ''x''), (''red'', ''x''), (''red'', ''x'')]) demo_soft = (as, t)"
    by (metis prod.exhaust)
  have "\<not> is_infra_fault ''x''" by code_simp
  moreover have "vs_auto_soft (g_vs demo_soft)" "g_auto_feedback demo_soft = 0"
    by (simp_all add: demo_soft_def demo_gate_def start_gates_def)
  ultimately have "length as = 3" "\<forall>i < 3. refused (as ! i) \<longleftrightarrow> i < 2"
    using soft_gate_budget [OF _ r] by (auto simp: auto_verify_max_feedback_def nth_Cons' numeral_3_eq_3)
  then have "map refused as = map (\<lambda>i. i < 2) [0..<3]"
    by (intro nth_equalityI) auto
  with r show ?thesis by (auto simp: upt_rec)
qed

definition same_red :: "'w gates \<Rightarrow> string \<times> string \<Rightarrow> bool" where
  "same_red s x \<longleftrightarrow>
     str_contains (fst x) ''did not pass:'' \<and> snd x \<noteq> [] \<and> \<not> is_run_timeout (snd x)
     \<and> infra_fault_signature (snd x) = [] \<and> run_fingerprint (snd x) = run_fingerprint (g_base_out s)"

lemma contains_nonempty: "str_contains r ''did not pass:'' \<Longrightarrow> r \<noteq> []"
  by (cases r) simp_all

definition red_frame :: "'w gates \<Rightarrow> 'w gates \<Rightarrow> bool" where
  "red_frame s u \<longleftrightarrow> g_vs u = g_vs s \<and> g_base_red u = g_base_red s \<and> g_base_out u = g_base_out s \<and> g_grace_used u"

lemma grace_step:
  assumes "\<not> vs_auto_soft (g_vs s)" "g_base_red s" "same_red s (reason, out)"
    "run_state (verify_completion_failure reason out) s = (a, u)"
  shows "red_frame s u \<and> refused a \<and> (snd (snd a) \<longleftrightarrow> g_grace_used s)"
proof -
  have r: "reason \<noteq> []" "str_contains reason ''did not pass:''" "out \<noteq> []" "\<not> is_run_timeout out"
      "infra_fault_signature out = []" "run_fingerprint out = run_fingerprint (g_base_out s)"
    using assms(3) by (auto simp: same_red_def dest: contains_nonempty)
  have "run_state (verify_completion_failure reason out) s =
      ((Some Unverified, reason @ red_note, g_grace_used s), s\<lparr>g_grace_used := True\<rparr>)"
    unfolding verify_completion_failure_def Let_def
    by (cases "g_grace_used s") (simp_all add: r assms(1,2) run_state_bind whenever_def)
  with assms(4) r(1) show ?thesis by (auto simp: red_frame_def refused_def)
qed

text \<open>C39: The grace round: when the baseline was already red and every claim fails with the
  baseline's own fingerprint, every claim is refused, the first one with leave to continue and
  every later one terminally; no sequence of claims gets a second grace round.\<close>

theorem grace_once:
  assumes "\<not> vs_auto_soft (g_vs s)" and "g_base_red s" and "\<forall>x \<in> set xs. same_red s x"
    and "run_state (claims xs) s = (as, t)"
  shows "length as = length xs \<and> (\<forall>a \<in> set as. refused a)
    \<and> (\<forall>i < length as. snd (snd (as ! i)) \<longleftrightarrow> g_grace_used s \<or> 0 < i)"
  using assms
proof (induction xs arbitrary: s as)
  case Nil
  then show ?case by simp
next
  case (Cons x xs)
  obtain a u bs where r: "run_state (verify_completion_failure (fst x) (snd x)) s = (a, u)"
      "run_state (claims xs) u = (bs, t)" "as = a # bs"
    using Cons.prems(4) unfolding claims_Cons by blast
  have u: "red_frame s u" "refused a" "snd (snd a) \<longleftrightarrow> g_grace_used s"
    using grace_step [OF Cons.prems(1,2) _ r(1)] Cons.prems(3) by auto
  have "length bs = length xs \<and> (\<forall>a \<in> set bs. refused a) \<and> (\<forall>i < length bs. snd (snd (bs ! i)))"
    using Cons.IH [OF _ _ _ r(2)] Cons.prems u(1) by (simp add: same_red_def red_frame_def)
  then show ?case
    using r(3) u(2,3) by (auto simp: nth_Cons split: nat.splits)
qed

definition demo_red :: "string gates" where
  "demo_red = (demo_gate ''crash'' ''good'')\<lparr>g_base_red := True, g_base_out := ''exit 1 (0s)''\<rparr>"

theorem grace_once_witness:
  "\<exists>as t. run_state (claims (replicate 3 (''it did not pass:'', ''exit 1 (0s)''))) demo_red = (as, t)
     \<and> map (snd \<circ> snd) as = [False, True, True]"
proof -
  obtain as t where r: "run_state (claims (replicate 3 (''it did not pass:'', ''exit 1 (0s)''))) demo_red = (as, t)"
    by (metis prod.exhaust)
  have "same_red demo_red (''it did not pass:'', ''exit 1 (0s)'')"
    by code_simp
  then have l: "length as = 3" "\<forall>i < length as. snd (snd (as ! i)) \<longleftrightarrow> 0 < i"
    using grace_once [OF _ _ _ r] by (simp_all add: demo_red_def demo_gate_def start_gates_def demo_vs_def new_verify_state_def base_policy_def)
  then have "map (snd \<circ> snd) as = map (\<lambda>i. 0 < i) [0..<3]"
    by (intro nth_equalityI) auto
  with r show ?thesis by (auto simp: upt_rec)
qed

lemma unit_run: "\<exists>t. run_state m s = ((), t)"
  by (cases "run_state m s") simp

section \<open>The measured baseline\<close>

text \<open>The baseline is measured exactly: unless the user cancels, the verify command is asked
  once on the untouched tree, and the baseline is red exactly if it ended with a non-zero code
  that is neither a timeout nor an environment fault, and measured exactly if it is red or the
  command passed. An inconclusive run leaves it unmeasured, so it can excuse nothing later.\<close>

theorem baseline_exact:
  assumes "g_cache s = None" and "\<not> g_base_measured s" and "\<not> g_base_red s"
    and "vs_cmd (g_vs s) \<noteq> []" and "\<not> vs_skip_baseline (g_vs s)"
    and "run_state (measure_verify_baseline D) s = ((), t)"
  shows "fst (d_done D (g_world s)) \<and> \<not> g_base_measured t \<and> \<not> g_base_red t
    \<or> (\<exists>r. exec_answered D (vs_cmd (g_vs s)) (vs_timeout (g_vs s)) r
        \<and> (g_base_red t \<longleftrightarrow> (\<exists>q. r = Inr q \<and> exit_code q \<noteq> 0 \<and> \<not> timed_out q
                                \<and> infra_fault_signature (format_run q) = []))
        \<and> (g_base_measured t \<longleftrightarrow> g_base_red t \<or> (\<exists>q. r = Inr q \<and> exit_code q = 0)))"
proof -
  obtain c w where c: "d_done D (g_world s) = (c, w)" by fastforce
  obtain r w' where r: "d_exec D (shell_command (vs_cmd (g_vs s)) (vs_timeout (g_vs s))) w = (r, w')" by fastforce
  have no_store: "store_baseline [] x = x" for x :: "'a gates"
    by (simp add: store_baseline_def)
  have "run_state (measure_verify_baseline D) s =
      ((), if c then s\<lparr>g_world := w\<rparr> else note_baseline (map_sum id format_run r) (s\<lparr>g_world := w'\<rparr>))"
    by (simp add: measure_verify_baseline_def canceled_def run_op_def ext_def run_state_bind no_store assms(1,4,5) c r)
  then have t: "t = (if c then s\<lparr>g_world := w\<rparr> else note_baseline (map_sum id format_run r) (s\<lparr>g_world := w'\<rparr>))"
    using assms(6) by simp
  have "exec_answered D (vs_cmd (g_vs s)) (vs_timeout (g_vs s)) r"
    using r by (auto simp: exec_answered_def)
  then show ?thesis
    using assms(2,3) c t by (cases c) (auto simp: note_baseline_def split: sum.splits)
qed

theorem baseline_exact_witness:
  "\<exists>t. run_state (measure_verify_baseline demo_deps) (demo_gate ''crash'' ''good'') = ((), t) \<and> g_base_red t \<and> g_base_measured t"
proof -
  let ?s = "demo_gate ''crash'' ''good''"
  obtain t where r: "run_state (measure_verify_baseline demo_deps) ?s = ((), t)"
    by (rule exE [OF unit_run])
  have s: "g_cache ?s = None" "\<not> g_base_measured ?s" "\<not> g_base_red ?s" "vs_cmd (g_vs ?s) = ''crash''"
      "\<not> vs_skip_baseline (g_vs ?s)" "g_world ?s = ''good''"
    by (simp_all add: demo_gate_def start_gates_def demo_vs_def new_verify_state_def base_policy_def)
  have inf: "infra_fault_signature (format_run \<lparr> exit_code = 1, stdout = ''--- FAIL'', stderr = [], duration = 0, timed_out = False \<rparr>) = []"
    by code_simp
  have "g_base_red t"
    using baseline_exact [OF s(1-3) _ s(5) r] s inf
    by (auto simp: demo_deps_def exec_answered_def demo_exec_def shell_command_def demo_run_def)
  with baseline_exact [OF s(1-3) _ s(5) r] s r show ?thesis
    by (auto simp: demo_deps_def)
qed

text \<open>The baseline cache is faithful: a baseline measured with a cache at hand is replayed to a
  later turn that starts from the same tree with the same command, without running anything,
  and says what the measurement said.\<close>

theorem baseline_cache_replay:
  assumes tree: "\<And>w. d_write_tree D w = (Inr (tree w), w)" and "\<And>w. tree w \<noteq> []"
    and live: "\<And>w. d_done D w = (False, w)" and "d_root D \<noteq> []"
    and "g_cache s \<noteq> None" and "vs_cmd (g_vs s) \<noteq> []" and "\<not> vs_skip_baseline (g_vs s)"
    and m: "run_state (measure_verify_baseline D) s = ((), t)"
    and "g_cache u = g_cache t" and "g_vs u = g_vs s" and "tree (g_world u) = tree (g_world s)"
  shows "run_state (measure_verify_baseline D) u =
    ((), u\<lparr>g_base_measured := g_base_measured t, g_base_red := g_base_red t, g_base_out := g_base_out t, g_infra := g_infra t\<rparr>)"
proof -
  obtain c where c: "g_cache s = Some c" using assms(5) by blast
  have hit: "run_state (measure_verify_baseline D) x = ((), use_cached_baseline k x)"
    if "g_cache x = Some k" "bc_tree k = tree (g_world x)" "bc_cmd k = vs_cmd (g_vs x)"
      "vs_cmd (g_vs x) \<noteq> []" "\<not> vs_skip_baseline (g_vs x)" for x k
    using that assms(2,4) tree live
    by (simp add: measure_verify_baseline_def canceled_def write_tree_def ext_def run_state_bind Let_def)
  have t: "\<exists>k. g_cache t = Some k \<and> bc_tree k = tree (g_world s) \<and> bc_cmd k = vs_cmd (g_vs s)
      \<and> bc_measured k = g_base_measured t \<and> bc_red k = g_base_red t \<and> bc_out k = g_base_out t \<and> bc_infra k = g_infra t"
  proof (cases "bc_tree c = tree (g_world s) \<and> bc_cmd c = vs_cmd (g_vs s)")
    case True
    then show ?thesis using hit [OF c] assms(6,7) m c by (auto simp: use_cached_baseline_def)
  next
    case False
    obtain r w' where "d_exec D (shell_command (vs_cmd (g_vs s)) (vs_timeout (g_vs s))) (g_world s) = (r, w')" by fastforce
    with m False c assms(2,4,6,7) tree live
    have "t = store_baseline (tree (g_world s)) (note_baseline (map_sum id format_run r) (s\<lparr>g_world := w'\<rparr>))"
      by (auto simp: measure_verify_baseline_def canceled_def write_tree_def run_op_def ext_def run_state_bind Let_def)
    then show ?thesis using c assms(2)
      by (auto simp: store_baseline_def note_baseline_def split: sum.splits)
  qed
  then obtain k where k: "g_cache u = Some k" "bc_tree k = tree (g_world u)" "bc_cmd k = vs_cmd (g_vs u)"
      "bc_measured k = g_base_measured t" "bc_red k = g_base_red t" "bc_out k = g_base_out t" "bc_infra k = g_infra t"
    using assms(9-11) by auto
  show ?thesis
    using hit [OF k(1-3)] assms(6,7,10) k by (simp add: use_cached_baseline_def)
qed

definition demo_cached :: "string gates" where
  "demo_cached = (demo_gate ''crash'' ''good'')\<lparr>g_cache := Some \<lparr> bc_tree = [], bc_cmd = [],
     bc_measured = False, bc_red = False, bc_out = [], bc_infra = [] \<rparr>\<rparr>"

theorem baseline_cache_replay_witness:
  "\<exists>D t. snd (run_state (measure_verify_baseline D) demo_cached) = t
     \<and> run_state (measure_verify_baseline D) (demo_cached\<lparr>g_cache := g_cache t\<rparr>) =
       ((), demo_cached\<lparr>g_cache := g_cache t, g_base_measured := g_base_measured t, g_base_red := g_base_red t,
              g_base_out := g_base_out t, g_infra := g_infra t\<rparr>)"
proof -
  let ?D = "demo_deps\<lparr>d_write_tree := \<lambda>w. (Inr (''t'' @ w), w)\<rparr>"
  obtain t where r: "run_state (measure_verify_baseline ?D) demo_cached = ((), t)"
    by (rule exE [OF unit_run])
  have "run_state (measure_verify_baseline ?D) (demo_cached\<lparr>g_cache := g_cache t\<rparr>) =
       ((), (demo_cached\<lparr>g_cache := g_cache t\<rparr>)\<lparr>g_base_measured := g_base_measured t, g_base_red := g_base_red t,
              g_base_out := g_base_out t, g_infra := g_infra t\<rparr>)"
  proof (rule baseline_cache_replay [where tree = "\<lambda>w. ''t'' @ w", OF _ _ _ _ _ _ _ r])
    show "vs_cmd (g_vs demo_cached) \<noteq> []" "\<not> vs_skip_baseline (g_vs demo_cached)" "g_cache demo_cached \<noteq> None"
      by (simp_all add: demo_cached_def demo_gate_def start_gates_def demo_vs_def new_verify_state_def base_policy_def)
  qed (simp_all add: demo_deps_def)
  with r show ?thesis by (intro exI [of _ ?D] exI [of _ t]) simp
qed

section \<open>The reproduction a run must declare\<close>



text \<open>Once a reproduction is locked, the write and edit tools cannot touch it: a call whose path,
  with the sandbox's root stripped and cleaned, is the locked one is refused and changes
  nothing, and so is any call on a fenced path; every other call reaches the wrapped handler.\<close>

theorem lock_refuses:
  assumes "t_run_json tool = Some run" and "json_path raw = Some p"
    and "g_repro s = Some rp" and "rp_status rp = ReproValidated"
  shows "\<exists>run'. t_run_json (lock_repro_tool D json_path tool) = Some run'
    \<and> (clean_rel (fence_rel_path (d_alias D) p) = rp_path rp \<or> matches_fence (pv_test_fence (d_pol D)) (fence_rel_path (d_alias D) p)
         \<longrightarrow> (\<exists>e. run' raw s = (Inl e, s)))
    \<and> (clean_rel (fence_rel_path (d_alias D) p) \<noteq> rp_path rp
         \<and> \<not> matches_fence (pv_test_fence (d_pol D)) (fence_rel_path (d_alias D) p) \<longrightarrow> run' raw s = run raw s)"
  using assms by (simp add: lock_repro_tool_def repro_locked_path_def repro_fence_closed_def validated_def Let_def)

definition demo_locked :: repro_state where
  "demo_locked = locked_repro demo_deps ''a/x_test.go'' ''crash'' ''body'' ''--- FAIL''"

theorem lock_refuses_witness:
  "\<exists>run' e. t_run_json (lock_repro_tool demo_deps Some \<lparr> t_run = None, t_run_json = Some (\<lambda>raw g. (Inr raw, g)) \<rparr>) = Some run'
     \<and> run' ''/a/./x_test.go'' ((demo_gate [] ''good'')\<lparr>g_repro := Some demo_locked\<rparr>)
         = (Inl e, (demo_gate [] ''good'')\<lparr>g_repro := Some demo_locked\<rparr>)"
proof -
  have p: "clean_rel (fence_rel_path (d_alias demo_deps) ''/a/./x_test.go'') = ''a/x_test.go''"
    by code_simp
  have "rp_path demo_locked = ''a/x_test.go''" "rp_status demo_locked = ReproValidated"
    by (simp_all add: demo_locked_def locked_repro_def)
  then show ?thesis
    using lock_refuses [of "\<lparr> t_run = None, t_run_json = Some (\<lambda>raw g. (Inr raw, g)) \<rparr>" "\<lambda>raw g. (Inr raw, g)" Some
        "''/a/./x_test.go''" "''/a/./x_test.go''" "(demo_gate [] ''good'')\<lparr>g_repro := Some demo_locked\<rparr>" demo_locked demo_deps] p
    by auto
qed

section \<open>Setting up\<close>

definition kept :: "'w gates \<Rightarrow> 'w gates \<Rightarrow> bool" where
  "kept s t \<longleftrightarrow> g_review t = g_review s \<and> g_fence t = g_fence s \<and> g_scope t = g_scope s \<and> g_vs t = g_vs s"

lemma kept_upd [simp]:
  "kept s s" "kept s (t\<lparr>g_world := w\<rparr>) = kept s t" "kept s (note_baseline r t) = kept s t"
  "kept s (store_baseline tree t) = kept s t" "kept s (use_cached_baseline c t) = kept s t"
  "kept s (t\<lparr>g_run_base := b\<rparr>) = kept s t" "kept s (t\<lparr>g_std_base := b\<rparr>) = kept s t"
  by (auto simp: kept_def note_baseline_def store_baseline_def use_cached_baseline_def split: sum.splits)

lemma wp_measure_kept: "wp (measure_verify_baseline D) (\<lambda>_ t. kept s t) s"
  unfolding measure_verify_baseline_def Let_def
  by (intro wp_intros wp_canceled wp_write_tree wp_run_op) simp_all

lemma wp_capture_run: "wp (capture_run_base_tree D) (\<lambda>e t. kept s t
    \<and> (e = None \<longrightarrow> pv_require_diff (d_pol D) \<longrightarrow> tree_answered D (g_run_base t))) s"
  unfolding capture_run_base_tree_def Let_def
  by (intro gate_intros wp_write_tree) simp_all

lemma wp_capture_standing: "wp (capture_standing_base_tree D) (\<lambda>_ t. kept s t \<and> g_run_base t = g_run_base s) s"
  unfolding capture_standing_base_tree_def Let_def
  by (intro gate_intros wp_write_tree) simp_all

definition review_armed :: "'w gate_deps \<Rightarrow> review_state \<Rightarrow> bool" where
  "review_armed D rv \<longleftrightarrow> review_wf rv \<and> \<not> rv_blocked rv
     \<and> (if rv_skip rv = [] then tree_answered D (rv_base_tree rv) else rp_optional (pv_review_policy (d_pol D)))"

lemma wp_new_review: "wp (new_review_state D)
   (\<lambda>r t. world_only s t \<and> (\<forall>x. r = Inr x \<longrightarrow> (d_has_reviewer D \<longleftrightarrow> x \<noteq> None) \<and> (\<forall>rv. x = Some rv \<longrightarrow> review_armed D rv))) s"
  unfolding new_review_state_def
  by (intro gate_intros wp_write_tree)
     (auto simp: review_armed_def review_wf_def zero_review_def split: sum.splits if_splits)

text \<open>A gate that was asked for is never silently absent: when the set-up returns without an
  error, there is a review state exactly if a reviewer was injected, with a snapshot to diff
  against or else switched off under a policy that says optional; a fence exactly if patterns
  are configured; a scope exactly if a scope is; and a run tree if a diff is required. The
  review records start well formed and unblocked.\<close>

theorem new_gates_armed:
  assumes "run_state (new_gates D) s = (None, t)"
  shows "(d_has_reviewer D \<longleftrightarrow> g_review t \<noteq> None)
    \<and> (\<forall>rv. g_review t = Some rv \<longrightarrow> review_wf rv \<and> \<not> rv_blocked rv
         \<and> (rv_skip rv = [] \<longrightarrow> tree_answered D (rv_base_tree rv))
         \<and> (rv_skip rv \<noteq> [] \<longrightarrow> rp_optional (pv_review_policy (d_pol D))))
    \<and> (pv_test_fence (d_pol D) \<noteq> [] \<longleftrightarrow> g_fence t \<noteq> None)
    \<and> (pv_diff_scope (d_pol D) \<noteq> [] \<longleftrightarrow> g_scope t \<noteq> None)
    \<and> (pv_require_diff (d_pol D) \<longrightarrow> tree_answered D (g_run_base t))"
proof -
  have "wp (new_gates D) (\<lambda>e t. e = None \<longrightarrow>
      ((d_has_reviewer D \<longleftrightarrow> g_review t \<noteq> None) \<and> (\<forall>rv. g_review t = Some rv \<longrightarrow> review_armed D rv))
      \<and> (pv_test_fence (d_pol D) \<noteq> [] \<longleftrightarrow> g_fence t \<noteq> None)
      \<and> (pv_diff_scope (d_pol D) \<noteq> [] \<longleftrightarrow> g_scope t \<noteq> None)
      \<and> (pv_require_diff (d_pol D) \<longrightarrow> tree_answered D (g_run_base t))) s"
    unfolding new_gates_def new_scope_state_def
    by (intro gate_intros wp_write_tree wp_use [OF wp_new_review] wp_use [OF wp_measure_kept]
          wp_use [OF wp_capture_run] wp_use [OF wp_capture_standing])
       (auto simp: kept_def)
  from wpD [OF this assms] show ?thesis
    by (auto simp: review_armed_def split: if_splits)
qed

theorem new_gates_armed_witness:
  "\<exists>t. run_state (new_gates (demo_deps\<lparr>d_pol := base_policy\<lparr>pv_test_fence := [''*_test.go'']\<rparr>\<rparr>)) (demo_gate [] ''good'') = (None, t)
     \<and> g_review t \<noteq> None \<and> g_fence t \<noteq> None \<and> g_scope t = None"
proof -
  let ?D = "demo_deps\<lparr>d_pol := base_policy\<lparr>pv_test_fence := [''*_test.go'']\<rparr>\<rparr>"
  obtain e t where r: "run_state (new_gates ?D) (demo_gate [] ''good'') = (e, t)"
    by (metis prod.exhaust)
  have "fst (run_state (new_gates ?D) (demo_gate [] ''good'')) = None" by code_simp
  with r have r': "run_state (new_gates ?D) (demo_gate [] ''good'') = (None, t)" by simp
  from new_gates_armed [OF r'] r' show ?thesis
    by (simp add: demo_deps_def base_policy_def)
qed

end
