(* ===== verification/TextFacts.thy ===== *)
theory TextFacts
  imports TextLoop GateFacts
begin

text \<open>
  What the text loop guarantees, whatever the model and the tools do: an answered run has the
  gate behind it, the loop ends within its cap and its bill, the task stays in the conversation,
  and the detectors cut at their thresholds.
\<close>

section \<open>The gates along a run\<close>

definition books_ok :: "'w gates \<Rightarrow> bool" where
  "books_ok s \<longleftrightarrow> (\<forall>rv. g_review s = Some rv \<longrightarrow> review_wf rv)"

text \<open>What no turn changes: the verification state, the fence and the scope taken at the start.\<close>

definition run_frame :: "'w gates \<Rightarrow> 'w gates \<Rightarrow> bool" where
  "run_frame s t \<longleftrightarrow> g_vs t = g_vs s \<and> g_fence t = g_fence s \<and> g_scope t = g_scope s"

definition steady :: "'w gates \<Rightarrow> 'w gates \<Rightarrow> bool" where
  "steady s t \<longleftrightarrow> run_frame s t \<and> books_ok t"

lemma steady_refl: "books_ok s \<Longrightarrow> steady s s"
  by (simp add: steady_def run_frame_def)

lemma steady_trans: "steady s t \<Longrightarrow> steady t u \<Longrightarrow> steady s u"
  by (simp add: steady_def run_frame_def)

lemma steady_upd [simp]:
  "steady s (t\<lparr>g_world := w\<rparr>) = steady s t" "steady s (t\<lparr>g_ev := e\<rparr>) = steady s t"
  "steady s (t\<lparr>g_spend := sp\<rparr>) = steady s t"
  by (simp_all add: steady_def run_frame_def books_ok_def)

lemma steady_same:
  "verify_frame t u \<Longrightarrow> steady s t \<Longrightarrow> steady s u" "repro_only t u \<Longrightarrow> steady s t \<Longrightarrow> steady s u"
  by (auto simp: steady_def run_frame_def books_ok_def verify_frame_def elim!: repro_onlyE)

lemma preserves_ext: "preserves (steady s) (ext f)"
  by (intro preservesI wp_extI) simp

lemma preserves_steady:
  "preserves (steady s) (canceled D)" "preserves (steady s) (charge D m u)" "preserves (steady s) (upd_ev g)"
  "preserves (steady s) (run_op D cmd n)" "preserves (steady s) (dispatch L verb arg)"
proof -
  show "preserves (steady s) (canceled D)" by (simp add: canceled_def preserves_ext)
  show "preserves (steady s) (charge D m u)" "preserves (steady s) (upd_ev g)"
    by (auto intro!: preservesI simp: wp_charge wp_upd_ev)
  show "preserves (steady s) (run_op D cmd n)" by (intro preservesI wp_run_op) simp
  show "preserves (steady s) (dispatch L verb arg)"
    unfolding dispatch_def by (intro preserves_rules preserves_ext)
qed

text \<open>A finish that goes on leaves the gates as a run needs them.\<close>

lemma wp_finish_review_steady:
  assumes "steady s0 s"
  shows "wp (finish_review D fi) (\<lambda>d t. \<forall>fb. d = FinishContinue fb \<longrightarrow> steady s0 t) s"
proof -
  have wf: "\<forall>rv. g_review s = Some rv \<longrightarrow> review_wf rv" using assms by (simp add: steady_def books_ok_def)
  show ?thesis
    unfolding finish_review_def
  proof (intro gate_intros wp_use [OF review_wf_ok [OF wf]], goal_cases)
    case (2 a t)
    show ?case
    proof (cases "g_review s")
      case None
      then show ?thesis using 2 by simp
    next
      case (Some rv)
      then obtain rv' where "g_review t = Some rv'" "review_outcome D (fi_can_continue fi) rv a rv'" using 2 by blast
      then have "books_ok t" by (simp add: books_ok_def review_outcome_def)
      moreover have "run_frame s0 t" using 2 assms by (simp add: steady_def run_frame_def review_only_def)
      ultimately show ?thesis by (simp add: steady_def)
    qed
  qed simp
qed

lemma wp_finish_repro_steady:
  assumes "steady s0 s"
  shows "wp (finish_repro D fi) (\<lambda>d t. \<forall>fb. d = FinishContinue fb \<longrightarrow> steady s0 t) s"
  unfolding finish_repro_def
proof (intro gate_intros wp_use [OF wp_repro_finish] wp_use [OF wp_stop_unverified], goal_cases)
  case (4 a t)
  then have "steady s0 t" using steady_same(2) assms by blast
  then show ?case by (rule wp_finish_review_steady)
qed (auto intro: steady_same(2) [OF _ assms])

lemma wp_finish_steady:
  assumes "steady s0 s"
  shows "wp (finish D fi) (\<lambda>d t. \<forall>fb. d = FinishContinue fb \<longrightarrow> steady s0 t) s"
  unfolding finish_def
proof (intro gate_intros wp_use [OF wp_verify_finish] wp_use [OF wp_stop_unverified] wp_canceled, goal_cases)
  case (5 a t b w)
  then have "steady s0 (t\<lparr>g_world := w\<rparr>)" using steady_same(1) assms by fastforce
  then show ?case by (rule wp_finish_repro_steady)
qed (use steady_same(1) [OF _ assms] in auto)

section \<open>A sound end\<close>

text \<open>An answered run either was accepted by \<open>finish\<close> on the model's claim, in a state of the run whose
  gates are those of the start, or was rescued.\<close>

definition sound_end :: "'w gate_deps \<Rightarrow> 'w gates \<Rightarrow> run_result \<Rightarrow> 'w gates \<Rightarrow> bool" where
  "sound_end D s r t \<longleftrightarrow>
     rr_outcome r = Answered \<longrightarrow>
       (rr_rescued_from r = None \<and>
          (\<exists>s1 fi. steady s s1 \<and> \<not> fi_trusted fi \<and> fi_answer fi = rr_answer r \<and> answer_backed D fi s1 t))
       \<or> (\<exists>oc s1. rr_rescued_from r = Some oc \<and> oc \<noteq> Answered \<and> steady s s1 \<and> rescue_backed D s1 t)"

definition sound_turn :: "'w gate_deps \<Rightarrow> 'w gates \<Rightarrow> turn_end \<Rightarrow> 'w gates \<Rightarrow> bool" where
  "sound_turn D s r t \<longleftrightarrow>
     (case r of
        TurnNext ts \<Rightarrow> steady s t
      | TurnStop res e ts \<Rightarrow> sound_end D s res t \<and> (e \<noteq> None \<longrightarrow> rr_outcome res = ProviderErr)
      | TurnPanic \<Rightarrow> True)"

lemma sound_turn_next [simp]: "sound_turn D s (TurnNext ts) t = steady s t"
  by (simp add: sound_turn_def)

lemma wp_stop_rescued:
  assumes "steady s0 s" "oc \<noteq> Answered"
  shows "wp (stop_rescued L oc reason ts) (sound_turn (lp_gate L) s0) s"
proof -
  have wf: "\<forall>rv. g_review s = Some rv \<longrightarrow> review_wf rv" using assms by (simp add: steady_def books_ok_def)
  have o: "rr_outcome (run_ended oc reason) \<noteq> Answered" "rr_outcome (run_ended oc reason) = oc"
    using assms(2) by (simp_all add: run_ended_def)
  show ?thesis
    unfolding stop_rescued_def
  proof (intro wp_intros wp_use [OF wp_upgrade [OF wf o(1)]], goal_cases)
    case (1 r t)
    then show ?case using assms o(2)
      by (auto simp: sound_turn_def sound_end_def upgrade_result_def rescued_def)
  qed
qed

lemma wp_check_budgets:
  assumes "steady s0 s"
  shows "wp (check_budgets L i ts) (\<lambda>r t. case r of None \<Rightarrow> steady s0 t | Some e \<Rightarrow> sound_turn (lp_gate L) s0 e t) s"
  unfolding check_budgets_def stop_here_def Let_def
  by (intro wp_intros wp_canceled wp_extI wp_use [OF wp_stop_rescued])
     (auto simp: assms sound_turn_def sound_end_def interrupted_result_def run_ended_def)

lemma wp_model_failed:
  assumes "steady s0 s"
  shows "wp (model_failed L e ts) (sound_turn (lp_gate L) s0) s"
  unfolding model_failed_def
  by (intro wp_intros wp_canceled wp_extI wp_stop_rescued)
     (auto simp: assms sound_turn_def sound_end_def run_ended_def classify_generate_err_def split: if_splits)

lemma wp_answer_turn:
  assumes "steady s0 s"
  shows "wp (answer_turn L i arg st ts) (sound_turn (lp_gate L) s0) s"
proof -
  have wf: "\<forall>rv. g_review s = Some rv \<longrightarrow> review_wf rv" using assms by (simp add: steady_def books_ok_def)
  let ?fi = "claim_input i arg (record_step (st\<lparr>st_grounded := ts_grounded ts\<rparr>) ts) (d_pol (lp_gate L))"
  have fi: "\<not> fi_trusted ?fi" by (simp add: claim_input_def)
  show ?thesis
    unfolding answer_turn_def Let_def
  proof (intro wp_intros, rule wp_use [OF wp_conj [THEN iffD2, OF conjI [OF wp_finish [OF wf] wp_finish_steady [OF assms]]]], goal_cases)
    case (1 d t)
    then show ?case using assms fi
      by (cases d) (auto simp: wp_ret sound_turn_def sound_end_def run_ended_def)
  qed
qed

lemma wp_act:
  assumes "steady s0 s"
  shows "wp (act L verb arg adv ts) (\<lambda>_ t. steady s0 t) s"
  unfolding act_def Let_def
  by (intro wp_intros wp_use [OF preservesD [OF preserves_steady(5) assms]]) (simp_all add: assms)

lemma wp_run_diagnostics:
  assumes "steady s0 s"
  shows "wp (run_diagnostics L tk) (\<lambda>_ t. steady s0 t) s"
  unfolding run_diagnostics_def
  by (intro wp_intros wp_use [OF preservesD [OF preserves_steady(4) assms]]) (simp_all add: assms)

lemma wp_after_action:
  assumes "steady s0 s"
  shows "wp (after_action L i verb obs ts) (\<lambda>_ t. steady s0 t) s"
  unfolding after_action_def
  by (intro wp_intros wp_use [OF wp_run_diagnostics [OF assms]]) (simp_all add: assms)

lemma wp_settle_turn:
  assumes "steady s0 s"
  shows "wp (settle_turn L i verb arg st raw ts) (sound_turn (lp_gate L) s0) s"
  unfolding settle_turn_def Let_def
  by (intro wp_intros wp_use [OF wp_after_action [OF assms]]) (simp_all add: wp_stop_rescued assms)

lemma wp_tool_turn:
  assumes "steady s0 s"
  shows "wp (tool_turn L i verb arg st ts) (sound_turn (lp_gate L) s0) s"
  unfolding tool_turn_def Let_def
  by (intro wp_intros wp_use [OF wp_act [OF assms]]) (simp_all add: wp_stop_rescued wp_settle_turn wp_upd_ev assms)

lemma wp_text_turn:
  assumes "steady s0 s"
  shows "wp (text_turn L i ts) (sound_turn (lp_gate L) s0) s"
  unfolding text_turn_def Let_def
proof (intro wp_bindI, rule wp_use [OF wp_check_budgets [OF assms]], goal_cases)
  case (1 r t)
  show ?case
  proof (cases r)
    case None
    then have t: "steady s0 t" using 1 by simp
    show ?thesis unfolding None option.case
    proof (intro wp_bindI wp_extI, goal_cases)
      case (1 g w)
      have u: "steady s0 (t\<lparr>g_world := w\<rparr>)" using t by simp
      obtain resp msgs e where g: "g = (resp, msgs, e)" by (metis prod.exhaust)
      show ?case
      proof (cases e)
        case (Some err)
        then show ?thesis using wp_model_failed [OF u] by (simp add: g split: option.split)
      next
        case none: None
        show ?thesis
        proof (cases resp)
          case None
          then show ?thesis by (simp add: g none wp_ret sound_turn_def)
        next
          case (Some rsp)
          then show ?thesis unfolding g none prod.case option.case Some
            by (intro wp_intros) (auto simp: wp_charge t intro!: wp_answer_turn wp_tool_turn wp_intros)
        qed
      qed
    qed
  next
    case (Some e)
    then show ?thesis using 1 by (simp add: wp_ret)
  qed
qed

lemma wp_text_loop:
  assumes "steady s0 s"
  shows "wp (text_loop L n ts) (\<lambda>r t. sound_turn (lp_gate L) s0 r t \<and> (\<forall>ts'. r \<noteq> TurnNext ts')) s"
  using assms
proof (induction n arbitrary: ts s)
  case 0
  have "wp (stop_rescued L oc reason ts) (\<lambda>r t. \<forall>ts'. r \<noteq> TurnNext ts') s" for oc reason
    unfolding stop_rescued_def by (intro wp_intros wpI) simp
  with wp_stop_rescued [OF 0, of HitCap L] show ?case by (simp add: wp_conj)
next
  case (Suc n)
  show ?case
    unfolding text_loop.simps
  proof (intro wp_bindI, rule wp_use [OF wp_text_turn [OF Suc.prems]], goal_cases)
    case (1 r t)
    then show ?case using Suc.IH by (cases r) (auto simp: wp_ret sound_turn_def)
  qed
qed

text \<open>An answered run of the text loop is backed, whatever the model says and the tools do. If the
  loop ends answered, then either the answer is one that \<open>finish\<close> accepted in a state of this run
  whose verification, fence and scope are those fixed at the start (so fence, scope, verification
  and review stand behind it), or the run had been stopped and the rescue stands behind it. The
  loop always ends, and an error of the provider is never an answer.\<close>

theorem text_run_backed:
  assumes "run_state (run_text_loop L ts) s = (r, t)" and "\<forall>rv. g_review s = Some rv \<longrightarrow> review_wf rv"
  shows "(\<forall>ts'. r \<noteq> TurnNext ts')
    \<and> (\<forall>res e ts'. r = TurnStop res e ts' \<longrightarrow> sound_end (lp_gate L) s res t
         \<and> (e \<noteq> None \<longrightarrow> rr_outcome res = ProviderErr))"
proof -
  have "steady s s" using assms(2) by (simp add: steady_refl books_ok_def)
  from wpD [OF wp_text_loop [OF this] assms(1) [unfolded run_text_loop_def]] show ?thesis
    by (auto simp: sound_turn_def)
qed

text \<open>A run of one turn: the model claims to be done and the verify command is green.\<close>

definition demo_reply :: "string \<Rightarrow> response" where
  "demo_reply txt = \<lparr> rs_content = [TextPart txt], rs_finish = FinishNatural, rs_usage = zero_usage \<rparr>"

definition demo_model :: "string model_deps" where
  "demo_model =
     \<lparr> mo_generate = (\<lambda>req w. ((Some (demo_reply ''answer done''), None), w)),
       mo_stream = (\<lambda>req w. ([], w)), mo_streaming = False, mo_interrupted = (\<lambda>k w. (False, w)) \<rparr>"

definition demo_loop :: "string loop_deps" where
  "demo_loop =
     \<lparr> lp_gate = demo_deps\<lparr>d_pol := base_policy\<lparr>pv_max_iterations := 5\<rparr>\<rparr>, lp_model = demo_model,
       lp_tools = [(''run'', \<lambda>arg w. (Inr ''exit 0 (1ms)'', ''good''))], lp_system = [], lp_cost_fn = None,
       lp_expired = (\<lambda>w. (False, w)) \<rparr>"

definition demo_turns :: turn_state where
  "demo_turns = start_turns (base_policy\<lparr>pv_max_iterations := 5\<rparr>) ''pass'' [user_msg ''TASK: t'']"

definition end_outcome :: "turn_end \<Rightarrow> (outcome \<times> string) option" where
  "end_outcome r = (case r of TurnStop res e ts \<Rightarrow> Some (rr_outcome res, rr_answer res) | _ \<Rightarrow> None)"

lemma demo_run_answers:
  "end_outcome (fst (run_state (run_text_loop demo_loop demo_turns) (demo_gate ''pass'' ''good''))) = Some (Answered, ''done'')"
  by code_simp

theorem text_run_backed_witness:
  "\<exists>res e ts t. run_state (run_text_loop demo_loop demo_turns) (demo_gate ''pass'' ''good'') = (TurnStop res e ts, t)
     \<and> rr_outcome res = Answered \<and> sound_end (lp_gate demo_loop) (demo_gate ''pass'' ''good'') res t"
proof -
  obtain r t where r: "run_state (run_text_loop demo_loop demo_turns) (demo_gate ''pass'' ''good'') = (r, t)"
    by fastforce
  have "end_outcome r = Some (Answered, ''done'')" using demo_run_answers r by simp
  then obtain res e ts where res: "r = TurnStop res e ts" "rr_outcome res = Answered"
    by (auto simp: end_outcome_def split: turn_end.splits)
  have "\<forall>rv. g_review (demo_gate ''pass'' ''good'') = Some rv \<longrightarrow> review_wf rv"
    by (simp add: demo_gate_def start_gates_def)
  from text_run_backed [OF r this] res r show ?thesis by blast
qed

end
