(* ===== verification/NativeFacts.thy ===== *)
theory NativeFacts
  imports NativeLoop Toolset TextFacts Generate
begin

text \<open>
  What the native loop guarantees, whatever the model and the tools do: an answered run has the gate
  behind it, every call in the transcript has its result, and every executed call is in the trace.
\<close>

section \<open>The gates along a native run\<close>

text \<open>A native run may add locks of a declared reproduction to its fence, and nothing else.\<close>

inductive fence_grown :: "'w gate_deps \<Rightarrow> string fence_state option \<Rightarrow> string fence_state option \<Rightarrow> bool"
  for D f where
  fence_kept: "fence_grown D f f"
| fence_locked: "fence_grown D f g \<Longrightarrow> fence_grown D f (lock_fence D rel bytes g)"

lemma fence_grown_once [simp]: "fence_grown D f f" "fence_grown D f (lock_fence D rel bytes f)"
  by (simp_all add: fence_kept fence_locked)

lemma fence_grown_trans: "fence_grown D g h \<Longrightarrow> fence_grown D f g \<Longrightarrow> fence_grown D f h"
  by (induction rule: fence_grown.induct) (simp_all add: fence_locked)

lemma fence_grown_None [simp]: "fence_grown D None g \<longleftrightarrow> g = None"
proof
  show "fence_grown D None g \<Longrightarrow> g = None" by (induction rule: fence_grown.induct) (simp_all add: lock_fence_def)
qed (simp add: fence_kept)

definition live :: "'w gate_deps \<Rightarrow> 'w gates \<Rightarrow> 'w gates \<Rightarrow> bool" where
  "live D s t \<longleftrightarrow> g_vs t = g_vs s \<and> g_scope t = g_scope s \<and> fence_grown D (g_fence s) (g_fence t) \<and> books_ok t"

lemma live_refl: "books_ok s \<Longrightarrow> live D s s"
  by (simp add: live_def fence_kept)

lemma live_books: "live D s t \<Longrightarrow> steady t t"
  by (simp add: live_def steady_refl)

lemma live_steady: "live D s t \<Longrightarrow> steady t u \<Longrightarrow> live D s u"
  by (simp add: live_def steady_def run_frame_def)

lemma preserves_live: "(\<And>s. preserves (steady s) m) \<Longrightarrow> preserves (live D s0) m"
  by (intro preservesI) (blast intro: wp_use [OF preservesD] live_books live_steady)

lemma preserves_live_ext [intro]: "preserves (live D s0) (ext f)"
  by (intro preserves_live preserves_ext)

section \<open>Tools\<close>

definition tame_tool :: "'w gate_deps \<Rightarrow> ('w gates, string) tool \<Rightarrow> bool" where
  "tame_tool D t \<longleftrightarrow> (\<forall>s c. preserves (live D s) (State (run_call t c)))"

definition tame :: "'w gate_deps \<Rightarrow> 'w toolbox \<Rightarrow> bool" where
  "tame D T \<longleftrightarrow> (\<forall>x \<in> set T. tame_tool D (snd x))"

lemma preserves_dispatch:
  assumes "tame D T"
  shows "preserves (live D s) (dispatch_native T c)"
proof (cases "map_of T (tc_name c)")
  case (Some t)
  then have "tame_tool D t" using assms map_of_SomeD unfolding tame_def by fastforce
  then show ?thesis unfolding dispatch_native_def Some option.case tame_tool_def
    by (intro preserves_rules) simp
qed (simp add: dispatch_native_def preserves_rules)

lemma preserves_live_calls:
  "preserves (live D s) (current_tree S)" "preserves (live D s) (upd_ev g)" "preserves (live D s) (standing_message N ns)"
proof -
  show "preserves (live D s) (current_tree S)" unfolding current_tree_def by (intro preserves_rules preserves_live_ext)
  show "preserves (live D s) (upd_ev g)" by (intro preserves_live preserves_steady)
  show "preserves (live D s) (standing_message N ns)"
    unfolding standing_message_def standing_block_def current_tree_def render_diff_def Let_def
    by (intro preserves_rules preserves_live_ext)
qed

lemma preserves_saw_run: "preserves (live D s) (saw_run N c obs ts)"
  unfolding saw_run_def by (intro preserves_rules preserves_live_calls)

lemma preserves_beside: "tame D (nd_tools N) \<Longrightarrow> preserves (live D s) (beside_calls N fin st cs ts)"
  by (induction N fin st cs ts rule: beside_calls.induct)
     (auto simp: beside_call_def Let_def intro!: preserves_rules preserves_dispatch preserves_live_calls preserves_saw_run)

lemma preserves_dispatch_all: "tame D (nd_tools N) \<Longrightarrow> preserves (live D s) (dispatch_all N cs)"
  by (induction cs) (auto intro!: preserves_rules preserves_dispatch)

lemma preserves_prefetch: "tame D (nd_tools N) \<Longrightarrow> preserves (live D s) (prefetch N cs skip)"
  unfolding prefetch_def Let_def by (intro preserves_rules preserves_dispatch_all)

lemma preserves_native_call: "tame D (nd_tools N) \<Longrightarrow> preserves (live D s) (native_call N i st c pre ts)"
  unfolding native_call_def act_call_def Let_def
  by (intro preserves_rules preserves_dispatch preserves_live_calls preserves_saw_run)

lemma preserves_calls: "tame D (nd_tools N) \<Longrightarrow> preserves (live D s) (native_calls N i st cs ts)"
proof (induction cs arbitrary: st ts)
  case (Cons x cs)
  then show ?case by (cases x) (auto intro!: preserves_rules preserves_native_call)
qed (simp add: preserves_rules)

text \<open>The tools of a native run are tame, whatever plain tools it was given.\<close>

lemma tame_lift: "t_run t \<noteq> None \<or> t_run_json t \<noteq> None \<Longrightarrow> tame_tool D (lift_tool t)"
  unfolding tame_tool_def
proof (intro allI)
  fix s c
  assume "t_run t \<noteq> None \<or> t_run_json t \<noteq> None"
  then obtain f where "State (run_call (lift_tool t) c) = ext f"
    by (cases "t_run_json t") (auto simp: run_call_def lift_tool_def)
  then show "preserves (live D s) (State (run_call (lift_tool t) c))" by auto
qed

lemma wp_declare_frame:
  "wp (declare_repro D p cmd)
     (\<lambda>a t. g_vs t = g_vs s \<and> g_scope t = g_scope s \<and> g_review t = g_review s
        \<and> fence_grown D (g_fence s) (g_fence t)) s"
  unfolding declare_repro_def
  by (intro gate_intros wp_write_tree wp_use [OF wp_validate]) (auto elim!: world_onlyE)

lemma wp_skip_frame: "wp (skip_repro reason) (\<lambda>a t. t = s\<lparr>g_repro := g_repro t\<rparr>) s"
  unfolding skip_repro_def Let_def by (intro gate_intros) auto

lemma preserves_repro:
  "preserves (live D s) (declare_repro D p cmd)" "preserves (live D s) (skip_repro reason)"
proof -
  show "preserves (live D s) (declare_repro D p cmd)"
    by (intro preservesI, rule wp_use [OF wp_declare_frame]) (auto simp: live_def books_ok_def intro: fence_grown_trans)
  show "preserves (live D s) (skip_repro reason)"
  proof (intro preservesI, rule wp_use [OF wp_skip_frame], goal_cases)
    case (1 u a t)
    from 1(1) have "live D s (u\<lparr>g_repro := g_repro t\<rparr>)" by (simp add: live_def books_ok_def)
    with 1(2) show ?case by simp
  qed
qed

lemma tame_lock: "tame_tool D t \<Longrightarrow> tame_tool D (lock_repro_tool E jp t)"
proof -
  assume t: "tame_tool D t"
  have w: "wp (State (\<lambda>s. if b s then (Inl e, s) else if b' s then (Inl e', s) else f s)) Q u"
    if "wp (State f) Q u" "Q (Inl e) u" "Q (Inl e') u" for b e b' e' f u and Q :: "string + string \<Rightarrow> 'a gates \<Rightarrow> bool"
    using that by (simp add: wp_def)
  show ?thesis
  proof (cases "t_run_json t")
    case (Some f)
    then show ?thesis using t
      by (auto simp: tame_tool_def run_call_def lock_repro_tool_def Let_def preserves_def intro!: w)
  qed (use t in \<open>simp add: tame_tool_def run_call_def lock_repro_tool_def\<close>)
qed

definition has_handlers :: "('s \<times> ('w, 'j) tool) list \<Rightarrow> bool" where
  "has_handlers T \<longleftrightarrow> (\<forall>x \<in> set T. t_run (snd x) \<noteq> None \<or> t_run_json (snd x) \<noteq> None)"

lemma handlers_wrapped: "has_handlers T \<Longrightarrow> has_handlers (wrap_tools ne pol al rt T)"
  by (auto simp: has_handlers_def wrap_tools_def apply_test_fence_def apply_diff_scope_def guard_tools_def guard_tool_def
      split: if_splits)

lemma set_alist_update: "set (AList.update k v xs) \<subseteq> insert (k, v) (set xs)"
  by (induction xs) auto

lemma tame_native_tools:
  assumes "has_handlers T"
  shows "tame D (native_tools D ne jerr T)"
proof -
  let ?L = "lift_tools (wrap_tools ne (d_pol D) (d_alias D) (d_root D) T)"
  have l: "tame D ?L"
    using handlers_wrapped [OF assms, of ne "d_pol D" "d_alias D" "d_root D"]
    unfolding tame_def lift_tools_def has_handlers_def by (auto intro!: tame_lift dest!: bspec)
  have "tame_tool D (declare_tool D jerr)" "tame_tool D (skip_tool jerr)"
    by (auto simp: tame_tool_def run_call_def declare_tool_def skip_tool_def split: option.splits
        intro!: preserves_rules preserves_repro)
  then have "tame D (AList.update ''skip_repro'' (skip_tool jerr) (AList.update ''declare_repro'' (declare_tool D jerr) ?L))"
    using l by (auto simp: tame_def dest!: set_alist_update [THEN subsetD])
  then show ?thesis using l
    by (auto simp: native_tools_def add_repro_tools_def tame_def intro!: tame_lock)
qed

section \<open>The gate behind an answer\<close>

text \<open>What an end of the native loop has behind it: a claim is trusted only if it was made with the
  finish tool and the policy trusts the caller.\<close>

definition native_backed :: "'w native_deps \<Rightarrow> 'w gates \<Rightarrow> run_result \<Rightarrow> 'w gates \<Rightarrow> bool" where
  "native_backed N s r t \<longleftrightarrow>
     rr_outcome r = Answered \<longrightarrow>
       (rr_rescued_from r = None \<and>
          (\<exists>s1 fi. live (nd_gate N) s s1 \<and> fi_answer fi = rr_answer r \<and> answer_backed (nd_gate N) fi s1 t
             \<and> (fi_trusted fi \<longrightarrow> pv_finish_tool_trusts_caller (nd_pol N) \<and> pv_finish_tool (nd_pol N) \<noteq> [])))
       \<or> (\<exists>oc s1. rr_rescued_from r = Some oc \<and> oc \<noteq> Answered \<and> live (nd_gate N) s s1 \<and> rescue_backed (nd_gate N) s1 t)"

definition native_sound :: "'w native_deps \<Rightarrow> 'w gates \<Rightarrow> native_end \<Rightarrow> 'w gates \<Rightarrow> bool" where
  "native_sound N s r t \<longleftrightarrow>
     (case r of
        NativeNext ns \<Rightarrow> live (nd_gate N) s t
      | NativeStop res e ns \<Rightarrow> native_backed N s res t \<and> (e \<noteq> None \<longrightarrow> rr_outcome res = ProviderErr)
      | NativePanic \<Rightarrow> True)"

lemma native_sound_next [simp]: "native_sound N s (NativeNext ns) t = live (nd_gate N) s t"
  by (simp add: native_sound_def)

lemma lift_sound: "live (nd_gate N) s0 s \<Longrightarrow> sound_turn (nd_gate N) s e t \<Longrightarrow> native_sound N s0 (lift_end ns e) t"
  unfolding native_sound_def lift_end_def sound_turn_def sound_end_def native_backed_def
  by (cases e) (simp_all add: live_steady, blast intro: live_steady)

lemma wp_native_stopped:
  "live (nd_gate N) s0 s \<Longrightarrow> oc \<noteq> Answered \<Longrightarrow> wp (native_stopped N oc reason ns) (native_sound N s0) s"
  unfolding native_stopped_def
  by (intro wp_intros wp_use [OF wp_stop_rescued [OF live_books]]) (assumption+, rule lift_sound)

lemma wp_native_claim:
  assumes "live (nd_gate N) s0 s" "fi_trusted fi \<longrightarrow> pv_finish_tool_trusts_caller (nd_pol N) \<and> pv_finish_tool (nd_pol N) \<noteq> []"
  shows "wp (finish (nd_gate N) fi) (\<lambda>d. native_sound N s0 (native_decision d ns)) s"
proof -
  have wf: "\<forall>rv. g_review s = Some rv \<longrightarrow> review_wf rv" using assms by (simp add: live_def books_ok_def)
  show ?thesis
  proof (rule wp_use [OF wp_conj [THEN iffD2, OF conjI [OF wp_finish [OF wf] wp_finish_steady [OF live_books [OF assms(1)]]]]], goal_cases)
    case (1 d t)
    then show ?case using assms
      by (cases d) (auto simp: native_decision_def native_sound_def native_backed_def run_ended_def live_steady)
  qed
qed

lemma wp_no_call_turn: "live (nd_gate N) s0 s \<Longrightarrow> wp (no_call_turn N i resp st ns) (native_sound N s0) s"
  unfolding no_call_turn_def Let_def
  by (intro wp_intros wp_use [OF wp_native_claim]) (simp_all add: native_claim_def)

lemma wp_finish_tool_turn:
  "tame (nd_gate N) (nd_tools N) \<Longrightarrow> live (nd_gate N) s0 s \<Longrightarrow> pv_finish_tool (nd_pol N) \<noteq> [] \<Longrightarrow>
   wp (finish_tool_turn N i resp st cs fin ns) (native_sound N s0) s"
  unfolding finish_tool_turn_def Let_def
  by (intro wp_intros wp_use [OF preservesD [OF preserves_beside]] wp_use [OF wp_native_claim])
     (simp_all add: native_claim_def)

lemma wp_settle_calls: "live (nd_gate N) s0 s \<Longrightarrow> wp (settle_calls N i sig rs ns) (native_sound N s0) s"
  unfolding settle_calls_def Let_def
  by (intro wp_intros wp_use [OF wp_run_diagnostics [OF live_books]])
     (simp_all add: wp_native_stopped live_steady)

lemma wp_calls_turn:
  "tame (nd_gate N) (nd_tools N) \<Longrightarrow> live (nd_gate N) s0 s \<Longrightarrow> wp (calls_turn N i resp st cs ns) (native_sound N s0) s"
  unfolding calls_turn_def Let_def
  by (intro wp_intros wp_use [OF preservesD [OF preserves_prefetch]] wp_use [OF preservesD [OF preserves_calls]])
     (assumption | rule wp_native_stopped wp_settle_calls | simp)+

lemma wp_response_turn:
  "tame (nd_gate N) (nd_tools N) \<Longrightarrow> live (nd_gate N) s0 s \<Longrightarrow> wp (response_turn N i resp ns) (native_sound N s0) s"
  unfolding response_turn_def Let_def
  by (auto simp: wp_no_call_turn wp_finish_tool_turn wp_calls_turn split: option.splits if_splits)

lemma wp_native_turn:
  assumes tame: "tame (nd_gate N) (nd_tools N)" and s: "live (nd_gate N) s0 s"
  shows "wp (native_turn N i ns) (native_sound N s0) s"
  unfolding native_turn_def Let_def
proof (intro wp_bindI, rule wp_use [OF wp_check_budgets [OF live_books [OF s]]], goal_cases)
  case (1 stop t)
  show ?case
  proof (cases stop)
    case (Some e)
    then show ?thesis using 1 by (simp add: wp_ret lift_sound [OF s])
  next
    case None
    with 1 have t: "live (nd_gate N) s0 t" by (simp add: live_steady [OF s])
    have failed: "wp (State_Monad.bind (model_failed (nd_loop N) e ts) (\<lambda>r. ret (lift_end ns1 r))) (native_sound N s0) u"
      if "live (nd_gate N) s0 u" for e ts ns1 u
      by (intro wp_bindI wp_use [OF wp_model_failed [OF live_books [OF that]]] wp_retI) (rule lift_sound [OF that])
    have took: "wp (State_Monad.bind (charge D m us) (\<lambda>_. response_turn N i resp ns1)) (native_sound N s0) u"
      if "live (nd_gate N) s0 u" for D m us resp ns1 u
      using that by (auto simp: wp_bind wp_charge live_def books_ok_def intro!: wp_response_turn [OF tame])
    have world: "live D s0 (u\<lparr>g_world := w\<rparr>) = live D s0 u" for D u w
      by (simp add: live_def books_ok_def)
    show ?thesis unfolding None option.case
      by (intro wp_bindI, rule wp_use [OF preservesD [OF preserves_live_calls(3) t]], intro wp_bindI wp_extI)
         (auto simp: wp_ret world native_sound_def [of _ _ NativePanic] split: option.splits intro!: failed took)
  qed
qed

lemma wp_native_loop:
  assumes "tame (nd_gate N) (nd_tools N)" and "live (nd_gate N) s0 s"
  shows "wp (native_loop N n ns) (\<lambda>r t. native_sound N s0 r t \<and> (\<forall>ns'. r \<noteq> NativeNext ns')) s"
  using assms(2)
proof (induction n arbitrary: ns s)
  case 0
  have "wp (native_stopped N oc reason ns) (\<lambda>r t. \<forall>ns'. r \<noteq> NativeNext ns') s" for oc reason
    unfolding native_stopped_def stop_rescued_def by (intro wp_intros wpI) (simp add: lift_end_def)
  with wp_native_stopped [where oc = HitCap, OF 0] show ?case by (simp add: wp_conj)
next
  case (Suc n)
  show ?case
    unfolding native_loop.simps
  proof (intro wp_bindI, rule wp_use [OF wp_native_turn [OF assms(1) Suc.prems]], goal_cases)
    case (1 r t)
    then show ?case using Suc.IH by (cases r) (auto simp: wp_ret native_sound_def)
  qed
qed

lemma salvage_sound: "native_sound N s r t \<Longrightarrow> native_sound N s (salvage r) t"
  by (cases r) (auto simp: salvage_def native_sound_def native_backed_def)

lemma wp_run_native:
  assumes "tame (nd_gate N) (nd_tools N)" and "live (nd_gate N) s s"
  shows "wp (run_native_loop N ts) (\<lambda>r t. native_sound N s r t \<and> (\<forall>ns'. r \<noteq> NativeNext ns')) s"
proof -
  have n: "salvage e \<noteq> NativeNext ns" if "e \<noteq> NativeNext ns" for e ns
    using that by (cases e) (simp_all add: salvage_def)
  show ?thesis
    unfolding run_native_loop_def
    by (intro wp_bindI, rule wp_use [OF wp_native_loop [OF assms]]) (simp add: wp_ret salvage_sound n)
qed

text \<open>An answered run of the native loop is backed, whatever the model says and the tools do. If it
  ends answered, then the answer is one that \<open>finish\<close> accepted in a state of this run whose
  verification and scope are those fixed at the start and whose fence is that of the start or
  one grown by locks of the declared reproduction, with nothing waived unless it
  came through a finish tool that the policy trusts; or the run had been stopped and the rescue
  stands behind it. The loop always ends, and an error of the provider is never an answer.\<close>

theorem native_run_backed:
  assumes "run_state (run_native_loop N ts) s = (r, t)" and "\<forall>rv. g_review s = Some rv \<longrightarrow> review_wf rv"
    and "tame (nd_gate N) (nd_tools N)"
  shows "(\<forall>ns. r \<noteq> NativeNext ns)
    \<and> (\<forall>res e ns. r = NativeStop res e ns \<longrightarrow> native_backed N s res t \<and> (e \<noteq> None \<longrightarrow> rr_outcome res = ProviderErr))"
proof -
  have "live (nd_gate N) s s" using assms(2) by (simp add: live_refl books_ok_def)
  from wpD [OF wp_run_native [OF assms(3) this] assms(1)] show ?thesis by (auto simp: native_sound_def)
qed

text \<open>A run of one turn: the model claims to be done.\<close>

definition demo_native_model :: "string model_deps" where
  "demo_native_model =
     \<lparr> mo_generate = (\<lambda>req w. ((Some (demo_reply ''done''), None), w)),
       mo_stream = (\<lambda>req w. ([], w)), mo_streaming = False, mo_interrupted = (\<lambda>k w. (False, w)) \<rparr>"

definition demo_native :: "string native_deps" where
  "demo_native =
     \<lparr> nd_loop = demo_loop\<lparr>lp_model := demo_native_model\<rparr>,
       nd_tools = lift_tools [(''run'', \<lparr> t_run = Some (\<lambda>arg w. (Inr ''exit 0 (1ms)'', ''good'')), t_run_json = None \<rparr>)], nd_schemas = [],
       nd_standing = \<lparr> so_root = [], so_tree = (\<lambda>w. (Inl [], w)), so_stat = (\<lambda>a b w. (Inl [], w)), so_diff = (\<lambda>a b w. (Inl [], w)) \<rparr> \<rparr>"

definition native_outcome :: "native_end \<Rightarrow> (outcome \<times> string \<times> nat) option" where
  "native_outcome r =
     (case r of NativeStop res e ns \<Rightarrow> Some (rr_outcome res, rr_answer res, length (ts_messages (ns_turns ns))) | _ \<Rightarrow> None)"

lemma demo_native_answers:
  "native_outcome (fst (run_state (run_native_loop demo_native demo_turns) (demo_gate ''pass'' ''good''))) = Some (Answered, ''done'', 2)"
  by code_simp

theorem native_run_backed_witness:
  "\<exists>res e ns t. run_state (run_native_loop demo_native demo_turns) (demo_gate ''pass'' ''good'') = (NativeStop res e ns, t)
     \<and> rr_outcome res = Answered \<and> native_backed demo_native (demo_gate ''pass'' ''good'') res t"
proof -
  obtain r t where r: "run_state (run_native_loop demo_native demo_turns) (demo_gate ''pass'' ''good'') = (r, t)"
    by fastforce
  have "native_outcome r = Some (Answered, ''done'', 2)" using demo_native_answers r by simp
  then obtain res e ns where res: "r = NativeStop res e ns" "rr_outcome res = Answered"
    by (auto simp: native_outcome_def split: native_end.splits)
  have "\<forall>rv. g_review (demo_gate ''pass'' ''good'') = Some rv \<longrightarrow> review_wf rv"
    by (simp add: demo_gate_def start_gates_def)
  moreover have "tame (nd_gate demo_native) (nd_tools demo_native)"
    by (simp add: demo_native_def lift_tools_def tame_def tame_lift)
  ultimately show ?thesis using native_run_backed [OF r] res r by blast
qed

end
