(* ===== verification/TextTrace.thy ===== *)
theory TextTrace
  imports TextFacts
begin

text \<open>
  What the turns of the text loop do to the conversation and to the recorded trace: every turn adds
  one step and one exchange, the task stays, the count stays within the cap, and an answer is
  grounded only after a tool gave a real observation.
\<close>

section \<open>What a turn does to the conversation and the trace\<close>

definition handed_on :: "'w loop_deps \<Rightarrow> turn_state \<Rightarrow> message list \<Rightarrow> bool" where
  "handed_on L ts msgs \<longleftrightarrow>
     (\<exists>w w' resp e. generate_with_eviction (lp_model L) (pv_stream (d_pol (lp_gate L))) (loop_request L ts) w = ((resp, msgs, e), w'))"

text \<open>Equal in messages, trace, count and grounding.\<close>

definition same_talk :: "turn_state \<Rightarrow> turn_state \<Rightarrow> bool" where
  "same_talk ts ts' \<longleftrightarrow>
     ts_messages ts' = ts_messages ts \<and> ts_steps ts' = ts_steps ts \<and> ts_iterations ts' = ts_iterations ts
     \<and> ts_grounded ts' = ts_grounded ts"

lemma same_talkI [simp]:
  "same_talk ts ts" "same_talk ts (ts\<lparr>ts_tracker := t\<rparr>)" "same_talk ts (ts\<lparr>ts_seen := d\<rparr>)"
  "same_talk ts (ts\<lparr>ts_spiral := sp\<rparr>)" "same_talk ts (ts\<lparr>ts_repeats := n\<rparr>)" "same_talk ts (count_repeat sig ts)"
  "same_talk ts (snd (add_nudges i obs ts))" "same_talk ts (snd (wire_observation sha raw i obs ts))"
  "same_talk ts (snd (spiral_turn verb arg ts))"
  by (auto simp: same_talk_def count_repeat_def add_nudges_def wire_observation_def spiral_turn_def
      split: prod.splits option.splits)

lemma same_talk_trans: "same_talk a b \<Longrightarrow> same_talk b c \<Longrightarrow> same_talk a c"
  by (simp add: same_talk_def)

lemma wp_act_talk: "wp (act L verb arg adv ts) (\<lambda>a _. same_talk ts (snd a)) s"
  unfolding act_def Let_def by (intro wp_intros wpI) (auto simp: same_talk_def)

lemma wp_after_talk:
  "wp (after_action L i verb obs ts) (\<lambda>a _. same_talk ts (snd a) \<and> (\<exists>x. fst a = obs @ x \<and> (x = [] \<or> hd x = CHR 0x0A))) s"
  unfolding after_action_def by (intro wp_intros wpI) (auto simp: nl_def)

lemma not_error_append: "\<not> is_error obs \<Longrightarrow> x = [] \<or> hd x = CHR 0x0A \<Longrightarrow> \<not> is_error (obs @ x)"
proof -
  assume e: "\<not> is_error obs" and x: "x = [] \<or> hd x = CHR 0x0A"
  have "has_prefix (obs @ x) p \<Longrightarrow> CHR 0x0A \<notin> set p \<Longrightarrow> has_prefix obs p" for p
    using x by (induction obs p rule: has_prefix.induct) (auto, cases x, auto)
  from this [of "''ERROR:''"] show ?thesis using e by (auto simp: is_error_def)
qed

lemma nudges_text: "\<exists>x. fst (add_nudges i obs ts) = obs @ x \<and> (x = [] \<or> hd x = CHR 0x0A)"
  by (auto simp: add_nudges_def churn_nudge_text_def green_repeat_nudge_text_def finish_nudge_text_def nl_def split: prod.splits)

lemma wire_not_error: "\<not> is_error obs \<Longrightarrow> \<not> is_error (fst (wire_observation sha raw i obs ts))"
  by (auto simp: wire_observation_def dedup_stub_def is_error_def split: prod.splits option.splits if_splits)

text \<open>A turn that goes on adds one step and one exchange to what the model call handed on; a turn that
  ends the run may have added them.\<close>

definition turn_of :: "step \<Rightarrow> string list \<Rightarrow> message list" where
  "turn_of st fed = assistant_msg (st_reply st) # map user_msg fed"

definition told :: "step \<Rightarrow> string list \<Rightarrow> bool" where
  "told st fed \<longleftrightarrow> st_verb st \<noteq> ''answer'' \<and> fed \<noteq> [] \<longrightarrow> hd fed = ''OBSERVATION:'' @ nl @ st_observation st"

definition saw_state :: "step \<Rightarrow> bool" where
  "saw_state st \<longleftrightarrow> st_verb st \<noteq> ''answer'' \<and> \<not> is_error (st_observation st)"

definition exchange :: "'w loop_deps \<Rightarrow> int \<Rightarrow> turn_state \<Rightarrow> turn_state \<Rightarrow> string list \<Rightarrow> bool" where
  "exchange L i ts ts' fed \<longleftrightarrow>
     (\<exists>msgs st. handed_on L ts msgs
        \<and> ts_messages ts' = msgs @ turn_of st fed
        \<and> ts_steps ts' = ts_steps ts @ [st] \<and> st_iter st = i \<and> ts_iterations ts' = i \<and> told st fed
        \<and> (ts_grounded ts' \<or> st_grounded st \<longrightarrow> ts_grounded ts \<or> saw_state st))"

definition no_exchange :: "'w loop_deps \<Rightarrow> int \<Rightarrow> turn_state \<Rightarrow> turn_state \<Rightarrow> bool" where
  "no_exchange L i ts ts' \<longleftrightarrow>
     (ts_messages ts' = ts_messages ts \<or> handed_on L ts (ts_messages ts'))
     \<and> ts_steps ts' = ts_steps ts \<and> ts_iterations ts' \<in> {ts_iterations ts, i - 1} \<and> ts_grounded ts' = ts_grounded ts"

definition turn_effect :: "'w loop_deps \<Rightarrow> int \<Rightarrow> turn_state \<Rightarrow> turn_end \<Rightarrow> bool" where
  "turn_effect L i ts r \<longleftrightarrow>
     (case r of
        TurnNext ts' \<Rightarrow> \<exists>fed. fed \<noteq> [] \<and> exchange L i ts ts' fed
      | TurnStop res e ts' \<Rightarrow> no_exchange L i ts ts' \<or> exchange L i ts ts' []
      | TurnPanic \<Rightarrow> True)"

lemma wp_rescued_effect:
  "turn_effect L i ts (TurnStop (run_ended oc reason) None ts') \<Longrightarrow>
   wp (stop_rescued L' oc reason ts') (\<lambda>r _. turn_effect L i ts r) s"
  unfolding stop_rescued_def by (intro wp_intros wpI) (simp add: turn_effect_def)

text \<open>The state after the reply, before the action.\<close>

definition replied :: "'w loop_deps \<Rightarrow> int \<Rightarrow> turn_state \<Rightarrow> step \<Rightarrow> turn_state \<Rightarrow> bool" where
  "replied L i ts st ts1 \<longleftrightarrow>
     (\<exists>msgs. handed_on L ts msgs \<and> ts_messages ts1 = msgs @ [assistant_msg (st_reply st)])
     \<and> st_iter st = i \<and> ts_steps ts1 = ts_steps ts \<and> ts_iterations ts1 = i \<and> ts_grounded ts1 = ts_grounded ts"

lemma replied_same: "replied L i ts st ts1 \<Longrightarrow> same_talk ts1 ts2 \<Longrightarrow> replied L i ts st ts2"
  by (simp add: replied_def same_talk_def)

lemma replied_step:
  "replied L i ts st ts1 \<Longrightarrow> replied L i ts (st\<lparr>st_observation := ob\<rparr>) ts1"
  "replied L i ts st ts1 \<Longrightarrow> replied L i ts (st\<lparr>st_grounded := g\<rparr>) ts1"
  by (simp_all add: replied_def)

lemma exchange_stop:
  assumes "replied L i ts st ts1" "same_talk ts1 ts2" "st_grounded st \<longrightarrow> ts_grounded ts1"
  shows "exchange L i ts (record_step st ts2) []"
  using assms unfolding exchange_def replied_def
  by (auto simp: record_step_def turn_of_def told_def same_talk_def)

lemma exchange_kill:
  assumes "replied L i ts st ts1" "ts_messages ts2 = ts_messages ts1" "ts_steps ts2 = ts_steps ts1"
    "ts_iterations ts2 = i" "ts_grounded ts2 \<or> st_grounded st \<longrightarrow> ts_grounded ts1 \<or> saw_state st"
  shows "exchange L i ts (record_step st ts2) []"
  using assms unfolding exchange_def replied_def by (auto simp: record_step_def turn_of_def told_def)

lemma exchange_next:
  assumes "replied L i ts st ts1" "ts_messages ts2 = ts_messages ts1" "ts_steps ts2 = ts_steps ts1"
    "ts_iterations ts2 = i" "ts_grounded ts2 \<or> st_grounded st \<longrightarrow> ts_grounded ts1 \<or> saw_state st" "told st [fb]"
  shows "exchange L i ts (feed_back fb (record_step st ts2)) [fb]"
    "exchange L i ts (feed_back fb2 (feed_back fb (record_step st ts2))) [fb, fb2]"
  using assms unfolding exchange_def replied_def
  by (auto simp: record_step_def feed_back_def turn_of_def told_def)

lemma wp_settle_effect:
  assumes "replied L i ts st ts1" "same_talk (ts1\<lparr>ts_grounded := ts_grounded ts1 \<or> \<not> is_error raw\<rparr>) ts2"
    "st_grounded st \<longrightarrow> ts_grounded ts1 \<or> \<not> is_error raw" "st_verb st \<noteq> ''answer''"
  shows "wp (settle_turn L i verb arg st raw ts2) (\<lambda>r _. turn_effect L i ts r) s"
proof -
  have base: "ts_messages ts3 = ts_messages ts1" "ts_steps ts3 = ts_steps ts1" "ts_iterations ts3 = i"
      "ts_grounded ts3 \<longleftrightarrow> ts_grounded ts1 \<or> \<not> is_error raw" if "same_talk ts2 ts3" for ts3
    using that assms(1,2) by (auto simp: same_talk_def replied_def)
  have kill: "turn_effect L i ts (TurnStop res e (record_step (st\<lparr>st_observation := ob\<rparr>) ts3))"
    if "same_talk ts2 ts3" "\<not> is_error raw \<longrightarrow> \<not> is_error ob" for res e ob ts3
    unfolding turn_effect_def turn_end.case
    by (rule disjI2, rule exchange_kill [OF replied_step(1) [OF assms(1)] base(1,2,3) [OF that(1)]])
       (use base(4) [OF that(1)] that(2) assms(3,4) in \<open>auto simp: saw_state_def\<close>)
  have go: "turn_effect L i ts (TurnNext (if n \<noteq> [] then feed_back n (feed_back (''OBSERVATION:'' @ nl @ ob) (record_step (st\<lparr>st_observation := ob\<rparr>) ts3))
        else feed_back (''OBSERVATION:'' @ nl @ ob) (record_step (st\<lparr>st_observation := ob\<rparr>) ts3)))"
    if "same_talk ts2 ts3" "\<not> is_error raw \<longrightarrow> \<not> is_error ob" for n ob ts3
  proof -
    have c: "ts_grounded ts3 \<or> st_grounded (st\<lparr>st_observation := ob\<rparr>) \<longrightarrow> ts_grounded ts1 \<or> saw_state (st\<lparr>st_observation := ob\<rparr>)"
        "told (st\<lparr>st_observation := ob\<rparr>) [''OBSERVATION:'' @ nl @ ob]"
      using base [OF that(1)] that(2) assms(3,4) by (auto simp: saw_state_def told_def)
    note ex = exchange_next [OF replied_step(1) [OF assms(1)] base(1,2,3) [OF that(1)] c]
    show ?thesis unfolding turn_effect_def turn_end.case
      by (cases "n = []") (use ex in \<open>simp_all, blast+\<close>)
  qed
  show ?thesis
    unfolding settle_turn_def Let_def
  proof (intro wp_intros wp_use [OF wp_after_talk] wp_rescued_effect, goal_cases)
    case 1
    then show ?case by (intro kill) simp_all
  next
    case (2 a t)
    then obtain x where a: "same_talk ts2 (snd a)" "fst a = raw @ x" "x = [] \<or> hd x = CHR 0x0A"
      using same_talk_trans [OF same_talkI(2)] by blast
    obtain y where y: "fst (add_nudges i (fst a) (snd a)) = fst a @ y" "y = [] \<or> hd y = CHR 0x0A"
      using nudges_text by blast
    have t: "same_talk ts2 ((snd (add_nudges i (fst a) (snd a)))\<lparr>ts_tracker := tk\<rparr>)" for tk
      by (rule same_talk_trans [OF same_talk_trans [OF a(1) same_talkI(7)] same_talkI(2)])
    have o: "\<not> is_error raw \<longrightarrow> \<not> is_error (fst (add_nudges i (fst a) (snd a)))"
      using not_error_append a(2,3) y by metis
    show ?case by (rule kill [OF t o])
  next
    case (3 a t)
    then obtain x where a: "same_talk ts2 (snd a)" "fst a = raw @ x" "x = [] \<or> hd x = CHR 0x0A"
      using same_talk_trans [OF same_talkI(2)] by blast
    obtain y where y: "fst (add_nudges i (fst a) (snd a)) = fst a @ y" "y = [] \<or> hd y = CHR 0x0A"
      using nudges_text by blast
    have t: "same_talk ts2 (snd (wire_observation sha raw i ob ((snd (add_nudges i (fst a) (snd a)))\<lparr>ts_tracker := tk\<rparr>)))" for sha ob tk
      by (rule same_talk_trans [OF same_talk_trans [OF same_talk_trans [OF a(1) same_talkI(7)] same_talkI(2)] same_talkI(8)])
    have o: "\<not> is_error raw \<longrightarrow> \<not> is_error (fst (wire_observation sha raw i (fst (add_nudges i (fst a) (snd a))) t3))" for sha t3
      using not_error_append wire_not_error a(2,3) y by metis
    show ?case by (rule go [OF t o])
  qed
qed

lemma wp_act_replied:
  assumes "replied L i ts st ts1"
  shows "wp (act L' verb arg adv ts1) (\<lambda>a _. replied L i ts st (snd a)) s"
  using wp_act_talk replied_same [OF assms] by (rule wp_mono)

lemma spiral_talk: "same_talk ts (snd (spiral_turn verb arg (count_repeat sig ts)))"
  by (rule same_talk_trans [OF same_talkI(6) same_talkI(9)])

lemma wp_tool_effect:
  assumes "replied L i ts st ts1" "\<not> st_grounded st" "st_verb st \<noteq> ''answer''"
  shows "wp (tool_turn L i verb arg st ts1) (\<lambda>r _. turn_effect L i ts r) s"
proof -
  have kill: "turn_effect L i ts (TurnStop res e (record_step st' ts2))"
    if "replied L i ts st' ts1" "same_talk ts1 ts2" "\<not> st_grounded st'" for res e ts2 st'
    using exchange_stop [OF that(1,2)] that(3) by (simp add: turn_effect_def)
  show ?thesis
    unfolding tool_turn_def Let_def
  proof (intro wp_intros wp_use [OF wp_act_replied [OF replied_same [OF assms(1) spiral_talk]]] wp_rescued_effect, goal_cases)
    case 1
    show ?case by (rule kill [OF assms(1)]) (simp_all add: assms)
  next
    case 2
    show ?case by (rule kill [OF replied_step(1) [OF assms(1)] spiral_talk]) (simp add: assms)
  next
    case (3 a t)
    show ?case
      by (intro wp_upd_evI wp_settle_effect [OF replied_step(2) [OF 3(3)]]) (simp_all add: same_talk_def assms)
  next
    case (4 a t)
    show ?case
      by (intro wp_settle_effect [OF replied_step(2) [OF 4(3)]]) (simp_all add: same_talk_def assms)
  qed
qed

lemma wp_answer_effect:
  assumes "replied L i ts st ts1" "st_verb st = ''answer''"
  shows "wp (answer_turn L i arg st ts1) (\<lambda>r _. turn_effect L i ts r) s"
proof -
  let ?st = "st\<lparr>st_grounded := ts_grounded ts1\<rparr>"
  let ?ts = "record_step ?st ts1"
  have told: "told ?st [fb]" for fb using assms(2) by (simp add: told_def)
  have ex: "exchange L i ts ?ts []" "exchange L i ts (feed_back fb ?ts) [fb]" for fb
    using exchange_stop [OF replied_step(2) [OF assms(1)] same_talkI(1)]
      exchange_next(1) [OF replied_step(2) [OF assms(1)] refl refl _ _ told] assms(1)
    by (simp_all add: replied_def)
  show ?thesis
    unfolding answer_turn_def Let_def
    by (intro wp_intros wpI) (use ex in \<open>auto simp: turn_effect_def split: finish_decision.split\<close>)
qed

lemma wp_budgets_effect:
  "wp (check_budgets L i ts) (\<lambda>r _. case r of None \<Rightarrow> True | Some e \<Rightarrow> \<exists>res er ts'. e = TurnStop res er ts' \<and> no_exchange L i ts ts') s"
proof -
  have stop: "wp (stop_rescued L oc reason ts) (\<lambda>r _. \<exists>res er ts'. r = TurnStop res er ts' \<and> no_exchange L i ts ts') s" for oc reason s
    unfolding stop_rescued_def by (intro wp_intros wpI) (simp add: no_exchange_def)
  show ?thesis
    unfolding check_budgets_def stop_here_def Let_def
    by (intro wp_intros wp_canceled wp_extI wp_use [OF stop]) (simp_all add: no_exchange_def)
qed

lemma wp_failed_effect:
  assumes "handed_on L ts msgs"
  shows "wp (model_failed L e (ts\<lparr>ts_messages := msgs\<rparr>)) (\<lambda>r _. turn_effect L i ts r) s"
proof -
  have stop: "turn_effect L i ts (TurnStop res er (ts\<lparr>ts_messages := msgs\<rparr>))" for res er
    using assms by (simp add: turn_effect_def no_exchange_def)
  show ?thesis
    unfolding model_failed_def
    by (intro wp_intros wp_canceled wp_extI wp_rescued_effect) (simp_all add: stop)
qed

lemma took_replied:
  "handed_on L ts msgs \<Longrightarrow> st_iter st = i \<Longrightarrow> st_reply st = trim_space (response_text resp) \<Longrightarrow>
   replied L i ts st (took_reply i msgs resp ts)"
  by (auto simp: replied_def took_reply_def)

lemma wp_text_effect: "wp (text_turn L i ts) (\<lambda>r _. turn_effect L i ts r) s"
  unfolding text_turn_def Let_def
proof (intro wp_bindI, rule wp_use [OF wp_budgets_effect [of L i ts]], goal_cases)
  case (1 r t)
  show ?case
  proof (cases r)
    case (Some e)
    then show ?thesis using 1 by (auto simp: wp_ret turn_effect_def)
  next
    case None
    show ?thesis unfolding None option.case
    proof (intro wp_bindI wp_extI, goal_cases)
      case (1 g w)
      obtain resp msgs e where g: "g = (resp, msgs, e)" by (metis prod.exhaust)
      then have h: "handed_on L ts msgs" using 1 unfolding handed_on_def by blast
      show ?case
      proof (cases e)
        case (Some err)
        then show ?thesis using wp_failed_effect [OF h] by (simp add: g split: option.split)
      next
        case none: None
        show ?thesis
        proof (cases resp)
          case None
          then show ?thesis by (simp add: g none wp_ret turn_effect_def)
        next
          case (Some rsp)
          show ?thesis unfolding g none prod.case option.case Some
            by (intro wp_intros wp_chargeI)
               (auto intro!: wp_answer_effect wp_tool_effect wp_intros took_replied [OF h])
        qed
      qed
    qed
  qed
qed

section \<open>Along the run\<close>

text \<open>The conversation is the task, the preamble, the turns it began with and one turn per step,
  less some of the oldest.\<close>

definition talk :: "message \<Rightarrow> message list \<Rightarrow> message list list \<Rightarrow> step list \<Rightarrow> string list list \<Rightarrow> message list \<Rightarrow> bool" where
  "talk m pre tt steps feds msgs \<longleftrightarrow>
     (\<exists>n f. (f = id \<or> f = scrub) \<and> (n = 0 \<or> n < length tt + length steps)
        \<and> msgs = transcript m pre (drop n (map (map f) tt @ map2 turn_of steps feds)))"

lemma scrub_turn_of: "map scrub (turn_of st fed) = turn_of st fed"
  by (auto simp: turn_of_def scrub_def assistant_msg_def user_msg_def is_assistant_def)

lemma turn_turn_of: "turn (turn_of st fed)"
  by (auto simp: turn_of_def turn_def is_assistant_def assistant_msg_def user_msg_def)

lemma scrub_not_assistant: "\<not> is_assistant m \<Longrightarrow> scrub m = m"
  by (simp add: scrub_def)

lemma talk_add:
  assumes "talk m pre tt steps feds msgs" "length feds = length steps"
  shows "talk m pre tt (steps @ [st]) (feds @ [fed]) (msgs @ turn_of st fed)"
proof -
  obtain n f where t: "f = id \<or> f = scrub" "n = 0 \<or> n < length tt + length steps"
      "msgs = transcript m pre (drop n (map (map f) tt @ map2 turn_of steps feds))"
    using assms(1) unfolding talk_def by blast
  have "msgs @ turn_of st fed = transcript m pre (drop n (map (map f) tt @ map2 turn_of (steps @ [st]) (feds @ [fed])))"
    using t(2,3) assms(2) by (auto simp: transcript_def)
  with t(1,2) show ?thesis unfolding talk_def by (intro exI [of _ n] exI [of _ f]) auto
qed

lemma talk_handed:
  assumes "talk m pre tt steps feds (ts_messages ts)" "handed_on L ts msgs" "length feds = length steps"
    "\<not> is_assistant m" "preamble pre" "\<forall>t \<in> set tt. turn t"
  shows "talk m pre tt steps feds msgs"
proof -
  let ?E = "map2 turn_of steps feds"
  obtain n f where t: "f = id \<or> f = scrub" "n = 0 \<or> n < length tt + length steps"
      "ts_messages ts = transcript m pre (drop n (map (map f) tt @ ?E))"
    using assms(1) unfolding talk_def by blast
  let ?us = "drop n (map (map f) tt @ ?E)"
  have len: "length ?E = length steps" using assms(3) by simp
  have "turn (map f t)" if "turn t" for t using that t(1) by (auto simp: turn_def)
  then have tu: "\<forall>t \<in> set ?us. turn t"
    using assms(6) turn_turn_of by (fastforce dest!: in_set_dropD)
  obtain w w' resp e where
      g: "generate_with_eviction (lp_model L) (pv_stream (d_pol (lp_gate L))) (loop_request L ts) w = ((resp, msgs, e), w')"
    using assms(2) unfolding handed_on_def by blast
  have "compact_of m pre ?us (req_messages (loop_request L ts))"
    using compact_of_refl [of m pre ?us] t(3) by (simp add: loop_request_def)
  from evicting_compact [OF this assms(5) tu] g
  have "compact_of m pre ?us msgs" by (metis fst_conv snd_conv generate_with_eviction_def)
  then obtain k h where h: "h = id \<or> h = scrub" "?us \<noteq> [] \<longrightarrow> k < length ?us" "msgs = map h (transcript m pre (drop k ?us))"
    unfolding compact_of_def by blast
  have mp: "h m = m" "map h pre = pre"
    using h(1) assms(4,5) scrub_not_assistant by (auto simp: preamble_def map_idI)
  have "map (map h) ?E = ?E" using h(1) by (auto simp: scrub_turn_of)
  moreover have "map (map h) (map (map f) tt) = map (map (h \<circ> f)) tt" by simp
  ultimately have us: "map (map h) (drop k ?us) = drop (k + n) (map (map (h \<circ> f)) tt @ ?E)"
    by (simp only: drop_drop map_append flip: drop_map)
  have m: "msgs = transcript m pre (drop (k + n) (map (map (h \<circ> f)) tt @ ?E))"
    unfolding h(3) map_transcript mp us ..
  have hf: "h \<circ> f = id \<or> h \<circ> f = scrub" using h(1) t(1) by (auto simp: fun_eq_iff)
  show ?thesis
  proof (cases "?us = []")
    case True
    then have "k + n \<ge> length (map (map (h \<circ> f)) tt @ ?E)" "length tt + length steps \<le> n" using len by auto
    with t(2) have "n = 0" "tt = []" "steps = []" by auto
    then have "msgs = transcript m pre (drop 0 (map (map (h \<circ> f)) tt @ ?E))" using m by simp
    then show ?thesis using hf unfolding talk_def by blast
  next
    case False
    then have "k + n < length tt + length steps" using h(2) len by auto
    then show ?thesis using hf m unfolding talk_def by blast
  qed
qed

text \<open>What is recorded: steps numbered from one, the count of turns, and no grounding without an
  observation.\<close>

definition recorded :: "turn_state \<Rightarrow> bool" where
  "recorded ts \<longleftrightarrow>
     map st_iter (ts_steps ts) = map int [1..<Suc (length (ts_steps ts))]
     \<and> ts_iterations ts = int (length (ts_steps ts))
     \<and> (\<forall>k < length (ts_steps ts). st_grounded (ts_steps ts ! k) \<longrightarrow> (\<exists>j \<le> k. saw_state (ts_steps ts ! j)))
     \<and> (ts_grounded ts \<longrightarrow> (\<exists>st \<in> set (ts_steps ts). saw_state st))"

definition booked :: "message \<Rightarrow> message list \<Rightarrow> message list list \<Rightarrow> turn_state \<Rightarrow> string list list \<Rightarrow> bool" where
  "booked m pre tt ts feds \<longleftrightarrow>
     length feds = length (ts_steps ts) \<and> talk m pre tt (ts_steps ts) feds (ts_messages ts)
     \<and> list_all2 told (ts_steps ts) feds \<and> recorded ts"

lemma recorded_step:
  assumes "recorded ts" "ts_steps ts' = ts_steps ts @ [st]" "st_iter st = ts_iterations ts + 1"
    "ts_iterations ts' = ts_iterations ts + 1" "ts_grounded ts' \<or> st_grounded st \<longrightarrow> ts_grounded ts \<or> saw_state st"
  shows "recorded ts'"
proof -
  let ?ss = "ts_steps ts"
  have r: "map st_iter ?ss = map int [1..<Suc (length ?ss)]" "ts_iterations ts = int (length ?ss)"
      "\<And>k. k < length ?ss \<Longrightarrow> st_grounded (?ss ! k) \<Longrightarrow> \<exists>j \<le> k. saw_state (?ss ! j)"
      "ts_grounded ts \<Longrightarrow> \<exists>st \<in> set ?ss. saw_state st"
    using assms(1) unfolding recorded_def by blast+
  have i: "map st_iter (?ss @ [st]) = map int [1..<Suc (length (?ss @ [st]))]"
    using r(1,2) assms(3) by simp
  have saw: "\<exists>j \<le> length ?ss. saw_state ((?ss @ [st]) ! j)" if "ts_grounded ts \<or> saw_state st"
    using that
  proof
    assume "ts_grounded ts"
    then obtain j where "j < length ?ss" "saw_state (?ss ! j)" using r(4) by (metis in_set_conv_nth)
    then show ?thesis by (intro exI [of _ j]) (simp add: nth_append)
  next
    assume "saw_state st"
    then show ?thesis by (intro exI [of _ "length ?ss"]) simp
  qed
  have g: "\<exists>j \<le> k. saw_state ((?ss @ [st]) ! j)" if kl: "k < length (?ss @ [st])" and kg: "st_grounded ((?ss @ [st]) ! k)" for k
  proof (cases "k < length ?ss")
    case True
    then obtain j where "j \<le> k" "saw_state (?ss ! j)" using r(3) [of k] kg by (auto simp: nth_append)
    then show ?thesis using True by (intro exI [of _ j]) (simp add: nth_append)
  next
    case False
    then have "k = length ?ss" using kl by simp
    then show ?thesis using saw assms(5) kg by simp
  qed
  have "\<exists>x \<in> set (?ss @ [st]). saw_state x" if "ts_grounded ts'"
    using that assms(5) r(4) by auto
  then show ?thesis using i g r(2) assms(2,4) by (simp add: recorded_def)
qed

lemma booked_exchange:
  assumes "booked m pre tt ts feds" "exchange L (ts_iterations ts + 1) ts ts' fed"
    "\<not> is_assistant m" "preamble pre" "\<forall>t \<in> set tt. turn t"
  shows "booked m pre tt ts' (feds @ [fed])"
proof -
  obtain msgs st where e: "handed_on L ts msgs" "ts_messages ts' = msgs @ turn_of st fed" "ts_steps ts' = ts_steps ts @ [st]"
      "st_iter st = ts_iterations ts + 1" "ts_iterations ts' = ts_iterations ts + 1" "told st fed"
      "ts_grounded ts' \<or> st_grounded st \<longrightarrow> ts_grounded ts \<or> saw_state st"
    using assms(2) unfolding exchange_def by blast
  have b: "length feds = length (ts_steps ts)" "talk m pre tt (ts_steps ts) feds (ts_messages ts)"
      "list_all2 told (ts_steps ts) feds" "recorded ts"
    using assms(1) unfolding booked_def by blast+
  have "talk m pre tt (ts_steps ts) feds msgs" by (rule talk_handed [OF b(2) e(1) b(1) assms(3-5)])
  then have "talk m pre tt (ts_steps ts') (feds @ [fed]) (ts_messages ts')"
    unfolding e(2,3) using b(1) by (rule talk_add)
  moreover have "recorded ts'" by (rule recorded_step [OF b(4) e(3,4,5,7)])
  ultimately show ?thesis using b(1,3) e(3,6) by (simp add: booked_def list_all2_append)
qed

lemma booked_quiet:
  assumes "booked m pre tt ts feds" "no_exchange L (ts_iterations ts + 1) ts ts'"
    "\<not> is_assistant m" "preamble pre" "\<forall>t \<in> set tt. turn t"
  shows "booked m pre tt ts' feds"
proof -
  have b: "length feds = length (ts_steps ts)" "talk m pre tt (ts_steps ts) feds (ts_messages ts)"
      "list_all2 told (ts_steps ts) feds" "recorded ts"
    using assms(1) unfolding booked_def by blast+
  have n: "ts_messages ts' = ts_messages ts \<or> handed_on L ts (ts_messages ts')" "ts_steps ts' = ts_steps ts"
      "ts_iterations ts' = ts_iterations ts" "ts_grounded ts' = ts_grounded ts"
    using assms(2) unfolding no_exchange_def by auto
  have "talk m pre tt (ts_steps ts) feds (ts_messages ts')"
    using n(1) b(2) talk_handed [OF b(2) _ b(1) assms(3-5)] by metis
  then show ?thesis using b n(2-4) by (simp add: booked_def recorded_def)
qed

lemma wp_loop_booked:
  assumes "booked m pre tt ts feds" "\<forall>fed \<in> set feds. fed \<noteq> []"
    "ts_iterations ts + int n = pv_max_iterations (d_pol (lp_gate L))"
    "\<not> is_assistant m" "preamble pre" "\<forall>t \<in> set tt. turn t"
  shows "wp (text_loop L n ts)
    (\<lambda>r _. \<forall>res e ts'. r = TurnStop res e ts' \<longrightarrow>
        (\<exists>feds'. booked m pre tt ts' feds' \<and> (\<forall>fed \<in> set (butlast feds'). fed \<noteq> []))
        \<and> ts_iterations ts' \<le> pv_max_iterations (d_pol (lp_gate L))) s"
  using assms(1-3)
proof (induction n arbitrary: ts feds s)
  case 0
  have "\<forall>fed \<in> set (butlast feds). fed \<noteq> []" using 0(2) by (auto dest: in_set_butlastD)
  then show ?case unfolding text_loop.simps stop_rescued_def
    by (intro wp_intros wpI) (use 0 in auto)
next
  case (Suc n)
  have i: "pv_max_iterations (d_pol (lp_gate L)) - int n = ts_iterations ts + 1" using Suc.prems(3) by simp
  have le: "ts_iterations ts \<le> pv_max_iterations (d_pol (lp_gate L))" "ts_iterations ts + 1 \<le> pv_max_iterations (d_pol (lp_gate L))"
    using Suc.prems(3) by simp_all
  show ?case
    unfolding text_loop.simps i
  proof (intro wp_bindI, rule wp_use [OF wp_text_effect], goal_cases)
    case (1 r t)
    show ?case
    proof (cases r)
      case (TurnNext ts')
      then obtain fed where f: "fed \<noteq> []" "exchange L (ts_iterations ts + 1) ts ts' fed"
        using 1 by (auto simp: turn_effect_def)
      have b: "booked m pre tt ts' (feds @ [fed])" by (rule booked_exchange [OF Suc.prems(1) f(2) assms(4-6)])
      have "ts_iterations ts' = ts_iterations ts + 1" using f(2) unfolding exchange_def by blast
      with Suc.IH [OF b] f(1) Suc.prems(2,3) TurnNext show ?thesis by auto
    next
      case (TurnStop res e ts')
      then consider "no_exchange L (ts_iterations ts + 1) ts ts'" | "exchange L (ts_iterations ts + 1) ts ts' []"
        using 1 by (auto simp: turn_effect_def)
      then have "(\<exists>feds'. booked m pre tt ts' feds' \<and> (\<forall>fed \<in> set (butlast feds'). fed \<noteq> []))
          \<and> ts_iterations ts' \<le> pv_max_iterations (d_pol (lp_gate L))"
      proof cases
        case a: 1
        have "ts_iterations ts' = ts_iterations ts" using a unfolding no_exchange_def by auto
        moreover have "\<forall>fed \<in> set (butlast feds). fed \<noteq> []" using Suc.prems(2) by (auto dest: in_set_butlastD)
        ultimately show ?thesis using booked_quiet [OF Suc.prems(1) a assms(4-6)] le by auto
      next
        case a: 2
        have "ts_iterations ts' = ts_iterations ts + 1" using a unfolding exchange_def by blast
        moreover have "\<forall>fed \<in> set (butlast (feds @ [[]])). fed \<noteq> []" using Suc.prems(2) by simp
        ultimately show ?thesis using booked_exchange [OF Suc.prems(1) a assms(4-6)] le by metis
      qed
      then show ?thesis using TurnStop by (simp add: wp_ret)
    next
      case TurnPanic
      then show ?thesis by (simp add: wp_ret)
    qed
  qed
qed

lemma booked_start:
  "booked m pre tt (start_turns pol vc (transcript m pre tt)) []"
proof -
  have "talk m pre tt [] [] (transcript m pre tt)"
    unfolding talk_def by (intro exI [of _ 0] exI [of _ id]) simp
  then show ?thesis by (simp add: booked_def start_turns_def recorded_def)
qed

lemma run_booked:
  assumes "run_state (run_text_loop L (start_turns pol vc (transcript m pre tt))) s = (TurnStop res e ts, t)"
    and "\<not> is_assistant m" "preamble pre" "\<forall>t \<in> set tt. turn t" "0 \<le> pv_max_iterations (d_pol (lp_gate L))"
  shows "(\<exists>feds. booked m pre tt ts feds \<and> (\<forall>fed \<in> set (butlast feds). fed \<noteq> []))
    \<and> ts_iterations ts \<le> pv_max_iterations (d_pol (lp_gate L))"
proof -
  let ?ts = "start_turns pol vc (transcript m pre tt)"
  have "ts_iterations ?ts + int (nat (pv_max_iterations (d_pol (lp_gate L)))) = pv_max_iterations (d_pol (lp_gate L))"
    using assms(5) by (simp add: start_turns_def)
  from wpD [OF wp_loop_booked [OF booked_start _ this assms(2-4)] assms(1) [unfolded run_text_loop_def]]
  show ?thesis by simp
qed

section \<open>Properties\<close>

text \<open>C27: The conversation at the end of a run is the recorded trace. The task and the preamble are
  always there; of the turns the conversation began with and of one turn per recorded step, in
  order, at most some of the oldest are gone (and replayed reasoning of old turns may be
  stripped). The turn of a step is the recorded reply and what was fed back, and after a tool
  call that is the recorded observation, word for word. Only the last step may have no answer.\<close>

theorem text_talk_faithful:
  assumes "run_state (run_text_loop L (start_turns pol vc (transcript m pre tt))) s = (TurnStop res e ts, t)"
    and "\<not> is_assistant m" "preamble pre" "\<forall>t \<in> set tt. turn t" "0 \<le> pv_max_iterations (d_pol (lp_gate L))"
  shows "\<exists>feds n f. length feds = length (ts_steps ts) \<and> (f = id \<or> f = scrub)
    \<and> (n = 0 \<or> n < length tt + length (ts_steps ts))
    \<and> ts_messages ts = transcript m pre (drop n (map (map f) tt @ map2 turn_of (ts_steps ts) feds))
    \<and> (\<forall>k < length feds. told (ts_steps ts ! k) (feds ! k)) \<and> (\<forall>fed \<in> set (butlast feds). fed \<noteq> [])"
proof -
  obtain feds where b: "booked m pre tt ts feds" "\<forall>fed \<in> set (butlast feds). fed \<noteq> []"
    using run_booked [OF assms] by blast
  have k: "length feds = length (ts_steps ts)" "list_all2 told (ts_steps ts) feds"
      "talk m pre tt (ts_steps ts) feds (ts_messages ts)"
    using b(1) unfolding booked_def by blast+
  have "\<forall>k < length feds. told (ts_steps ts ! k) (feds ! k)" using list_all2_nthD2 [OF k(2)] by blast
  then show ?thesis using b(2) k(1,3) unfolding talk_def by blast
qed

text \<open>The trace is numbered and bounded, and grounding is earned. The recorded steps are the
  turns 1, 2, 3 and so on without a gap, their number is the reported number of iterations, and it
  never exceeds the cap; a step is marked as grounded only if it or an earlier one ran a tool that
  gave a real observation, not an error.\<close>

theorem text_trace_numbered:
  assumes "run_state (run_text_loop L (start_turns pol vc (transcript m pre tt))) s = (TurnStop res e ts, t)"
    and "\<not> is_assistant m" "preamble pre" "\<forall>t \<in> set tt. turn t" "0 \<le> pv_max_iterations (d_pol (lp_gate L))"
  shows "map st_iter (ts_steps ts) = map int [1..<Suc (length (ts_steps ts))]
    \<and> ts_iterations ts = int (length (ts_steps ts))
    \<and> int (length (ts_steps ts)) \<le> pv_max_iterations (d_pol (lp_gate L))
    \<and> (\<forall>k < length (ts_steps ts). st_grounded (ts_steps ts ! k) \<longrightarrow> (\<exists>j \<le> k. saw_state (ts_steps ts ! j)))"
proof -
  obtain feds where b: "booked m pre tt ts feds" "ts_iterations ts \<le> pv_max_iterations (d_pol (lp_gate L))"
    using run_booked [OF assms] by blast
  from b(1) have r: "recorded ts" unfolding booked_def by blast
  then have i: "ts_iterations ts = int (length (ts_steps ts))" unfolding recorded_def by blast
  then have "int (length (ts_steps ts)) \<le> pv_max_iterations (d_pol (lp_gate L))" using b(2) by simp
  with r i show ?thesis unfolding recorded_def by blast
qed

lemma demo_run_stops:
  obtains res e ts t where "run_state (run_text_loop demo_loop demo_turns) (demo_gate ''pass'' ''good'') = (TurnStop res e ts, t)"
    "rr_outcome res = Answered"
proof -
  obtain r t where r: "run_state (run_text_loop demo_loop demo_turns) (demo_gate ''pass'' ''good'') = (r, t)"
    by fastforce
  have "end_outcome r = Some (Answered, ''done'')" using demo_run_answers r by simp
  then show thesis using that r by (auto simp: end_outcome_def split: turn_end.splits)
qed

lemma demo_start:
  "demo_turns = start_turns (base_policy\<lparr>pv_max_iterations := 5\<rparr>) ''pass'' (transcript (user_msg ''TASK: t'') [] [])"
  "\<not> is_assistant (user_msg ''TASK: t'')" "preamble []" "\<forall>t \<in> set []. turn t"
  "0 \<le> pv_max_iterations (d_pol (lp_gate demo_loop))"
  by (simp_all add: demo_turns_def transcript_def is_assistant_def user_msg_def preamble_def demo_loop_def)

theorem text_talk_faithful_witness:
  "\<exists>res e ts t feds n. run_state (run_text_loop demo_loop demo_turns) (demo_gate ''pass'' ''good'') = (TurnStop res e ts, t)
     \<and> ts_messages ts = transcript (user_msg ''TASK: t'') [] (drop n (map2 turn_of (ts_steps ts) feds))"
proof -
  obtain res e ts t where r: "run_state (run_text_loop demo_loop demo_turns) (demo_gate ''pass'' ''good'') = (TurnStop res e ts, t)"
    by (rule demo_run_stops)
  from text_talk_faithful [OF r [unfolded demo_start(1)] demo_start(2-5)] r show ?thesis by auto
qed

theorem text_trace_numbered_witness:
  "\<exists>res e ts t. run_state (run_text_loop demo_loop demo_turns) (demo_gate ''pass'' ''good'') = (TurnStop res e ts, t)
     \<and> length (ts_steps ts) \<le> 5 \<and> ts_iterations ts = int (length (ts_steps ts))"
proof -
  obtain res e ts t where r: "run_state (run_text_loop demo_loop demo_turns) (demo_gate ''pass'' ''good'') = (TurnStop res e ts, t)"
    by (rule demo_run_stops)
  from text_trace_numbered [OF r [unfolded demo_start(1)] demo_start(2-5)] r show ?thesis
    by (auto simp: demo_loop_def)
qed

end
