(* ===== verification/NativeTalk.thy ===== *)
theory NativeTalk
  imports NativeFacts TextTrace
begin

text \<open>
  The transcript and the trace of the native loop: every tool call is answered by one result, also
  when a detector stops the run in the middle of a turn, and the trace holds what the model was
  shown.
\<close>

section \<open>Well-paired transcripts\<close>

lemma result_ids_append [simp]: "result_ids (a @ b) = result_ids a \<union> result_ids b"
  by (simp add: result_ids_def)

lemma result_ids_Cons: "result_ids (m # ms) = result_ids [m] \<union> result_ids ms"
  using result_ids_append [of "[m]" ms] by simp

lemma transcript_snoc:
  assumes "ts \<noteq> []"
  shows "transcript m pre ts @ x = transcript m pre (butlast ts @ [last ts @ x])"
  using assms by (cases ts rule: rev_cases) (simp_all add: transcript_def)

text \<open>A message of the user after a turn, or before the first one.\<close>

lemma well_paired_message:
  assumes "well_paired msgs" and u: "\<not> is_assistant x" "result_ids [x] = {}"
  shows "well_paired (msgs @ [x])"
proof -
  obtain m pre ts where w: "msgs = transcript m pre ts" "preamble pre" "result_ids (m # pre) = {}" "\<forall>t \<in> set ts. turn_paired t"
    using assms by (auto simp: well_paired_def)
  show ?thesis
  proof (cases "ts = []")
    case True
    have "msgs @ [x] = transcript m (pre @ [x]) []" using w(1) True by (simp add: transcript_def)
    moreover have "preamble (pre @ [x])" using w(2) u by (simp add: preamble_def)
    moreover have "result_ids (m # pre @ [x]) = {}" using w(3) u by (simp add: result_ids_def)
    ultimately show ?thesis unfolding well_paired_def by (metis empty_iff list.set(1))
  next
    case False
    have l: "turn_paired (last ts)" using w(4) False by simp
    then have "turn_paired (last ts @ [x])"
      using u by (cases "last ts") (auto simp: turn_paired_def turn_def)
    then have "\<forall>t \<in> set (butlast ts @ [last ts @ [x]]). turn_paired t"
      using w(4) by (auto dest: in_set_butlastD)
    moreover have "msgs @ [x] = transcript m pre (butlast ts @ [last ts @ [x]])"
      using w(1) transcript_snoc [OF False] by simp
    ultimately show ?thesis using w(2,3) unfolding well_paired_def by blast
  qed
qed

lemma well_paired_user: "well_paired msgs \<Longrightarrow> well_paired (msgs @ [user_msg s])"
  by (rule well_paired_message) (simp_all add: is_assistant_def user_msg_def result_ids_def)

lemma well_paired_turn:
  assumes "well_paired msgs" "turn_paired t"
  shows "well_paired (msgs @ t)"
proof -
  obtain m pre ts where w: "msgs = transcript m pre ts" "preamble pre" "result_ids (m # pre) = {}" "\<forall>t \<in> set ts. turn_paired t"
    using assms by (auto simp: well_paired_def)
  have "msgs @ t = transcript m pre (ts @ [t])" using w(1) by (simp add: transcript_def)
  moreover have "\<forall>u \<in> set (ts @ [t]). turn_paired u" using w(4) assms(2) by auto
  ultimately show ?thesis using w(2,3) unfolding well_paired_def by blast
qed

section \<open>Answers to calls\<close>

text \<open>The messages that answer calls with these identifiers, one each and in order.\<close>

definition answers :: "string list \<Rightarrow> message list \<Rightarrow> bool" where
  "answers ids ms \<longleftrightarrow> list_all2 (\<lambda>cid m. \<exists>b e. m = tool_result_msg cid b e) ids ms"

lemma answers_append: "answers a ms \<Longrightarrow> answers b ns \<Longrightarrow> answers (a @ b) (ms @ ns)"
  by (simp add: answers_def list_all2_appendI)

lemma answers_simps [simp]: "answers [] ms \<longleftrightarrow> ms = []" "answers [cid] [tool_result_msg cid b e]"
  by (auto simp: answers_def)

lemma answers_facts: "answers ids ms \<Longrightarrow> result_ids ms = set ids \<and> (\<forall>m \<in> set ms. \<not> is_assistant m)"
proof (induction ids arbitrary: ms)
  case (Cons cid ids)
  then obtain b e ms' where m: "ms = tool_result_msg cid b e # ms'" "answers ids ms'"
    by (auto simp: answers_def list_all2_Cons1)
  with Cons.IH [OF m(2)] show ?case
    by (auto simp: result_ids_def tool_result_msg_def is_assistant_def)
qed (simp add: answers_def result_ids_def)

text \<open>A response holds no tool results.\<close>

definition plain_parts :: "content_part list \<Rightarrow> bool" where
  "plain_parts ps \<longleftrightarrow> list_all (\<lambda>p. result_id p = []) ps"

lemma call_ids_turn: "call_ids (assistant_turn ps) = set (map tc_id (tool_calls ps))"
proof -
  have "set (call_part_id p) = set (map tc_id (call_of_part p))" for p by (cases p) simp_all
  then show ?thesis by (simp add: call_ids_def assistant_turn_def tool_calls_def image_UN)
qed

lemma answered_turn:
  assumes "plain_parts ps" "answers ids ms" "set ids = set (map tc_id (tool_calls ps))"
  shows "turn_paired (assistant_turn ps # ms)"
proof -
  have "result_ids [assistant_turn ps] = {}"
    using assms(1) by (auto simp: result_ids_def assistant_turn_def plain_parts_def list_all_iff)
  then show ?thesis using answers_facts [OF assms(2)] assms(3) call_ids_turn [of ps]
    by (auto simp: turn_paired_def turn_def is_assistant_def assistant_turn_def)
qed

section \<open>The calls of a turn\<close>

lemma wp_saw_run_talk: "wp (saw_run N c obs ts) (\<lambda>k _. same_talk ts (snd k)) s"
  unfolding saw_run_def by (intro wp_intros wpI) (auto simp: same_talk_def)

lemma call_hints_talk: "same_talk ts (snd (call_hints obs ts))"
  by (auto simp: call_hints_def same_talk_def split: prod.splits)

text \<open>What the model was shown for a call, and what the trace keeps of it.\<close>

definition shown :: "'w native_deps \<Rightarrow> int \<Rightarrow> tool_call \<Rightarrow> step \<Rightarrow> message \<Rightarrow> bool" where
  "shown N i c s m \<longleftrightarrow>
     st_iter s = i \<and> st_verb s = tc_name c \<and> st_arg s = call_arg (nd_tools N) c
     \<and> (\<exists>e. m = tool_result_msg (tc_id c) (st_observation s) e)"

lemma wp_act_call_talk:
  "wp (act_call N c pre adv ts) (\<lambda>a _. ts_messages (snd a) = ts_messages ts \<and> ts_steps (snd a) = ts_steps ts
     \<and> ts_iterations (snd a) = ts_iterations ts) s"
  unfolding act_call_def Let_def by (intro wp_intros wpI) auto

lemma wire_talk:
  "same_talk ts (snd (wire_observation sha raw i (fst (if k then (obs, ts) else call_hints obs ts)) (snd (if k then (obs, ts) else call_hints obs ts))))"
  using same_talk_trans [OF call_hints_talk same_talkI(8)] by auto

lemma say_record [simp]:
  "ts_messages (say m (record_step x ts)) = ts_messages ts @ [m]" "ts_steps (say m (record_step x ts)) = ts_steps ts @ [x]"
  "ts_iterations (say m (record_step x ts)) = ts_iterations ts"
  by (simp_all add: say_def record_step_def)

lemma wp_native_call_talk:
  assumes "st_iter st = i"
  shows "wp (native_call N i st c pre ts) (\<lambda>r _. \<exists>x m. ts_messages (snd r) = ts_messages ts @ [m]
     \<and> ts_steps (snd r) = ts_steps ts @ [x] \<and> ts_iterations (snd r) = ts_iterations ts \<and> shown N i c x m
     \<and> st_usage x = st_usage st) s"
  unfolding native_call_def Let_def
proof (intro wp_intros wp_use [OF wp_act_call_talk] wp_use [OF wp_saw_run_talk] wp_upd_evI, goal_cases)
  case (1 a t k u)
  show ?case
    using 1 wire_talk [of "(snd k)\<lparr>ts_tracker := snd (observe_action i (tc_name c) (ts_tracker (snd k)))\<rparr>"] assms
    by (fastforce simp: shown_def step_of_call_def grounded_by_def same_talk_def)
next
  case (2 a t k u)
  show ?case
    using 2 wire_talk [of "(snd k)\<lparr>ts_tracker := snd (observe_action i (tc_name c) (ts_tracker (snd k)))\<rparr>"] assms
    by (fastforce simp: shown_def step_of_call_def grounded_by_def same_talk_def)
qed

text \<open>The calls that ran have a step each; the others, cut off by a detector, are answered as such.\<close>

fun shown_calls :: "'w native_deps \<Rightarrow> int \<Rightarrow> tool_call list \<Rightarrow> step list \<Rightarrow> message list \<Rightarrow> bool" where
  "shown_calls N i cs [] ms = (ms = map (\<lambda>c. tool_result_msg (tc_id c) not_executed True) cs)"
| "shown_calls N i (c # cs) (x # xs) (m # ms) = (shown N i c x m \<and> shown_calls N i cs xs ms)"
| "shown_calls N i [] (x # xs) ms = False"
| "shown_calls N i cs (x # xs) [] = False"

lemma shown_answers: "shown_calls N i cs xs ms \<Longrightarrow> answers (map tc_id cs) ms"
proof (induction N i cs xs ms rule: shown_calls.induct)
  case (1 N i cs ms)
  have "answers (map tc_id cs) (map (\<lambda>c. tool_result_msg (tc_id c) not_executed True) cs)"
    by (induction cs) (auto simp: answers_def)
  with 1 show ?case by simp
qed (auto simp: shown_def answers_def)

lemma shown_length: "shown_calls N i cs xs ms \<Longrightarrow> length xs \<le> length cs"
  by (induction N i cs xs ms rule: shown_calls.induct) auto

definition calls_shown :: "'w native_deps \<Rightarrow> int \<Rightarrow> step \<Rightarrow> tool_call list \<Rightarrow> turn_state \<Rightarrow> call_report list \<times> turn_state \<Rightarrow> bool" where
  "calls_shown N i st cs ts r \<longleftrightarrow>
     (\<exists>xs ms. ts_messages (snd r) = ts_messages ts @ ms \<and> ts_steps (snd r) = ts_steps ts @ xs
        \<and> ts_iterations (snd r) = ts_iterations ts \<and> shown_calls N i cs xs ms
        \<and> length (fst r) = length xs \<and> (length xs < length cs \<longrightarrow> killed_by (fst r) \<noteq> None)
        \<and> (xs \<noteq> [] \<longrightarrow> st_usage (hd xs) = st_usage st) \<and> (\<forall>x \<in> set (tl xs). st_usage x = zero_usage))"

lemma killed_by_cons: "cr_kill r = None \<Longrightarrow> killed_by (r # rs) = killed_by rs" "cr_kill r \<noteq> None \<Longrightarrow> killed_by (r # rs) = cr_kill r"
  by (auto simp: killed_by_def)

lemma calls_shown_kill:
  assumes "ts_messages ts1 = ts_messages ts @ [m]" "ts_steps ts1 = ts_steps ts @ [x]" "ts_iterations ts1 = ts_iterations ts"
    "shown N i c x m" "st_usage x = st_usage st" "cr_kill r \<noteq> None"
  shows "calls_shown N i st (c # cs) ts ([r], unrun cs ts1)"
  unfolding calls_shown_def
  by (intro exI [of _ "[x]"] exI [of _ "m # map (\<lambda>c. tool_result_msg (tc_id c) not_executed True) cs"])
     (use assms in \<open>simp add: unrun_def killed_by_cons\<close>)

lemma calls_shown_next:
  assumes "ts_messages ts1 = ts_messages ts @ [m]" "ts_steps ts1 = ts_steps ts @ [x]" "ts_iterations ts1 = ts_iterations ts"
    "shown N i c x m" "st_usage x = st_usage st" "cr_kill r = None" "calls_shown N i (rest_of st) cs ts1 q"
  shows "calls_shown N i st (c # cs) ts (r # fst q, snd q)"
proof -
  obtain xs ms where q: "ts_messages (snd q) = ts_messages ts1 @ ms" "ts_steps (snd q) = ts_steps ts1 @ xs"
      "ts_iterations (snd q) = ts_iterations ts1" "shown_calls N i cs xs ms" "length (fst q) = length xs"
      "length xs < length cs \<longrightarrow> killed_by (fst q) \<noteq> None"
      "xs \<noteq> [] \<longrightarrow> st_usage (hd xs) = zero_usage" "\<forall>y \<in> set (tl xs). st_usage y = zero_usage"
    using assms(7) by (auto simp: calls_shown_def rest_of_def)
  have "\<forall>y \<in> set xs. st_usage y = zero_usage" using q(7,8) by (cases xs) auto
  then show ?thesis unfolding calls_shown_def
    by (intro exI [of _ "x # xs"] exI [of _ "m # ms"]) (use assms(1-6) q in \<open>simp add: killed_by_cons\<close>)
qed

lemma wp_native_calls_talk:
  "st_iter st = i \<Longrightarrow> wp (native_calls N i st cs ts) (\<lambda>r _. calls_shown N i st (map fst cs) ts r) s"
proof (induction cs arbitrary: st ts s)
  case Nil
  then show ?case by (simp add: wp_ret calls_shown_def)
next
  case (Cons cp cs)
  obtain c pre where cp: "cp = (c, pre)" by (metis prod.exhaust)
  have rest: "st_iter (rest_of st) = i" using Cons.prems by (simp add: rest_of_def)
  show ?case unfolding cp native_calls.simps
  proof (intro wp_bindI, rule wp_use [OF wp_native_call_talk [OF Cons.prems]], goal_cases)
    case (1 r t)
    then obtain x m where f: "ts_messages (snd r) = ts_messages ts @ [m]" "ts_steps (snd r) = ts_steps ts @ [x]"
        "ts_iterations (snd r) = ts_iterations ts" "shown N i c x m" "st_usage x = st_usage st" by auto
    show ?case
    proof (intro wp_ifI wp_retI, goal_cases)
      case 1
      with calls_shown_kill [OF f] show ?case by simp
    next
      case 2
      then show ?case
        by (intro wp_bindI wp_use [OF Cons.IH [OF rest]] wp_retI) (simp add: calls_shown_next [OF f])
    qed
  qed
qed

section \<open>Turns\<close>

definition dialog :: "native_state \<Rightarrow> message list" where "dialog ns = ts_messages (ns_turns ns)"

definition paired_end :: "native_end \<Rightarrow> bool" where
  "paired_end r \<longleftrightarrow>
     (case r of NativeNext ns \<Rightarrow> well_paired (dialog ns) | NativeStop res e ns \<Rightarrow> well_paired (dialog ns) | NativePanic \<Rightarrow> True)"

lemma paired_end_simps [simp]:
  "paired_end (NativeNext ns) = well_paired (dialog ns)" "paired_end (NativeStop res e ns) = well_paired (dialog ns)"
  "paired_end NativePanic" "paired_end (salvage r) = paired_end r"
  by (simp_all add: paired_end_def salvage_def split: native_end.split)

lemma dialog_simps [simp]:
  "dialog (on_turns f ns) = ts_messages (f (ns_turns ns))" "dialog (ns\<lparr>ns_turns := ts\<rparr>) = ts_messages ts"
  "dialog (ns\<lparr>ns_block := b\<rparr>) = dialog ns" "dialog (ns\<lparr>ns_standing := sd\<rparr>) = dialog ns" "dialog (ns\<lparr>ns_cache := cs\<rparr>) = dialog ns"
  "dialog (ns\<lparr>ns_answer_nudged := y\<rparr>) = dialog ns" "dialog (ns\<lparr>ns_say_nudged := y\<rparr>) = dialog ns" "dialog (heard resp ns) = dialog ns"
  by (simp_all add: dialog_def on_turns_def heard_def Let_def)

lemma dialog_turns [simp]: "ts_messages (ns_turns ns) = dialog ns"
  by (simp add: dialog_def)

lemma messages_simps [simp]:
  "ts_messages (feed_back s ts) = ts_messages ts @ [user_msg s]" "ts_messages (say m ts) = ts_messages ts @ [m]"
  "ts_messages (record_step x ts) = ts_messages ts" "ts_messages (record_steps xs ts) = ts_messages ts"
  "ts_messages (count_repeat sig ts) = ts_messages ts" "ts_messages (snd (native_spiral N cs ts)) = ts_messages ts"
  by (auto simp: feed_back_def say_def record_step_def record_steps_def count_repeat_def native_spiral_def split: prod.splits)

lemma wp_stopped_talk:
  "well_paired (dialog ns) \<Longrightarrow> wp (native_stopped N oc reason ns) (\<lambda>r _. paired_end r) s"
  unfolding native_stopped_def stop_rescued_def by (intro wp_intros wpI) (simp add: lift_end_def)

lemma wp_budgets_talk:
  "well_paired (dialog ns) \<Longrightarrow>
   wp (check_budgets L i (ns_turns ns)) (\<lambda>r _. \<forall>e. r = Some e \<longrightarrow> paired_end (lift_end ns e)) s"
  unfolding check_budgets_def stop_here_def stop_rescued_def Let_def
  by (intro wp_intros wpI) (auto simp: lift_end_def)

lemma wp_failed_talk:
  "well_paired (ts_messages ts) \<Longrightarrow> wp (model_failed L e ts) (\<lambda>r _. paired_end (lift_end ns r)) s"
  unfolding model_failed_def stop_rescued_def
  by (intro wp_intros wpI) (auto simp: lift_end_def)

lemma wp_standing_talk:
  "well_paired (dialog ns) \<Longrightarrow> wp (standing_message N ns) (\<lambda>ns' _. well_paired (dialog ns')) s"
  unfolding standing_message_def Let_def
  by (intro wp_intros wpI) (auto simp: well_paired_user)

lemma decision_talk: "well_paired (dialog ns) \<Longrightarrow> paired_end (native_decision d ns)"
  by (cases d) (auto simp: native_decision_def well_paired_user)

lemma wp_no_call_talk:
  assumes "well_paired (dialog ns)" "plain_parts (rs_content resp)" "tool_calls (rs_content resp) = []"
  shows "wp (no_call_turn N i resp st ns) (\<lambda>r _. paired_end r) s"
proof -
  have "turn_paired (assistant_turn (rs_content resp) # [])"
    using answered_turn [OF assms(2), of "[]" "[]"] assms(3) by simp
  from well_paired_turn [OF assms(1) this] have w: "well_paired (dialog ns @ [assistant_turn (rs_content resp)])" .
  show ?thesis
    unfolding no_call_turn_def Let_def
    by (intro wp_intros wpI) (auto simp: w well_paired_user [OF w, simplified] intro!: decision_talk)
qed

lemma wp_beside_talk:
  "wp (beside_calls N fin st cs ts) (\<lambda>r _. \<exists>ids ms. ts_messages (snd r) = ts_messages ts @ ms \<and> answers ids ms
     \<and> set ids = set (map tc_id cs) - {fin}) s"
proof (induction cs arbitrary: st ts s)
  case Nil
  then show ?case by (simp add: wp_ret)
next
  case (Cons c cs)
  have one: "wp (beside_call N st c ts) (\<lambda>t _. \<exists>b e. ts_messages t = ts_messages ts @ [tool_result_msg (tc_id c) b e]) u" for u
    unfolding beside_call_def Let_def
    by (intro wp_intros wpI wp_use [OF wp_saw_run_talk]) (auto simp: same_talk_def grounded_by_def)
  show ?case
  proof (cases "tc_id c = fin")
    case True
    then show ?thesis using Cons.IH by simp
  next
    case False
    show ?thesis unfolding beside_calls.simps if_not_P [OF False]
    proof (intro wp_bindI wp_use [OF one] wp_use [OF Cons.IH], goal_cases)
      case (1 t u r v)
      then obtain b e ids ms where f: "ts_messages t = ts_messages ts @ [tool_result_msg (tc_id c) b e]"
          "ts_messages (snd r) = ts_messages t @ ms" "answers ids ms" "set ids = set (map tc_id cs) - {fin}" by auto
      show ?case
        by (intro exI [of _ "tc_id c # ids"] exI [of _ "tool_result_msg (tc_id c) b e # ms"])
           (use f False in \<open>auto simp: answers_def\<close>)
    qed
  qed
qed

lemma wp_finish_tool_talk:
  assumes "well_paired (dialog ns)" "plain_parts (rs_content resp)" "cs = tool_calls (rs_content resp)" "fin \<in> set cs"
  shows "wp (finish_tool_turn N i resp st cs fin ns) (\<lambda>r _. paired_end r) s"
proof -
  have w: "well_paired (dialog ns @ assistant_turn (rs_content resp) # ms @ [tool_result_msg (tc_id fin) b False])"
    if "answers ids ms" "set ids = set (map tc_id cs) - {tc_id fin}" for ids ms b
  proof -
    have "answers (ids @ [tc_id fin]) (ms @ [tool_result_msg (tc_id fin) b False])"
      using that(1) by (intro answers_append) simp_all
    moreover have "set (ids @ [tc_id fin]) = set (map tc_id (tool_calls (rs_content resp)))"
      using that(2) assms(3,4) by auto
    ultimately show ?thesis using well_paired_turn [OF assms(1) answered_turn [OF assms(2)]] by blast
  qed
  show ?thesis unfolding finish_tool_turn_def Let_def
  proof (rule wp_bindI, rule wp_use [OF wp_beside_talk], rule wp_bindI, rule wpI, rule wp_retI, goal_cases)
    case (1 r u d v)
    from 1(1) obtain ids ms where a: "answers ids ms" "set ids = set (map tc_id cs) - {tc_id fin}"
        and m: "ts_messages (snd r) = ts_messages (say (assistant_turn (rs_content resp)) (ns_turns ns)) @ ms" by blast
    from w [OF a] show ?case by (intro decision_talk) (simp add: m)
  qed
qed

lemma paired_nextI: "well_paired (dialog ns) \<Longrightarrow> paired_end (NativeNext ns)"
  by simp

lemma dialog_steps:
  assumes "well_paired (dialog ns)"
  shows "well_paired (dialog (if c then on_turns (feed_back x) ns else ns))"
    "well_paired (dialog (if c then (on_turns (feed_back x) ns)\<lparr>ns_answer_nudged := True\<rparr> else ns))"
    "well_paired (dialog (if c then (on_turns (feed_back x) ns)\<lparr>ns_say_nudged := True\<rparr> else ns))"
    "well_paired (dialog (on_turns (\<lambda>ts. (if c then feed_back x else id) (ts\<lparr>ts_tracker := t\<rparr>)) ns))"
    "well_paired (dialog (on_turns (\<lambda>ts. ts\<lparr>ts_tracker := t\<rparr>) ns))"
  using assms by (simp_all add: well_paired_user)

lemma nudges_talk: "well_paired (dialog ns) \<Longrightarrow> well_paired (dialog (native_nudges N i ns))"
  unfolding native_nudges_def Let_def by (intro dialog_steps)

lemma wp_settle_talk:
  assumes "well_paired (dialog ns)"
  shows "wp (settle_calls N i sig rs ns) (\<lambda>r _. paired_end r) s"
  unfolding settle_calls_def Let_def
  by (intro wp_intros wp_stopped_talk) (intro assms paired_nextI nudges_talk dialog_steps wpI wp_intros)+

lemma prefetched_calls: "length rs \<le> length cs \<Longrightarrow> map fst (with_prefetched cs rs) = cs"
  by (simp add: with_prefetched_def)

lemma wp_prefetch: "wp (prefetch N cs skip) (\<lambda>rs _. length rs \<le> length cs) s"
proof -
  have all: "wp (dispatch_all N ds) (\<lambda>rs _. length rs = length ds) u" for ds u
  proof (induction ds arbitrary: u)
    case (Cons d ds)
    show ?case unfolding dispatch_all.simps
      by (intro wp_bindI, rule wp_use [OF wp_true]) (auto intro!: wp_bindI wp_retI wp_use [OF Cons.IH])
  qed (simp add: wp_ret)
  show ?thesis unfolding prefetch_def Let_def
    by (intro wp_intros wp_use [OF all]) (simp_all add: length_takeWhile_le)
qed

lemma wp_calls_talk:
  assumes "well_paired (dialog ns)" "plain_parts (rs_content resp)" "cs = tool_calls (rs_content resp)" "st_iter st = i"
  shows "wp (calls_turn N i resp st cs ns) (\<lambda>r _. paired_end r) s"
proof -
  have w: "well_paired (dialog ns @ assistant_turn (rs_content resp) # ms)" if "shown_calls N i cs xs ms" for xs ms
    using well_paired_turn [OF assms(1) answered_turn [OF assms(2) shown_answers [OF that]]] assms(3) by simp
  have run: "wp (native_calls N i st (with_prefetched cs pre) (say (assistant_turn (rs_content resp)) ts))
      (\<lambda>q _. well_paired (ts_messages (snd q))) u"
    if len: "length pre \<le> length cs" "ts_messages ts = dialog ns" for pre ts u
  proof (rule wp_use [OF wp_native_calls_talk [OF assms(4)]], goal_cases)
    case (1 q v)
    then obtain xs ms where q: "ts_messages (snd q) = dialog ns @ assistant_turn (rs_content resp) # ms" "shown_calls N i cs xs ms"
      using len by (auto simp: calls_shown_def prefetched_calls)
    show ?case unfolding q(1) by (rule w [OF q(2)])
  qed
  show ?thesis unfolding calls_turn_def Let_def
    by (intro wp_ifI wp_stopped_talk wp_bindI wp_use [OF wp_prefetch] wp_use [OF run] wp_settle_talk) (auto simp: assms(1))
qed

lemma wp_response_talk:
  assumes "well_paired (dialog ns)" "plain_parts (rs_content resp)"
  shows "wp (response_turn N i resp ns) (\<lambda>r _. paired_end r) s"
  unfolding response_turn_def Let_def
  using assms
  by (auto simp: find_call_def find_Some_iff split: option.split intro!: wp_no_call_talk wp_finish_tool_talk wp_calls_talk)

text \<open>What the provider is relied on for: its responses hold no tool results. A stream never does.\<close>

definition plain_model :: "'w model_deps \<Rightarrow> bool" where
  "plain_model M \<longleftrightarrow> (\<forall>req w. \<forall>resp \<in> set_option (fst (fst (mo_generate M req w))). plain_parts (rs_content resp))"

lemma plain_parts_simps [simp]:
  "plain_parts []" "plain_parts (a @ b) \<longleftrightarrow> plain_parts a \<and> plain_parts b" "plain_parts [TextPart t]"
  by (simp_all add: plain_parts_def)

lemma plain_collected:
  assumes "plain_parts (co_calls c) \<and> plain_parts (co_reasoning c)"
  shows "\<forall>resp \<in> set_option (fst (collect_from c xs)). plain_parts (rs_content resp)"
  using assms
proof (induction c xs rule: collect_from.induct)
  case (3 c k xs)
  then show ?case by (cases k) (simp_all add: plain_parts_def)
qed (simp_all add: assemble_def)

lemma plain_once: "plain_model M \<Longrightarrow> \<forall>resp \<in> set_option (fst (fst (generate_once M stream req w))). plain_parts (rs_content resp)"
  using plain_collected [of nothing_collected]
  by (auto simp: generate_once_def plain_model_def collect_stream_def nothing_collected_def split: prod.splits)

lemma plain_retry: "plain_model M \<Longrightarrow> \<forall>resp \<in> set_option (fst (fst (retry_from M stream req n w))). plain_parts (rs_content resp)"
proof (induction n arbitrary: w)
  case (Suc n)
  show ?case using plain_once [OF Suc.prems, of stream req w] Suc.IH [OF Suc.prems]
    by (auto split: prod.splits bool.splits)
qed (simp add: plain_once)

lemma plain_evicting:
  fixes req :: request and fresh :: bool
  assumes "plain_model M"
  shows "\<forall>resp \<in> set_option (fst (fst (evicting M stream attempt fresh req w))). plain_parts (rs_content resp)"
proof (induction "attempts_left attempt fresh" arbitrary: attempt fresh req w rule: less_induct)
  case less
  have retry: "generate_with_retry M stream req w = ((resp, e), w1) \<Longrightarrow> \<forall>x \<in> set_option resp. plain_parts (rs_content x)" for resp e w1
    using plain_retry [OF assms, of stream req transient_max_retries w] by (simp add: generate_with_retry_def)
  show ?case
    by (rule evicting_cases [of M stream req w attempt fresh]) (use retry less.hyps in auto)
qed

lemma wp_native_turn_talk:
  assumes "plain_model (lp_model (nd_loop N))" "well_paired (dialog ns)"
  shows "wp (native_turn N i ns) (\<lambda>r _. paired_end r) s"
  unfolding native_turn_def Let_def
proof (intro wp_bindI, rule wp_use [OF wp_budgets_talk [OF assms(2)]], goal_cases)
  case (1 stop t)
  show ?case
  proof (cases stop)
    case (Some e)
    then show ?thesis using 1 by (simp add: wp_ret)
  next
    case None
    show ?thesis unfolding None option.case
    proof (intro wp_bindI, rule wp_use [OF wp_standing_talk [OF assms(2)]], intro wp_bindI wp_extI, goal_cases)
      case (1 ns0 u g w)
      obtain resp msgs e where g: "g = (resp, msgs, e)" by (metis prod.exhaust)
      have gen: "evicting (lp_model (nd_loop N)) (pv_stream (nd_pol N)) 0 False (native_request N (ns_turns ns0)) (g_world u) = ((resp, msgs, e), w)"
        using 1(2) g by (simp add: generate_with_eviction_def)
      have req: "req_messages (native_request N (ns_turns ns0)) = dialog ns0"
        by (simp add: native_request_def loop_request_def)
      have m: "well_paired msgs"
        using evicting_paired [of "native_request N (ns_turns ns0)"] 1(1) gen req by (metis fst_conv snd_conv)
      have p: "\<forall>x \<in> set_option resp. plain_parts (rs_content x)"
        using plain_evicting [OF assms(1)] gen by (metis fst_conv)
      have failed: "wp (State_Monad.bind (model_failed L err (ts\<lparr>ts_messages := msgs\<rparr>)) (\<lambda>r. ret (lift_end n r))) (\<lambda>r _. paired_end r) v" for L err ts n v
        by (intro wp_bindI wp_use [OF wp_failed_talk] wp_retI) (simp_all add: m)
      have took: "wp (State_Monad.bind (charge D k us) (\<lambda>_. response_turn N i x (took_response i msgs x ns0))) (\<lambda>r _. paired_end r) v"
        if "plain_parts (rs_content x)" for D k us x v
        by (simp add: wp_bind wp_charge) (intro wp_response_talk that, simp add: took_response_def m)
      show ?case unfolding g using failed took p by (auto simp: wp_ret split: option.split)
    qed
  qed
qed

lemma wp_native_loop_talk:
  assumes "plain_model (lp_model (nd_loop N))" "well_paired (dialog ns)"
  shows "wp (native_loop N n ns) (\<lambda>r _. paired_end r) s"
  using assms(2)
proof (induction n arbitrary: ns s)
  case 0
  then show ?case by (simp add: wp_stopped_talk)
next
  case (Suc n)
  show ?case unfolding native_loop.simps
  proof (intro wp_bindI, rule wp_use [OF wp_native_turn_talk [OF assms(1) Suc.prems]], goal_cases)
    case (1 r t)
    then show ?case using Suc.IH by (cases r) (auto simp: wp_ret)
  qed
qed

lemma wp_run_native_talk:
  assumes "plain_model (lp_model (nd_loop N))" "well_paired (ts_messages ts)"
  shows "wp (run_native_loop N ts) (\<lambda>r _. paired_end r) s"
proof -
  have "well_paired (dialog (start_native ts))" using assms(2) by (simp add: start_native_def dialog_def)
  then show ?thesis
    unfolding run_native_loop_def
    by (intro wp_bindI, rule wp_use [OF wp_native_loop_talk [OF assms(1)]]) (simp_all add: wp_ret)
qed

text \<open>C23: The transcript of a native run is always one that providers accept. However the run ends, by a
  claim, by a budget, by a detector in the middle of a turn or by an error of the provider, and
  whatever was compacted on the way: if the conversation it started from answers every call of
  every turn and no other, so does the one it hands back.\<close>

theorem native_transcript_paired:
  assumes "run_state (run_native_loop N ts) s = (NativeStop res e ns, t)"
    and "plain_model (lp_model (nd_loop N))" and "well_paired (ts_messages ts)"
  shows "well_paired (ts_messages (ns_turns ns))"
  using wpD [OF wp_run_native_talk [OF assms(2,3)] assms(1)] by simp


theorem native_transcript_paired_witness:
  "\<exists>res e ns t. run_state (run_native_loop demo_native demo_turns) (demo_gate ''pass'' ''good'') = (NativeStop res e ns, t)
     \<and> well_paired (ts_messages (ns_turns ns))"
proof -
  obtain r t where r: "run_state (run_native_loop demo_native demo_turns) (demo_gate ''pass'' ''good'') = (r, t)"
    by fastforce
  have "native_outcome r = Some (Answered, ''done'', 2)" using demo_native_answers r by simp
  then obtain res e ns where res: "r = NativeStop res e ns" by (auto simp: native_outcome_def split: native_end.splits)
  have m: "plain_model (lp_model (nd_loop demo_native))"
    by (simp add: plain_model_def demo_native_def demo_native_model_def demo_loop_def plain_parts_def demo_reply_def)
  have "transcript (user_msg ''TASK: t'') [] [] = ts_messages demo_turns"
    by (simp add: transcript_def demo_turns_def start_turns_def)
  then have w: "well_paired (ts_messages demo_turns)"
    unfolding well_paired_def
    by (intro exI [of _ "user_msg ''TASK: t''"] exI [of _ "[]"]) (simp add: preamble_def result_ids_def user_msg_def)
  show ?thesis using native_transcript_paired [OF r [unfolded res] m w] r res by blast
qed

definition demo_call :: tool_call where
  "demo_call = \<lparr> tc_id = ''c1'', tc_name = ''run'', tc_args = ''{}'' \<rparr>"


end
