(* ===== verification/RunFacts.thy ===== *)
theory RunFacts
  imports Setup NativeTalk TextTrace
begin

text \<open>
  What holds of whole runs, from the resolved specification to the result: what a refusal leaves
  untouched, and what an answered run of either protocol has behind it.
\<close>

section \<open>The floor\<close>

definition floor_met :: "policy_value \<Rightarrow> capabilities option \<Rightarrow> bool" where
  "floor_met pol caps \<longleftrightarrow>
     pv_min_isolation pol \<le> (case caps of None \<Rightarrow> IsolationNone | Some c \<Rightarrow> cap_isolation c)
     \<and> (pv_require_network_off pol \<longrightarrow> (case caps of None \<Rightarrow> False | Some c \<Rightarrow> \<not> cap_network c))"

lemma floor_refusal_iff: "floor_refusal pol caps = None \<longleftrightarrow> floor_met pol caps"
  by (auto simp: floor_refusal_def floor_met_def Let_def not_less split: option.splits if_splits)

section \<open>The opening\<close>

definition armed :: "'w gate_deps \<Rightarrow> 'w gates \<Rightarrow> bool" where
  "armed D s \<longleftrightarrow>
     (d_has_reviewer D \<longleftrightarrow> g_review s \<noteq> None)
     \<and> (\<forall>rv. g_review s = Some rv \<longrightarrow> review_wf rv \<and> \<not> rv_blocked rv
          \<and> (rv_skip rv \<noteq> [] \<longrightarrow> rp_optional (pv_review_policy (d_pol D))))
     \<and> (pv_test_fence (d_pol D) \<noteq> [] \<longleftrightarrow> g_fence s \<noteq> None)
     \<and> (pv_diff_scope (d_pol D) \<noteq> [] \<longleftrightarrow> g_scope s \<noteq> None)
     \<and> (pv_require_diff (d_pol D) \<longrightarrow> tree_answered D (g_run_base s))"

lemma armed_upd [simp]:
  "armed D (s\<lparr>g_world := w\<rparr>) = armed D s" "armed D (s\<lparr>g_ev := e\<rparr>) = armed D s" "armed D (s\<lparr>g_spend := sp\<rparr>) = armed D s"
  by (simp_all add: armed_def)

lemma armed_books: "armed D s \<Longrightarrow> books_ok s"
  by (simp add: armed_def books_ok_def)

lemma wp_new_gates_armed: "wp (new_gates D) (\<lambda>e t. e = None \<longrightarrow> armed D t) s"
proof (rule wpI)
  fix e t assume "run_state (new_gates D) s = (e, t)"
  then show "e = None \<longrightarrow> armed D t" using new_gates_armed [of D s t] by (auto simp: armed_def)
qed

lemma wp_new_gates_vs: "wp (new_gates D) (\<lambda>e t. g_vs t = g_vs s) s"
  unfolding new_gates_def new_scope_state_def
  by (intro gate_intros wp_write_tree wp_use [OF wp_new_review] wp_use [OF wp_measure_kept]
        wp_use [OF wp_capture_run] wp_use [OF wp_capture_standing])
     (auto simp: kept_def elim!: world_onlyE)

text \<open>An automatic gate is derived, or the question is settled without one.\<close>

definition derived_ok :: "auto_resolution \<Rightarrow> bool" where
  "derived_ok r \<longleftrightarrow> (ar_derived r \<longrightarrow> (ar_cmd r, ar_provenance r) \<in> derivable)"

text \<open>What a run may make of the verification state it is given.\<close>

definition decided :: "verify_state \<Rightarrow> verify_state \<Rightarrow> bool" where
  "decided vs vs' \<longleftrightarrow>
     vs' = vs
     \<or> (vs_auto_verify vs \<and> vs_cmd vs = [] \<and> \<not> vs_resolved vs
        \<and> (vs' = vs\<lparr>vs_resolved := True\<rparr> \<or> (\<exists>r. derived_ok r \<and> vs' = apply_auto_verify r vs)))"

lemma wp_resolve_decided: "wp (resolve_auto_verify sb pol rdir vs) (\<lambda>vs' _. decided vs vs') w"
  unfolding resolve_auto_verify_def
  by (intro wp_intros wp_use [OF wp_probe]) (auto simp: decided_def preflighted_def derived_ok_def)

lemma wp_open_decided: "wp (open_run rt D) (\<lambda>_ t. decided (g_vs s) (g_vs t)) s"
  unfolding open_run_def
proof (intro wp_bindI wp_getsI wp_extI, goal_cases)
  case (1 vs' w')
  then have d: "decided (g_vs s) vs'" using wpD [OF wp_resolve_decided] by fastforce
  show ?case
    by (simp add: wp_simps wp_upd_ev)
       (rule wp_use [OF wp_new_gates_vs], auto simp: wp_simps wp_upd_ev d split: option.splits)
qed

lemma wp_open_run:
  "wp (open_run rt D) (\<lambda>e t. e = None \<longrightarrow> armed D t) s"
  unfolding open_run_def
  by (intro gate_intros wp_extI wp_use [OF wp_new_gates_armed]) (auto simp: wp_simps split: option.splits)

section \<open>What an answer has behind it\<close>

text \<open>The gates of the run, in a state \<open>s1\<close> whose verification state, scope and fence are those of the
  opening (the fence perhaps with locks of a declared reproduction), accepted the claim; or they
  stood behind a run that had been stopped.\<close>

definition answer_earned :: "'w gate_deps \<Rightarrow> 'w gates \<Rightarrow> run_result \<Rightarrow> 'w gates \<Rightarrow> bool" where
  "answer_earned D s r t \<longleftrightarrow>
     (rr_rescued_from r = None \<and>
        (\<exists>s1 fi. live D s s1 \<and> fi_answer fi = rr_answer r \<and> answer_backed D fi s1 t
           \<and> (fi_trusted fi \<longrightarrow> pv_finish_tool_trusts_caller (d_pol D) \<and> pv_finish_tool (d_pol D) \<noteq> [])))
     \<or> (\<exists>oc s1. rr_rescued_from r = Some oc \<and> oc \<noteq> Answered \<and> live D s s1 \<and> rescue_backed D s1 t)"

lemma steady_live: "steady s t \<Longrightarrow> live D s t"
  by (simp add: steady_def run_frame_def live_def)

lemma sound_earned: "sound_end D s r t \<Longrightarrow> rr_outcome r = Answered \<Longrightarrow> answer_earned D s r t"
  unfolding sound_end_def answer_earned_def by (blast intro: steady_live)

lemma native_earned: "native_backed N s r t \<Longrightarrow> rr_outcome r = Answered \<Longrightarrow> answer_earned (nd_gate N) s r t"
  by (auto simp: native_backed_def answer_earned_def)

text \<open>What a result shows of the state in which its loop ended.\<close>

definition shows_gates :: "full_result \<Rightarrow> 'w gates \<Rightarrow> bool" where
  "shows_gates x t \<longleftrightarrow>
     rr_infra (fr_end x) = g_infra t \<and> fr_closing x = closing_record t \<and> fr_review x = map_option report_of (g_review t)"

definition earned_run :: "'w gate_deps \<Rightarrow> verify_state \<Rightarrow> full_result \<Rightarrow> bool" where
  "earned_run D vs x \<longleftrightarrow>
     (rr_outcome (fr_end x) = Answered \<longrightarrow>
        (\<exists>s t. armed D s \<and> decided vs (g_vs s) \<and> \<not> (vs_abort_on_red (g_vs s) \<and> g_base_red s) \<and> answer_earned D s (fr_end x) t \<and> shows_gates x t))"

lemma wp_with_guarantees: "(\<And>g t. Q (RunDone (r\<lparr>fr_guarantees := g\<rparr>)) t) \<Longrightarrow> wp (with_guarantees D r) Q s"
  unfolding with_guarantees_def closing_guarantees_def
  by (intro wp_intros wpI) auto

lemma wp_close_run:
  assumes "armed D s0" "decided vs (g_vs s0)" "\<not> (vs_abort_on_red (g_vs s0) \<and> g_base_red s0)"
    and "rr_outcome (fr_end r) = Answered \<longrightarrow> answer_earned D s0 (fr_end r) s"
  shows "wp (close_run D native r) (\<lambda>e _. \<forall>x. e = RunDone x \<longrightarrow> earned_run D vs x) s"
proof -
  have same: "answer_earned D s0 (e\<lparr>rr_infra := i\<rparr>) s = answer_earned D s0 e s" for e i
    by (simp add: answer_earned_def)
  show ?thesis
    unfolding close_run_def
    by (intro wp_bindI wp_getsI wp_with_guarantees)
       (use assms same in \<open>auto simp: earned_run_def shows_gates_def\<close>)
qed

lemma wp_before_loop:
  "wp (plan_stage rt c) (\<lambda>_ t. armed D t \<and> g_vs t = g_vs s \<and> g_base_red t = g_base_red s) s" if "armed D s"
  using that by (auto simp: plan_stage_def wp_def split: prod.splits)

lemma wp_first_messages:
  "wp (first_messages rt pol c task) (\<lambda>_ t. \<exists>w. t = s\<lparr>g_world := w\<rparr>) s" "wp (recalled rt pol c) (\<lambda>_ t. \<exists>w. t = s\<lparr>g_world := w\<rparr>) s"
  unfolding first_messages_def recalled_def by (intro gate_intros wp_extI; auto)+

lemma wp_go_text:
  assumes "armed D s"
  shows "wp (go_text rt c mo D r0)
     (\<lambda>r t. \<forall>x. r = Some x \<longrightarrow> rr_outcome (fr_end x) = Answered \<longrightarrow>
        (\<exists>s1. armed D s1 \<and> g_vs s1 = g_vs s \<and> g_base_red s1 = g_base_red s \<and> answer_earned D s1 (fr_end x) t)) s"
  unfolding go_text_def Let_def
proof (intro wp_bindI, rule wp_use [OF wp_before_loop [OF assms]], intro wp_bindI, rule wp_use [OF wp_first_messages(1)],
    intro wp_bindI, rule wp_use [OF wp_first_messages(2)], rule wp_bindI, rule wp_getsI, rule wp_bindI, rule wpI, rule wp_retI, goal_cases)
  case (1 p u msgs u1 mem v e t)
  then have v: "armed D v" "g_vs v = g_vs s" "g_base_red v = g_base_red s" by auto
  from v(1) have "steady v v" by (intro steady_refl armed_books)
  then have "sound_turn D v e t"
    using wpD [OF wp_text_loop 1(4) [unfolded run_text_loop_def]] by (fastforce simp: loop_parts_def)
  then show ?case using v
    by (auto simp: sound_turn_def result_of_turns_def split: turn_end.splits intro: sound_earned)
qed

text \<open>The tools of a native run are tame if every custom tool has a handler.\<close>

lemma handlers_default: "has_handlers (native_toolbox F timeout ro jerr dt doc)"
  by (auto simp: has_handlers_def native_toolbox_def Let_def)

lemma native_parts_tame:
  assumes "\<And>T. rt_tools rt = Some T \<Longrightarrow> has_handlers T"
  shows "tame D (nd_tools (native_parts rt D mo system))"
proof -
  have "has_handlers (plain_tools rt pol)" for pol
    using assms handlers_default by (auto simp: plain_tools_def has_handlers_def [of "[]"] split: option.split)
  then show ?thesis by (simp add: native_parts_def Let_def tame_native_tools)
qed

lemma wp_go_native:
  assumes "armed D s" "\<And>T. rt_tools rt = Some T \<Longrightarrow> has_handlers T"
  shows "wp (go_native rt c mo base D r0)
     (\<lambda>r t. \<forall>x. r = Some x \<longrightarrow> rr_outcome (fr_end x) = Answered \<longrightarrow>
        (\<exists>s1. armed D s1 \<and> g_vs s1 = g_vs s \<and> g_base_red s1 = g_base_red s \<and> answer_earned D s1 (fr_end x) t)) s"
  unfolding go_native_def Let_def
proof (intro wp_bindI, rule wp_use [OF wp_before_loop [OF assms(1)]], intro wp_bindI, rule wp_use [OF wp_first_messages(1)],
    intro wp_bindI, rule wp_use [OF wp_first_messages(2)], rule wp_bindI, rule wp_getsI, rule wp_bindI, rule wpI, rule wp_retI, goal_cases)
  case (1 p u msgs u1 mem v e t)
  let ?N = "native_parts rt D mo (with_persona (pv_persona (d_pol D)) base @ mem)"
  have v: "armed D v" "g_vs v = g_vs s" "g_base_red v = g_base_red s" using 1 by auto
  have g: "nd_gate ?N = D" by (simp add: native_parts_def loop_parts_def Let_def)
  have "native_sound ?N v e t"
    using wpD [OF wp_run_native [of ?N v] 1(4)] native_parts_tame [OF assms(2)] live_refl [OF armed_books [OF v(1)]] g by simp
  then show ?case using v native_earned [of ?N v _ t] unfolding g
    by (auto simp: native_sound_def result_of_turns_def split: native_end.splits)
qed

lemma wp_run_opened:
  assumes "\<And>D r0 s. D = run_gate rt pol c \<Longrightarrow> armed D s \<Longrightarrow> wp (go D r0)
     (\<lambda>r t. \<forall>x. r = Some x \<longrightarrow> rr_outcome (fr_end x) = Answered \<longrightarrow>
        (\<exists>s1. armed D s1 \<and> g_vs s1 = g_vs s \<and> g_base_red s1 = g_base_red s \<and> answer_earned D s1 (fr_end x) t)) s"
  shows "wp (run_opened rt pol c native go) (\<lambda>e _. \<forall>x. e = RunDone x \<longrightarrow> earned_run (run_gate rt pol c) (g_vs s) x) s"
  unfolding run_opened_def Let_def
proof (intro wp_bindI, subst wp_upd_ev, intro wp_bindI, rule wp_use [OF wp_conj [THEN iffD2, OF conjI [OF wp_open_run wp_open_decided]]], goal_cases)
  case (1 e t)
  show ?case
  proof (cases e)
    case (Some err)
    then show ?thesis by (simp add: wp_ret)
  next
    case None
    then have t: "armed (run_gate rt pol c) t" "decided (g_vs s) (g_vs t)" using 1 by simp_all
    show ?thesis
    proof (cases "red_baseline_refusal (g_vs t) (g_base_red t)")
      case (Some r)
      then have "rr_outcome r = Unverified" by (auto simp: red_baseline_refusal_def split: if_splits)
      then show ?thesis unfolding None option.case
        by (auto simp: Some wp_bind wp_gets earned_run_def intro!: wp_with_guarantees)
    next
      case None
      then have a: "\<not> (vs_abort_on_red (g_vs t) \<and> g_base_red t)" by (auto simp: red_baseline_refusal_def split: if_splits)
      show ?thesis unfolding \<open>e = None\<close> option.case
      proof (simp only: wp_bind wp_gets id_apply None option.case, rule wp_use [OF assms [OF refl t(1)]], goal_cases)
        case (1 r u)
        show ?case
        proof (cases r)
          case (Some x)
          show ?thesis
          proof (cases "rr_outcome (fr_end x) = Answered")
            case True
            then obtain s1 where "armed (run_gate rt pol c) s1" "g_vs s1 = g_vs t" "g_base_red s1 = g_base_red t"
                "answer_earned (run_gate rt pol c) s1 (fr_end x) u" using 1 Some by blast
            then show ?thesis unfolding Some option.case using a t(2) by (intro wp_close_run [of _ s1]) simp_all
          next
            case False
            then show ?thesis unfolding Some option.case using a t by (intro wp_close_run [of _ t]) simp_all
          qed
        qed (simp add: wp_ret)
      qed
    qed
  qed
qed

section \<open>Properties\<close>

lemma wp_refused: "wp (refused_run rt pol c why) (\<lambda>e _. \<forall>x. e = RunDone x \<longrightarrow> rr_outcome (fr_end x) = RefusedUnsafe) s"
  unfolding refused_run_def by (intro wp_bindI, subst wp_upd_ev, rule wp_with_guarantees) (simp add: bare_result_def run_ended_def)

text \<open>What both protocols promise of an answered run.\<close>

definition promised :: "'w runtime \<Rightarrow> resolved_spec \<Rightarrow> content \<Rightarrow> verify_state \<Rightarrow> full_result \<Rightarrow> bool" where
  "promised rt spec c vs x \<longleftrightarrow>
     complete_spec spec \<and> floor_met (rs_policy spec) (caps_of rt) \<and> earned_run (run_gate rt (rs_policy spec) c) vs x"

lemma validated_model: "validate_run pol rt = None \<Longrightarrow> \<exists>mo. rt_model rt = Some mo"
  by (auto simp: validate_run_def split: if_splits)

lemma on_ev:
  assumes "\<And>u. wp m (\<lambda>e t. \<forall>x. e = RunDone x \<longrightarrow> P (g_vs u) x) u"
  shows "wp m (\<lambda>e t. \<forall>x. e = RunDone x \<longrightarrow> P (g_vs s) x) (s\<lparr>g_ev := l\<rparr>)"
  using assms [of "s\<lparr>g_ev := l\<rparr>"] by simp

text \<open>Behind the checks of a specification both protocols are one of these.\<close>

lemma wp_started:
  assumes "complete_spec spec" and "rs_policy spec = pol"
    and "floor_refusal pol (caps_of rt) = None \<Longrightarrow>
      wp go (\<lambda>e _. \<forall>x. e = RunDone x \<longrightarrow> earned_run (run_gate rt pol c) (g_vs s) x) (s\<lparr>g_ev := map_option (observe_caps (caps_of rt)) (g_ev s)\<rparr>)"
  shows "wp (do { upd_ev (observe_caps (caps_of rt));
       case floor_refusal pol (caps_of rt) of Some why \<Rightarrow> refused_run rt pol c why | None \<Rightarrow> go })
     (\<lambda>e _. \<forall>x. e = RunDone x \<longrightarrow> rr_outcome (fr_end x) = Answered \<longrightarrow> promised rt spec c (g_vs s) x) s"
proof (cases "floor_refusal pol (caps_of rt)")
  case None
  then show ?thesis
    using assms floor_refusal_iff [of pol "caps_of rt"]
    by (auto simp: wp_bind wp_upd_ev promised_def elim!: wp_mono)
next
  case (Some why)
  show ?thesis unfolding Some
    by (auto simp: wp_bind wp_upd_ev intro!: wp_use [OF wp_refused])
qed

lemma wp_whole_text:
  "wp (run_text rt spec c)
     (\<lambda>e _. \<forall>x. e = RunDone x \<longrightarrow> rr_outcome (fr_end x) = Answered \<longrightarrow>
        promised rt spec c (g_vs s) x \<and> \<not> pv_repro_first (rs_policy spec)) s"
proof (cases "complete_spec spec \<and> validate_run (rs_policy spec) rt = None \<and> \<not> pv_repro_first (rs_policy spec)")
  case True
  then obtain mo where mo: "rt_model rt = Some mo" using validated_model by blast
  have "wp (run_opened rt (rs_policy spec) c False (go_text rt c mo))
      (\<lambda>e _. \<forall>x. e = RunDone x \<longrightarrow> earned_run (run_gate rt (rs_policy spec) c) (g_vs u) x) u" for u
    by (rule wp_run_opened) (rule wp_go_text)
  from wp_started [OF conjunct1 [OF True] refl on_ev [OF this]] show ?thesis
    using True unfolding run_text_def Let_def by (simp add: mo)
next
  case False
  then show ?thesis
    by (auto simp: run_text_def Let_def wp_ret dest: validated_model split: option.split)
qed

lemma wp_whole_native:
  assumes "\<And>T. rt_tools rt = Some T \<Longrightarrow> has_handlers T"
  shows "wp (run_native rt spec c)
     (\<lambda>e _. \<forall>x. e = RunDone x \<longrightarrow> rr_outcome (fr_end x) = Answered \<longrightarrow> promised rt spec c (g_vs s) x) s"
proof (cases "complete_spec spec \<and> validate_run (rs_policy spec) rt = None")
  case True
  then obtain mo where mo: "rt_model rt = Some mo" using validated_model by blast
  have "wp (run_opened rt (rs_policy spec) c True (go_native rt c mo base))
      (\<lambda>e _. \<forall>x. e = RunDone x \<longrightarrow> earned_run (run_gate rt (rs_policy spec) c) (g_vs u) x) u" for base u
    by (rule wp_run_opened) (rule wp_go_native [OF _ assms])
  then have "wp (case resolve_system_prompt (rs_policy spec) (rt_model_id rt) of
       Inl msg \<Rightarrow> ret (RunError (SetupError [] msg))
     | Inr base \<Rightarrow> run_opened rt (rs_policy spec) c True (go_native rt c mo base))
      (\<lambda>e _. \<forall>x. e = RunDone x \<longrightarrow> earned_run (run_gate rt (rs_policy spec) c) (g_vs u) x) u" for u
    by (simp add: wp_ret split: sum.split)
  from wp_started [OF conjunct1 [OF True] refl on_ev [OF this]] show ?thesis
    using True unfolding run_native_def Let_def by (simp add: mo)
next
  case False
  then show ?thesis
    by (auto simp: run_native_def Let_def wp_ret dest: validated_model split: option.split)
qed

section \<open>A refused run\<close>

lemma finalize_isolation: "gu_isolation (finalize_guarantees wt dn (Some l) oc rv) = ev_isolation l"
proof -
  have d: "gu_isolation (degrade a b e g) = gu_isolation g" for a b e g by (simp add: degrade_def)
  have "gu_isolation (final_cost l g) = ev_isolation l" for g by (simp add: final_cost_def d Let_def)
  moreover have "gu_isolation (final_verification l g) = gu_isolation g" for g by (simp add: final_verification_def d Let_def)
  moreover have "gu_isolation (final_review l r g) = gu_isolation g" for r g by (simp add: final_review_def d Let_def split: option.split)
  moreover have "gu_isolation (final_diff wt dn l g) = gu_isolation g" for g by (simp add: final_diff_def d split: sum.split)
  moreover have "gu_isolation (final_noop oc g) = gu_isolation g" for g by (simp add: final_noop_def d)
  ultimately show ?thesis by (simp add: finalize_guarantees_def)
qed

lemma with_guarantees_still:
  assumes "g_ev s = Some l" "ev_base_tree l = []"
  shows "\<exists>g. run_state (with_guarantees D r) s = (RunDone (r\<lparr>fr_guarantees := g\<rparr>), s) \<and> gu_isolation g = ev_isolation l"
  using assms finalize_isolation
  by (intro exI [of _ "finalize_guarantees (Inl []) (\<lambda>_ _. Inl []) (Some l) (rr_outcome (fr_end r)) (fr_review r)"])
     (simp add: with_guarantees_def closing_guarantees_def)

lemma run_upd_ev: "run_state (upd_ev f) s = ((), s\<lparr>g_ev := map_option f (g_ev s)\<rparr>)"
  by (simp add: upd_ev_def)

section \<open>A run of one turn\<close>

definition demo_files :: "string file_ops" where
  "demo_files =
     \<lparr> fo_go_roots = [], fo_host_read = (\<lambda>p n w. (Inl (NotExist []), w)), fo_host_list = (\<lambda>p w. (Inl (NotExist []), w)),
       fo_host_rg = (\<lambda>a t w. (HostMissing, w)), fo_limit = None, fo_read = (\<lambda>p w. (Inl (NotExist []), w)),
       fo_write = (\<lambda>p c w. (None, w)), fo_append = None, fo_list = (\<lambda>p w. (Inr [], w)),
       fo_exec = demo_exec, fo_go_symbols = (\<lambda>p s. None) \<rparr>"

definition demo_caps :: capabilities where
  "demo_caps = \<lparr> cap_isolation = IsolationNone, cap_network = True \<rparr>"

definition demo_runtime :: "string model_deps \<Rightarrow> string runtime" where
  "demo_runtime m =
     \<lparr> rt_gate = demo_deps\<lparr>d_has_reviewer := False\<rparr>, rt_model = Some m, rt_model_id = ''m'',
       rt_sandbox = Some \<lparr> sv_caps = demo_caps, sv_files = demo_files, sv_workdir = None, sv_go_list = (\<lambda>w. (Inl [], w)) \<rparr>,
       rt_verify_sandbox = None, rt_memory = None, rt_tools = Some [], rt_cost_fn = None, rt_spend = None, rt_planner = None,
       rt_session_verify = None, rt_baseline_cache = None, rt_expired = (\<lambda>w. (False, w)), rt_not_exist = (\<lambda>p w. True),
       rt_json_error = id, rt_go_doc_text = (\<lambda>s w. (Inl [], w)), rt_go_doc = (\<lambda>a b w. (Inl [], w)), rt_desc = id, rt_schemas = id,
       rt_standing = \<lparr> so_root = [], so_tree = (\<lambda>w. (Inl [], w)), so_stat = (\<lambda>a b w. (Inl [], w)), so_diff = (\<lambda>a b w. (Inl [], w)) \<rparr> \<rparr>"

definition demo_spec :: resolved_spec where
  "demo_spec =
     \<lparr> rs_policy = base_policy\<lparr>pv_max_iterations := 1, pv_verify_timeout := 1, pv_verify_cmd := ''pass'', pv_skip_verify_baseline := True\<rparr>, rs_hash = ''h'',
       rs_trace = \<lparr> st_fields = (\<lambda>_. None), st_trust_profile = [], st_exec_profile = [], st_canonical = False, st_profile = None, st_hash = [] \<rparr> \<rparr>"

definition demo_content :: content where
  "demo_content = \<lparr> ct_task = ''t'', ct_images = [], ct_history = [], ct_root = ''r'' \<rparr>"

definition run_summary :: "run_end \<Rightarrow> (outcome \<times> string) option" where
  "run_summary e = (case e of RunDone x \<Rightarrow> Some (rr_outcome (fr_end x), rr_answer (fr_end x)) | _ \<Rightarrow> None)"

lemma demo_whole_text:
  "run_summary (fst (run_state (run_text (demo_runtime demo_model) demo_spec demo_content)
     (first_gates (demo_runtime demo_model) demo_spec demo_content ''good''))) = Some (Answered, ''done'')"
  by code_simp

definition demo_start :: "string gates" where
  "demo_start =
     (let s = first_gates (demo_runtime demo_native_model) demo_spec demo_content ''good'' in
      s\<lparr>g_ev := map_option (\<lambda>l. l\<lparr>ev_isolation := EvidencePassed\<rparr>) (map_option (observe_caps (Some demo_caps)) (g_ev s))\<rparr>)"

definition demo_gate_of_run :: "string gate_deps" where
  "demo_gate_of_run = run_gate (demo_runtime demo_native_model) (rs_policy demo_spec) demo_content"

definition demo_opened :: "setup_error option \<times> string gates" where
  "demo_opened = run_state (open_run (demo_runtime demo_native_model) demo_gate_of_run) demo_start"

definition answered_as :: "native_end \<Rightarrow> string option" where
  "answered_as r = (case r of NativeStop res e ns \<Rightarrow> if rr_outcome res = Answered then Some (rr_answer res) else None | _ \<Rightarrow> None)"

lemma demo_opens:
  "fst demo_opened = None" "red_baseline_refusal (g_vs (snd demo_opened)) (g_base_red (snd demo_opened)) = None"
  "vs_cmd (g_vs (snd demo_opened)) = ''pass''"
  by code_simp+

lemma demo_native_run:
  "answered_as (fst (run_state (run_native_loop (native_parts (demo_runtime demo_native_model) demo_gate_of_run demo_native_model base)
     (start_turns (rs_policy demo_spec) ''pass'' msgs)) (snd demo_opened))) = Some ''done''"
  by code_simp

lemma closed_summary: "run_summary (fst (run_state (close_run D n x) u)) = Some (rr_outcome (fr_end x), rr_answer (fr_end x))"
proof -
  have "wp (close_run D n x) (\<lambda>e _. run_summary e = Some (rr_outcome (fr_end x), rr_answer (fr_end x))) u"
    unfolding close_run_def by (intro wp_bindI wp_getsI wp_with_guarantees) (simp add: run_summary_def)
  then show ?thesis by (simp add: wp_fst_snd)
qed

lemma demo_whole_native:
  "run_summary (fst (run_state (run_native (demo_runtime demo_native_model) demo_spec demo_content)
   (first_gates (demo_runtime demo_native_model) demo_spec demo_content ''good''))) = Some (Answered, ''done'')"
proof -
  let ?rt = "demo_runtime demo_native_model" and ?pol = "rs_policy demo_spec" and ?D = demo_gate_of_run
  obtain t where t: "demo_opened = (None, t)" using demo_opens(1) by (metis prod.collapse)
  have D: "d_pol ?D = ?pol" by (simp add: demo_gate_of_run_def run_gate_def)
  have spec: "complete_spec demo_spec" "validate_run ?pol ?rt = None" "floor_refusal ?pol (caps_of ?rt) = None" "pv_persona ?pol = []"
    by code_simp+
  obtain base where base: "resolve_system_prompt ?pol (rt_model_id ?rt) = Inr base"
    by (simp add: resolve_system_prompt_def profile_prompt_def demo_spec_def base_policy_def)
  have env: "\<exists>env. run_state (observe_environment (rt_sandbox ?rt) b) w = (env, w)" for b w
    by (simp add: observe_environment_def demo_runtime_def demo_files_def)
  obtain env where env: "run_state (observe_environment (rt_sandbox ?rt) (pv_boot_context ?pol)) (g_world t) = (env, g_world t)"
    using env by blast
  obtain msgs where msgs: "run_state (first_messages ?rt ?pol demo_content ''t'') t = (msgs, t)"
    by (simp add: first_messages_def ext_def env)
  obtain r u where ru: "run_state (run_native_loop (native_parts ?rt ?D demo_native_model base) (start_turns ?pol ''pass'' msgs)) t = (r, u)"
    by fastforce
  then have "answered_as r = Some ''done''" using demo_native_run [of base msgs] by (simp only: t snd_conv fst_conv)
  then obtain res e ns where r: "r = NativeStop res e ns" "rr_outcome res = Answered" "rr_answer res = ''done''"
    by (auto simp: answered_as_def split: native_end.splits if_splits)
  note loop = ru [unfolded r(1)] r(2,3)
  have mem: "run_state (recalled ?rt ?pol demo_content) t = ([], t)"
    by (simp add: recalled_def recall_def demo_runtime_def ext_def)
  have plan: "run_state (plan_stage ?rt demo_content) t = ((''t'', None), t)"
    by (simp add: plan_stage_def run_plan_stage_def demo_runtime_def demo_content_def)
  have opens: "run_state (open_run ?rt ?D) (let s = first_gates ?rt demo_spec demo_content ''good'' in
      s\<lparr>g_ev := map_option (\<lambda>l. l\<lparr>ev_isolation := EvidencePassed\<rparr>) (map_option (observe_caps (Some demo_caps)) (g_ev s))\<rparr>) = (None, t)"
    using t by (simp only: demo_opened_def demo_start_def)
  have cmd: "vs_cmd (g_vs t) = ''pass''" "red_baseline_refusal (g_vs t) (g_base_red t) = None"
    using demo_opens(2,3) by (simp_all only: t snd_conv)
  have go: "run_state (go_native ?rt demo_content demo_native_model base ?D r0) t
      = (Some (result_of_turns res e (ns_turns ns) (r0\<lparr>fr_plan := None\<rparr>)), u)" for r0
    by (simp add: go_native_def D plan msgs mem cmd loop with_persona_def spec(4))
  have rt: "rt_model ?rt = Some demo_native_model" "caps_of ?rt = Some demo_caps" "run_gate ?rt ?pol demo_content = ?D"
    by (simp_all add: demo_runtime_def caps_of_def demo_gate_of_run_def)
  show ?thesis
    by (simp add: run_native_def run_opened_def Let_def spec(1,2,3) spec(3) [unfolded rt(2)] rt base opens [unfolded Let_def] run_upd_ev
        cmd(2) go closed_summary result_of_turns_def loop(2,3))
qed

section \<open>Properties\<close>





text \<open>C9: A run on a sandbox below the floor of its policy does nothing at all. If the isolation is weaker than
  required, or the network must be off and is not, or there is no sandbox to ask, either protocol
  returns a refusal without a message or a step, the world outside is the one it started in, and
  the guarantees say that the isolation failed.\<close>

theorem floor_refused_untouched:
  assumes "complete_spec spec" and "validate_run (rs_policy spec) rt = None" and "\<not> floor_met (rs_policy spec) (caps_of rt)"
    and "run = run_native \<or> run = run_text \<and> \<not> pv_repro_first (rs_policy spec)"
  shows "\<exists>x t. run_state (run rt spec c) (first_gates rt spec c w) = (RunDone x, t) \<and> rr_outcome (fr_end x) = RefusedUnsafe
    \<and> fr_messages x = [] \<and> fr_steps x = [] \<and> g_world t = w \<and> gu_isolation (fr_guarantees x) = EvidenceFailed"
proof -
  let ?pol = "rs_policy spec" and ?g = "first_gates rt spec c w"
  obtain why where why: "floor_refusal ?pol (caps_of rt) = Some why" using assms(3) floor_refusal_iff by fastforce
  obtain mo where mo: "rt_model rt = Some mo" using validated_model [OF assms(2)] by blast
  obtain l where l: "g_ev ?g = Some l" "ev_base_tree l = []" by (simp add: first_gates_def Let_def start_gates_def new_evidence_def)
  let ?s = "?g\<lparr>g_ev := Some ((observe_caps (caps_of rt) l)\<lparr>ev_isolation := EvidenceFailed\<rparr>)\<rparr>"
  have "run_state (run rt spec c) ?g
      = run_state (with_guarantees (run_gate rt ?pol c) (bare_result c (run_ended RefusedUnsafe why))) ?s"
    using assms(4)
    by (auto simp: run_native_def run_text_def Let_def assms(1,2) mo why refused_run_def run_upd_ev l)
  moreover have "g_ev ?s = Some ((observe_caps (caps_of rt) l)\<lparr>ev_isolation := EvidenceFailed\<rparr>)"
      "ev_base_tree ((observe_caps (caps_of rt) l)\<lparr>ev_isolation := EvidenceFailed\<rparr>) = []"
    using l by (auto simp: observe_caps_def split: option.split)
  from with_guarantees_still [OF this, of "run_gate rt ?pol c" "bare_result c (run_ended RefusedUnsafe why)"] obtain g
    where "run_state (with_guarantees (run_gate rt ?pol c) (bare_result c (run_ended RefusedUnsafe why))) ?s
        = (RunDone ((bare_result c (run_ended RefusedUnsafe why))\<lparr>fr_guarantees := g\<rparr>), ?s)" "gu_isolation g = EvidenceFailed" by auto
  ultimately show ?thesis
    by (auto simp: bare_result_def run_ended_def first_gates_def Let_def start_gates_def)
qed

definition walled_spec :: resolved_spec where
  "walled_spec = demo_spec\<lparr>rs_policy := (rs_policy demo_spec)\<lparr>pv_min_isolation := IsolationProcess\<rparr>\<rparr>"

theorem floor_refused_untouched_witness:
  "\<exists>x t. run_state (run_text (demo_runtime demo_model) walled_spec demo_content)
      (first_gates (demo_runtime demo_model) walled_spec demo_content ''good'') = (RunDone x, t) \<and> rr_outcome (fr_end x) = RefusedUnsafe
    \<and> g_world t = ''good''"
proof -
  have h: "complete_spec walled_spec" "validate_run (rs_policy walled_spec) (demo_runtime demo_model) = None"
      "\<not> floor_met (rs_policy walled_spec) (caps_of (demo_runtime demo_model))" "\<not> pv_repro_first (rs_policy walled_spec)"
    by code_simp+
  show ?thesis using floor_refused_untouched [OF h(1-3), of run_text demo_content "''good''"] h(4) by blast
qed

end
