(* ===== verification/SessionFacts.thy ===== *)
theory SessionFacts
  imports Session RunFacts
begin

text \<open>
  What holds of a session along any sequence of steps: its specification is always one that
  resolved, its transcript is always one that providers accept, and its verify gate moves only as
  an abstract conversation allows. The two loops enter through a contract, a locale that both
  satisfy.
\<close>

section \<open>Transcripts of whole runs\<close>

lemma well_paired_seed:
  assumes "ct_history c = [] \<or> well_paired (ct_history c)"
  shows "well_paired (seed_messages task c env)"
proof -
  define m where "m = last (seed_messages task c env)"
  have s: "seed_messages task c env = ct_history c @ [m]"
    by (simp add: m_def seed_messages_def Let_def)
  have m: "\<not> is_assistant m" "result_ids [m] = {}"
    by (auto simp: m_def seed_messages_def Let_def user_parts_def user_msg_def is_assistant_def result_ids_def
        images_as_parts_def split: if_splits)
  show ?thesis
  proof (cases "ct_history c = []")
    case True
    then show ?thesis using m unfolding s well_paired_def
      by (intro exI [of _ m] exI [of _ "[]"]) (simp add: transcript_def preamble_def)
  qed (use assms m s well_paired_message in auto)
qed

text \<open>A turn of the text loop keeps a transcript paired: its own messages hold no calls.\<close>

lemma paired_turn_of: "turn_paired (turn_of st fed)"
  by (auto simp: turn_paired_def turn_turn_of) (auto simp: turn_of_def assistant_msg_def user_msg_def call_ids_def result_ids_def)

lemma handed_on_paired:
  assumes "handed_on L ts msgs" "well_paired (ts_messages ts)"
  shows "well_paired msgs"
proof -
  obtain w w' resp e where
      g: "generate_with_eviction (lp_model L) (pv_stream (d_pol (lp_gate L))) (loop_request L ts) w = ((resp, msgs, e), w')"
    using assms(1) unfolding handed_on_def by blast
  have "well_paired (req_messages (loop_request L ts))" using assms(2) by (simp add: loop_request_def)
  from evicting_paired [OF this] g show ?thesis by (metis fst_conv snd_conv generate_with_eviction_def)
qed

definition text_paired :: "turn_end \<Rightarrow> bool" where
  "text_paired r \<longleftrightarrow>
     (case r of TurnNext ts \<Rightarrow> well_paired (ts_messages ts) | TurnStop res e ts \<Rightarrow> well_paired (ts_messages ts) | TurnPanic \<Rightarrow> True)"

lemma exchange_paired: "handed_on L ts msgs \<Longrightarrow> well_paired (ts_messages ts) \<Longrightarrow> well_paired (msgs @ turn_of st fed)"
  by (rule well_paired_turn [OF handed_on_paired paired_turn_of])

lemma effect_paired: "turn_effect L i ts r \<Longrightarrow> well_paired (ts_messages ts) \<Longrightarrow> text_paired r"
  by (auto simp: turn_effect_def text_paired_def exchange_def no_exchange_def split: turn_end.splits
      intro: handed_on_paired exchange_paired)

lemma wp_text_loop_paired: "well_paired (ts_messages ts) \<Longrightarrow> wp (text_loop L n ts) (\<lambda>r _. text_paired r) s"
proof (induction n arbitrary: ts s)
  case 0
  show ?case unfolding text_loop.simps stop_rescued_def
    by (rule wp_bindI, rule wp_use [OF wp_true]) (use 0 in \<open>simp add: wp_ret text_paired_def\<close>)
next
  case (Suc n)
  show ?case unfolding text_loop.simps
  proof (intro wp_bindI, rule wp_use [OF wp_text_effect], goal_cases)
    case (1 r t)
    then have "text_paired r" by (rule effect_paired) (rule Suc.prems)
    then show ?case using Suc.IH by (cases r) (auto simp: wp_ret text_paired_def)
  qed
qed

section \<open>The verification state of whole runs\<close>

text \<open>Messages and hand-off of a result.\<close>

definition run_kept :: "verify_state \<Rightarrow> bool \<Rightarrow> run_end \<Rightarrow> bool" where
  "run_kept vs paired e \<longleftrightarrow>
     (\<forall>x. e = RunDone x \<longrightarrow>
        (fr_hand_off x = None \<or> (\<exists>vs'. decided vs vs' \<and> fr_hand_off x = hand_off_of vs'))
        \<and> (paired \<longrightarrow> fr_messages x = [] \<or> well_paired (fr_messages x)))"

lemma wp_guarantees_kept: "run_kept vs b (RunDone r) \<Longrightarrow> wp (with_guarantees D r) (\<lambda>e _. run_kept vs b e) s"
  by (rule wp_with_guarantees) (simp add: run_kept_def)

lemma wp_opened_kept:
  assumes "\<And>D r0 s. wp (go D r0) (\<lambda>r _. \<forall>x. r = Some x \<longrightarrow> fr_hand_off x = fr_hand_off r0
      \<and> (b \<longrightarrow> fr_messages x = [] \<or> well_paired (fr_messages x))) s"
  shows "wp (run_opened rt pol c native go) (\<lambda>e _. run_kept (g_vs s) b e) s"
  unfolding run_opened_def Let_def
proof (intro wp_bindI, subst wp_upd_ev, intro wp_bindI, rule wp_use [OF wp_open_decided], goal_cases)
  case (1 e t)
  then have d: "decided (g_vs s) (g_vs t)" by simp
  have close: "wp (close_run D native x) (\<lambda>e _. run_kept (g_vs s) b e) u" if "run_kept (g_vs s) b (RunDone x)" for D x u
    unfolding close_run_def by (intro wp_bindI wp_getsI wp_guarantees_kept) (use that in \<open>simp add: run_kept_def\<close>)
  have keep: "run_kept (g_vs s) b (RunDone x)"
    if "fr_hand_off x = hand_off_of (g_vs t)" "b \<longrightarrow> fr_messages x = [] \<or> well_paired (fr_messages x)" for x
    using that d by (auto simp: run_kept_def)
  show ?case
  proof (cases e)
    case (Some err)
    then show ?thesis by (simp add: wp_ret run_kept_def)
  next
    case None
    show ?thesis
    proof (cases "red_baseline_refusal (g_vs t) (g_base_red t)")
      case (Some r)
      show ?thesis unfolding None option.case
        by (simp add: wp_bind wp_gets Some, intro wp_guarantees_kept keep) (simp_all add: apply_baseline_def bare_result_def)
    next
      case base: None
      show ?thesis unfolding None option.case
      proof (simp only: wp_bind wp_gets id_apply base option.case, rule wp_use [OF assms], goal_cases)
        case (1 r u)
        then show ?case
          by (cases r) (auto simp: wp_ret run_kept_def [of _ _ RunPanic] apply_baseline_def bare_result_def intro!: close keep)
      qed
    qed
  qed
qed

lemma wp_first_seed: "wp (first_messages rt pol c task) (\<lambda>msgs _. \<exists>env. msgs = seed_messages task c env) s"
  unfolding first_messages_def by (intro wp_intros wpI) auto

lemma start_messages [simp]: "ts_messages (start_turns pol cmd msgs) = msgs"
  by (simp add: start_turns_def Let_def)

abbreviation history_ok :: "content \<Rightarrow> bool" where
  "history_ok c \<equiv> ct_history c = [] \<or> well_paired (ct_history c)"

lemma wp_go_text_kept:
  "wp (go_text rt c mo D r0) (\<lambda>r _. \<forall>x. r = Some x \<longrightarrow> fr_hand_off x = fr_hand_off r0
      \<and> (history_ok c \<longrightarrow> fr_messages x = [] \<or> well_paired (fr_messages x))) s"
  unfolding go_text_def Let_def
proof (intro wp_bindI, rule wp_use [OF wp_true], intro wp_bindI, rule wp_use [OF wp_first_seed],
    intro wp_bindI, rule wp_use [OF wp_true], rule wp_bindI, rule wp_getsI, rule wp_bindI, rule wpI, rule wp_retI, goal_cases)
  case (1 p u msgs u1 mem v e t)
  have "text_paired e" if "history_ok c"
    using wpD [OF wp_text_loop_paired 1(4) [unfolded run_text_loop_def]] 1(2) well_paired_seed [OF that] by auto
  then show ?case by (auto simp: result_of_turns_def text_paired_def split: turn_end.splits)
qed

lemma wp_go_native_kept:
  assumes "plain_model mo"
  shows "wp (go_native rt c mo base D r0) (\<lambda>r _. \<forall>x. r = Some x \<longrightarrow> fr_hand_off x = fr_hand_off r0
      \<and> (history_ok c \<longrightarrow> fr_messages x = [] \<or> well_paired (fr_messages x))) s"
  unfolding go_native_def Let_def
proof (intro wp_bindI, rule wp_use [OF wp_true], intro wp_bindI, rule wp_use [OF wp_first_seed],
    intro wp_bindI, rule wp_use [OF wp_true], rule wp_bindI, rule wp_getsI, rule wp_bindI, rule wpI, rule wp_retI, goal_cases)
  case (1 p u msgs u1 mem v e t)
  let ?N = "native_parts rt D mo (with_persona (pv_persona (d_pol D)) base @ mem)"
  have m: "plain_model (lp_model (nd_loop ?N))"
    using assms by (simp add: native_parts_def loop_parts_def Let_def)
  have "paired_end e" if "history_ok c"
    using wpD [OF wp_run_native_talk [OF m] 1(4)] 1(2) well_paired_seed [OF that] by auto
  then show ?case by (auto simp: result_of_turns_def paired_end_def split: native_end.splits)
qed

lemma wp_refused_kept: "wp (refused_run rt pol c why) (\<lambda>e _. run_kept vs b e) s"
  unfolding refused_run_def
  by (intro wp_bindI, subst wp_upd_ev, rule wp_guarantees_kept) (simp add: run_kept_def bare_result_def)

lemma wp_text_kept: "wp (run_text rt spec c) (\<lambda>e _. run_kept (g_vs s) (history_ok c) e) s"
proof -
  have o1: "wp (run_opened rt pol c False (go_text rt c mo)) (\<lambda>e _. run_kept (g_vs s) (history_ok c) e) (s\<lparr>g_ev := l\<rparr>)" for pol mo l
    using wp_opened_kept [OF wp_go_text_kept, where s = "s\<lparr>g_ev := l\<rparr>"] by simp
  have e: "run_kept vs b (RunError x)" for vs b x by (simp add: run_kept_def)
  show ?thesis
  proof (cases "complete_spec spec \<and> validate_run (rs_policy spec) rt = None")
    case True
    then obtain mo where "rt_model rt = Some mo" using validated_model by blast
    with True show ?thesis
      by (simp add: run_text_def Let_def wp_ret wp_bind wp_upd_ev e o1 wp_refused_kept split: option.split)
  next
    case False
    then show ?thesis by (auto simp: run_text_def Let_def wp_ret e dest: validated_model split: option.split)
  qed
qed

lemma wp_native_kept:
  assumes "\<And>mo. rt_model rt = Some mo \<Longrightarrow> plain_model mo"
  shows "wp (run_native rt spec c) (\<lambda>e _. run_kept (g_vs s) (history_ok c) e) s"
proof -
  have o1: "wp (run_opened rt pol c True (go_native rt c mo base)) (\<lambda>e _. run_kept (g_vs s) (history_ok c) e) (s\<lparr>g_ev := l\<rparr>)"
    if "plain_model mo" for pol mo l base
    using wp_opened_kept [OF wp_go_native_kept [OF that], where s = "s\<lparr>g_ev := l\<rparr>"] by simp
  have e: "run_kept vs b (RunError x)" for vs b x by (simp add: run_kept_def)
  show ?thesis
  proof (cases "complete_spec spec \<and> validate_run (rs_policy spec) rt = None")
    case True
    then obtain mo where "rt_model rt = Some mo" using validated_model by blast
    with True show ?thesis
      by (simp add: run_native_def Let_def wp_ret wp_bind wp_upd_ev e o1 [OF assms] wp_refused_kept split: option.split sum.split)
  next
    case False
    then show ?thesis by (auto simp: run_native_def Let_def wp_ret e dest: validated_model split: option.split)
  qed
qed


section \<open>The contract of a loop\<close>

text \<open>What a session relies on in the loop it runs. \<open>good\<close> holds of the models that the front end
  offers.\<close>

locale turn_loop =
  fixes loop :: "'w loop_func" and good :: "'w model_deps \<Rightarrow> bool"
  assumes loop_keeps: "rt_model rt = Some m \<Longrightarrow> good m \<Longrightarrow> rt_session_verify rt = Some vs \<Longrightarrow>
    run_kept vs (history_ok c) (lr_end (fst (loop rt spec c w)))"

lemma first_gates_vs [simp]: "g_vs (first_gates rt spec c w) = run_verify_state (rs_policy spec) (rt_session_verify rt)"
  by (simp add: first_gates_def Let_def start_gates_def)

interpretation text_turns: turn_loop text_run "\<lambda>_. True"
proof
  fix rt :: "'a runtime" and vs c spec w
  assume "rt_session_verify rt = Some vs"
  then show "run_kept vs (history_ok c) (lr_end (fst (text_run rt spec c w)))"
    using wpD [OF wp_text_kept, of rt spec c "first_gates rt spec c w"]
    by (simp add: text_run_def loop_of_def run_verify_state_def split: prod.splits)
qed

interpretation native_turns: turn_loop native_run plain_model
proof
  fix rt :: "'a runtime" and m vs c spec w
  assume "rt_model rt = Some m" "plain_model m" "rt_session_verify rt = Some vs"
  then show "run_kept vs (history_ok c) (lr_end (fst (native_run rt spec c w)))"
    using wpD [OF wp_native_kept, of rt spec c "first_gates rt spec c w"]
    by (simp add: native_run_def loop_of_def run_verify_state_def split: prod.splits)
qed

section \<open>A conversation\<close>

text \<open>What a user sees of a session: the transcript, the verify gate and the probe.\<close>

datatype gate_mode = Undecided | GateOff | GateOn string bool
datatype probe_phase = NoProbe | ProbeRuns | ProbeReady | ProbeSpent

record chat =
  ch_talk :: "message list"
  ch_gate :: gate_mode
  ch_probe :: probe_phase

definition gate_of :: "verify_state \<Rightarrow> gate_mode" where
  "gate_of vs =
     (if vs_cmd vs \<noteq> [] then GateOn (vs_cmd vs) (vs_auto_soft vs)
      else if vs_resolved vs \<or> \<not> vs_auto_verify vs then GateOff else Undecided)"

definition phase_of :: "'w probe_slot \<Rightarrow> probe_phase" where
  "phase_of p =
     (if \<not> pb_started p then NoProbe else if \<not> pb_done p then ProbeRuns
      else if \<not> pb_applied p then ProbeReady else ProbeSpent)"

definition chat_of :: "'w session \<Rightarrow> chat" where
  "chat_of s = \<lparr> ch_talk = ss_messages s, ch_gate = gate_of (ss_vs s), ch_probe = phase_of (ss_probe s) \<rparr>"

text \<open>A derivation settles an open question with nothing or with a soft gate.\<close>

definition settled :: "gate_mode \<Rightarrow> gate_mode" where
  "settled g = (if g = Undecided then GateOff else g)"

definition soft_gate :: "gate_mode \<Rightarrow> bool" where
  "soft_gate g \<longleftrightarrow> (\<exists>cmd prov. (cmd, prov) \<in> derivable \<and> g = GateOn cmd True)"

text \<open>The result of the probe may take the place of any gate; a run decides only what is open.\<close>

definition taken :: "chat \<Rightarrow> gate_mode \<Rightarrow> probe_phase \<Rightarrow> bool" where
  "taken c g p \<longleftrightarrow>
     (if ch_probe c = ProbeReady then p = ProbeSpent \<and> (g = settled (ch_gate c) \<or> soft_gate g)
      else p = ch_probe c \<and> g = ch_gate c)"

definition run_decides :: "gate_mode \<Rightarrow> gate_mode \<Rightarrow> bool" where
  "run_decides g g' \<longleftrightarrow> g' = g \<or> (g = Undecided \<and> (g' = GateOff \<or> soft_gate g'))"

inductive chat_step :: "chat \<Rightarrow> chat \<Rightarrow> bool" where
  chat_turn: "taken c g p \<Longrightarrow> run_decides g g' \<Longrightarrow> h = ch_talk c \<or> well_paired h \<Longrightarrow>
     chat_step c \<lparr> ch_talk = h, ch_gate = g', ch_probe = p \<rparr>"
| chat_clear: "chat_step c (c\<lparr>ch_talk := []\<rparr>)"
| chat_verify: "g = GateOff \<or> (\<exists>cmd. cmd \<noteq> [] \<and> g = GateOn cmd False) \<Longrightarrow> chat_step c (c\<lparr>ch_gate := g\<rparr>)"
| chat_prewarm: "ch_probe c = NoProbe \<Longrightarrow> \<forall>cmd soft. ch_gate c \<noteq> GateOn cmd soft \<Longrightarrow> chat_step c (c\<lparr>ch_probe := ProbeRuns\<rparr>)"
| chat_probed: "ch_probe c = ProbeRuns \<Longrightarrow> chat_step c (c\<lparr>ch_probe := ProbeReady\<rparr>)"
| chat_other: "chat_step c c"

section \<open>Steps of a session\<close>

definition session_ok :: "resolver \<Rightarrow> ('w model_deps \<Rightarrow> bool) \<Rightarrow> 'w session \<Rightarrow> bool" where
  "session_ok rsv good s \<longleftrightarrow>
     rsv (ss_req s) = Inr (ss_spec s)
     \<and> (\<exists>m. rt_model (ss_rt s) = Some m \<and> good m)
     \<and> (ss_messages s = [] \<or> well_paired (ss_messages s))
     \<and> derived_ok (pb_resolution (ss_probe s))
     \<and> (pb_done (ss_probe s) \<longrightarrow> pb_started (ss_probe s)) \<and> (pb_applied (ss_probe s) \<longrightarrow> pb_done (ss_probe s))"

lemma derivable_cmd: "(cmd, prov) \<in> derivable \<Longrightarrow> cmd \<noteq> []"
  by (auto simp: derivable_def)

lemma apply_gate:
  assumes "derived_ok r"
  shows "gate_of (apply_auto_verify r vs) = settled (gate_of vs) \<or> soft_gate (gate_of (apply_auto_verify r vs))"
  using assms derivable_cmd
  by (auto simp: apply_auto_verify_def record_resolution_def Let_def gate_of_def settled_def soft_gate_def derived_ok_def)

lemma undecided: "gate_of vs = Undecided \<longleftrightarrow> vs_auto_verify vs \<and> vs_cmd vs = [] \<and> \<not> vs_resolved vs"
  by (simp add: gate_of_def)

lemma decided_gate:
  assumes "decided vs vs'"
  shows "run_decides (gate_of vs) (gate_of vs')"
proof (cases "vs' = vs")
  case False
  then have u: "gate_of vs = Undecided" using assms by (auto simp: decided_def undecided)
  from False assms consider "vs' = vs\<lparr>vs_resolved := True\<rparr>" | r where "derived_ok r" "vs' = apply_auto_verify r vs"
    by (auto simp: decided_def)
  then show ?thesis
  proof cases
    case 1
    then show ?thesis using u by (auto simp: run_decides_def undecided) (simp add: gate_of_def)
  next
    case 2
    then show ?thesis using u apply_gate [OF 2(1), of vs] by (auto simp: run_decides_def settled_def)
  qed
qed (simp add: run_decides_def)

text \<open>The state that a turn gives its run is the one it keeps, but for the mark of a probe that is still
  running.\<close>

definition turn_copy :: "verify_state \<Rightarrow> verify_state \<Rightarrow> bool" where
  "turn_copy S vs \<longleftrightarrow> vs = S \<or> vs = S\<lparr>vs_resolved := True\<rparr>"

lemma taken_probe:
  assumes "take_probe s = (s1, vs)" "derived_ok (pb_resolution (ss_probe s))"
  shows "turn_copy (ss_vs s1) vs" "taken (chat_of s) (gate_of (ss_vs s1)) (phase_of (ss_probe s1))"
    "ss_req s1 = ss_req s" "ss_spec s1 = ss_spec s" "ss_rt s1 = ss_rt s" "ss_messages s1 = ss_messages s" "ss_root s1 = ss_root s"
    "pb_resolution (ss_probe s1) = pb_resolution (ss_probe s)" "pb_started (ss_probe s1) = pb_started (ss_probe s)"
    "pb_done (ss_probe s1) = pb_done (ss_probe s)" "pb_applied (ss_probe s1) \<longrightarrow> pb_applied (ss_probe s) \<or> pb_done (ss_probe s)"
  using assms apply_gate [OF assms(2), of "ss_vs s"]
  by (auto simp: take_probe_def Let_def turn_copy_def taken_def chat_of_def phase_of_def split: if_splits)

lemma persist_gate:
  assumes "turn_copy (ss_vs s) vs" "run_kept vs b e"
  shows "run_decides (gate_of (ss_vs s)) (gate_of (ss_vs (persist_auto_verify e s)))"
proof (cases "\<exists>x h. e = RunDone x \<and> fr_hand_off x = Some h")
  case True
  then obtain x h vs' where x: "e = RunDone x" "fr_hand_off x = Some h" "decided vs vs'" "hand_off_of vs' = Some h"
    using assms(2) by (auto simp: run_kept_def)
  then have h: "ho_cmd h = vs_cmd vs'" "ho_soft h = vs_auto_soft vs'" by (auto simp: hand_off_of_def split: if_splits)
  show ?thesis
  proof (cases "vs_cmd vs' = []")
    case True
    have "vs_cmd (ss_vs s) = []"
      using True x(3) assms(1) by (auto simp: decided_def turn_copy_def)
    then show ?thesis using True x(1,2) h
      by (auto simp: persist_auto_verify_def gate_of_def run_decides_def)
  next
    case False
    then have g: "gate_of (ss_vs (persist_auto_verify e s)) = gate_of vs'"
      using x(1,2) h by (simp add: persist_auto_verify_def gate_of_def Let_def)
    from assms(1) consider "vs = ss_vs s" | "vs = (ss_vs s)\<lparr>vs_resolved := True\<rparr>" by (auto simp: turn_copy_def)
    then show ?thesis unfolding g
    proof cases
      case 1
      then show "run_decides (gate_of (ss_vs s)) (gate_of vs')" using decided_gate [OF x(3)] by simp
    next
      case 2
      then have "vs' = vs" using x(3) by (simp add: decided_def)
      then show "run_decides (gate_of (ss_vs s)) (gate_of vs')" using 2 False by (simp add: gate_of_def run_decides_def)
    qed
  qed
next
  case False
  then show ?thesis by (cases e) (auto simp: persist_auto_verify_def run_decides_def split: option.split)
qed

lemma persist_keeps:
  "ss_req (persist_auto_verify e s) = ss_req s" "ss_spec (persist_auto_verify e s) = ss_spec s"
  "ss_rt (persist_auto_verify e s) = ss_rt s" "ss_messages (persist_auto_verify e s) = ss_messages s"
  "ss_probe (persist_auto_verify e s) = ss_probe s"
  by (simp_all add: persist_auto_verify_def Let_def split: run_end.split option.split)

lemma kept_transcript:
  "ss_req (keep_transcript i e s) = ss_req s" "ss_spec (keep_transcript i e s) = ss_spec s"
  "ss_rt (keep_transcript i e s) = ss_rt s" "ss_vs (keep_transcript i e s) = ss_vs s"
  "ss_probe (keep_transcript i e s) = ss_probe s"
  by (simp_all add: keep_transcript_def split: run_end.split)

text \<open>A turn, over any loop that keeps the contract.\<close>

definition turn_taken :: "'w session \<Rightarrow> 'w session \<Rightarrow> bool" where
  "turn_taken s s' \<longleftrightarrow>
     (\<exists>g. taken (chat_of s) g (phase_of (ss_probe s')) \<and> run_decides g (gate_of (ss_vs s')))
     \<and> (ss_messages s' = ss_messages s \<or> well_paired (ss_messages s'))"

lemma turn_chat: "turn_taken s s' \<Longrightarrow> chat_step (chat_of s) (chat_of s')"
  using chat_turn [of "chat_of s" _ "phase_of (ss_probe s')" "gate_of (ss_vs s')" "ss_messages s'"]
  by (auto simp: turn_taken_def chat_of_def)

text \<open>Steps that leave the conversation, the verify state and the probe.\<close>

lemma chat_kept [simp]:
  "chat_of (on_rt f s) = chat_of s" "chat_of (s\<lparr>ss_root := d\<rparr>) = chat_of s" "chat_of (s\<lparr>ss_req := q, ss_spec := p\<rparr>) = chat_of s"
  by (simp_all add: chat_of_def on_rt_def)

lemma reresolve_chat [simp]: "chat_of (reresolve rsv mutate s) = chat_of s"
  by (simp add: reresolve_def split: sum.split)

lemma verify_chat:
  "chat_of (set_verify_cmd cmd s) = (chat_of s)\<lparr>ch_gate := if cmd = [] then GateOff else GateOn cmd False\<rparr>"
  by (simp add: chat_of_def set_verify_cmd_def record_resolution_def gate_of_def Let_def)

lemma prewarm_chat:
  assumes "session_ok rsv good s"
  shows "chat_step (chat_of s) (chat_of (prewarm s))"
proof (cases "prewarm s = s")
  case False
  then have p: "vs_cmd (ss_vs s) = []" "\<not> pb_started (ss_probe s)" by (auto simp: prewarm_def split: if_splits)
  then have "chat_of (prewarm s) = (chat_of s)\<lparr>ch_probe := ProbeRuns\<rparr>"
    using False assms by (auto simp: session_ok_def prewarm_def chat_of_def phase_of_def split: if_splits)
  then show ?thesis using p chat_prewarm [of "chat_of s"] by (simp add: chat_of_def phase_of_def gate_of_def)
qed (simp add: chat_other)

lemma probe_chat:
  assumes "pb_started (ss_probe s)" "\<not> pb_done (ss_probe s)" "\<not> pb_applied (ss_probe s)" "run_state (probe_ends s) w = (s', w')"
  shows "chat_of s' = (chat_of s)\<lparr>ch_probe := ProbeReady\<rparr>" "derived_ok (pb_resolution (ss_probe s'))"
    "ss_req s' = ss_req s" "ss_spec s' = ss_spec s" "ss_rt s' = ss_rt s" "ss_messages s' = ss_messages s" "pb_started (ss_probe s')"
proof -
  obtain r where r: "run_state (probe_auto_verify (fst (pb_target (ss_probe s))) (snd (pb_target (ss_probe s)))) w = (r, w')"
      "s' = s\<lparr>ss_probe := (ss_probe s)\<lparr>pb_resolution := r, pb_done := True\<rparr>\<rparr>"
    using assms(4) by (auto simp: probe_ends_def split: prod.splits)
  have "derived_ok r" using wpD [OF wp_probe r(1)] by (simp add: preflighted_def derived_ok_def)
  then show "chat_of s' = (chat_of s)\<lparr>ch_probe := ProbeReady\<rparr>" "derived_ok (pb_resolution (ss_probe s'))"
    "ss_req s' = ss_req s" "ss_spec s' = ss_spec s" "ss_rt s' = ss_rt s" "ss_messages s' = ss_messages s" "pb_started (ss_probe s')"
    using assms by (simp_all add: r(2) chat_of_def phase_of_def)
qed

context turn_loop
begin

lemma turn_ok:
  assumes "session_ok rsv good s" "run_state (send_parts loop ctx_err txt imgs s) w = ((e, s'), w')"
  shows "session_ok rsv good s' \<and> turn_taken s s' \<and> run_decides (gate_of (ss_vs (fst (take_probe s)))) (gate_of (ss_vs s'))"
proof -
  obtain s1 vs where t: "take_probe s = (s1, vs)" by fastforce
  have d: "derived_ok (pb_resolution (ss_probe s))" using assms(1) by (simp add: session_ok_def)
  note k = taken_probe [OF t d]
  obtain m where m: "rt_model (ss_rt s) = Some m" "good m" using assms(1) by (auto simp: session_ok_def)
  obtain r w1 where l: "loop (turn_runtime s1 vs) (ss_spec s1) (turn_content s1 txt imgs) w = (r, w1)" by fastforce
  have c: "history_ok (turn_content s1 txt imgs)"
    using assms(1) k(6) by (simp add: turn_content_def session_ok_def)
  have kept: "run_kept vs True (lr_end r)"
    using loop_keeps [of "turn_runtime s1 vs" m vs "turn_content s1 txt imgs" "ss_spec s1" w] m k(5) l c
    by (simp add: turn_runtime_def)
  define s2 where "s2 = on_rt (\<lambda>rt. rt\<lparr>rt_spend := lr_spend r\<rparr>) (s1\<lparr>ss_cache := lr_cache r\<rparr>)"
  obtain i where s': "s' = keep_transcript i (lr_end r) (persist_auto_verify (lr_end r) s2)"
    using assms(2) t l by (auto simp: send_parts_def s2_def split: prod.splits)
  have s2: "ss_vs s2 = ss_vs s1" "ss_probe s2 = ss_probe s1" "ss_req s2 = ss_req s1" "ss_spec s2 = ss_spec s1"
      "ss_messages s2 = ss_messages s1" "rt_model (ss_rt s2) = rt_model (ss_rt s1)"
    by (simp_all add: s2_def on_rt_def)
  have g: "run_decides (gate_of (ss_vs s1)) (gate_of (ss_vs s'))"
    using persist_gate [of s2 vs True "lr_end r"] k(1) kept s2 by (simp add: s' kept_transcript)
  have p: "ss_probe s' = ss_probe s1" by (simp add: s' kept_transcript persist_keeps s2)
  have msgs: "ss_messages s' = ss_messages s \<or> well_paired (ss_messages s')"
    using kept k(6) by (auto simp: s' keep_transcript_def persist_keeps s2 run_kept_def split: run_end.split)
  show ?thesis
  proof (intro conjI)
    show "run_decides (gate_of (ss_vs (fst (take_probe s)))) (gate_of (ss_vs s'))" using g t by simp
    show "turn_taken s s'" using g k(2) p msgs by (auto simp: turn_taken_def)
    show "session_ok rsv good s'"
      using assms(1) k p msgs m s2 unfolding session_ok_def
      by (auto simp: s' kept_transcript persist_keeps)
  qed
qed

lemma step_ok:
  assumes "session_step rsv loop good (s, w) (s', w')" "session_ok rsv good s"
  shows "session_ok rsv good s' \<and> chat_step (chat_of s) (chat_of s')"
  using assms(1)
proof cases
  case step_send
  then show ?thesis using turn_ok [OF assms(2)] turn_chat by blast
next
  case step_reset
  then show ?thesis using assms(2) chat_clear [of "chat_of s"] by (simp add: session_reset_def session_ok_def chat_of_def)
next
  case step_reresolve
  then show ?thesis using assms(2) chat_other [of "chat_of s"]
    by (auto simp: reresolve_def session_ok_def split: sum.split)
next
  case (step_verify cmd)
  have "session_ok rsv good (set_verify_cmd cmd s)" using assms(2) by (simp add: session_ok_def set_verify_cmd_def Let_def)
  then show ?thesis using step_verify chat_verify [of "if cmd = [] then GateOff else GateOn cmd False" "chat_of s"]
    by (auto simp: verify_chat)
next
  case step_model
  then show ?thesis using assms(2) chat_other by (auto simp: session_ok_def set_model_def) (simp_all add: on_rt_def)
next
  case step_planner
  then show ?thesis using assms(2) chat_other by (auto simp: session_ok_def set_planner_def) (simp_all add: on_rt_def)
next
  case step_tools
  then show ?thesis using assms(2) chat_other by (auto simp: session_ok_def set_tools_def) (simp_all add: on_rt_def)
next
  case step_reviewer
  then show ?thesis using assms(2) chat_other by (auto simp: session_ok_def set_reviewer_def) (simp_all add: on_rt_def)
next
  case step_workspace
  then show ?thesis using assms(2) chat_other by (auto simp: session_ok_def set_workspace_def) (simp_all add: on_rt_def)
next
  case step_prewarm
  have "session_ok rsv good (prewarm s)" using assms(2) by (auto simp: session_ok_def prewarm_def)
  then show ?thesis using step_prewarm prewarm_chat [OF assms(2)] by simp
next
  case step_probe
  have a: "\<not> pb_applied (ss_probe s)" using step_probe(2) assms(2) by (auto simp: session_ok_def)
  note p = probe_chat [OF step_probe(1,2) a step_probe(3)]
  have "ch_probe (chat_of s) = ProbeRuns" using step_probe(1,2) by (simp add: chat_of_def phase_of_def)
  then have "chat_step (chat_of s) (chat_of s')" using p(1) chat_probed [of "chat_of s"] by simp
  moreover have "session_ok rsv good s'"
    using assms(2) p step_probe by (auto simp: session_ok_def probe_ends_def split: prod.splits)
  ultimately show ?thesis by blast
next
  case step_world
  then show ?thesis using assms(2) chat_other by simp
qed

lemma reach_ok: "session_reach rsv loop good p \<Longrightarrow> session_ok rsv good (fst p)"
proof (induction rule: session_reach.induct)
  case (reach_new req rt rdir history s m w)
  then show ?case
    by (auto simp: new_session_def session_ok_def idle_probe_def nothing_derived_def derived_ok_def split: sum.splits)
next
  case (reach_step p q)
  then show ?case using step_ok by (metis prod.collapse)
qed

end

section \<open>Properties\<close>

definition session_loop :: "'w loop_func \<Rightarrow> ('w model_deps \<Rightarrow> bool) \<Rightarrow> bool" where
  "session_loop loop good \<longleftrightarrow> loop = text_run \<and> good = (\<lambda>_. True) \<or> loop = native_run \<and> good = plain_model"

lemma loop_facts:
  assumes "session_loop loop good" "session_reach rsv loop good (s, w)"
  shows "session_ok rsv good s"
    "session_step rsv loop good (s, w) (s', w') \<Longrightarrow> chat_step (chat_of s) (chat_of s')"
    "run_state (send_parts loop ctx_err txt imgs s2) w2 = ((e, s'), w') \<Longrightarrow> session_ok rsv good s2 \<Longrightarrow>
       turn_taken s2 s' \<and> run_decides (gate_of (ss_vs (fst (take_probe s2)))) (gate_of (ss_vs s'))"
  using assms text_turns.reach_ok [of rsv "(s, w)"] native_turns.reach_ok [of rsv "(s, w)"]
    text_turns.step_ok native_turns.step_ok text_turns.turn_ok native_turns.turn_ok
  unfolding session_loop_def by (metis fst_conv)+



text \<open>C25: The transcript a session carries from turn to turn is always empty or one that providers accept, with
  every call answered in its turn, whatever was compacted, interrupted or cut off by a detector,
  as long as the models it is given return no tool results of their own.\<close>

theorem session_transcript_paired:
  assumes "session_loop loop good" and "session_reach rsv loop good (s, w)"
  shows "ss_messages s = [] \<or> well_paired (ss_messages s)"
  using loop_facts(1) [OF assms] by (simp add: session_ok_def)

text \<open>C7: A decision about the verify gate stands. Once a session has a verify command, from the user or
  derived, or has settled on none, no turn changes it, unless a background probe has ended and
  its result was not yet taken.\<close>

theorem session_choice_kept:
  assumes "session_loop loop good" and "session_reach rsv loop good (s, w)"
    and "run_state (send_parts loop ctx_err txt imgs s) w = ((e, s'), w')"
    and "gate_of (ss_vs s) \<noteq> Undecided" and "phase_of (ss_probe s) \<noteq> ProbeReady"
  shows "gate_of (ss_vs s') = gate_of (ss_vs s)"
  using loop_facts(3) [OF assms(1,2,3) loop_facts(1) [OF assms(1,2)]] assms(4,5)
  by (auto simp: turn_taken_def taken_def chat_of_def run_decides_def)

text \<open>The exception is real: a probe that ends after the user named a verify command, or switched the gate
  off, puts its own command in the place of that choice on the next turn, as a soft gate.\<close>

theorem late_probe_wins:
  assumes "session_loop loop good" and "session_reach rsv loop good (s, w)"
    and "phase_of (ss_probe s) = ProbeReady" and "ar_derived (pb_resolution (ss_probe s))" and "ar_disarm (pb_resolution (ss_probe s)) = []"
    and "run_state (send_parts loop ctx_err txt imgs (set_verify_cmd cmd s)) w2 = ((e, s'), w')"
  shows "gate_of (ss_vs s') = GateOn (ar_cmd (pb_resolution (ss_probe s))) True"
proof -
  let ?s = "set_verify_cmd cmd s"
  have ok: "session_ok rsv good s" using loop_facts(1) [OF assms(1,2)] .
  then have "session_ok rsv good ?s" by (simp add: session_ok_def set_verify_cmd_def Let_def)
  with loop_facts(3) [OF assms(1,2,6)]
  have "run_decides (gate_of (ss_vs (fst (take_probe ?s)))) (gate_of (ss_vs s'))" by blast
  moreover have "ar_cmd (pb_resolution (ss_probe s)) \<noteq> []"
    using ok assms(4) derivable_cmd by (auto simp: session_ok_def derived_ok_def)
  then have "gate_of (ss_vs (fst (take_probe ?s))) = GateOn (ar_cmd (pb_resolution (ss_probe s))) True"
    using assms(3,4,5)
    by (auto simp: take_probe_def set_verify_cmd_def phase_of_def Let_def apply_auto_verify_def record_resolution_def gate_of_def split: if_splits)
  ultimately show ?thesis by (simp add: run_decides_def)
qed

section \<open>A session to look at\<close>

definition demo_session :: "resolved_spec \<Rightarrow> string runtime \<Rightarrow> message list \<Rightarrow> string session" where
  "demo_session spec rt history =
     \<lparr> ss_req = no_request, ss_spec = spec, ss_rt = rt, ss_root = ''r'', ss_messages = history,
       ss_vs = new_verify_state (rs_policy spec), ss_cache = Some empty_cache, ss_probe = idle_probe \<rparr>"

lemma demo_reach:
  assumes "rsv no_request = Inr spec" "rt_model rt = Some m" "good m" "history = [] \<or> well_paired history"
  shows "session_reach rsv loop good (demo_session spec rt history, w)"
  using assms by (intro reach_new [where req = no_request and rdir = "''r''" and m = m]) (simp_all add: new_session_def demo_session_def)

lemma text_session: "session_loop text_run (\<lambda>_. True)"
  by (simp add: session_loop_def)

lemma demo_text_reach: "session_reach (\<lambda>_. Inr demo_spec) text_run (\<lambda>_. True) (demo_session demo_spec (demo_runtime demo_model) [], w)"
  by (rule demo_reach [where m = demo_model]) (simp_all add: demo_runtime_def)



theorem session_transcript_paired_witness:
  "let s = session_reset (demo_session demo_spec (demo_runtime demo_model) [user_msg ''TASK: t'', assistant_msg ''answer done'']) in
     ss_messages s = [] \<or> well_paired (ss_messages s)"
proof -
  let ?h = "[user_msg ''TASK: t'', assistant_msg ''answer done'']"
  have "?h = transcript (user_msg ''TASK: t'') [] [[assistant_msg ''answer done'']]" by (simp add: transcript_def)
  then have "well_paired ?h"
    unfolding well_paired_def
    by (intro exI [of _ "user_msg ''TASK: t''"] exI [of _ "[]"] exI [of _ "[[assistant_msg ''answer done'']]"])
       (simp add: preamble_def result_ids_def user_msg_def turn_paired_def turn_def is_assistant_def assistant_msg_def call_ids_def)
  then have "session_reach (\<lambda>_. Inr demo_spec) text_run (\<lambda>_. True) (demo_session demo_spec (demo_runtime demo_model) ?h, ''good'')"
    by (intro demo_reach [where m = demo_model]) (simp_all add: demo_runtime_def)
  from session_transcript_paired [OF text_session reach_step [OF this step_reset]] show ?thesis by (simp add: Let_def)
qed

theorem session_choice_kept_witness:
  "\<exists>e s' w'. run_state (send_parts text_run (\<lambda>w. (False, w)) ''t'' [] (demo_session demo_spec (demo_runtime demo_model) [])) ''good'' = ((e, s'), w')
     \<and> gate_of (ss_vs s') = GateOn ''pass'' False"
proof -
  let ?s = "demo_session demo_spec (demo_runtime demo_model) []"
  obtain e s' w' where r: "run_state (send_parts text_run (\<lambda>w. (False, w)) ''t'' [] ?s) ''good'' = ((e, s'), w')"
    by (metis prod.exhaust)
  have g: "gate_of (ss_vs ?s) = GateOn ''pass'' False" "phase_of (ss_probe ?s) = NoProbe"
    by (simp_all add: demo_session_def gate_of_def new_verify_state_def demo_spec_def base_policy_def phase_of_def idle_probe_def)
  have "gate_of (ss_vs s') = gate_of (ss_vs ?s)"
    using session_choice_kept [OF text_session demo_text_reach r] g by simp
  then have "gate_of (ss_vs s') = GateOn ''pass'' False" using g(1) by simp
  with r show ?thesis by (intro exI conjI)
qed

text \<open>A Go project whose probe ends after the user has named another command.\<close>

definition demo_go_runtime :: "string runtime" where
  "demo_go_runtime =
     (demo_runtime demo_model)\<lparr>rt_verify_sandbox := Some (demo_files\<lparr>
        fo_read := (\<lambda>p w. (if p = ''go.mod'' then Inr ''module m'' else Inl (NotExist []), w)),
        fo_exec := (\<lambda>c w. (Inr \<lparr> exit_code = 0, stdout = [], stderr = [], duration = 0, timed_out = False \<rparr>, w))\<rparr>)\<rparr>"

definition auto_spec :: resolved_spec where
  "auto_spec = demo_spec\<lparr>rs_policy := (rs_policy demo_spec)\<lparr>pv_verify_cmd := [], pv_auto_verify := True\<rparr>\<rparr>"

lemma demo_go_probe:
  "\<exists>r. run_state (probe_auto_verify (verify_sandbox demo_go_runtime) ''r'') w = (r, w)
     \<and> ar_cmd r = ''go build ./... && go test ./...'' \<and> ar_derived r \<and> ar_disarm r = []"
proof -
  obtain F where F: "verify_sandbox demo_go_runtime = Some F" by (simp add: verify_sandbox_def demo_go_runtime_def)
  have m: "run_state (marker_exists F name) w = (name = ''go.mod'', w)" for name w
    using F by (auto simp: verify_sandbox_def demo_go_runtime_def demo_files_def marker_exists_def call_def)
  have s: "\<exists>out. run_state (run_tool F cmd n) w = (Inr out, w) \<and> \<not> is_run_failure out" for cmd n w
    using F by (auto simp: verify_sandbox_def demo_go_runtime_def demo_files_def run_tool_def call_def)
  have c: "run_state (has_command F name) w = (True, w)" for name w
    using s [of "''command -v '' @ name" env_observe_timeout w] by (auto simp: has_command_def succeeds_def)
  have d: "run_state (derive_verify_cmd (Some F) ''r'') w = ((''go build ./... && go test ./...'', ''go.mod''), w)"
    by (simp add: derive_verify_cmd_def has_python_marker_def detect_go_def m c)
  show ?thesis
    using s [of "''go build ./... && go test ./...''" auto_verify_baseline_timeout w]
    by (auto simp: F probe_auto_verify_def d disarm_note_def)
qed

theorem late_probe_wins_witness:
  "\<exists>(s :: string session) w e s' w'. gate_of (ss_vs (set_verify_cmd ''make lint'' s)) = GateOn ''make lint'' False
     \<and> run_state (send_parts text_run (\<lambda>w. (False, w)) ''t'' [] (set_verify_cmd ''make lint'' s)) w = ((e, s'), w')
     \<and> gate_of (ss_vs s') = GateOn ''go build ./... && go test ./...'' True"
proof -
  let ?s0 = "demo_session auto_spec demo_go_runtime []" and ?rsv = "\<lambda>_. Inr auto_spec" and ?good = "\<lambda>_. True"
  have r0: "session_reach ?rsv text_run ?good (?s0, ''good'')"
    by (rule demo_reach [where m = demo_model]) (simp_all add: demo_go_runtime_def demo_runtime_def)
  have p0: "ss_probe (prewarm ?s0) = idle_probe\<lparr>pb_started := True, pb_target := (verify_sandbox demo_go_runtime, ''r'')\<rparr>"
    by (simp add: prewarm_def demo_session_def auto_spec_def demo_spec_def base_policy_def new_verify_state_def idle_probe_def)
  obtain r where r: "run_state (probe_auto_verify (verify_sandbox demo_go_runtime) ''r'') ''good'' = (r, ''good'')"
      "ar_cmd r = ''go build ./... && go test ./...''" "ar_derived r" "ar_disarm r = []" using demo_go_probe by blast
  let ?s1 = "prewarm ?s0"
  let ?s2 = "?s1\<lparr>ss_probe := (ss_probe ?s1)\<lparr>pb_resolution := r, pb_done := True\<rparr>\<rparr>"
  have "run_state (probe_ends ?s1) ''good'' = (?s2, ''good'')" by (simp add: probe_ends_def p0 r(1))
  moreover have "pb_started (ss_probe ?s1)" "\<not> pb_done (ss_probe ?s1)" by (simp_all add: p0 idle_probe_def)
  ultimately have r2: "session_reach ?rsv text_run ?good (?s2, ''good'')"
    using reach_step [OF reach_step [OF r0 step_prewarm] step_probe] by blast
  obtain e s' w' where send: "run_state (send_parts text_run (\<lambda>w. (False, w)) ''t'' [] (set_verify_cmd ''make lint'' ?s2)) ''good'' = ((e, s'), w')"
    by (metis prod.exhaust)
  have "phase_of (ss_probe ?s2) = ProbeReady" "ar_derived (pb_resolution (ss_probe ?s2))" "ar_disarm (pb_resolution (ss_probe ?s2)) = []"
    by (simp_all add: p0 idle_probe_def phase_of_def r)
  from late_probe_wins [OF text_session r2 this send] have g: "gate_of (ss_vs s') = GateOn ''go build ./... && go test ./...'' True"
    by (simp add: r(2))
  have u: "gate_of (ss_vs (set_verify_cmd ''make lint'' ?s2)) = GateOn ''make lint'' False"
    by (simp add: gate_of_def set_verify_cmd_def record_resolution_def Let_def)
  show ?thesis
    by (rule exI [of _ ?s2], rule exI [of _ "''good''"], rule exI [of _ e], rule exI [of _ s'], rule exI [of _ w'])
       (intro conjI u send g)
qed

end
