(* ===== verification/ApprovalPolicy.thy ===== *)
theory ApprovalPolicy
  imports Trust
begin

text \<open>
  The approval policies of \<open>profile/profile.go\<close>: the closed registry
  (\<open>PolicyByName\<close>), the decision over a parsed shell command (\<open>Allows\<close>) and the one
  over the argument vector of the search tool (\<open>AllowsExec\<close>). The parser is the package
  \<open>mvdan.cc/sh/syntax\<close>: the model keeps the part of its syntax tree the code looks at,
  and takes the parse function as an argument.
\<close>

section \<open>The registry\<close>

record approval_policy =
  pol_name :: string
  pol_version :: string
  pol_allowlist :: "string list"

definition default_headless_policy :: string where
  "default_headless_policy = ''reviewed-local-readonly-v3''"

definition approval_policies :: "approval_policy list" where
  "approval_policies =
     [\<lparr> pol_name = ''reviewed-local-readonly-v1'', pol_version = ''1'',
        pol_allowlist = [''go test'', ''go build'', ''go vet'', ''git status'', ''git diff'', ''ls'', ''cat''] \<rparr>,
      \<lparr> pol_name = ''reviewed-local-readonly-v2'', pol_version = ''2'',
        pol_allowlist = [''go test [safe args]'', ''go build [safe args]'', ''go vet [safe args]'',
          ''git status [safe args]'', ''git diff [safe args]''] \<rparr>,
      \<lparr> pol_name = default_headless_policy, pol_version = ''3'',
        pol_allowlist = [''go test [safe args]'', ''go build [safe args]'', ''go vet [safe args]'',
          ''git status [safe args]'', ''git diff [safe args]'', ''rg [search-tool args]''] \<rparr>]"

definition policy_by_name :: "string \<Rightarrow> string + approval_policy" where
  "policy_by_name name =
     (case find (\<lambda>p. pol_name p = name) approval_policies of
        Some p \<Rightarrow> Inr p
      | None \<Rightarrow> Inl (''unknown approval policy '' @ go_quote name))"

section \<open>Shell commands\<close>

text \<open>Of a word part the code tells literals and quotes from everything else (expansions,
  substitutions, extended globs).\<close>

datatype word_part =
    Lit string
  | SglQuoted bool string
  | DblQuoted bool "word_part list"
  | OtherPart

datatype shell_cmd = CallExpr (assigns: nat) (call_args: "word_part list list") | OtherCmd

record stmt =
  st_cmd :: shell_cmd
  st_semicolon :: bool
  st_negated :: bool
  st_background :: bool
  st_coprocess :: bool
  st_redirs :: nat
  st_comments :: nat

record shell_file =
  sf_stmts :: "stmt list"
  sf_last :: nat

definition glob_chars :: string where "glob_chars = ''*?[~{}''"

fun literal_parts :: "bool \<Rightarrow> word_part list \<Rightarrow> string option"
  and literal_part :: "bool \<Rightarrow> word_part \<Rightarrow> string option"
where
  "literal_parts quoted [] = Some []"
| "literal_parts quoted (p # ps) =
     (case literal_part quoted p of
        None \<Rightarrow> None
      | Some s \<Rightarrow> map_option (\<lambda>t. s @ t) (literal_parts quoted ps))"
| "literal_part quoted (Lit v) =
     (if \<not> quoted \<and> list_ex (\<lambda>c. c \<in> set glob_chars) v then None else Some v)"
| "literal_part quoted (SglQuoted dollar v) = (if dollar then None else Some v)"
| "literal_part quoted (DblQuoted dollar ps) = (if dollar then None else literal_parts True ps)"
| "literal_part quoted OtherPart = None"

definition literal_word :: "word_part list \<Rightarrow> string option" where
  "literal_word w = literal_parts False w"

fun literal_words :: "word_part list list \<Rightarrow> string list option" where
  "literal_words [] = Some []"
| "literal_words (w # ws) =
     (case literal_word w of
        None \<Rightarrow> None
      | Some v \<Rightarrow> map_option (\<lambda>vs. v # vs) (literal_words ws))"

definition parse_simple_command ::
  "(string \<Rightarrow> shell_file option) \<Rightarrow> string \<Rightarrow> string list option" where
  "parse_simple_command parse src =
     (case parse src of
        None \<Rightarrow> None
      | Some f \<Rightarrow>
          if length (sf_stmts f) \<noteq> 1 \<or> sf_last f \<noteq> 0 then None
          else let s = hd (sf_stmts f) in
            (case st_cmd s of
               OtherCmd \<Rightarrow> None
             | CallExpr as ws \<Rightarrow>
                 if st_semicolon s \<or> st_negated s \<or> st_background s \<or> st_coprocess s
                   \<or> st_redirs s \<noteq> 0 \<or> st_comments s \<noteq> 0 \<or> as \<noteq> 0 then None
                 else (case literal_words ws of
                         None \<Rightarrow> None
                       | Some argv \<Rightarrow> if argv \<noteq> [] then Some argv else None)))"

section \<open>The decision procedures\<close>

definition workspace_path :: "string \<Rightarrow> bool" where
  "workspace_path arg \<longleftrightarrow> arg \<noteq> [] \<and> \<not> is_abs arg \<and> \<not> escapes (path_clean arg)"

definition alnum :: "char \<Rightarrow> bool" where
  "alnum c \<longleftrightarrow> is_digit c \<or> (97 \<le> (of_char (lower_char c) :: nat) \<and> (of_char (lower_char c) :: nat) \<le> 122)"

text \<open>The character class of \<open>-run=\<close> in \<open>safeGoFlag\<close>.\<close>

definition run_pattern_char :: "char \<Rightarrow> bool" where
  "run_pattern_char c \<longleftrightarrow> alnum c \<or> c \<in> set ''_./^$|*+?()[]{}-''"

definition safe_go_flag :: "string \<Rightarrow> bool" where
  "safe_go_flag arg \<longleftrightarrow>
     arg \<in> {''-race'', ''-short'', ''-v'', ''-json''}
     \<or> (has_prefix arg ''-count='' \<and> (let v = drop 7 arg in v \<noteq> [] \<and> list_all is_digit v))
     \<or> (has_prefix arg ''-run='' \<and> (let v = drop 5 arg in v \<noteq> [] \<and> list_all run_pattern_char v))"

definition go_args_ok :: "string list \<Rightarrow> bool" where
  "go_args_ok args =
     list_all (\<lambda>arg. if has_prefix arg ''-'' then safe_go_flag arg else workspace_path arg) args"

definition git_status_ok :: "string list \<Rightarrow> bool" where
  "git_status_ok args = list_all (\<lambda>arg. arg \<in> {''--short'', ''--porcelain'', ''--branch''}) args"

text \<open>The loop of \<open>git diff\<close>: a double dash switches from options to paths, and is
  skipped wherever it stands.\<close>

fun git_diff_ok :: "bool \<Rightarrow> string list \<Rightarrow> bool" where
  "git_diff_ok paths [] = True"
| "git_diff_ok paths (arg # args) =
     (if arg = ''--'' then git_diff_ok True args
      else if paths then workspace_path arg \<and> git_diff_ok paths args
      else arg \<in> {''--stat'', ''--name-only'', ''--name-status'', ''--cached'', ''--staged''}
        \<and> git_diff_ok paths args)"

definition allows :: "(string \<Rightarrow> shell_file option) \<Rightarrow> approval_policy \<Rightarrow> string \<Rightarrow> bool" where
  "allows parse p src =
     (if \<not> ((pol_name p = ''reviewed-local-readonly-v2'' \<and> pol_version p = ''2'')
          \<or> (pol_name p = default_headless_policy \<and> pol_version p = ''3'')) then False
      else (case parse_simple_command parse src of
          None \<Rightarrow> False
        | Some argv \<Rightarrow>
            if length argv < 2 then False
            else if argv ! 0 = ''go'' then
              (argv ! 1 = ''test'' \<or> argv ! 1 = ''build'' \<or> argv ! 1 = ''vet'') \<and> go_args_ok (drop 2 argv)
            else if argv ! 0 = ''git'' then
              (if argv ! 1 = ''status'' then git_status_ok (drop 2 argv)
               else if argv ! 1 = ''diff'' then git_diff_ok False (drop 2 argv)
               else False)
            else False))"

definition rg_want :: "string list" where
  "rg_want = [''--line-number'', ''--no-heading'', ''--color=never'', ''--smart-case'',
     ''--max-columns=250'', ''--max-columns-preview'', ''-e'']"

definition allows_exec :: "approval_policy \<Rightarrow> string \<Rightarrow> string list \<Rightarrow> bool" where
  "allows_exec p path args =
     (if pol_name p \<noteq> default_headless_policy \<or> pol_version p \<noteq> ''3'' \<or> path \<noteq> ''rg'' then False
      else if length args < length rg_want + 1 then False
      else if take (length rg_want) args \<noteq> rg_want then False
      else let remaining = drop (length rg_want + 1) args in
        if remaining = [] then True
        else if remaining ! 0 \<noteq> ''--'' \<or> length remaining = 1 then False
        else list_all (\<lambda>q. \<not> has_prefix q ''-'' \<and> workspace_path q) (drop 1 remaining))"

section \<open>What a decision guarantees\<close>

text \<open>A workspace path stays below the directory it is joined to.\<close>

lemma workspace_path_below:
  "workspace_path q \<Longrightarrow> is_abs r \<Longrightarrow> path_clean r = r \<Longrightarrow> r \<noteq> [slash] \<Longrightarrow> under r (path_join r q)"
  using path_join_below [of r q] by (auto simp: workspace_path_def under_def)

text \<open>The unquoted text of a word that passes has no expansion character.\<close>

fun part_plain :: "word_part \<Rightarrow> bool" where
  "part_plain (Lit v) \<longleftrightarrow> set v \<inter> set glob_chars = {}"
| "part_plain (SglQuoted d v) \<longleftrightarrow> \<not> d"
| "part_plain (DblQuoted d ps) \<longleftrightarrow> \<not> d"
| "part_plain OtherPart \<longleftrightarrow> False"

lemma literal_part_plain: "literal_part False p = Some v \<Longrightarrow> part_plain p"
  by (cases p) (auto simp: list_ex_iff split: if_splits)

lemma literal_parts_plain: "literal_parts False ps = Some v \<Longrightarrow> p \<in> set ps \<Longrightarrow> part_plain p"
  by (induction ps arbitrary: v) (auto dest: literal_part_plain split: option.splits)

lemma literal_words_plain: "literal_words ws = Some vs \<Longrightarrow> w \<in> set ws \<Longrightarrow> p \<in> set w \<Longrightarrow> part_plain p"
  by (induction ws arbitrary: vs)
     (auto simp: literal_word_def dest: literal_parts_plain split: option.splits)

definition simple_stmt :: "stmt \<Rightarrow> bool" where
  "simple_stmt s \<longleftrightarrow>
     (\<exists>ws. st_cmd s = CallExpr 0 ws \<and> (\<forall>w \<in> set ws. \<forall>p \<in> set w. part_plain p))
     \<and> \<not> st_semicolon s \<and> \<not> st_negated s \<and> \<not> st_background s \<and> \<not> st_coprocess s
     \<and> st_redirs s = 0 \<and> st_comments s = 0"

lemma parse_simple_command_Some:
  "parse_simple_command parse src = Some argv \<Longrightarrow>
     argv \<noteq> [] \<and> (\<exists>f s. parse src = Some f \<and> sf_stmts f = [s] \<and> sf_last f = 0 \<and> simple_stmt s)"
  by (auto simp: parse_simple_command_def Let_def simple_stmt_def length_Suc_conv
      split: option.splits shell_cmd.splits if_splits dest: literal_words_plain)

lemma git_diff_ok_args:
  "git_diff_ok paths args \<Longrightarrow> a \<in> set args \<Longrightarrow> has_prefix a ''-'' \<or> workspace_path a"
  by (induction paths args rule: git_diff_ok.induct) (auto split: if_splits)

lemma go_args_ok_args: "go_args_ok args \<Longrightarrow> a \<in> set args \<Longrightarrow> has_prefix a ''-'' \<or> workspace_path a"
  unfolding go_args_ok_def list_all_iff by metis

lemma git_status_ok_args: "git_status_ok args \<Longrightarrow> a \<in> set args \<Longrightarrow> has_prefix a ''-'' \<or> workspace_path a"
proof -
  assume "git_status_ok args" "a \<in> set args"
  then have "a = ''--short'' \<or> a = ''--porcelain'' \<or> a = ''--branch''"
    unfolding git_status_ok_def list_all_iff by blast
  then show ?thesis by (elim disjE) simp_all
qed

lemma allows_argv:
  assumes "allows parse p src"
  obtains argv where "parse_simple_command parse src = Some argv"
    "argv ! 0 = ''go'' \<and> argv ! 1 \<in> {''test'', ''build'', ''vet''} \<or> argv ! 0 = ''git'' \<and> argv ! 1 \<in> {''status'', ''diff''}"
    "\<forall>a \<in> set (drop 2 argv). has_prefix a ''-'' \<or> workspace_path a"
proof -
  from assms obtain argv where argv: "parse_simple_command parse src = Some argv"
    by (auto simp: allows_def split: if_splits option.splits)
  show ?thesis
  proof (rule that [OF argv])
    show "argv ! 0 = ''go'' \<and> argv ! 1 \<in> {''test'', ''build'', ''vet''} \<or> argv ! 0 = ''git'' \<and> argv ! 1 \<in> {''status'', ''diff''}"
      using assms argv by (auto simp: allows_def split: if_splits)
    show "\<forall>a \<in> set (drop 2 argv). has_prefix a ''-'' \<or> workspace_path a"
      using assms argv
      by (auto simp: allows_def split: if_splits dest: git_diff_ok_args go_args_ok_args git_status_ok_args)
  qed
qed

section \<open>Properties\<close>


definition go_test_parse :: "string \<Rightarrow> shell_file option" where
  "go_test_parse src =
     Some \<lparr> sf_stmts = [\<lparr> st_cmd = CallExpr 0 [[Lit ''go''], [Lit ''test''], [Lit ''-run='', SglQuoted False ''Foo*''],
                                          [Lit ''./agent'']],
                        st_semicolon = False, st_negated = False, st_background = False,
                        st_coprocess = False, st_redirs = 0, st_comments = 0 \<rparr>],
            sf_last = 0 \<rparr>"


text \<open>The typed channel of the policy authorizes exactly the argument vectors the search
  tool builds: the fixed flags, one pattern, and then either nothing or a double dash and a
  non-empty list of paths, each inside the workspace and none looking like an option.\<close>

theorem allows_exec_iff:
  "allows_exec p path args \<longleftrightarrow>
     pol_name p = default_headless_policy \<and> pol_version p = ''3'' \<and> path = ''rg'' \<and>
     (\<exists>pat. args = rg_want @ [pat] \<or>
        (\<exists>paths. args = rg_want @ [pat, ''--''] @ paths \<and> paths \<noteq> []
           \<and> (\<forall>q \<in> set paths. \<not> has_prefix q ''-'' \<and> workspace_path q)))"
  (is "?l \<longleftrightarrow> ?p \<and> ?ver \<and> ?path \<and> (\<exists>pat. ?r pat)")
proof
  assume l: ?l
  then have hd: ?p ?ver ?path and len: "length rg_want + 1 \<le> length args"
      and pre: "take (length rg_want) args = rg_want"
    by (auto simp: allows_exec_def split: if_splits)
  define rest where "rest = drop (length rg_want) args"
  have args: "args = rg_want @ rest" using pre by (metis append_take_drop_id rest_def)
  with len obtain pat rem where rest: "rest = pat # rem" by (cases rest) auto
  have "rem = [] \<or> (rem ! 0 = ''--'' \<and> length rem \<noteq> 1 \<and> list_all (\<lambda>q. \<not> has_prefix q ''-'' \<and> workspace_path q) (drop 1 rem))"
    using l by (auto simp: allows_exec_def args rest Let_def split: if_splits)
  then have "rem = [] \<or> (\<exists>ps. rem = ''--'' # ps \<and> ps \<noteq> [] \<and> (\<forall>q \<in> set ps. \<not> has_prefix q ''-'' \<and> workspace_path q))"
    by (cases rem) (auto simp: list_all_iff)
  then have "?r pat" using args rest by auto
  with hd show "?p \<and> ?ver \<and> ?path \<and> (\<exists>pat. ?r pat)" by blast
next
  assume r: "?p \<and> ?ver \<and> ?path \<and> (\<exists>pat. ?r pat)"
  then obtain pat where hd: ?p ?ver ?path and "?r pat" by blast
  then consider "args = rg_want @ [pat]" |
     q ps where "args = rg_want @ [pat, ''--''] @ q # ps" "\<forall>x \<in> set (q # ps). \<not> has_prefix x ''-'' \<and> workspace_path x"
    by (metis list.exhaust)
  then show ?l
    using hd by cases (simp_all add: allows_exec_def list_all_iff)
qed

theorem allows_exec_iff_witness:
  "allows_exec (approval_policies ! 2) ''rg'' (rg_want @ [''needle'', ''--'', ''agent''])"
proof -
  have p: "pol_name (approval_policies ! 2) = default_headless_policy" "pol_version (approval_policies ! 2) = ''3''"
    by code_simp+
  have q: "\<forall>q \<in> set [''agent'']. \<not> has_prefix q ''-'' \<and> workspace_path q" by code_simp
  have "rg_want @ [''needle'', ''--'', ''agent''] = rg_want @ [''needle'', ''--''] @ [''agent'']" by simp
  with p q show ?thesis unfolding allows_exec_iff by blast
qed

end
