(* ===== verification/ToolFacts.thy ===== *)
theory ToolFacts
  imports EditTools ApprovalPolicy
begin

text \<open>
  What the file tools promise: an edit changes one place and nothing else, every repair of a badly
  quoted edit ends in such an edit, arguments survive the one-line protocol, a ranged read can be
  paged without gap or overlap, and a search is a command the headless policy authorizes.
\<close>

section \<open>Edits\<close>

lemma count_once: "str_index src anchor = Some i \<Longrightarrow> anchor \<noteq> [] \<Longrightarrow> \<not> 1 < str_count src anchor \<Longrightarrow> str_count src anchor = 1"
  by (subst (asm) str_count.simps, subst str_count.simps) simp

lemma refusal_None:
  "edit_refusal mode anchor new = None \<Longrightarrow>
     mode \<in> set edit_modes \<and> anchor \<noteq> [] \<and> (mode = ''replace'' \<longrightarrow> anchor \<noteq> new) \<and> length new \<le> write_byte_cap
     \<and> looks_like_edit_envelope new = []"
  by (auto simp: edit_refusal_def split: if_splits)

definition spliced :: "string \<Rightarrow> string \<Rightarrow> string \<Rightarrow> string \<Rightarrow> string \<Rightarrow> string" where
  "spliced mode pre anchor new post =
     (if mode = ''insert_before'' then pre @ new @ anchor @ post
      else if mode = ''insert_after'' then pre @ anchor @ new @ post else pre @ new @ post)"

lemma edited_spliced:
  assumes "str_index src anchor = Some i"
  shows "src = take i src @ anchor @ drop (i + length anchor) src"
    "edited_text mode src anchor new i = spliced mode (take i src) anchor new (drop (i + length anchor) src)"
proof -
  show s: "src = take i src @ anchor @ drop (i + length anchor) src" using str_index_Some [OF assms] by blast
  have l: "i + length anchor \<le> length src" using str_index_Some [OF assms] by blast
  then have "drop i src = anchor @ drop (i + length anchor) src"
    by (metis append_eq_conv_conj length_take min.absorb2 add_leD1 s)
  moreover have "take (i + length anchor) src = take i src @ anchor"
    by (metis (no_types) append.assoc append_eq_conv_conj length_append length_take min.absorb2 add_leD1 l s)
  ultimately show "edited_text mode src anchor new i = spliced mode (take i src) anchor new (drop (i + length anchor) src)"
    by (simp add: edited_text_def spliced_def)
qed

definition edit_done :: "'w file_ops \<Rightarrow> string \<Rightarrow> string \<Rightarrow> string \<Rightarrow> string \<Rightarrow> 'w \<Rightarrow> 'w \<Rightarrow> bool" where
  "edit_done F path anchor new mode w w' \<longleftrightarrow>
     (\<exists>pre post w1. run_state (read_bounded F path) w = (Inr (pre @ anchor @ post, False), w1)
        \<and> anchor \<noteq> [] \<and> str_count (pre @ anchor @ post) anchor = 1
        \<and> fo_write F path (spliced mode pre anchor new post) w1 = (None, w'))"

definition edit_left :: "'w file_ops \<Rightarrow> string \<Rightarrow> 'w \<Rightarrow> 'w \<Rightarrow> bool" where
  "edit_left F path w w' \<longleftrightarrow>
     w' = w \<or> (\<exists>r. run_state (read_bounded F path) w = (r, w'))
     \<or> (\<exists>r w1 body e. run_state (read_bounded F path) w = (r, w1) \<and> fo_write F path body w1 = (Some e, w'))"

lemma wp_edit:
  "wp (edit_file_op F path anchor new mode)
     (\<lambda>r w'. case r of Inl e \<Rightarrow> edit_left F path w w' | Inr out \<Rightarrow> edit_done F path anchor new mode w w') w"
proof -
  define md where "md = (if mode = [] then ''replace'' else mode)"
  have sp: "spliced md a b c d = spliced mode a b c d" for a b c d by (simp add: md_def spliced_def)
  show ?thesis
  proof (cases "edit_refusal md anchor new")
    case (Some e)
    then show ?thesis by (simp add: edit_file_op_def md_def Let_def wp_ret edit_left_def)
  next
    case None
    then have ne: "anchor \<noteq> []" using refusal_None by blast
    show ?thesis unfolding edit_file_op_def Let_def md_def [symmetric] None option.case
    proof (rule wp_bindI, rule wpI, goal_cases)
      case (1 r w1)
      show ?case
      proof (cases r)
        case (Inl e)
        then show ?thesis using 1 by (auto simp: wp_ret edit_left_def)
      next
        case (Inr b)
        obtain src clipped where b: "b = (src, clipped)" by fastforce
        have left: "wp (ret (Inl x)) (\<lambda>r w'. case r of Inl e \<Rightarrow> edit_left F path w w' | Inr out \<Rightarrow> edit_done F path anchor new mode w w') w1" for x
          using 1 by (auto simp: wp_ret edit_left_def)
        show ?thesis
        proof (cases "clipped \<or> str_index src anchor = None \<or> 1 < str_count src anchor")
          case True
          then show ?thesis unfolding Inr b sum.case prod.case by (auto simp: left split: option.split)
        next
          case False
          then obtain i where i: "str_index src anchor = Some i" "\<not> clipped" "\<not> 1 < str_count src anchor" by auto
          obtain e w' where e: "fo_write F path (edited_text md src anchor new i) w1 = (e, w')" by fastforce
          have src: "src = take i src @ anchor @ drop (i + length anchor) src"
              "edited_text md src anchor new i = spliced mode (take i src) anchor new (drop (i + length anchor) src)"
            using edited_spliced [OF i(1)] sp by metis+
          have wrote: "edit_done F path anchor new mode w w'" if "e = None"
            unfolding edit_done_def
            by (rule exI [of _ "take i src"], rule exI [of _ "drop (i + length anchor) src"], rule exI [of _ w1])
               (use 1 Inr b i(2) ne count_once [OF i(1) ne i(3)] e that src in auto)
          have failed: "edit_left F path w w'" if "e \<noteq> None" using 1 e that unfolding edit_left_def by blast
          show ?thesis using i wrote failed unfolding Inr b sum.case prod.case
            by (auto simp: put_file_def wp_simps e split: option.split)
        qed
      qed
    qed
  qed
qed

section \<open>The repairs of a badly quoted edit\<close>

lemma edit_left_refl: "edit_left F path w w"
  by (simp add: edit_left_def)

text \<open>A text edit is a chain of attempts of which at most the final one writes.\<close>

definition attempts :: "'w file_ops \<Rightarrow> string \<Rightarrow> 'w \<Rightarrow> 'w \<Rightarrow> bool" where
  "attempts F path = (edit_left F path)\<^sup>*\<^sup>*"

definition text_edit_end :: "'w file_ops \<Rightarrow> string \<Rightarrow> 'w \<Rightarrow> string + string \<Rightarrow> 'w \<Rightarrow> bool" where
  "text_edit_end F path w r w' \<longleftrightarrow>
     (case r of
        Inl e \<Rightarrow> attempts F path w w'
      | Inr out \<Rightarrow> \<exists>anchor new mode w1. attempts F path w w1 \<and> edit_done F path anchor new mode w1 w')"

lemma attempts_step: "attempts F path w w1 \<Longrightarrow> edit_left F path w1 w2 \<Longrightarrow> attempts F path w w2"
  unfolding attempts_def by (rule rtranclp.rtrancl_into_rtrancl)

lemma attempts_refl: "attempts F path w w"
  by (simp add: attempts_def)

lemma wp_edit_end:
  assumes "attempts F path w w1" "\<And>out w2. text_edit_end F path w (Inr out) w2 \<Longrightarrow> Q (Inr out) w2"
    "\<And>e w2. attempts F path w w2 \<Longrightarrow> Q (Inl e) w2"
  shows "wp (edit_file_op F path anchor new mode) Q w1"
proof (rule wp_use [OF wp_edit], goal_cases)
  case (1 r w2)
  show ?case
  proof (cases r)
    case (Inl e)
    then have "attempts F path w w2" using 1 attempts_step [OF assms(1)] by simp
    then show ?thesis using assms(3) Inl by simp
  next
    case (Inr out)
    then have "edit_done F path anchor new mode w1 w2" using 1 by simp
    then have "text_edit_end F path w (Inr out) w2" using assms(1) unfolding text_edit_end_def sum.case by blast
    then show ?thesis using assms(2) Inr by simp
  qed
qed

lemma wp_stripped:
  assumes "attempts F path w w1"
  shows "wp (stripped_retry F path anchor new mode original) (text_edit_end F path w) w1"
proof (cases "strip_edit_wrappers anchor new")
  case None
  then show ?thesis using assms by (simp add: stripped_retry_def wp_ret text_edit_end_def)
next
  case (Some an)
  obtain a n where an: "an = (a, n)" by fastforce
  show ?thesis unfolding stripped_retry_def Some an option.case prod.case
    by (rule wp_bindI, rule wp_edit_end [OF assms]) (auto simp: wp_ret text_edit_end_def)
qed

lemma wp_retry:
  assumes "attempts F path w w1"
  shows "wp (edit_file_op F path a n mode \<bind>
      (\<lambda>r. case r of Inr out \<Rightarrow> ret (Inr out)
            | Inl e \<Rightarrow> if \<not> old_text_not_found e then ret (Inl (stop e)) else stripped_retry F path a n mode e))
    (text_edit_end F path w) w1"
  by (rule wp_bindI, rule wp_edit_end [OF assms])
     (auto simp: wp_ret text_edit_end_def [of F path w "Inl _"] intro: wp_stripped)

lemma wp_quotes:
  assumes "attempts F path w w1"
  shows "wp (quotes_retry F path old_field new_field mode original) (text_edit_end F path w) w1"
proof -
  have stay: "wp (ret (Inl original)) (text_edit_end F path w) w1"
    using assms by (simp add: wp_ret text_edit_end_def)
  show ?thesis
    unfolding quotes_retry_def
    using stay wp_retry [OF assms, where stop="\<lambda>_. original"] by (auto split: sum.split)
qed

lemma wp_text_edit:
  "wp (tool_edit_file F arg) (text_edit_end F (fst (split_arg (trim_space arg))) w) w"
proof -
  obtain path rest where p: "split_arg (trim_space arg) = (path, rest)" by fastforce
  have stay: "wp (ret (Inl e)) (text_edit_end F path w) w" for e
    by (simp add: wp_ret text_edit_end_def attempts_refl)
  show ?thesis
    unfolding tool_edit_file_def p prod.case fst_conv
    using stay wp_quotes [OF attempts_refl] wp_retry [OF attempts_refl, where stop="\<lambda>e. e"]
    by (auto split: option.split sum.split prod.split)
qed

section \<open>Arguments on one line\<close>

definition escape_char :: "char \<Rightarrow> string" where
  "escape_char c =
     (if c = CHR 0x0A then [backslash, CHR ''n''] else if c = CHR 0x09 then [backslash, CHR ''t'']
      else if c = backslash then [backslash, backslash] else [c])"

definition escape_line :: "string \<Rightarrow> string" where
  "escape_line s = concat (map escape_char s)"

lemma escape_line_Cons [simp]: "escape_line (c # s) = escape_char c @ escape_line s" "escape_line [] = []"
  by (simp_all add: escape_line_def)

lemma unescape_escape: "unescape_with q (escape_line s) = Inr s"
  by (induction s) (auto simp: escape_char_def backslash_def)

lemma escape_no_newline: "CHR 0x0A \<notin> set (escape_line s)"
  by (induction s) (auto simp: escape_char_def backslash_def)

lemma split_arg_path:
  assumes "\<forall>c \<in> set path. \<not> blank c"
  shows "split_arg (path @ '' '' @ body) = (path, Some (trim_left_by blank body))"
proof -
  have "takeWhile (\<lambda>c. \<not> blank c) (path @ CHR '' '' # body) = path"
    using assms by (subst takeWhile_append2) (simp_all add: blank_def)
  then show ?thesis by (simp add: split_arg_def)
qed

lemma escape_starts: "content = [] \<or> hd content \<noteq> CHR '' '' \<Longrightarrow> trim_left_by blank (escape_line content) = escape_line content"
  by (cases content) (auto simp: trim_left_by_def escape_char_def blank_def backslash_def)

section \<open>Numbers and ranges\<close>

lemma digits_value_itoa: "0 \<le> i \<Longrightarrow> atoi (itoa i) = (if i < 2 ^ 63 then Some i else None)"
proof -
  assume i: "0 \<le> i"
  then have t: "itoa i = nat_digits (nat i)" by (simp add: itoa_def)
  have d: "list_all is_digit (nat_digits (nat i))" by (auto simp: list_all_iff nat_digits_digit)
  have h: "is_digit (hd (nat_digits (nat i)))" using nat_digits_digit by (metis list.set_sel(1) nat_digits_ne)
  then have "hd (nat_digits (nat i)) \<noteq> CHR ''-''" "hd (nat_digits (nat i)) \<noteq> CHR ''+''"
    by (auto simp: is_digit_def)
  then show ?thesis using i d by (simp add: atoi_def t Let_def digits_value_nat_digits) linarith
qed

lemma last_colon: "CHR '':'' \<notin> set w \<Longrightarrow> str_last_index (p @ CHR '':'' # w) (CHR '':'') = Some (length p)"
  by (simp add: str_last_index_def takeWhile_append2 takeWhile_append)

lemma itoa_nat_chars: "0 \<le> i \<Longrightarrow> c \<in> set (itoa i) \<Longrightarrow> is_digit c"
  by (simp add: itoa_def nat_digits_digit)

lemma cut_dash:
  assumes "CHR ''-'' \<notin> set a"
  shows "str_cut (a @ CHR ''-'' # b) ''-'' = (a, b, True)"
proof -
  have "str_index (a @ CHR ''-'' # b) ''-'' = Some (length a)"
    using assms by (induction a) auto
  then show ?thesis by (simp add: str_cut_def)
qed

lemma range_arg:
  assumes "path \<noteq> []" "\<not> is_space (hd path)" "1 \<le> lo" "lo < 2 ^ 63" "0 \<le> hi" "hi < 2 ^ 63"
  shows "parse_read_arg (path @ '':'' @ itoa lo @ ''-'' @ itoa hi) = (path, lo, hi, True, [])"
proof -
  let ?a = "path @ '':'' @ itoa lo @ ''-'' @ itoa hi"
  have dg: "is_digit c" if "c \<in> set (itoa lo) \<union> set (itoa hi)" for c
    using that assms itoa_nat_chars [of lo] itoa_nat_chars [of hi] by auto
  have hi: "itoa hi \<noteq> []" "itoa lo \<noteq> []" using assms by (simp_all add: itoa_def)
  then have "last ?a = last (itoa hi)" by simp
  then have "is_digit (last ?a)" using dg [of "last (itoa hi)"] hi by simp
  then have l: "\<not> is_space (last ?a)" by (auto simp: is_digit_def is_space_def)
  have tr: "trim_space ?a = ?a" by (rule trim_space_id) (use assms l in simp_all)
  have c: "CHR '':'' \<notin> set (itoa lo @ ''-'' @ itoa hi)" "CHR ''-'' \<notin> set (itoa lo)"
    using dg [of "CHR '':''"] dg [of "CHR ''-''"] by (auto simp: is_digit_def)
  have ix: "str_last_index ?a (CHR '':'') = Some (length path)" using last_colon [OF c(1), of path] by simp
  have cut: "str_cut (itoa lo @ ''-'' @ itoa hi) ''-'' = (itoa lo, itoa hi, True)"
    using cut_dash [OF c(2)] by simp
  have dr: "drop (Suc (length path)) ?a = itoa lo @ ''-'' @ itoa hi" "take (length path) ?a = path" by simp_all
  show ?thesis
    unfolding parse_read_arg_def Let_def tr ix option.case dr cut prod.case
    using assms hi by (simp add: digits_value_itoa)
qed

section \<open>Paging\<close>

definition page_size :: "read_options \<Rightarrow> int" where
  "page_size ro = (if ro_window ro \<le> 0 then read_line_cap_explicit else ro_window ro)"

lemma page_size_pos: "0 < page_size ro"
  by (simp add: page_size_def read_line_cap_explicit_def)

lemma closed_span:
  "1 \<le> lo \<Longrightarrow> 0 < hi \<Longrightarrow> lo \<le> n_lines \<Longrightarrow> read_span ro n_lines lo hi True =
     (let top = min hi n_lines; shown = min top (lo + page_size ro - 1) in Some (lo, shown, top - shown, top))"
  by (auto simp: read_span_def page_size_def ro_lines_def Let_def min_def)

lemma span_moves:
  assumes "read_span ro n_lines lo hi True = Some (a, b, clipped, next_hi)" "clipped > 0"
  shows "lo \<le> b \<and> b < n_lines"
  using assms page_size_pos [of ro]
  by (auto simp: read_span_def page_size_def ro_lines_def read_line_cap_def read_line_cap_explicit_def Let_def split: if_splits)

text \<open>Following the footers of a ranged read, from the line \<open>lo\<close> to the line \<open>hi\<close>.\<close>

function pages :: "read_options \<Rightarrow> int \<Rightarrow> int \<Rightarrow> int \<Rightarrow> (int \<times> int) list" where
  "pages ro n_lines lo hi =
     (case read_span ro n_lines lo hi True of
        None \<Rightarrow> []
      | Some (a, b, clipped, next_hi) \<Rightarrow>
          (a, b) # (if clipped > 0 then pages ro n_lines (b + 1) next_hi else []))"
  by pat_completeness auto

termination
proof (relation "measure (\<lambda>(ro, n_lines, lo, hi). nat (n_lines + 1 - lo))", goal_cases)
  case (2 ro n_lines lo hi x a y b z clipped next_hi)
  then have "read_span ro n_lines lo hi True = Some (a, b, clipped, next_hi)" "clipped > 0" by auto
  from span_moves [OF this] show ?case by simp
qed simp

declare pages.simps [simp del]

lemma pages_step:
  assumes "1 \<le> lo" "lo \<le> hi" "hi \<le> n_lines"
  shows "pages ro n_lines lo hi =
    (if hi \<le> lo + page_size ro - 1 then [(lo, hi)]
     else (lo, lo + page_size ro - 1) # pages ro n_lines (lo + page_size ro) hi)"
proof -
  have span: "read_span ro n_lines lo hi True =
      Some (lo, min hi (lo + page_size ro - 1), hi - min hi (lo + page_size ro - 1), hi)"
    using assms closed_span [of lo hi n_lines ro] by (simp add: Let_def)
  show ?thesis by (subst pages.simps, unfold span) (simp add: min_def)
qed

lemma pages_cover:
  assumes "1 \<le> lo" "lo \<le> hi" "hi \<le> n_lines"
  shows "concat (map (\<lambda>(a, b). [a..b]) (pages ro n_lines lo hi)) = [lo..hi]
    \<and> (\<forall>(a, b) \<in> set (pages ro n_lines lo hi). b - a + 1 \<le> page_size ro)"
  using assms
proof (induction "nat (hi - lo)" arbitrary: lo rule: less_induct)
  case less
  show ?case
  proof (cases "hi \<le> lo + page_size ro - 1")
    case True
    then show ?thesis using pages_step [OF less.prems] by simp
  next
    case False
    let ?m = "lo + page_size ro"
    have m: "1 \<le> ?m" "?m \<le> hi" "nat (hi - ?m) < nat (hi - lo)"
      using False less.prems page_size_pos [of ro] by auto
    have sp: "[lo..?m - 1] @ [?m..hi] = [lo..hi]"
      using upto_split1 [of lo ?m hi] m page_size_pos [of ro] by simp
    show ?thesis using less.hyps [OF m(3,1,2) less.prems(3)] sp False
      by (simp add: pages_step [OF less.prems])
  qed
qed

section \<open>Search\<close>

lemma validated:
  assumes "validate_search_path path = Inr clean"
  shows "clean = [] \<or> (clean = path_clean clean \<and> \<not> is_abs clean \<and> \<not> escapes clean)"
  using assms path_clean_idem is_abs_clean
  by (auto simp: validate_search_path_def Let_def escapes_def dotdot_def slash_def split: if_splits)

lemma rg_args: "search_args pattern path = rg_want @ [pattern] @ (if path \<noteq> [] then [''--'', path] else [])"
  by (simp add: search_args_def rg_want_def)

section \<open>Properties\<close>

text \<open>C28: An edit changes one place and nothing else. If \<open>edit_file\<close> reports success, the file was read
  whole, holds the anchor once (counting from the left without overlap), and the one write
  put back the text before and after the anchor unchanged, with the new text in place of the
  anchor, before it or after it as the mode says. If it reports an error, it wrote nothing, or the
  write itself failed.\<close>

theorem edit_exact:
  assumes "run_state (edit_file_op F path anchor new mode) w = (r, w')"
  shows "(\<forall>out. r = Inr out \<longrightarrow>
      (\<exists>pre post w1. run_state (read_bounded F path) w = (Inr (pre @ anchor @ post, False), w1)
         \<and> anchor \<noteq> [] \<and> str_count (pre @ anchor @ post) anchor = 1
         \<and> fo_write F path
              (if mode = ''insert_before'' then pre @ new @ anchor @ post
               else if mode = ''insert_after'' then pre @ anchor @ new @ post else pre @ new @ post) w1 = (None, w')))
    \<and> (\<forall>e. r = Inl e \<longrightarrow>
      w' = w \<or> (\<exists>b. run_state (read_bounded F path) w = (b, w'))
      \<or> (\<exists>b w1 body x. run_state (read_bounded F path) w = (b, w1) \<and> fo_write F path body w1 = (Some x, w')))"
  using wpD [OF wp_edit assms] unfolding edit_done_def edit_left_def spliced_def
  by (cases r) (simp_all only: sum.case sum.inject sum.distinct, blast+)

text \<open>A file as the world.\<close>

definition one_file :: "string file_ops" where
  "one_file =
     \<lparr> fo_go_roots = [''/go''], fo_host_read = (\<lambda>p n w. (Inl (NotExist ''no''), w)),
       fo_host_list = (\<lambda>p w. (Inl (NotExist ''no''), w)), fo_host_rg = (\<lambda>a t w. (HostMissing, w)), fo_limit = Some (\<lambda>p n w. (Inr (w, False), w)),
       fo_read = (\<lambda>p w. (Inr w, w)), fo_write = (\<lambda>p body w. (None, body)), fo_append = None,
       fo_list = (\<lambda>p w. (Inr [], w)), fo_exec = (\<lambda>c w. (Inl ''executable file not found'', w)),
       fo_go_symbols = (\<lambda>p ls. None) \<rparr>"

lemma one_file_read: "run_state (read_bounded one_file ''f'') w = (Inr (w, False), w)"
proof -
  have "go_source_path (fo_go_roots one_file) ''f'' = None" by code_simp
  then show ?thesis by (simp add: read_bounded_def, simp add: one_file_def)
qed

lemma one_file_edit:
  assumes "edit_refusal ''replace'' anchor new = None" "str_index src anchor = Some i" "str_count src anchor = 1"
  shows "\<exists>out. run_state (edit_file_op one_file ''f'' anchor new []) src
    = (Inr out, take i src @ new @ drop (i + length anchor) src)"
proof -
  have "fo_write one_file p body v = (None, body)" for p body v by (simp add: one_file_def)
  then show ?thesis using assms
    by (simp add: edit_file_op_def Let_def one_file_read put_file_def edited_text_def)
qed

lemma demo_refusal: "edit_refusal ''replace'' ''b'' ''X'' = None"
  by (simp add: edit_refusal_def edit_modes_def write_byte_cap_def looks_like_edit_envelope_def envelope_marks_def
      trim_left_by_def blank_def)

lemma demo_match: "str_index ''abc'' ''b'' = Some 1" "str_count ''abc'' ''b'' = 1"
  by code_simp+

theorem edit_exact_witness:
  "\<exists>pre post. pre @ ''b'' @ post = ''abc'' \<and> pre @ ''X'' @ post = ''aXc''"
proof -
  obtain out where r: "run_state (edit_file_op one_file ''f'' ''b'' ''X'' []) ''abc'' = (Inr out, ''aXc'')"
    using one_file_edit [OF demo_refusal demo_match] by auto
  from edit_exact [OF r] obtain pre post w1 where
      rd: "run_state (read_bounded one_file ''f'') ''abc'' = (Inr (pre @ ''b'' @ post, False), w1)"
      and wr: "fo_write one_file ''f'' (pre @ ''X'' @ post) w1 = (None, ''aXc'')"
    by auto
  from wr have "pre @ ''X'' @ post = ''aXc''" by (simp add: one_file_def)
  with rd show ?thesis unfolding one_file_read by auto
qed


lemma one_file_text_edit:
  "\<exists>out. run_state (tool_edit_file one_file ''f b ||| X'') ''abc'' = (Inr out, ''aXc'')"
proof -
  have a: "split_arg (trim_space ''f b ||| X'') = (''f'', Some ''b ||| X'')"
      "edit_separator ''b ||| X'' = Some (Suc 0, 5)" "edit_fields ''b ||| X'' (Suc 0) 5 = (''b'', ''X'', [])"
      "unescape ''b'' = Inr ''b''" "unescape ''X'' = Inr ''X''"
    by code_simp+
  obtain out where "run_state (edit_file_op one_file ''f'' ''b'' ''X'' []) ''abc'' = (Inr out, ''aXc'')"
    using one_file_edit [OF demo_refusal demo_match] by auto
  then show ?thesis by (simp add: tool_edit_file_def a)
qed






text \<open>C30: A search runs only what the headless policy authorizes. Under the current policy a search behind
  the fence gives the same observation in a sandbox that refuses, or answers at will, every command
  the policy does not authorize; and the path it names stays below any root. (A path that starts
  with a dash is the exception: the policy refuses what the tool would run.)\<close>

theorem search_authorized:
  assumes "pol_name p = default_headless_policy" "pol_version p = ''3''"
    and "go_source_path (fo_go_roots F) path = None"
    and "\<forall>clean. validate_search_path path = Inr clean \<longrightarrow> \<not> has_prefix clean ''-''"
    and "\<forall>c. allows_exec p (cmd_path c) (cmd_args c) \<longrightarrow> ex c = fo_exec F c"
    and "is_abs r" "path_clean r = r" "r \<noteq> [slash]"
  shows "search_op (F\<lparr>fo_exec := ex\<rparr>) pattern path timeout = search_op F pattern path timeout
    \<and> (\<forall>clean. validate_search_path path = Inr clean \<longrightarrow> clean \<noteq> [] \<longrightarrow> under r (path_join r clean))"
proof -
  have ok: "allows_exec p ''rg'' (search_args pt clean) \<and> (clean \<noteq> [] \<longrightarrow> under r (path_join r clean))"
    if v: "validate_search_path path = Inr clean" for clean pt
  proof -
    have w: "clean = [] \<or> workspace_path clean" using validated [OF v] by (auto simp: workspace_path_def)
    have d: "\<not> has_prefix clean ''-''" using assms(4) v by blast
    have "allows_exec p ''rg'' (search_args pt clean)"
      using assms(1,2) w d by (auto simp: allows_exec_def rg_args)
    then show ?thesis using w workspace_path_below [OF _ assms(6-8)] by blast
  qed
  have "ex \<lparr> cmd_path = ''rg'', cmd_args = search_args pt clean, cmd_dir = [], cmd_timeout = timeout \<rparr>
      = fo_exec F \<lparr> cmd_path = ''rg'', cmd_args = search_args pt clean, cmd_dir = [], cmd_timeout = timeout \<rparr>"
    if "validate_search_path path = Inr clean" for clean pt
    using assms(5) ok [OF that] by simp
  then have "search_op (F\<lparr>fo_exec := ex\<rparr>) pattern path timeout = search_op F pattern path timeout"
    using assms(3) by (auto simp: search_op_def Let_def split: sum.split)
  then show ?thesis using ok by blast
qed

theorem search_authorized_witness:
  "search_op (one_file\<lparr>fo_exec := (\<lambda>c w. if cmd_path c = ''rg'' then fo_exec one_file c w else (Inl ''refused'', w))\<rparr>) ''x'' ''agent'' 0
     = search_op one_file ''x'' ''agent'' 0"
proof -
  let ?p = "approval_policies ! 2"
  have p: "pol_name ?p = default_headless_policy" "pol_version ?p = ''3''" by code_simp+
  have g: "go_source_path (fo_go_roots one_file) ''agent'' = None" by code_simp
  have v: "\<forall>clean. validate_search_path ''agent'' = Inr clean \<longrightarrow> \<not> has_prefix clean ''-''"
  proof -
    have "validate_search_path ''agent'' = Inr ''agent''" by code_simp
    then show ?thesis by simp
  qed
  have e: "\<forall>c. allows_exec ?p (cmd_path c) (cmd_args c) \<longrightarrow>
      (\<lambda>w. if cmd_path c = ''rg'' then fo_exec one_file c w else (Inl ''refused'', w)) = fo_exec one_file c"
    by (auto simp: allows_exec_def split: if_splits)
  have r: "is_abs ''/w''" "path_clean ''/w'' = ''/w''" "''/w'' \<noteq> [slash]" by code_simp+
  from search_authorized [OF p g v e r] show ?thesis by blast
qed

end
