(* ===== verification/BestOf.thy ===== *)
theory BestOf
  imports NativeTools Generate
begin

text \<open>
  Solving a task several times and keeping one result: the structural choice among trials of the
  evaluation harness (\<open>eval/bestof.go\<close>), its copy for the attempts of a headless run, and the
  double-blind tournament over the attempts' patches (\<open>headless/bestof.go\<close>). A selector is a call
  into the world outside; an index that Go gives as -1 is \<open>None\<close> or a negative integer.
\<close>

section \<open>The structural choice\<close>

text \<open>What the choice reads of a \<open>Trial\<close>.\<close>

record trial =
  tr_index :: int
  tr_outcome :: outcome
  tr_pass :: bool
  tr_no_attempt :: bool
  tr_err :: string

definition structural_rank :: "trial \<Rightarrow> nat" where
  "structural_rank t =
     (if tr_err t \<noteq> [] then 4
      else if tr_no_attempt t then 3
      else (case tr_outcome t of Answered \<Rightarrow> 0 | HitCap \<Rightarrow> 1 | _ \<Rightarrow> 2))"

definition select_best :: "trial list \<Rightarrow> nat option" where
  "select_best trials =
     fold (\<lambda>i best.
       case best of
         None \<Rightarrow> Some i
       | Some b \<Rightarrow>
           let t = trials ! i; u = trials ! b; r = structural_rank t; br = structural_rank u in
           if r < br \<or> (r = br \<and> tr_index t < tr_index u) then Some i else Some b)
     [0..<length trials] None"

definition cell_best :: "trial list \<Rightarrow> trial option" where
  "cell_best trials = (case select_best trials of None \<Rightarrow> None | Some i \<Rightarrow> Some (trials ! i))"

definition cell_passes :: "trial list \<Rightarrow> nat" where
  "cell_passes trials = length (filter tr_pass trials)"

definition cell_split :: "trial list \<Rightarrow> bool" where
  "cell_split trials \<longleftrightarrow> 0 < cell_passes trials \<and> cell_passes trials < length trials"

text \<open>The counters of the report section, for the cells of one model in their order.\<close>

record best_of_agg =
  ag_cells :: nat
  ag_selected :: nat
  ag_oracle :: nat
  ag_splits :: nat
  ag_splits_right :: nat
  ag_trials :: nat
  ag_trial_passes :: nat

definition count_cell :: "trial list \<Rightarrow> best_of_agg \<Rightarrow> best_of_agg" where
  "count_cell c a =
     (let right = (case cell_best c of Some t \<Rightarrow> tr_pass t | None \<Rightarrow> False) in
      a\<lparr> ag_cells := ag_cells a + 1, ag_trials := ag_trials a + length c, ag_trial_passes := ag_trial_passes a + cell_passes c,
         ag_selected := ag_selected a + (if right then 1 else 0),
         ag_oracle := ag_oracle a + (if 0 < cell_passes c then 1 else 0),
         ag_splits := ag_splits a + (if cell_split c then 1 else 0),
         ag_splits_right := ag_splits_right a + (if cell_split c \<and> right then 1 else 0) \<rparr>)"

definition zero_agg :: best_of_agg where
  "zero_agg =
     \<lparr> ag_cells = 0, ag_selected = 0, ag_oracle = 0, ag_splits = 0, ag_splits_right = 0, ag_trials = 0, ag_trial_passes = 0 \<rparr>"

section \<open>Attempts of a headless run\<close>

record attempt_record =
  at_index :: int
  at_outcome :: outcome
  at_exit_code :: int
  at_patch :: bool
  at_answer :: "string option"
  at_cost :: "real option"
  at_usage :: usage

definition attempt_structural_rank :: "attempt_record \<Rightarrow> nat" where
  "attempt_structural_rank a =
     (if \<not> at_patch a then 3
      else (case at_outcome a of Answered \<Rightarrow> 0 | HitCap \<Rightarrow> 1 | _ \<Rightarrow> 2))"

definition select_best_by_structure :: "attempt_record list \<Rightarrow> nat option" where
  "select_best_by_structure attempts =
     fold (\<lambda>i best.
       case best of
         None \<Rightarrow> Some i
       | Some b \<Rightarrow>
           let t = attempts ! i; u = attempts ! b; r = attempt_structural_rank t; br = attempt_structural_rank u in
           if r < br \<or> (r = br \<and> at_index t < at_index u) then Some i else Some b)
     [0..<length attempts] None"

text \<open>\<open>exitCodeFor\<close>.\<close>

definition exit_code_for :: "outcome \<Rightarrow> int" where
  "exit_code_for oc =
     (case oc of
        Answered \<Rightarrow> 0
      | Unverified \<Rightarrow> 2
      | HitCap \<Rightarrow> 3 | HitDeadline \<Rightarrow> 3 | HitContextLimit \<Rightarrow> 3 | HitBudget \<Rightarrow> 3
      | KilledRepeat \<Rightarrow> 4 | KilledSpiral \<Rightarrow> 4 | KilledStagnant \<Rightarrow> 4
      | ProviderErr \<Rightarrow> 5
      | RefusedUnsafe \<Rightarrow> 6
      | Canceled \<Rightarrow> 7
      | ScopeViolation \<Rightarrow> 8)"

section \<open>One comparison\<close>

text \<open>\<open>sumUsage\<close>.\<close>

definition sum_usage :: "usage \<Rightarrow> usage \<Rightarrow> usage" where
  "sum_usage a b =
     \<lparr> u_prompt = u_prompt a + u_prompt b, u_completion = u_completion a + u_completion b,
       u_total = u_total a + u_total b, u_cached = u_cached a + u_cached b,
       u_reasoning = u_reasoning a + u_reasoning b, u_cost = u_cost a + u_cost b \<rparr>"

definition upper_char :: "char \<Rightarrow> char" where
  "upper_char c =
     (let n = (of_char c :: nat) in if 97 \<le> n \<and> n \<le> 122 then char_of (n - 32) else c)"

definition to_upper :: "string \<Rightarrow> string" where
  "to_upper s = map upper_char s"

text \<open>What \<open>Compare\<close> returns: label, reason, usage, error.\<close>

type_synonym compare_answer = "string \<times> string \<times> usage \<times> string option"

text \<open>A selector is given the task and the two patches.\<close>

type_synonym 'w selector = "string \<Rightarrow> string \<Rightarrow> string \<Rightarrow> 'w \<Rightarrow> compare_answer \<times> 'w"

record selector_verdict =
  sv_pick1 :: string
  sv_pick2 :: string
  sv_consistent :: bool
  sv_winner :: nat
  sv_reason :: string

definition run_comparison ::
  "'w selector \<Rightarrow> string \<Rightarrow> nat \<Rightarrow> nat \<Rightarrow> string \<Rightarrow> string \<Rightarrow> ('w, selector_verdict \<times> usage) state" where
  "run_comparison sel task ia ib pa pb = do {
     r1 \<leftarrow> call (sel task pa pb);
     (case r1 of (pick1, reason1, use1, err1) \<Rightarrow> do {
       let v = \<lparr> sv_pick1 = to_upper (trim_space pick1), sv_pick2 = [], sv_consistent = False, sv_winner = 0, sv_reason = [] \<rparr>;
       case err1 of
         Some e \<Rightarrow> ret (v\<lparr>sv_reason := ''selector error (round 1): '' @ e\<rparr>, sum_usage zero_usage use1)
       | None \<Rightarrow> do {
           r2 \<leftarrow> call (sel task pb pa);
           (case r2 of (pick2, reason2, use2, err2) \<Rightarrow> do {
             let v2 = v\<lparr>sv_pick2 := to_upper (trim_space pick2)\<rparr>;
             let spent = sum_usage (sum_usage zero_usage use1) use2;
             case err2 of
               Some e \<Rightarrow> ret (v2\<lparr>sv_reason := ''selector error (round 2): '' @ e\<rparr>, spent)
             | None \<Rightarrow>
                 ret (let v3 = v2\<lparr>sv_reason := reason1, sv_consistent := sv_pick1 v2 \<noteq> sv_pick2 v2\<rparr> in
                      if sv_consistent v3 then v3\<lparr>sv_winner := if sv_pick1 v3 = ''A'' then ia else ib\<rparr> else v3,
                      spent) }) } }) }"

section \<open>The tournament\<close>

record best_of_report =
  bo_n :: nat
  bo_attempts :: "attempt_record list"
  bo_verdicts :: "selector_verdict list"
  bo_model :: string
  bo_usage :: usage
  bo_cost :: "real option"

text \<open>One challenger after the other; a comparison that names no winner is left to the structure.\<close>

fun challenge ::
  "'w selector \<Rightarrow> string \<Rightarrow> attempt_record list \<Rightarrow> string list \<Rightarrow> nat list \<Rightarrow> nat \<Rightarrow> best_of_report
   \<Rightarrow> ('w, nat \<times> best_of_report) state" where
  "challenge sel task attempts patches [] winner rep = ret (winner, rep)"
| "challenge sel task attempts patches (c # cs) winner rep = do {
     r \<leftarrow> run_comparison sel task winner c (patches ! winner) (patches ! c);
     let rep1 = rep\<lparr>bo_usage := sum_usage (bo_usage rep) (snd r)\<rparr>;
     let winner1 = (if sv_consistent (fst r) then sv_winner (fst r)
                    else if select_best_by_structure [attempts ! winner, attempts ! c] = Some 0 then winner else c);
     let v = (if sv_consistent (fst r) then fst r else (fst r)\<lparr>sv_winner := winner1\<rparr>);
     challenge sel task attempts patches cs winner1 (rep1\<lparr>bo_verdicts := bo_verdicts rep1 @ [v]\<rparr>) }"

definition candidates :: "attempt_record list \<Rightarrow> nat list" where
  "candidates attempts = filter (\<lambda>i. at_patch (attempts ! i)) [0..<length attempts]"

definition select_best_of ::
  "'w selector \<Rightarrow> string \<Rightarrow> attempt_record list \<Rightarrow> string list \<Rightarrow> string \<Rightarrow> ('w, int \<times> best_of_report) state" where
  "select_best_of sel model attempts patches task =
     (let rep = \<lparr> bo_n = length attempts, bo_attempts = attempts, bo_verdicts = [], bo_model = model,
                  bo_usage = zero_usage, bo_cost = None \<rparr> in
      case candidates attempts of
        [] \<Rightarrow> ret (int (length attempts) - 1, rep)
      | [c] \<Rightarrow> ret (int c, rep)
      | c # cs \<Rightarrow> do {
          r \<leftarrow> challenge sel task attempts patches cs c rep;
          ret (int (fst r), snd r) })"

section \<open>Set-up and price\<close>

definition validate_best_of_setup :: "int \<Rightarrow> string \<Rightarrow> string \<Rightarrow> bool \<Rightarrow> string option" where
  "validate_best_of_setup n select_model review_model in_git =
     (if n < 1 then Some ''best-of: -best-of must be >= 1''
      else if n < 2 then None
      else if trim_space select_model = [] \<and> trim_space review_model = [] then
        Some ''best-of: -select-model is required when -best-of >= 2 (or set -review-model to reuse it)''
      else if \<not> in_git then
        Some ''best-of: -best-of >= 2 requires cwd to be inside a git work tree, like -worktree''
      else None)"

definition price_best_of_report :: "(string \<Rightarrow> usage \<Rightarrow> real option) option \<Rightarrow> best_of_report \<Rightarrow> best_of_report" where
  "price_best_of_report price rep =
     (if trim_space (bo_model rep) = [] then rep
      else if u_cost (bo_usage rep) > 0 then rep\<lparr>bo_cost := Some (u_cost (bo_usage rep))\<rparr>
      else (case price of
              None \<Rightarrow> rep
            | Some p \<Rightarrow> (case p (bo_model rep) (bo_usage rep) of Some c \<Rightarrow> rep\<lparr>bo_cost := Some c\<rparr> | None \<Rightarrow> rep)))"

section \<open>The selector in production\<close>

definition selector_system :: string where
  "selector_system =
     ''You are an independent patch selector. You will receive a TASK and two anonymous candidate git patches labeled A and B. Pick the patch that is more likely to correctly and completely accomplish the task without regressions. Judge only the patches; do not speculate about who wrote them.''
     @ nl @ nl @ ''Return ONLY JSON in this shape: {'' @ go_quote ''pick'' @ '':'' @ go_quote ''A'' @ '','' @ go_quote ''reason'' @ '':''
     @ go_quote ''short reason'' @ ''} or {'' @ go_quote ''pick'' @ '':'' @ go_quote ''B'' @ '','' @ go_quote ''reason'' @ '':''
     @ go_quote ''short reason'' @ ''}. No markdown.''"

definition selector_prompt :: "string \<Rightarrow> string \<Rightarrow> string \<Rightarrow> string" where
  "selector_prompt task pa pb =
     ''TASK:'' @ nl @ task @ nl @ nl @ ''PATCH A:'' @ nl @ pa @ nl @ nl @ ''PATCH B:'' @ nl @ pb @ nl"

text \<open>The label in a reply: JSON, or else text that shows or starts with one.\<close>

definition pick_of_text :: "string \<Rightarrow> (string \<times> string) option" where
  "pick_of_text text =
     (case decode_args [(''pick'', FString), (''reason'', FString)] text of
        Some ms \<Rightarrow> Some (string_field ''pick'' ms, string_field ''reason'' ms)
      | None \<Rightarrow>
          let upper = to_upper text in
          if str_contains upper (go_quote ''PICK'' @ '':'' @ go_quote ''A'') \<or> has_prefix upper ''A'' then Some (''A'', text)
          else if str_contains upper (go_quote ''PICK'' @ '':'' @ go_quote ''B'') \<or> has_prefix upper ''B'' then Some (''B'', text)
          else None)"

definition read_verdict :: "response \<Rightarrow> compare_answer" where
  "read_verdict resp =
     (let text = trim_space (response_text resp) in
      case pick_of_text text of
        None \<Rightarrow> ([], [], rs_usage resp, Some (''selector returned unparsable verdict: '' @ go_quote text))
      | Some (pick, reason) \<Rightarrow>
          let p = to_upper (trim_space pick) in
          if p \<noteq> ''A'' \<and> p \<noteq> ''B'' then ([], [], rs_usage resp, Some (''selector returned invalid pick '' @ go_quote pick))
          else (p, trim_space reason, rs_usage resp, None))"

text \<open>The provider answers with a response or an error; the selector may lack one.\<close>

definition llm_compare :: "(request \<Rightarrow> 'w \<Rightarrow> (string + response) \<times> 'w) option \<Rightarrow> string \<Rightarrow> 'w selector" where
  "llm_compare provider effort task pa pb w =
     (case provider of
        None \<Rightarrow> (([], [], zero_usage, Some ''selector provider is nil''), w)
      | Some generate \<Rightarrow>
          (case generate \<lparr> req_system = selector_system, req_messages = [user_msg (selector_prompt task pa pb)],
                           req_max_tokens = 16384, req_effort = effort, req_tools = [] \<rparr> w of
             (Inl e, w') \<Rightarrow> (([], [], zero_usage, Some e), w')
           | (Inr resp, w') \<Rightarrow> (read_verdict resp, w')))"

section \<open>The loop of both choices\<close>

definition select_by :: "('a \<Rightarrow> nat) \<Rightarrow> ('a \<Rightarrow> int) \<Rightarrow> 'a list \<Rightarrow> nat option" where
  "select_by rank ix xs =
     fold (\<lambda>i best.
       case best of
         None \<Rightarrow> Some i
       | Some b \<Rightarrow>
           let r = rank (xs ! i); br = rank (xs ! b) in
           if r < br \<or> (r = br \<and> ix (xs ! i) < ix (xs ! b)) then Some i else Some b)
     [0..<length xs] None"

lemma select_best_by: "select_best = select_by structural_rank tr_index"
  unfolding fun_eq_iff select_best_def select_by_def Let_def by simp

lemma select_structure_by: "select_best_by_structure = select_by attempt_structural_rank at_index"
  unfolding fun_eq_iff select_best_by_structure_def select_by_def Let_def by simp

definition beats :: "('a \<Rightarrow> nat) \<Rightarrow> ('a \<Rightarrow> int) \<Rightarrow> 'a \<Rightarrow> 'a \<Rightarrow> bool" where
  "beats rank ix x y \<longleftrightarrow> rank x < rank y \<or> (rank x = rank y \<and> ix x < ix y)"

lemma beats_trans: "beats r ix x y \<Longrightarrow> \<not> beats r ix z y \<Longrightarrow> \<not> beats r ix z x"
  by (auto simp: beats_def)

lemma select_by_snoc:
  "select_by r ix (xs @ [x]) =
     (case select_by r ix xs of None \<Rightarrow> Some (length xs)
      | Some b \<Rightarrow> if beats r ix x (xs ! b) then Some (length xs) else Some b)"
  if "\<And>b. select_by r ix xs = Some b \<Longrightarrow> b < length xs"
proof -
  let ?f = "\<lambda>ys i best. case best of None \<Rightarrow> Some i | Some b \<Rightarrow>
      let p = r (ys ! i); q = r (ys ! b) in if p < q \<or> (p = q \<and> ix (ys ! i) < ix (ys ! b)) then Some i else Some b"
  have "fold (?f (xs @ [x])) [0..<n] None = fold (?f xs) [0..<n] None
      \<and> (\<forall>b. fold (?f xs) [0..<n] None = Some b \<longrightarrow> b < n)" if "n \<le> length xs" for n
    using that by (induction n) (auto simp: Let_def nth_append less_Suc_eq split: option.splits)
  from this [of "length xs"] show ?thesis
    by (auto simp: select_by_def beats_def Let_def nth_append split: option.split)
qed

lemma select_by_least:
  "case select_by r ix xs of
     None \<Rightarrow> xs = []
   | Some i \<Rightarrow> i < length xs \<and> (\<forall>j < length xs. \<not> beats r ix (xs ! j) (xs ! i)) \<and> (\<forall>j < i. beats r ix (xs ! i) (xs ! j))"
proof (induction xs rule: rev_induct)
  case Nil
  then show ?case by (simp add: select_by_def)
next
  case (snoc x xs)
  have b: "\<And>b. select_by r ix xs = Some b \<Longrightarrow> b < length xs" using snoc by auto
  have sn: "select_by r ix (xs @ [x]) = (case select_by r ix xs of None \<Rightarrow> Some (length xs)
      | Some b \<Rightarrow> if beats r ix x (xs ! b) then Some (length xs) else Some b)"
    by (rule select_by_snoc) (rule b)
  show ?case
  proof (cases "select_by r ix xs")
    case None
    then show ?thesis using snoc by (auto simp: select_by_def beats_def)
  next
    case (Some i)
    then have i: "i < length xs" "\<forall>j < length xs. \<not> beats r ix (xs ! j) (xs ! i)" "\<forall>j < i. beats r ix (xs ! i) (xs ! j)"
      using snoc by auto
    have irr: "\<not> beats r ix x x" for x by (simp add: beats_def)
    show ?thesis
    proof (cases "beats r ix x (xs ! i)")
      case True
      have "beats r ix x (xs ! j)" if "j < length xs" for j
        using True i(2) that by (fastforce simp: beats_def)
      moreover have "select_by r ix (xs @ [x]) = Some (length xs)" using sn Some True by simp
      moreover have "\<not> beats r ix (xs ! j) x" if "j < length xs" for j
        using calculation(1) [OF that] by (auto simp: beats_def)
      ultimately show ?thesis using irr by (auto simp: nth_append less_Suc_eq)
    next
      case False
      then show ?thesis using Some i by (auto simp: sn nth_append less_Suc_eq)
    qed
  qed
qed

section \<open>The winner of the tournament\<close>

lemma wp_comparison:
  "wp (run_comparison sel task ia ib pa pb)
     (\<lambda>r _. sv_consistent (fst r) \<longrightarrow>
        sv_winner (fst r) \<in> {ia, ib} \<and> sv_pick1 (fst r) \<noteq> sv_pick2 (fst r)) w"
  unfolding run_comparison_def Let_def
  by (auto simp: wp_bind wp_call wp_ret split: prod.split option.split)

lemma pair_structure:
  "select_best_by_structure [a, b] = Some 0 \<longleftrightarrow> \<not> beats attempt_structural_rank at_index b a"
  by (simp add: select_best_by_structure_def beats_def Let_def upt_rec)

lemma wp_challenge_among:
  "winner \<in> C \<Longrightarrow> set cs \<subseteq> C \<Longrightarrow> wp (challenge sel task attempts patches cs winner rep) (\<lambda>r _. fst r \<in> C) w"
proof (induction cs arbitrary: winner rep w)
  case (Cons c cs)
  show ?case unfolding challenge.simps Let_def
  proof (intro wp_bindI, rule wp_use [OF wp_comparison], goal_cases)
    case (1 r u)
    then show ?case using Cons.prems by (intro Cons.IH) auto
  qed
qed (simp add: wp_ret)

text \<open>A selector that names a label by its position alone.\<close>

definition position_bound :: "'w selector \<Rightarrow> bool" where
  "position_bound sel \<longleftrightarrow>
     (\<exists>label. \<forall>task pa pb w. case sel task pa pb w of ((pick, reason, use, err), w') \<Rightarrow> err = None \<longrightarrow> to_upper (trim_space pick) = label)"

lemma wp_bound_comparison:
  assumes "position_bound sel"
  shows "wp (run_comparison sel task ia ib pa pb) (\<lambda>r _. \<not> sv_consistent (fst r)) w"
proof -
  obtain label where L: "\<forall>task pa pb w. case sel task pa pb w of
      ((pick, reason, use, err), w') \<Rightarrow> err = None \<longrightarrow> to_upper (trim_space pick) = label"
    using assms unfolding position_bound_def by (rule exE)
  have l: "to_upper (trim_space pick) = label" if "sel task pa pb w = ((pick, reason, use, None), w')"
    for task pa pb w pick reason use w'
    using L [rule_format, of task pa pb w] that by simp
  show ?thesis
    unfolding run_comparison_def Let_def
    by (auto simp: wp_bind wp_call wp_ret dest!: l split: prod.split option.split)
qed

definition structure_step :: "attempt_record list \<Rightarrow> nat \<Rightarrow> nat \<Rightarrow> nat" where
  "structure_step attempts c winner =
     (if beats attempt_structural_rank at_index (attempts ! c) (attempts ! winner) then c else winner)"

lemma wp_bound_challenge:
  assumes "position_bound sel"
  shows "wp (challenge sel task attempts patches cs winner rep) (\<lambda>r _. fst r = fold (structure_step attempts) cs winner) w"
proof (induction cs arbitrary: winner rep w)
  case (Cons c cs)
  show ?case unfolding challenge.simps Let_def
  proof (intro wp_bindI, rule wp_use [OF wp_bound_comparison [OF assms]], goal_cases)
    case (1 r u)
    then show ?case by (rule_tac wp_use [OF Cons.IH]) (simp add: structure_step_def pair_structure)
  qed
qed (simp add: wp_ret)

lemma fold_structure:
  "select_by attempt_structural_rank at_index (map ((!) attempts) (c # cs)) = Some i \<Longrightarrow>
   fold (structure_step attempts) cs c = (c # cs) ! i"
proof (induction cs arbitrary: i rule: rev_induct)
  case Nil
  then show ?case by (simp add: select_by_def)
next
  case (snoc d cs)
  let ?xs = "map ((!) attempts) (c # cs)"
  obtain b where b: "select_by attempt_structural_rank at_index ?xs = Some b" "b < length ?xs"
    using select_by_least [where r = attempt_structural_rank and ix = at_index and xs = ?xs] by (auto split: option.splits)
  have s: "select_by attempt_structural_rank at_index (map ((!) attempts) (c # cs @ [d])) =
      (if beats attempt_structural_rank at_index (attempts ! d) (?xs ! b) then Some (length ?xs) else Some b)"
    using select_by_snoc [where r = attempt_structural_rank and ix = at_index and xs = ?xs and x = "attempts ! d"] b by simp
  have "?xs ! b = attempts ! ((c # cs) ! b)" using b(2) by (metis length_map nth_map)
  then show ?case
    using snoc.IH [OF b(1)] snoc.prems b(2)
    unfolding s by (auto simp: structure_step_def nth_append nth_Cons' split: if_splits)
qed

text \<open>A selector that prefers one patch, whatever it is compared to and whichever label it has.\<close>

definition favours :: "'w selector \<Rightarrow> string \<Rightarrow> string \<Rightarrow> string set \<Rightarrow> bool" where
  "favours sel task p others \<longleftrightarrow>
     (\<forall>q \<in> others. \<forall>w.
        (case sel task p q w of ((pick, reason, use, err), w') \<Rightarrow> err = None \<and> to_upper (trim_space pick) = ''A'')
        \<and> (case sel task q p w of ((pick, reason, use, err), w') \<Rightarrow> err = None \<and> to_upper (trim_space pick) = ''B''))"

lemma wp_favoured_comparison:
  assumes "favours sel task p others" "q \<in> others"
  shows "wp (run_comparison sel task k c p q) (\<lambda>r _. sv_consistent (fst r) \<and> sv_winner (fst r) = k) w"
    "wp (run_comparison sel task c k q p) (\<lambda>r _. sv_consistent (fst r) \<and> sv_winner (fst r) = k) w"
proof -
  have a: "\<exists>pick reason use w'. sel task p q w = ((pick, reason, use, None), w') \<and> to_upper (trim_space pick) = ''A''"
    and b: "\<exists>pick reason use w'. sel task q p w = ((pick, reason, use, None), w') \<and> to_upper (trim_space pick) = ''B''" for w
    using assms unfolding favours_def by (auto split: prod.splits, (metis prod.exhaust)+)
  show "wp (run_comparison sel task k c p q) (\<lambda>r _. sv_consistent (fst r) \<and> sv_winner (fst r) = k) w"
  proof -
    obtain x y z u where 1: "sel task p q w = ((x, y, z, None), u)" "to_upper (trim_space x) = ''A''" using a by blast
    obtain x' y' z' u' where 2: "sel task q p u = ((x', y', z', None), u')" "to_upper (trim_space x') = ''B''" using b by blast
    show ?thesis by (simp add: run_comparison_def Let_def wp_bind wp_call wp_ret 1 2)
  qed
  show "wp (run_comparison sel task c k q p) (\<lambda>r _. sv_consistent (fst r) \<and> sv_winner (fst r) = k) w"
  proof -
    obtain x y z u where 1: "sel task q p w = ((x, y, z, None), u)" "to_upper (trim_space x) = ''B''" using b by blast
    obtain x' y' z' u' where 2: "sel task p q u = ((x', y', z', None), u')" "to_upper (trim_space x') = ''A''" using a by blast
    show ?thesis by (simp add: run_comparison_def Let_def wp_bind wp_call wp_ret 1 2)
  qed
qed

lemma wp_favoured_challenge:
  assumes "favours sel task (patches ! k) {patches ! c |c. c \<in> C \<and> c \<noteq> k}"
  shows "k \<in> set (winner # cs) \<Longrightarrow> set (winner # cs) \<subseteq> C \<Longrightarrow> distinct (winner # cs) \<Longrightarrow>
    wp (challenge sel task attempts patches cs winner rep) (\<lambda>r _. fst r = k) w"
proof (induction cs arbitrary: winner rep w)
  case Nil
  then show ?case by (simp add: wp_ret)
next
  case (Cons c cs)
  have q: "patches ! d \<in> {patches ! c |c. c \<in> C \<and> c \<noteq> k}" if "d \<in> C" "d \<noteq> k" for d using that by blast
  show ?case
  proof (cases "k = winner \<or> k = c")
    case True
    have w: "wp (run_comparison sel task winner c (patches ! winner) (patches ! c))
        (\<lambda>r _. sv_consistent (fst r) \<and> sv_winner (fst r) = k) u" for u
    proof (cases "k = winner")
      case True
      then show ?thesis using wp_favoured_comparison(1) [OF assms q, of c winner c] Cons.prems by auto
    next
      case False
      then have "k = c" using \<open>k = winner \<or> k = c\<close> by simp
      then show ?thesis using wp_favoured_comparison(2) [OF assms q, of winner winner c] Cons.prems by auto
    qed
    show ?thesis unfolding challenge.simps Let_def
    proof (intro wp_bindI, rule wp_use [OF w], goal_cases)
      case (1 r u)
      then show ?case using Cons.prems True by (intro Cons.IH) auto
    qed
  next
    case False
    show ?thesis unfolding challenge.simps Let_def
    proof (intro wp_bindI, rule wp_use [OF wp_comparison], goal_cases)
      case (1 r u)
      then show ?case using Cons.prems False by (intro Cons.IH) auto
    qed
  qed
qed

lemma candidates_facts: "distinct (candidates attempts)" "i \<in> set (candidates attempts) \<longleftrightarrow> i < length attempts \<and> at_patch (attempts ! i)"
  by (auto simp: candidates_def)

section \<open>Properties\<close>

definition attempt_of :: "trial \<Rightarrow> attempt_record" where
  "attempt_of t =
     \<lparr> at_index = tr_index t, at_outcome = tr_outcome t, at_exit_code = exit_code_for (tr_outcome t),
       at_patch = (\<not> tr_no_attempt t), at_answer = None, at_cost = None, at_usage = zero_usage \<rparr>"


text \<open>C14: The tournament picks an attempt that has a patch, if there is one. A selector that answers by the
  position of the patches alone, whatever they are, has no influence: the winner is then the
  structural choice among the candidates. And if the selector prefers one patch to each of the
  others under either label, that patch wins, wherever it stands in the order.\<close>

theorem tournament_fair:
  assumes "run_state (select_best_of sel model attempts patches task) w = ((i, rep), w')" and "candidates attempts \<noteq> []"
  shows "i \<in> int ` set (candidates attempts)
    \<and> (position_bound sel \<longrightarrow>
         (\<exists>k. select_best_by_structure (map ((!) attempts) (candidates attempts)) = Some k \<and> i = int (candidates attempts ! k)))
    \<and> (\<forall>k \<in> set (candidates attempts).
         favours sel task (patches ! k) {patches ! c |c. c \<in> set (candidates attempts) \<and> c \<noteq> k} \<longrightarrow> i = int k)"
proof (cases "candidates attempts" rule: list.exhaust)
  case (Cons c cs)
  obtain k where k: "select_by attempt_structural_rank at_index (map ((!) attempts) (c # cs)) = Some k" "k < length (c # cs)"
    using select_by_least [where r = attempt_structural_rank and ix = at_index and xs = "map ((!) attempts) (c # cs)"]
    by (auto split: option.splits)
  show ?thesis
  proof (cases cs)
    case Nil
    then have "i = int c" using assms(1) Cons by (simp add: select_best_of_def Let_def)
    then show ?thesis using Cons Nil k by (auto simp: select_structure_by)
  next
    case (Cons d ds)
    let ?rep = "\<lparr> bo_n = length attempts, bo_attempts = attempts, bo_verdicts = [], bo_model = model, bo_usage = zero_usage, bo_cost = None \<rparr>"
    obtain r where r: "run_state (challenge sel task attempts patches cs c ?rep) w = (r, w')" "i = int (fst r)"
      using assms(1) \<open>candidates attempts = c # cs\<close> Cons by (auto simp: select_best_of_def Let_def split: prod.splits)
    have among: "fst r \<in> set (c # cs)" using wpD [OF wp_challenge_among r(1), of "set (c # cs)"] by auto
    have bound: "fst r = (c # cs) ! k" if "position_bound sel"
      using wpD [OF wp_bound_challenge [OF that] r(1)] fold_structure [OF k(1)] by simp
    have best: "fst r = j" if "j \<in> set (c # cs)" "favours sel task (patches ! j) {patches ! c' |c'. c' \<in> set (c # cs) \<and> c' \<noteq> j}" for j
      using wpD [OF wp_favoured_challenge [OF that(2) that(1)] r(1)] candidates_facts(1) [of attempts]
      unfolding \<open>candidates attempts = c # cs\<close> by blast
    show ?thesis unfolding \<open>candidates attempts = c # cs\<close> r(2)
    proof (intro conjI impI ballI)
      show "int (fst r) \<in> int ` set (c # cs)" using among by blast
      show "\<exists>k. select_best_by_structure (map ((!) attempts) (c # cs)) = Some k \<and> int (fst r) = int ((c # cs) ! k)"
        if "position_bound sel"
        by (intro exI [of _ k] conjI) (simp_all only: select_structure_by k(1) bound [OF that])
      show "int (fst r) = int j"
        if "j \<in> set (c # cs)" "favours sel task (patches ! j) {patches ! c' |c'. c' \<in> set (c # cs) \<and> c' \<noteq> j}" for j
        using best [OF that] by simp
    qed
  qed
qed (use assms(2) in simp)

definition demo_trial :: "int \<Rightarrow> outcome \<Rightarrow> bool \<Rightarrow> trial" where
  "demo_trial i oc untried = \<lparr> tr_index = i, tr_outcome = oc, tr_pass = False, tr_no_attempt = untried, tr_err = [] \<rparr>"


definition demo_attempts :: "attempt_record list" where
  "demo_attempts = map attempt_of [demo_trial 1 HitCap False, demo_trial 2 Answered True, demo_trial 3 Answered False]"

text \<open>A selector that likes the longer patch.\<close>

definition longer_patch :: "unit selector" where
  "longer_patch task pa pb w = ((if length pb < length pa then ''A'' else ''B'', [], zero_usage, None), w)"

theorem tournament_fair_witness:
  "\<exists>rep. run_state (select_best_of longer_patch ''m'' demo_attempts [''xy'', [], ''z''] ''t'') () = ((0, rep), ())"
proof -
  obtain i rep w where r: "run_state (select_best_of longer_patch ''m'' demo_attempts [''xy'', [], ''z''] ''t'') () = ((i, rep), w)"
    by (metis prod.exhaust)
  have c: "candidates demo_attempts = [0, 2]" by code_simp
  have "favours longer_patch ''t'' ([''xy'', [], ''z''] ! 0) {[''xy'', [], ''z''] ! c |c. c \<in> set (candidates demo_attempts) \<and> c \<noteq> 0}"
  proof -
    have up: "to_upper (trim_space ''A'') = ''A''" "to_upper (trim_space ''B'') = ''B''" by code_simp+
    have z: "q = ''z''" if "q \<in> {[''xy'', [], ''z''] ! c |c. c \<in> set (candidates demo_attempts) \<and> c \<noteq> 0}" for q
      using that by (auto simp: c)
    show ?thesis
      unfolding favours_def by (intro ballI allI, drule z) (simp add: longer_patch_def up)
  qed
  then have "i = int 0" using tournament_fair [OF r] c by auto
  then show ?thesis using r by auto
qed

text \<open>A reply in prose counts as a vote for A as soon as it begins with that letter.\<close>

theorem prose_votes_for_A:
  "pick_of_text ''After reading both, B is right.'' = Some (''A'', ''After reading both, B is right.'')"
  by code_simp

end
