(* ===== verification/ReviewPass.thy ===== *)
theory ReviewPass
  imports Session RunFacts
begin

text \<open>
  The review gate over a workspace that was changed elsewhere (\<open>agent/review_pass.go\<close>): one pass of
  the gate, the merge of the reports of several passes, and the loop that lets further runs repair
  what a pass blocks. The handle that a reviewer is continued by is not in the model, as in the
  gate itself.
\<close>

section \<open>One pass\<close>

record pass_options =
  po_base_tree :: string
  po_round_offset :: nat

definition continue_review :: "pass_options \<Rightarrow> review_state \<Rightarrow> review_state" where
  "continue_review opts rv =
     (let rv1 = (if po_base_tree opts \<noteq> [] then rv\<lparr>rv_base_tree := po_base_tree opts, rv_skip := []\<rparr> else rv)
      in if po_round_offset opts > 0 then rv1\<lparr>rv_rounds := po_round_offset opts\<rparr> else rv1)"

definition pass_gate :: "'w runtime \<Rightarrow> policy_value \<Rightarrow> content \<Rightarrow> int \<Rightarrow> 'w gate_deps" where
  "pass_gate rt pol c timeout = (run_gate rt pol c)\<lparr>d_run_timeout := timeout\<rparr>"

text \<open>Feedback, reason of a block, report. Nothing of the gates outlives the pass.\<close>

definition review_pass ::
  "'w runtime \<Rightarrow> resolved_spec \<Rightarrow> content \<Rightarrow> int \<Rightarrow> pass_options \<Rightarrow> bool \<Rightarrow> 'w
   \<Rightarrow> (string \<times> string \<times> review_report option) \<times> 'w" where
  "review_pass rt spec c timeout opts can_continue w =
     (if \<not> complete_spec spec then (([], complete_error spec, None), w)
      else
        (let pol = rs_policy spec;
             D = pass_gate rt pol c timeout;
             vs = (new_verify_state pol)\<lparr>vs_skip_baseline := True\<rparr>
         in case run_state (new_gates D) (start_gates vs None None None w) of
              (Some e, t) \<Rightarrow> (([], setup_msg e, None), g_world t)
            | (None, t) \<Rightarrow>
                (case run_state (review_finish D can_continue) (t\<lparr>g_review := map_option (continue_review opts) (g_review t)\<rparr>) of
                   (a, u) \<Rightarrow> ((fst a, snd a, map_option report_of (g_review u)), g_world u))))"

definition review_existing_workspace where
  "review_existing_workspace rt spec c timeout opts = review_pass rt spec c timeout opts True"

section \<open>Reports of several passes\<close>

definition recount_blockers :: "review_report \<Rightarrow> review_report" where
  "recount_blockers r =
     (let bs = filter (\<lambda>f. rf_severity (rd_finding f) = ''blocker'') (rr_findings r) in
      r\<lparr> rr_confirmed_blockers := length (filter rd_confirmed bs),
         rr_unconfirmed_blockers := length (filter (\<lambda>f. \<not> rd_confirmed f) bs) \<rparr>)"

definition merge_reports :: "review_report option \<Rightarrow> review_report option \<Rightarrow> review_report option" where
  "merge_reports dst src =
     (case (dst, src) of
        (_, None) \<Rightarrow> dst
      | (None, Some s) \<Rightarrow> Some (recount_blockers s)
      | (Some d, Some s) \<Rightarrow>
          Some (recount_blockers (d\<lparr>
            rr_rounds := (if rr_rounds s > rr_rounds d then rr_rounds s else rr_rounds d),
            rr_status := (if \<not> infra_status (rr_status d) \<or> rr_status d = ReviewNone then rr_status s else rr_status d),
            rr_blocked := rr_blocked s,
            rr_skipped := (if rr_skipped d = [] then rr_skipped s else rr_skipped d),
            rr_model := (if rr_model d = [] then rr_model s else rr_model d),
            rr_runs := rr_runs d @ rr_runs s,
            rr_summaries := rr_summaries d @ rr_summaries s,
            rr_findings := rr_findings d @ rr_findings s,
            rr_usage := add_usage (rr_usage d) (rr_usage s)\<rparr>)))"

definition expire_to_repaired :: "reviewed_finding \<Rightarrow> reviewed_finding" where
  "expire_to_repaired f =
     (if rd_fate f = FateExpired \<and> rf_severity (rd_finding f) = ''blocker'' then f\<lparr>rd_fate := FateRepaired\<rparr> else f)"

definition mark_expired_repaired :: "review_report option \<Rightarrow> review_report option" where
  "mark_expired_repaired r = map_option (\<lambda>r. r\<lparr>rr_findings := map expire_to_repaired (rr_findings r)\<rparr>) r"

definition combined_block_reason :: "'w gate_deps \<Rightarrow> review_report option \<Rightarrow> string" where
  "combined_block_reason D r =
     (case r of
        None \<Rightarrow> []
      | Some r \<Rightarrow>
          if \<not> effective_review_required D \<or> \<not> infra_status (rr_status r) then []
          else ''review required but review status is '' @ status_text (rr_status r))"

section \<open>Review and repair\<close>

datatype pass_error = SetupFailed setup_error | ModelFailed model_error

definition unverified_because :: "string \<Rightarrow> full_result \<Rightarrow> full_result" where
  "unverified_because why x = x\<lparr>fr_end := (fr_end x)\<lparr>rr_outcome := Unverified, rr_reason := why\<rparr>\<rparr>"

definition repair_task :: "string \<Rightarrow> string \<Rightarrow> string" where
  "repair_task task feedback =
     task @ nl @ nl @ ''The selected patch was blocked by the review gate. Address this review feedback, then finish again:''
     @ nl @ nl @ feedback"

definition without_reviewer :: "'w runtime \<Rightarrow> 'w runtime" where
  "without_reviewer rt = rt\<lparr>rt_gate := (rt_gate rt)\<lparr>d_has_reviewer := False\<rparr>\<rparr>"

text \<open>The loop over the passes; \<open>left\<close> of them are to come. A panic of the loop is \<open>None\<close>.\<close>

fun repair_from ::
  "'w runtime \<Rightarrow> resolved_spec \<Rightarrow> content \<Rightarrow> pass_options \<Rightarrow> 'w loop_func option \<Rightarrow> nat \<Rightarrow> nat \<Rightarrow> full_result \<Rightarrow> usage
   \<Rightarrow> review_report option \<Rightarrow> 'w \<Rightarrow> (full_result \<times> pass_error option) option \<times> 'w" where
  "repair_from rt spec c opts loop rounds 0 current accum combined w = (Some (current\<lparr>fr_review := combined\<rparr>, None), w)"
| "repair_from rt spec c opts loop rounds (Suc left) current accum combined w =
     (case review_pass rt spec c (pv_run_timeout (rs_policy spec)) (opts\<lparr>po_round_offset := rounds - Suc left\<rparr>) (left > 0) w of
        ((feedback, block, report), w1) \<Rightarrow>
          let combined1 = merge_reports combined report; cur = current\<lparr>fr_review := combined1\<rparr> in
          if block \<noteq> [] then (Some (unverified_because block cur, None), w1)
          else if feedback = [] then
            (let why = combined_block_reason (run_gate rt (rs_policy spec) c) combined1 in
             (Some (if why \<noteq> [] then unverified_because why cur else cur, None), w1))
          else
            (case loop of
               None \<Rightarrow> (Some (unverified_because ''review blockers remain, but no repair loop is configured'' cur, None), w1)
             | Some run \<Rightarrow>
                 (case run (without_reviewer rt) spec (c\<lparr>ct_task := repair_task (ct_task c) feedback\<rparr>) w1 of
                    (r, w2) \<Rightarrow>
                      (case lr_end r of
                         RunPanic \<Rightarrow> (None, w2)
                       | RunError e \<Rightarrow> (Some (cur, Some (SetupFailed e)), w2)
                       | RunDone x \<Rightarrow>
                           let spent = add_usage (fr_usage x) accum; res = x\<lparr>fr_usage := spent, fr_review := combined1\<rparr> in
                           (case fr_error x of
                              Some e \<Rightarrow> (Some (res, Some (ModelFailed e)), w2)
                            | None \<Rightarrow>
                                repair_from rt spec c opts loop rounds left res spent (mark_expired_repaired combined1) w2)))))"

definition review_and_repair ::
  "'w runtime \<Rightarrow> resolved_spec \<Rightarrow> content \<Rightarrow> full_result option \<Rightarrow> pass_options \<Rightarrow> 'w loop_func option \<Rightarrow> 'w
   \<Rightarrow> (full_result \<times> pass_error option) option \<times> 'w" where
  "review_and_repair rt spec c base opts loop w =
     (let out = (case base of Some b \<Rightarrow> b | None \<Rightarrow> bare_result c (run_ended Answered [])) in
      if \<not> d_has_reviewer (rt_gate rt) then (Some (out, None), w)
      else if \<not> complete_spec spec then (Some (out, Some (SetupFailed (SetupError ''invalid_config'' (complete_error spec)))), w)
      else (let rounds = nat (pv_review_rounds (rs_policy spec)) in
            repair_from rt spec c opts loop rounds rounds out (fr_usage out) None w))"

section \<open>The last pass\<close>

definition fresh_review :: "'w gates \<Rightarrow> bool" where
  "fresh_review t \<longleftrightarrow> (\<forall>rv. g_review t = Some rv \<longrightarrow> rv_findings rv = [] \<and> rv_pending rv = [])"

lemma wp_new_fresh: "wp (new_gates D) (\<lambda>e t. fresh_review t) s" if "g_review s = None"
proof -
  have r: "wp (new_review_state D)
      (\<lambda>r t. world_only s t \<and> (\<forall>x. r = Inr x \<longrightarrow> (\<forall>rv. x = Some rv \<longrightarrow> rv_findings rv = [] \<and> rv_pending rv = []))) s"
    unfolding new_review_state_def
    by (intro gate_intros wp_write_tree) (auto simp: zero_review_def split: sum.splits if_splits)
  show ?thesis
    unfolding new_gates_def new_scope_state_def fresh_review_def
    by (intro gate_intros wp_write_tree wp_use [OF r] wp_use [OF wp_measure_kept]
          wp_use [OF wp_capture_run] wp_use [OF wp_capture_standing])
       (use that in \<open>auto simp: kept_def elim!: world_onlyE\<close>)
qed

lemma continue_wf: "rv_findings rv = [] \<Longrightarrow> rv_pending rv = [] \<Longrightarrow> review_wf (continue_review opts rv)"
  by (simp add: review_wf_def continue_review_def Let_def)

lemma last_pass_decides:
  assumes "review_pass rt spec c timeout opts False w = ((feedback, block, report), w')"
  shows "feedback = []"
proof (cases "complete_spec spec")
  case True
  let ?D = "pass_gate rt (rs_policy spec) c timeout"
  let ?s = "start_gates ((new_verify_state (rs_policy spec))\<lparr>vs_skip_baseline := True\<rparr>) None None None w"
  obtain e t where n: "run_state (new_gates ?D) ?s = (e, t)" by fastforce
  show ?thesis
  proof (cases e)
    case None
    have f: "fresh_review t" using wpD [OF wp_new_fresh n] by (simp add: start_gates_def)
    let ?t = "t\<lparr>g_review := map_option (continue_review opts) (g_review t)\<rparr>"
    obtain a u where r: "run_state (review_finish ?D False) ?t = (a, u)" by fastforce
    have wf: "\<forall>rv. g_review ?t = Some rv \<longrightarrow> review_wf rv"
      using f continue_wf by (auto simp: fresh_review_def)
    have "fst a = []"
      using wpD [OF review_wf_ok [OF wf] r] by (cases "g_review ?t") (auto simp: review_outcome_def)
    then show ?thesis using assms True n None r by (simp add: review_pass_def Let_def)
  qed (use assms True n in \<open>simp add: review_pass_def Let_def\<close>)
qed (use assms in \<open>simp add: review_pass_def\<close>)

section \<open>Property\<close>

text \<open>A pass against the base tree of the options that had nothing to object.\<close>

definition clean_pass :: "'w runtime \<Rightarrow> resolved_spec \<Rightarrow> content \<Rightarrow> pass_options \<Rightarrow> full_result \<Rightarrow> 'w \<Rightarrow> bool" where
  "clean_pass rt spec c opts x w' \<longleftrightarrow>
     (\<exists>opts' can report combined w. po_base_tree opts' = po_base_tree opts
        \<and> review_pass rt spec c (pv_run_timeout (rs_policy spec)) opts' can w = (([], [], report), w')
        \<and> fr_review x = merge_reports combined report
        \<and> combined_block_reason (run_gate rt (rs_policy spec) c) (fr_review x) = [])"

lemma repair_from_clean:
  "repair_from rt spec c opts loop rounds left current accum combined w = (Some (x, None), w') \<Longrightarrow> 0 < left \<Longrightarrow>
   rr_outcome (fr_end x) \<noteq> Unverified \<Longrightarrow> clean_pass rt spec c opts x w'"
proof (induction left arbitrary: current accum combined w)
  case (Suc left)
  let ?opts = "opts\<lparr>po_round_offset := rounds - Suc left\<rparr>"
  obtain feedback block report w1 where p:
      "review_pass rt spec c (pv_run_timeout (rs_policy spec)) ?opts (left > 0) w = ((feedback, block, report), w1)"
    by (metis prod.exhaust)
  let ?m = "merge_reports combined report"
  note run = Suc.prems(1) [unfolded repair_from.simps p prod.case Let_def]
  have b: "block = []"
  proof (rule ccontr)
    assume "block \<noteq> []"
    with run have "x = unverified_because block (current\<lparr>fr_review := ?m\<rparr>)" by simp
    with Suc.prems(3) show False by (simp add: unverified_because_def)
  qed
  show ?case
  proof (cases "feedback = []")
    case True
    then have x: "x = current\<lparr>fr_review := ?m\<rparr>" "w' = w1" "combined_block_reason (run_gate rt (rs_policy spec) c) ?m = []"
      using run b Suc.prems(3) by (auto simp: unverified_because_def split: if_splits)
    have "fr_review x = ?m" by (simp add: x(1))
    with p x(3) show ?thesis unfolding clean_pass_def x(2) True b
      by (intro exI [of _ ?opts] exI [of _ "left > 0"] exI [of _ report] exI [of _ combined] exI [of _ w]) simp
  next
    case False
    then have "0 < left"
    proof -
      have "left = 0 \<Longrightarrow> feedback = []" using p by (auto dest: last_pass_decides)
      with False show ?thesis by auto
    qed
    from False b run obtain go where go: "loop = Some go" using Suc.prems(3)
      by (cases loop) (auto simp: unverified_because_def)
    obtain r w2 where r: "go (without_reviewer rt) spec (c\<lparr>ct_task := repair_task (ct_task c) feedback\<rparr>) w1 = (r, w2)" by fastforce
    obtain y where y: "lr_end r = RunDone y" "fr_error y = None"
      using run b False go r by (cases "lr_end r") (auto split: option.splits)
    from run b False go r y
    have "repair_from rt spec c opts loop rounds left (y\<lparr>fr_usage := add_usage (fr_usage y) accum, fr_review := ?m\<rparr>)
        (add_usage (fr_usage y) accum) (mark_expired_repaired ?m) w2 = (Some (x, None), w')" by simp
    from Suc.IH [OF this \<open>0 < left\<close> Suc.prems(3)] show ?thesis .
  qed
qed simp


definition content_reviewer :: "string runtime" where
  "content_reviewer =
     (demo_runtime demo_model)\<lparr>rt_gate := demo_deps\<lparr>d_reviewer := (\<lambda>i w. (ReviewOk (demo_verdict []), w))\<rparr>\<rparr>"


end
