(* ===== verification/SseFilter.thy ===== *)
theory SseFilter
  imports Prelude
begin

text \<open>
  The filter in front of the event-stream decoder of the chat adapter
  (\<open>provider/openaicompat/ssefilter.go\<close>): a machine over the received bytes that drops comment
  lines and the blank lines behind which a decoder would find nothing. The wrapped body is the
  list of the answers it gives to \<open>Read\<close>; behind its last answer it is at its end.
\<close>

section \<open>The machine\<close>

definition newline :: char where "newline = CHR 0x0A"
definition return :: char where "return = CHR 0x0D"

record sse_filter =
  sf_mid :: bool
  sf_comment :: bool
  sf_return :: bool
  sf_saw :: bool

definition new_sse_filter :: sse_filter where
  "new_sse_filter = \<lparr> sf_mid = False, sf_comment = False, sf_return = False, sf_saw = False \<rparr>"

text \<open>One byte: the next state and the bytes that go out.\<close>

definition sse_byte :: "sse_filter \<Rightarrow> char \<Rightarrow> sse_filter \<times> string" where
  "sse_byte f c =
     (if sf_comment f then (if c = newline then f\<lparr>sf_comment := False\<rparr> else f, [])
      else if sf_mid f then (if c = newline then f\<lparr>sf_mid := False\<rparr> else f, [c])
      else if sf_return f then
        (let g = f\<lparr>sf_return := False\<rparr> in
         if c = newline then (if sf_saw g then (g\<lparr>sf_saw := False\<rparr>, [return, newline]) else (g, []))
         else (g\<lparr>sf_saw := True, sf_mid := True\<rparr>, [return, c]))
      else if c = CHR '':'' then (f\<lparr>sf_comment := True\<rparr>, [])
      else if c = newline then (if sf_saw f then (f\<lparr>sf_saw := False\<rparr>, [newline]) else (f, []))
      else if c = return then (f\<lparr>sf_return := True\<rparr>, [])
      else (f\<lparr>sf_saw := True, sf_mid := True\<rparr>, [c]))"

fun sse_transform :: "sse_filter \<Rightarrow> string \<Rightarrow> string \<Rightarrow> sse_filter \<times> string" where
  "sse_transform f out [] = (f, out)"
| "sse_transform f out (c # b) = (case sse_byte f c of (g, e) \<Rightarrow> sse_transform g (out @ e) b)"

section \<open>Reading\<close>

datatype body_error = EndOfStream | ReadFailed string

record sse_reader =
  sr_body :: "(string \<times> body_error option) list"
  sr_filter :: sse_filter
  sr_out :: string
  sr_err :: "body_error option"

definition new_sse_comment_filter :: "(string \<times> body_error option) list \<Rightarrow> sse_reader" where
  "new_sse_comment_filter body = \<lparr> sr_body = body, sr_filter = new_sse_filter, sr_out = [], sr_err = None \<rparr>"

text \<open>The loop of \<open>Read\<close>, entered with nothing to serve and no error.\<close>

fun sse_fill :: "(string \<times> body_error option) list \<Rightarrow> sse_filter \<Rightarrow> sse_reader" where
  "sse_fill [] f = \<lparr> sr_body = [], sr_filter = f, sr_out = [], sr_err = Some EndOfStream \<rparr>"
| "sse_fill ((b, e) # body) f =
     (case sse_transform f [] b of
        (g, out) \<Rightarrow>
          if out = [] \<and> e = None then sse_fill body g
          else \<lparr> sr_body = body, sr_filter = g, sr_out = out, sr_err = e \<rparr>)"

definition sse_read :: "nat \<Rightarrow> sse_reader \<Rightarrow> (string \<times> body_error option) \<times> sse_reader" where
  "sse_read n r =
     (let r1 = (if sr_out r = [] \<and> sr_err r = None then sse_fill (sr_body r) (sr_filter r) else r) in
      if sr_out r1 = [] then (([], sr_err r1), r1)
      else ((take n (sr_out r1), None), r1\<lparr>sr_out := drop n (sr_out r1)\<rparr>))"

text \<open>A client that reads into buffers of the given sizes until an error.\<close>

fun sse_reads :: "nat list \<Rightarrow> sse_reader \<Rightarrow> string \<times> body_error option" where
  "sse_reads [] r = ([], None)"
| "sse_reads (n # ns) r =
     (case sse_read n r of
        ((got, Some e), r1) \<Rightarrow> (got, Some e)
      | ((got, None), r1) \<Rightarrow> (case sse_reads ns r1 of (later, e) \<Rightarrow> (got @ later, e)))"

section \<open>Lines\<close>

text \<open>Lines with their newline; the last one may lack it.\<close>

fun sse_lines :: "string \<Rightarrow> string list" where
  "sse_lines [] = []"
| "sse_lines (c # s) =
     (if c = newline then [c] # sse_lines s
      else (case sse_lines s of [] \<Rightarrow> [[c]] | l # ls \<Rightarrow> (c # l) # ls))"

definition comment_line :: "string \<Rightarrow> bool" where
  "comment_line l \<longleftrightarrow> (case l of c # r \<Rightarrow> c = CHR '':'' | [] \<Rightarrow> False)"

definition blank_line :: "string \<Rightarrow> bool" where
  "blank_line l \<longleftrightarrow> l = [newline] \<or> l = [return, newline]"

text \<open>What is kept: the lines of fields, and a blank line behind at least one of them.\<close>

fun keep_lines :: "bool \<Rightarrow> string list \<Rightarrow> string list" where
  "keep_lines saw [] = []"
| "keep_lines saw (l # ls) =
     (if comment_line l \<or> l = [return] then keep_lines saw ls
      else if blank_line l then (if saw then l # keep_lines False ls else keep_lines saw ls)
      else l # keep_lines True ls)"

definition filtered :: "string \<Rightarrow> string" where
  "filtered s = concat (keep_lines False (sse_lines s))"

text \<open>A decoder: a blank line dispatches the lines collected since the last one, comments are skipped,
  what is not dispatched at the end of the stream is lost.\<close>

fun dispatches :: "string list \<Rightarrow> string list \<Rightarrow> string list list" where
  "dispatches cur [] = []"
| "dispatches cur (l # ls) =
     (if comment_line l then dispatches cur ls
      else if blank_line l then cur # dispatches [] ls
      else dispatches (cur @ [l]) ls)"

definition sse_events :: "string \<Rightarrow> string list list" where
  "sse_events s = dispatches [] (sse_lines s)"

section \<open>The machine keeps lines\<close>

fun take_line :: "string \<Rightarrow> string" where
  "take_line [] = []"
| "take_line (c # s) = (if c = newline then [c] else c # take_line s)"

fun drop_line :: "string \<Rightarrow> string" where
  "drop_line [] = []"
| "drop_line (c # s) = (if c = newline then s else drop_line s)"

lemma sse_lines_by: "sse_lines s = (if s = [] then [] else take_line s # sse_lines (drop_line s))"
  by (induction s) auto

lemma lines_cons: "c \<noteq> newline \<Longrightarrow> sse_lines (c # s) = (c # take_line s) # sse_lines (drop_line s)"
  by (subst sse_lines_by) simp

lemma lines_newline: "sse_lines (newline # s) = [newline] # sse_lines s"
  by simp

lemma take_line_Nil: "take_line s = [] \<longleftrightarrow> s = []"
  by (cases s) auto

lemma transform_out: "sse_transform f out b = (fst (sse_transform f [] b), out @ snd (sse_transform f [] b))"
proof (induction b arbitrary: f out)
  case (Cons c b)
  obtain g e where "sse_byte f c = (g, e)" by fastforce
  then show ?case using Cons.IH [of g "out @ e"] Cons.IH [of g e] by simp
qed simp

lemma transform_append:
  "sse_transform f out (a @ b) = (case sse_transform f out a of (g, out') \<Rightarrow> sse_transform g out' b)"
  by (induction a arbitrary: f out) (auto split: prod.splits)

definition machine :: "bool \<Rightarrow> bool \<Rightarrow> bool \<Rightarrow> bool \<Rightarrow> sse_filter" where
  "machine mid comment ret saw = \<lparr> sf_mid = mid, sf_comment = comment, sf_return = ret, sf_saw = saw \<rparr>"

lemma machine_update [simp]:
  "(machine a b c d)\<lparr>sf_mid := x\<rparr> = machine x b c d" "(machine a b c d)\<lparr>sf_comment := x\<rparr> = machine a x c d"
  "(machine a b c d)\<lparr>sf_return := x\<rparr> = machine a b x d" "(machine a b c d)\<lparr>sf_saw := x\<rparr> = machine a b c x"
  "sf_mid (machine a b c d) = a" "sf_comment (machine a b c d) = b" "sf_return (machine a b c d) = c" "sf_saw (machine a b c d) = d"
  by (simp_all add: machine_def)

lemma special_chars [simp]: "newline \<noteq> return" "return \<noteq> newline" "CHR '':'' \<noteq> newline" "CHR '':'' \<noteq> return" "return \<noteq> CHR '':''"
  "newline \<noteq> CHR '':''"
  by (simp_all add: newline_def return_def)

lemma sse_byte_machine:
  "sse_byte (machine False True False saw) c = (machine False (c \<noteq> newline) False saw, [])"
  "sse_byte (machine True False False saw) c = (machine (c \<noteq> newline) False False saw, [c])"
  "sse_byte (machine False False True saw) c =
     (if c = newline then (if saw then (machine False False False False, [return, newline]) else (machine False False False saw, []))
      else (machine True False False True, [return, c]))"
  "sse_byte (machine False False False saw) c =
     (if c = CHR '':'' then (machine False True False saw, [])
      else if c = newline then (if saw then (machine False False False False, [newline]) else (machine False False False saw, []))
      else if c = return then (machine False False True saw, [])
      else (machine True False False True, [c]))"
  by (auto simp: sse_byte_def Let_def)

lemma keep_cons:
  "keep_lines saw (sse_lines (CHR '':'' # s)) = keep_lines saw (sse_lines (drop_line s))"
  "keep_lines saw (sse_lines (newline # s)) = (if saw then [newline] # keep_lines False (sse_lines s) else keep_lines saw (sse_lines s))"
  "c \<notin> {CHR '':'', newline, return} \<Longrightarrow>
     keep_lines saw (sse_lines (c # s)) = (c # take_line s) # keep_lines True (sse_lines (drop_line s))"
  "keep_lines saw (sse_lines [return]) = []"
  "keep_lines saw (sse_lines (return # newline # s)) =
     (if saw then [return, newline] # keep_lines False (sse_lines s) else keep_lines saw (sse_lines s))"
  "c \<noteq> newline \<Longrightarrow> keep_lines saw (sse_lines (return # c # s)) = (return # c # take_line s) # keep_lines True (sse_lines (drop_line s))"
  by (auto simp: lines_cons lines_newline comment_line_def blank_line_def take_line_Nil simp del: sse_lines.simps(2))

lemma machine_keeps:
  "snd (sse_transform (machine False True False saw) [] s) = concat (keep_lines saw (sse_lines (drop_line s)))"
  "snd (sse_transform (machine True False False True) [] s) = take_line s @ concat (keep_lines True (sse_lines (drop_line s)))"
  "snd (sse_transform (machine False False True saw) [] s) = concat (keep_lines saw (sse_lines (return # s)))"
  "snd (sse_transform (machine False False False saw) [] s) = concat (keep_lines saw (sse_lines s))"
proof (induction s arbitrary: saw)
  case (Cons c s)
  note step = sse_transform.simps(2) sse_byte_machine prod.case
  {
    case 1
    show ?case using Cons.IH by (cases "c = newline") (simp_all add: step)
  next
    case 2
    show ?case using Cons.IH transform_out [of _ "[c]" s] by (cases "c = newline") (simp_all add: step)
  next
    case 3
    show ?case using Cons.IH transform_out [of _ "[return, c]" s]
      by (cases "c = newline") (simp_all add: step keep_cons del: sse_lines.simps(2))
  next
    case 4
    consider "c = CHR '':''" | "c = newline" | "c = return" | "c \<notin> {CHR '':'', newline, return}" by blast
    then show ?case using Cons.IH transform_out [of _ "[c]" s]
      by cases (simp_all add: step keep_cons del: sse_lines.simps(2))
  }
next
  case Nil
  {
    case 1 show ?case by simp
  next
    case 2 show ?case by simp
  next
    case 3 show ?case by (simp add: keep_cons del: sse_lines.simps(2))
  next
    case 4 show ?case by simp
  }
qed

lemma transform_filtered: "snd (sse_transform new_sse_filter [] s) = filtered s"
  using machine_keeps(4) [of False s] by (simp add: new_sse_filter_def machine_def filtered_def)

section \<open>The decoder behind the filter\<close>

definition full_line :: "string \<Rightarrow> bool" where
  "full_line l \<longleftrightarrow> (\<exists>r. l = r @ [newline] \<and> newline \<notin> set r)"

fun proper_lines :: "string list \<Rightarrow> bool" where
  "proper_lines [] = True"
| "proper_lines (l # ls) = ((full_line l \<or> ls = [] \<and> l \<noteq> [] \<and> newline \<notin> set l) \<and> proper_lines ls)"

lemma full_line_append: "newline \<notin> set r \<Longrightarrow> sse_lines (r @ newline # s) = (r @ [newline]) # sse_lines s"
  by (induction r) auto

lemma open_line: "newline \<notin> set l \<Longrightarrow> l \<noteq> [] \<Longrightarrow> sse_lines l = [l]"
proof (induction l)
  case (Cons c l)
  then show ?case by (cases "l = []") auto
qed simp

lemma lines_concat: "proper_lines ls \<Longrightarrow> sse_lines (concat ls) = ls"
  by (induction ls) (auto simp: full_line_def full_line_append open_line)

lemma proper_sse_lines: "proper_lines (sse_lines s)"
proof (induction s)
  case (Cons c s)
  have "full_line [newline]" by (simp add: full_line_def)
  moreover have "full_line (c # l)" if "full_line l" "c \<noteq> newline" for l
    using that unfolding full_line_def by (metis append_Cons set_ConsD)
  ultimately show ?case using Cons by (auto split: list.splits)
qed simp

lemma proper_keep: "proper_lines ls \<Longrightarrow> proper_lines (keep_lines saw ls)"
proof (induction saw ls rule: keep_lines.induct)
  case (2 saw l ls)
  have "full_line l \<or> keep_lines True ls = [] \<and> l \<noteq> [] \<and> newline \<notin> set l"
    using 2 by auto
  moreover have "full_line l" if "blank_line l" using that by (auto simp: blank_line_def full_line_def)
  ultimately show ?case using 2 by auto
qed simp

lemma dispatch_kept:
  "proper_lines ls \<Longrightarrow> saw = (cur \<noteq> []) \<Longrightarrow>
   dispatches cur (keep_lines saw ls) = filter (\<lambda>b. b \<noteq> []) (dispatches cur ls)"
proof (induction ls arbitrary: cur saw)
  case (Cons l ls)
  have blank: "\<not> comment_line l" "l \<noteq> [return]" if "blank_line l"
    using that by (auto simp: blank_line_def comment_line_def)
  show ?case
  proof (cases "l = [return]")
    case True
    then have "ls = []" using Cons.prems(1) by (auto simp: full_line_def)
    with True show ?thesis by (simp add: comment_line_def blank_line_def)
  next
    case False
    consider "comment_line l" | "blank_line l" | "\<not> comment_line l" "\<not> blank_line l" by blast
    then show ?thesis
    proof cases
      case 1
      then show ?thesis using Cons by simp
    next
      case 2
      then show ?thesis using Cons.IH [of False "[]"] Cons.prems blank by (cases "cur = []") simp_all
    next
      case 3
      then show ?thesis using Cons.IH [of True "cur @ [l]"] Cons.prems False by simp
    qed
  qed
qed simp

section \<open>Reading is filtering\<close>

text \<open>The bytes of the body up to its end or its first error, and how it ends.\<close>

fun body_bytes :: "(string \<times> body_error option) list \<Rightarrow> string" where
  "body_bytes [] = []"
| "body_bytes ((b, e) # body) = b @ (if e = None then body_bytes body else [])"

fun body_end :: "(string \<times> body_error option) list \<Rightarrow> body_error" where
  "body_end [] = EndOfStream"
| "body_end ((b, e) # body) = (case e of None \<Rightarrow> body_end body | Some x \<Rightarrow> x)"

text \<open>What a reader still has to serve, and the error it will end with.\<close>

definition unread :: "sse_reader \<Rightarrow> string" where
  "unread r = sr_out r @ (if sr_err r = None then snd (sse_transform (sr_filter r) [] (body_bytes (sr_body r))) else [])"

definition ending :: "sse_reader \<Rightarrow> body_error" where
  "ending r = (case sr_err r of None \<Rightarrow> body_end (sr_body r) | Some e \<Rightarrow> e)"

lemma fill_unread:
  "unread (sse_fill body f) = snd (sse_transform f [] (body_bytes body)) \<and> ending (sse_fill body f) = body_end body
   \<and> (sr_out (sse_fill body f) = [] \<longrightarrow> sr_err (sse_fill body f) \<noteq> None)"
proof (induction body f rule: sse_fill.induct)
  case (2 b e body f)
  obtain g out where t: "sse_transform f [] b = (g, out)" by fastforce
  have "sse_transform f [] (b @ s) = sse_transform g out s" for s by (simp add: transform_append t)
  then show ?case using 2 t transform_out [of g out] by (auto simp: unread_def ending_def split: option.splits)
qed (simp add: unread_def ending_def)

lemma read_unread:
  assumes "sse_read n r = ((got, e), r')"
  shows "case e of
      None \<Rightarrow> unread r = got @ unread r' \<and> ending r' = ending r \<and> (0 < n \<longrightarrow> got \<noteq> [])
    | Some x \<Rightarrow> got = [] \<and> unread r = [] \<and> x = ending r"
proof -
  define r1 where "r1 = (if sr_out r = [] \<and> sr_err r = None then sse_fill (sr_body r) (sr_filter r) else r)"
  have r1: "unread r1 = unread r" "ending r1 = ending r" "sr_out r1 = [] \<longrightarrow> sr_err r1 \<noteq> None"
    using fill_unread [of "sr_body r" "sr_filter r"] by (auto simp: r1_def unread_def ending_def)
  have read: "sse_read n r = (if sr_out r1 = [] then (([], sr_err r1), r1)
      else ((take n (sr_out r1), None), r1\<lparr>sr_out := drop n (sr_out r1)\<rparr>))"
    by (simp add: sse_read_def r1_def Let_def)
  show ?thesis
  proof (cases "sr_out r1 = []")
    case True
    with r1 read assms show ?thesis by (auto simp: unread_def ending_def split: option.splits)
  next
    case False
    then have "got = take n (sr_out r1)" "e = None" "r' = r1\<lparr>sr_out := drop n (sr_out r1)\<rparr>" using read assms by auto
    moreover have "unread r1 = take n (sr_out r1) @ unread (r1\<lparr>sr_out := drop n (sr_out r1)\<rparr>)"
        "ending (r1\<lparr>sr_out := drop n (sr_out r1)\<rparr>) = ending r1"
      by (simp_all add: unread_def ending_def split: option.splits)
    ultimately show ?thesis using r1 False by auto
  qed
qed

lemma reads_unread:
  "sse_reads ns r = (got, e) \<Longrightarrow>
     (\<exists>later. unread r = got @ later \<and> (e \<noteq> None \<longrightarrow> later = []))
   \<and> (e = None \<or> e = Some (ending r))
   \<and> (0 \<notin> set ns \<longrightarrow> length (unread r) < length ns \<longrightarrow> e \<noteq> None)"
proof (induction ns arbitrary: r got e)
  case (Cons n ns)
  obtain g x r1 where 1: "sse_read n r = ((g, x), r1)" by (metis prod.exhaust)
  show ?case
  proof (cases x)
    case None
    obtain g' e' where 2: "sse_reads ns r1 = (g', e')" by fastforce
    have got: "got = g @ g'" "e = e'" using Cons.prems 1 None 2 by auto
    have r: "unread r = g @ unread r1" "ending r1 = ending r" "0 < n \<Longrightarrow> g \<noteq> []" using read_unread [OF 1] None by auto
    obtain later where l: "unread r1 = g' @ later" "e' \<noteq> None \<longrightarrow> later = []" "e' = None \<or> e' = Some (ending r1)"
        "0 \<notin> set ns \<longrightarrow> length (unread r1) < length ns \<longrightarrow> e' \<noteq> None"
      using Cons.IH [OF 2] by auto
    have "length (unread r1) < length ns" if "0 \<notin> set (n # ns)" "length (unread r) < length (n # ns)"
    proof -
      have "0 < length g" using r(3) that(1) by auto
      moreover have "length g + length (unread r1) < Suc (length ns)" using that(2) r(1) by simp
      ultimately show ?thesis by linarith
    qed
    then have "0 \<notin> set (n # ns) \<longrightarrow> length (unread r) < length (n # ns) \<longrightarrow> e' \<noteq> None" using l(4) by auto
    moreover have "unread r = got @ later" using r(1) l(1) got(1) by simp
    ultimately show ?thesis using l(2,3) r(2) got(2) by simp
  next
    case (Some y)
    with Cons.prems 1 read_unread [OF 1] show ?thesis by auto
  qed
qed auto

section \<open>Properties\<close>

text \<open>C15: The filter loses no event and dispatches no empty one. A decoder that dispatches at every blank line,
  behind comments and keep-alives too, finds in the filtered stream exactly the blocks with at
  least one field line that it finds in the stream itself, line for line and in order; and no
  comment line is left in it.\<close>

theorem sse_filter_transparent:
  "sse_events (snd (sse_transform new_sse_filter [] s)) = filter (\<lambda>block. block \<noteq> []) (sse_events s)
   \<and> \<not> list_ex comment_line (sse_lines (snd (sse_transform new_sse_filter [] s)))"
proof
  have lines: "sse_lines (filtered s) = keep_lines False (sse_lines s)"
    by (simp add: filtered_def lines_concat proper_keep proper_sse_lines)
  show "sse_events (snd (sse_transform new_sse_filter [] s)) = filter (\<lambda>block. block \<noteq> []) (sse_events s)"
    unfolding transform_filtered sse_events_def lines by (rule dispatch_kept) (simp_all add: proper_sse_lines)
  have "\<not> list_ex comment_line (keep_lines saw ls)" for saw ls
    by (induction saw ls rule: keep_lines.induct) auto
  then show "\<not> list_ex comment_line (sse_lines (snd (sse_transform new_sse_filter [] s)))"
    by (simp add: transform_filtered lines)
qed

text \<open>C16: Reading through the filter is filtering, however the bytes arrive and whatever the sizes of the
  buffers. A client that reads until an error gets a piece of the filtered stream; once it has
  an error it has all of it, and the error is the one the body ended with; and it gets there: a
  read into a buffer with room never comes back with nothing, so that one more read than there
  are bytes is enough.\<close>

theorem sse_read_delivers:
  assumes "sse_reads ns (new_sse_comment_filter body) = (got, e)"
  shows "(\<exists>later. filtered (body_bytes body) = got @ later \<and> (e \<noteq> None \<longrightarrow> later = []))
    \<and> (e = None \<or> e = Some (body_end body))
    \<and> (0 \<notin> set ns \<longrightarrow> length (filtered (body_bytes body)) < length ns \<longrightarrow> e \<noteq> None)"
  using reads_unread [OF assms]
  by (simp add: unread_def ending_def new_sse_comment_filter_def transform_filtered)

definition demo_body :: "(string \<times> body_error option) list" where
  "demo_body =
     [('': PROCESSING'' @ nl, None), (nl @ ''data: '', None), (''a'' @ nl @ nl @ '': x'', None), (nl @ nl @ ''data: b'' @ nl @ nl, None)]"

theorem sse_read_delivers_witness:
  "sse_reads (replicate 30 4) (new_sse_comment_filter demo_body) = (''data: a'' @ nl @ nl @ ''data: b'' @ nl @ nl, Some EndOfStream)"
proof -
  obtain got e where r: "sse_reads (replicate 30 4) (new_sse_comment_filter demo_body) = (got, e)" by fastforce
  have "filtered (body_bytes demo_body) = ''data: a'' @ nl @ nl @ ''data: b'' @ nl @ nl" "body_end demo_body = EndOfStream"
    "length (''data: a'' @ nl @ nl @ ''data: b'' @ nl @ nl) < 30"
    by code_simp+
  with sse_read_delivers [OF r] r show ?thesis by auto
qed

text \<open>A block of fields without data still comes out as an event, with nothing to decode.\<close>

theorem dataless_block_dispatched:
  "sse_events (snd (sse_transform new_sse_filter [] (''retry: 3000'' @ nl @ nl))) = [[''retry: 3000'' @ nl]]"
  by code_simp

end
