(* ===== verification/JsonRound.thy ===== *)
theory JsonRound
  imports NativeTools
begin

text \<open>
  \<open>json.Marshal\<close> and \<open>json.Unmarshal\<close> are inverse on decoded values, up to the order and the duplicates
  of members, which a Go map does not have. With it: when two argument texts of tool calls have the
  same canonical text, and that reassembled texts are read back as they were written.
\<close>

section \<open>Runes\<close>

fun valid_rune :: "string \<Rightarrow> bool" where
  "valid_rune [] = False"
| "valid_rune (c # t) \<longleftrightarrow>
     rune_width (of_char c) = Suc (length t) \<and> (t = [] \<or> second_ok (of_char c) (hd t) \<and> list_all cont_byte (tl t))"

definition valid_text :: "string \<Rightarrow> bool" where
  "valid_text s \<longleftrightarrow> of_runes (runes s) = s"

lemma valid_rune_error: "valid_rune rune_error"
  by code_simp

lemma decode_rune_valid: "valid_rune (fst (decode_rune c s))"
proof -
  let ?w = "rune_width (of_char c :: nat)"
  consider "?w = 1" | "2 \<le> ?w" "?w - 1 \<le> length s" "second_ok (of_char c) (hd s)" "list_all cont_byte (tl (take (?w - 1) s))"
    | "decode_rune c s = (rune_error, 1)"
    unfolding decode_rune_def Let_def One_nat_def by presburger
  then show ?thesis
  proof cases
    case 1
    then show ?thesis by (simp add: decode_rune_def)
  next
    case 2
    then have "hd (take (?w - 1) s) = hd s" by (cases s) (auto simp: take_Cons')
    with 2 show ?thesis by (simp add: decode_rune_def Let_def)
  qed (simp add: valid_rune_error)
qed

lemma decode_valid:
  assumes "valid_rune (c # t)"
  shows "decode_rune c (t @ s) = (c # t, Suc (length t))"
proof (cases "t = []")
  case False
  then have "hd (t @ s) = hd t" by simp
  with assms False show ?thesis by (simp add: decode_rune_def Let_def Suc_le_eq)
qed (use assms in \<open>simp add: decode_rune_def\<close>)

lemma runes_valid: "\<forall>r \<in> set (runes s). valid_rune r"
  by (induction s rule: runes.induct) (auto simp: decode_rune_valid)

lemma runes_append: "valid_rune r \<Longrightarrow> runes (r @ s) = r # runes s"
  by (cases r) (simp_all add: decode_valid del: valid_rune.simps(2))

lemma runes_concat: "\<forall>r \<in> set rs. valid_rune r \<Longrightarrow> runes (concat rs @ s) = rs @ runes s"
  by (induction rs) (simp_all add: runes_append)

lemma valid_of_runes: "valid_text (of_runes (runes s))"
  using runes_concat [OF runes_valid, of s "[]"] by (simp add: valid_text_def of_runes_def)

lemma valid_append: "valid_text s \<Longrightarrow> valid_text t \<Longrightarrow> valid_text (s @ t)"
  using runes_concat [OF runes_valid, of s t] by (simp add: valid_text_def of_runes_def)

lemma valid_ascii: "is_ascii s \<Longrightarrow> valid_text s"
  by (simp add: valid_text_def of_runes_ascii)


section \<open>Strings\<close>

lemma hex_value_digit: "n < 16 \<Longrightarrow> hex_value (hex_digit n) = Some n"
  by (simp add: hex_value_def hex_digit_def Let_def)

lemma lex_plain:
  "c \<noteq> dquote \<Longrightarrow> c \<noteq> backslash \<Longrightarrow> 32 \<le> (of_char c :: nat) \<Longrightarrow>
   lex_string (c # s) = map_option (\<lambda>(u, rest). (c # u, rest)) (lex_string s)"
  by (subst lex_string.simps) simp

lemma lex_escape:
  "escape (backslash # s) = Some (t, n) \<Longrightarrow>
   lex_string (backslash # s) = map_option (\<lambda>(u, rest). (t @ u, rest)) (lex_string (drop n s))"
  by (subst lex_string.simps) (simp add: backslash_def dquote_def)

lemma escape_unicode:
  assumes "n < 65536" "\<not> (55296 \<le> n \<and> n < 57344)"
  shows "escape (unicode_escaped n @ s) = Some (encode_rune n, 5)"
proof -
  have "hex_value (hex_digit (n div 4096)) = Some (n div 4096)" "hex_value (hex_digit (n div 256 mod 16)) = Some (n div 256 mod 16)"
    "hex_value (hex_digit (n div 16 mod 16)) = Some (n div 16 mod 16)" "hex_value (hex_digit (n mod 16)) = Some (n mod 16)"
    using assms by (intro hex_value_digit; simp)+
  moreover have "4096 * (n div 4096) + 256 * (n div 256 mod 16) + 16 * (n div 16 mod 16) + n mod 16 = n"
  proof -
    have "16 * (n div 16) + n mod 16 = n" "16 * (n div 16 div 16) + n div 16 mod 16 = n div 16"
      "16 * (n div 256 div 16) + n div 256 mod 16 = n div 256"
      by (rule mult_div_mod_eq)+
    moreover have "n div 16 div 16 = n div 256" "n div 256 div 16 = n div 4096" by (simp_all add: div_mult2_eq [symmetric])
    ultimately show ?thesis by linarith
  qed
  ultimately have "unicode_escape (unicode_escaped n @ s) = Some n"
    by (simp add: unicode_escape_def unicode_escaped_def)
  then show ?thesis using assms by (auto simp: escape_def unicode_escaped_def backslash_def dquote_def)
qed

lemma lex_unicode:
  assumes "n < 65536" "\<not> (55296 \<le> n \<and> n < 57344)"
  shows "lex_string (unicode_escaped n @ s) = map_option (\<lambda>(u, rest). (encode_rune n @ u, rest)) (lex_string s)"
  using lex_escape [of "tl (unicode_escaped n) @ s" "encode_rune n" 5] escape_unicode [OF assms, of s]
  by (simp add: unicode_escaped_def)

lemma short_bytes:
  "json_byte dquote = [backslash, dquote]" "json_byte backslash = [backslash, backslash]"
  "json_byte (CHR 0x08) = [backslash, CHR ''b'']" "json_byte (CHR 0x0C) = [backslash, CHR ''f'']"
  "json_byte (CHR 0x0A) = [backslash, CHR ''n'']" "json_byte (CHR 0x0D) = [backslash, CHR ''r'']"
  "json_byte (CHR 0x09) = [backslash, CHR ''t'']"
  by code_simp+

lemma other_bytes:
  assumes "c \<noteq> dquote" "c \<noteq> backslash" "c \<notin> {CHR 0x08, CHR 0x0C, CHR 0x0A, CHR 0x0D, CHR 0x09}"
  shows "json_byte c = (if (of_char c :: nat) < 32 \<or> c \<in> set ''<>&'' then unicode_escaped (of_char c) else [c])"
proof -
  have n: "(of_char c :: nat) \<noteq> of_char d" if "c \<noteq> d" for d using that by simp
  show ?thesis using assms n [of "CHR 0x08"] n [of "CHR 0x0C"] n [of "CHR 0x0A"] n [of "CHR 0x0D"] n [of "CHR 0x09"]
    unfolding json_byte_def Let_def by simp
qed

lemma lex_json_byte: "lex_string (json_byte c @ s) = map_option (\<lambda>(u, rest). (c # u, rest)) (lex_string s)"
proof -
  have short: ?thesis if "json_byte c = [backslash, x]" "escape (backslash # x # s) = Some ([c], 1)" for x
    using that lex_escape [of "x # s" "[c]" 1] by simp
  have esc: "escape (backslash # dquote # s) = Some ([dquote], 1)" "escape (backslash # backslash # s) = Some ([backslash], 1)"
    "escape (backslash # CHR ''b'' # s) = Some ([CHR 0x08], 1)" "escape (backslash # CHR ''f'' # s) = Some ([CHR 0x0C], 1)"
    "escape (backslash # CHR ''n'' # s) = Some ([CHR 0x0A], 1)" "escape (backslash # CHR ''r'' # s) = Some ([CHR 0x0D], 1)"
    "escape (backslash # CHR ''t'' # s) = Some ([CHR 0x09], 1)"
    by (simp_all add: escape_def dquote_def backslash_def)
  consider "c = dquote" | "c = backslash" | "c = CHR 0x08" | "c = CHR 0x0C" | "c = CHR 0x0A" | "c = CHR 0x0D" | "c = CHR 0x09"
    | (other) "c \<noteq> dquote" "c \<noteq> backslash" "c \<notin> {CHR 0x08, CHR 0x0C, CHR 0x0A, CHR 0x0D, CHR 0x09}"
    by blast
  then show ?thesis
  proof cases
    case other
    have h: "(of_char c :: nat) < 128" if "c \<in> set ''<>&''" using that by auto
    note b = other_bytes [OF other]
    show ?thesis
    proof (cases "(of_char c :: nat) < 32 \<or> c \<in> set ''<>&''")
      case True
      then have n: "(of_char c :: nat) < 128"
      proof
        assume "c \<in> set ''<>&''"
        then show ?thesis by (rule h)
      qed simp
      then have "encode_rune (of_char c) = [c]" by (simp add: encode_rune_def)
      moreover have "json_byte c = unicode_escaped (of_char c)" using b True by (simp only: if_True)
      moreover have "(of_char c :: nat) < 65536" "\<not> (55296 \<le> (of_char c :: nat) \<and> (of_char c :: nat) < 57344)" using n by linarith+
      ultimately show ?thesis using lex_unicode [of "of_char c" s] by simp
    next
      case False
      moreover have "json_byte c = [c]" using b False by (simp only: if_False)
      ultimately show ?thesis using lex_plain [of c s] other by simp
    qed
  qed (use short short_bytes esc in metis)+
qed

lemma lex_json_text: "lex_string (json_text s @ dquote # rest) = Some (s, rest)"
proof (induction s rule: json_text.induct)
  case 1
  show ?case by (simp add: lex_string.simps)
next
  case (2 c s)
  have e: "encode_rune 8232 = [CHR 0xE2, CHR 0x80, CHR 0xA8]" "encode_rune 8233 = [CHR 0xE2, CHR 0x80, CHR 0xA9]"
    by (simp_all add: encode_rune_def char_of_def bit_Suc_0_iff)
  show ?case
  proof (cases "has_prefix (c # s) [CHR 0xE2, CHR 0x80, CHR 0xA8]")
    case True
    from True [unfolded has_prefix_iff] obtain t where "c # s = [CHR 0xE2, CHR 0x80, CHR 0xA8] @ t" by (rule exE)
    then show ?thesis using 2(1) lex_unicode [of 8232] e by simp
  next
    case ls: False
    show ?thesis
    proof (cases "has_prefix (c # s) [CHR 0xE2, CHR 0x80, CHR 0xA9]")
      case True
      from True [unfolded has_prefix_iff] obtain t where "c # s = [CHR 0xE2, CHR 0x80, CHR 0xA9] @ t" by (rule exE)
      then show ?thesis using 2(2) lex_unicode [of 8233] e by simp
    next
      case False
      with ls have "json_text (c # s) = json_byte c @ json_text s" by (simp only: json_text.simps if_False)
      then show ?thesis using 2(3) [OF ls False] lex_json_byte [of c "json_text s @ dquote # rest"] by simp
    qed
  qed
qed

section \<open>Tokens\<close>

fun comma_tokens :: "json_token list list \<Rightarrow> json_token list" where
  "comma_tokens [] = []"
| "comma_tokens [t] = t"
| "comma_tokens (t # u # us) = t @ TComma # comma_tokens (u # us)"

fun value_tokens :: "json \<Rightarrow> json_token list" where
  "value_tokens (JArr vs) = TLBrack # comma_tokens (map value_tokens vs) @ [TRBrack]"
| "value_tokens (JObj ms) =
     TLBrace # comma_tokens (map (\<lambda>m. TLit (JStr (fst m)) # TColon # value_tokens (snd m)) ms) @ [TRBrace]"
| "value_tokens v = [TLit v]"

text \<open>A value as the parser gives it, with at most \<open>n\<close> levels of nesting.\<close>

fun json_ok :: "nat \<Rightarrow> json \<Rightarrow> bool" where
  "json_ok n (JNum t) \<longleftrightarrow> valid_number t \<and> list_all num_char t"
| "json_ok n (JStr s) \<longleftrightarrow> valid_text s"
| "json_ok n (JArr vs) \<longleftrightarrow> 0 < n \<and> (\<forall>v \<in> set vs. json_ok (n - 1) v)"
| "json_ok n (JObj ms) \<longleftrightarrow> 0 < n \<and> (\<forall>m \<in> set ms. valid_text (fst m) \<and> json_ok (n - 1) (snd m))"
| "json_ok n v \<longleftrightarrow> True"

definition delimited :: "string \<Rightarrow> bool" where
  "delimited s \<longleftrightarrow> (case s of [] \<Rightarrow> True | c # r \<Rightarrow> c = CHR '','' \<or> c = CHR '']'' \<or> c = CHR ''}'')"

definition reads_as :: "string \<Rightarrow> json_token list \<Rightarrow> bool" where
  "reads_as s ts \<longleftrightarrow> (\<forall>rest. delimited rest \<longrightarrow> json_tokens (s @ rest) = map_option ((@) ts) (json_tokens rest))"

lemma token_char:
  "json_tokens (CHR ''{'' # s) = map_option (Cons TLBrace) (json_tokens s)"
  "json_tokens (CHR ''}'' # s) = map_option (Cons TRBrace) (json_tokens s)"
  "json_tokens (CHR ''['' # s) = map_option (Cons TLBrack) (json_tokens s)"
  "json_tokens (CHR '']'' # s) = map_option (Cons TRBrack) (json_tokens s)"
  "json_tokens (CHR '':'' # s) = map_option (Cons TColon) (json_tokens s)"
  "json_tokens (CHR '','' # s) = map_option (Cons TComma) (json_tokens s)"
  by (subst json_tokens.simps, simp add: json_space_def)+

lemma string_token:
  assumes "valid_text s"
  shows "json_tokens (json_quote s @ rest) = map_option (Cons (TLit (JStr s))) (json_tokens rest)"
proof -
  have "json_tokens (dquote # json_text s @ dquote # rest) = map_option (Cons (TLit (JStr (of_runes (runes s))))) (json_tokens rest)"
    by (subst json_tokens.simps) (simp add: lex_json_text [unfolded dquote_def] json_space_def dquote_def)
  then show ?thesis using assms by (simp add: json_quote_def valid_text_def)
qed

lemma number_token:
  assumes "valid_number t" "list_all num_char t" "delimited rest"
  shows "json_tokens (t @ rest) = map_option (Cons (TLit (JNum t))) (json_tokens rest)"
proof -
  have "t \<noteq> []" using assms(1) by (auto simp: valid_number_def)
  then obtain c u where t: "t = c # u" "num_char c" "list_all num_char u" using assms(2) by (cases t) auto
  have d: "takeWhile num_char (u @ rest) = u" "dropWhile num_char (u @ rest) = rest"
    using t(3) assms(3) by (auto simp: takeWhile_append dropWhile_append list_all_iff delimited_def num_char_def is_digit_def split: list.splits)
  have c: "\<not> json_space c" "c \<notin> {CHR ''{'', CHR ''}'', CHR ''['', CHR '']'', CHR '':'', CHR '','', dquote}"
    using t(2) by (auto simp: num_char_def json_space_def is_digit_def dquote_def)
  show ?thesis using c t assms(1) d by (simp add: json_tokens.simps(2))
qed

lemma literal_token:
  "json_tokens (''null'' @ rest) = map_option (Cons (TLit JNull)) (json_tokens rest)"
  "json_tokens (''true'' @ rest) = map_option (Cons (TLit (JBool True))) (json_tokens rest)"
  "json_tokens (''false'' @ rest) = map_option (Cons (TLit (JBool False))) (json_tokens rest)"
  by (simp_all add: json_tokens.simps(2) json_space_def num_char_def is_digit_def dquote_def)

lemma delimited_intros [simp]: "delimited []" "delimited (CHR '','' # s)" "delimited (CHR '']'' # s)" "delimited (CHR ''}'' # s)"
  by (simp_all add: delimited_def)

lemma append_fun: "(@) (x # xs) = (\<lambda>z. x # xs @ z)" "(@) (xs @ ys) = (\<lambda>z. xs @ ys @ z)"
  by (simp_all add: fun_eq_iff)

lemma reads_join:
  assumes "\<forall>x \<in> set xs. reads_as (f x) (g x)" "delimited rest"
  shows "json_tokens (str_join (map f xs) '','' @ rest) = map_option ((@) (comma_tokens (map g xs))) (json_tokens rest)"
  using assms(1)
proof (induction xs)
  case Nil
  then show ?case by (simp add: option.map_id0 [unfolded id_def])
next
  case (Cons x xs)
  show ?case
  proof (cases xs)
    case Nil
    then show ?thesis using Cons.prems assms(2) by (simp add: reads_as_def)
  next
    case (Cons y ys)
    then show ?thesis using Cons.IH Cons.prems
      by (simp add: reads_as_def token_char option.map_comp comp_def append_fun)
  qed
qed

text \<open>What a Go map makes of an object: each key once, with its last value, in the order of the keys.\<close>

fun json_normal :: "json \<Rightarrow> json" where
  "json_normal (JArr vs) = JArr (map json_normal vs)"
| "json_normal (JObj ms) =
     (let es = map (\<lambda>m. (fst m, json_normal (snd m))) ms in
      JObj (map (\<lambda>k. (k, the (map_of (rev es) k))) (sort (remdups (map fst es)))))"
| "json_normal v = v"

definition last_members :: "(string \<times> 'a) list \<Rightarrow> (string \<times> 'a) list" where
  "last_members ms = map (\<lambda>k. (k, the (map_of (rev ms) k))) (sort (remdups (map fst ms)))"

lemma last_members_map: "last_members (map (\<lambda>m. (fst m, f (snd m))) ms) = map (\<lambda>m. (fst m, f (snd m))) (last_members ms)"
proof -
  have "the (map_of (rev (map (\<lambda>m. (fst m, f (snd m))) ms)) k) = f (the (map_of (rev ms) k))" if "k \<in> set (map fst ms)" for k
  proof -
    have "map_of (rev ms) k \<noteq> None" using that by (simp add: map_of_eq_None_iff)
    then obtain v where "map_of (rev ms) k = Some v" by auto
    then have "map_of (map (\<lambda>(k, v). (k, f v)) (rev ms)) k = Some (f v)" by (simp add: map_of_map)
    with \<open>map_of (rev ms) k = Some v\<close> show ?thesis by (simp add: rev_map case_prod_beta')
  qed
  then show ?thesis by (simp add: last_members_def comp_def)
qed

lemma last_members_in: "m \<in> set (last_members ms) \<Longrightarrow> m \<in> set ms"
proof -
  assume "m \<in> set (last_members ms)"
  then obtain k where k: "m = (k, the (map_of (rev ms) k))" "k \<in> fst ` set ms" by (auto simp: last_members_def)
  then have "map_of (rev ms) k \<noteq> None" by (simp add: map_of_eq_None_iff)
  then obtain v where "map_of (rev ms) k = Some v" by auto
  with k show ?thesis by (auto dest: map_of_SomeD)
qed

lemma last_members_idem: "last_members (last_members ms) = last_members ms"
proof -
  let ?K = "sort (remdups (map fst ms))"
  have f: "map fst (last_members ms) = ?K" by (simp add: last_members_def comp_def)
  have d: "distinct (map fst (last_members ms))" unfolding f by simp
  have "the (map_of (rev (last_members ms)) k) = the (map_of (rev ms) k)" if "k \<in> set ?K" for k
  proof -
    have "(k, the (map_of (rev ms) k)) \<in> set (last_members ms)" using that by (simp add: last_members_def)
    then have "map_of (rev (last_members ms)) k = Some (the (map_of (rev ms) k))"
      using d by (intro map_of_is_SomeI) (simp_all add: rev_map [symmetric])
    then show ?thesis by simp
  qed
  then have m: "map (\<lambda>k. (k, the (map_of (rev (last_members ms)) k))) ?K = last_members ms"
    unfolding last_members_def [of ms] by (intro map_cong) simp_all
  have "sort (remdups ?K) = ?K" by (simp add: distinct_remdups_id sorted_sort_id)
  with f m show ?thesis by (metis last_members_def)
qed

lemma normal_obj: "json_normal (JObj ms) = JObj (map (\<lambda>m. (fst m, json_normal (snd m))) (last_members ms))"
  unfolding last_members_map [symmetric] by (simp add: last_members_def Let_def)

lemma encode_obj:
  "json_encode (JObj ms) = ''{'' @ str_join (map (\<lambda>m. json_quote (fst m) @ '':'' @ json_encode (snd m)) (last_members ms)) '','' @ ''}''"
proof -
  have "encode_members es = ''{'' @ str_join (map (\<lambda>m. json_quote (fst m) @ '':'' @ snd m) (last_members es)) '','' @ ''}''" for es
    by (simp add: encode_members_def last_members_def comp_def)
  then show ?thesis using last_members_map [of json_encode ms] by (simp add: case_prod_beta' comp_def)
qed

declare json_normal.simps(2) [simp del] json_encode.simps(6) [simp del]

section \<open>The round trip\<close>


lemma encode_reads: "json_ok n v \<Longrightarrow> reads_as (json_encode v) (value_tokens (json_normal v))"
proof (induction v arbitrary: n)
  case (JArr vs)
  then have "\<forall>v \<in> set vs. reads_as (json_encode v) (value_tokens (json_normal v))" by auto
  from reads_join [OF this] show ?case
    by (simp add: reads_as_def token_char option.map_comp comp_def append_fun)
next
  case (JObj ms)
  have "reads_as (json_quote (fst m) @ '':'' @ json_encode (snd m)) (TLit (JStr (fst m)) # TColon # value_tokens (json_normal (snd m)))"
    if "m \<in> set (last_members ms)" for m
  proof -
    have m: "m \<in> set ms" by (rule last_members_in [OF that])
    then have "valid_text (fst m)" "json_ok (n - 1) (snd m)" using JObj.prems by auto
    moreover have "reads_as (json_encode (snd m)) (value_tokens (json_normal (snd m)))"
      using JObj.IH [of m "snd m"] m calculation(2) by (cases m) auto
    ultimately show ?thesis by (simp add: reads_as_def string_token token_char option.map_comp comp_def append_fun)
  qed
  then have j: "\<forall>m \<in> set (last_members ms). reads_as (json_quote (fst m) @ '':'' @ json_encode (snd m))
      (TLit (JStr (fst m)) # TColon # value_tokens (json_normal (snd m)))" by blast
  from reads_join [OF j] show ?case
    unfolding normal_obj encode_obj
    by (simp add: reads_as_def token_char option.map_comp comp_def append_fun)
qed (simp_all add: reads_as_def number_token string_token literal_token [simplified] append_fun)

lemma normal_ok: "json_ok n v \<Longrightarrow> json_ok n (json_normal v)"
proof (induction v arbitrary: n)
  case (JObj ms)
  have "valid_text (fst m) \<and> json_ok (n - 1) (json_normal (snd m))" if "m \<in> set (last_members ms)" for m
    using JObj last_members_in [OF that] by (cases m) fastforce
  then show ?case using JObj.prems by (simp add: normal_obj)
qed auto

lemma want_elements:
  assumes "\<forall>v \<in> set vs. \<forall>gs us. length gs = Suc (length fs) \<longrightarrow> want_value gs (value_tokens v @ us) = have_value gs v us" "vs \<noteq> []"
  shows "want_value (InArr pre # fs) (comma_tokens (map value_tokens vs) @ TRBrack # ts) = have_value fs (JArr (pre @ vs)) ts"
  using assms
proof (induction vs arbitrary: pre)
  case (Cons v vs)
  have w: "want_value (InArr pre # fs) (value_tokens v @ us) = have_value (InArr pre # fs) v us" for us pre
    using Cons.prems(1) by simp
  show ?case
  proof (cases vs)
    case Nil
    then show ?thesis using w by (simp add: have_value.simps)
  next
    case (Cons y ys)
    then show ?thesis using w Cons.IH [of "pre @ [v]"] Cons.prems by (simp add: have_value.simps)
  qed
qed simp

lemma want_members:
  assumes "\<forall>m \<in> set ms. \<forall>gs us. length gs = Suc (length fs) \<longrightarrow> want_value gs (value_tokens (snd m) @ us) = have_value gs (snd m) us"
  shows "want_value (InObj pre (fst m) # fs) (value_tokens (snd m) @ us) = have_value (InObj pre (fst m) # fs) (snd m) us \<Longrightarrow>
    us = (if ms = [] then [] else TComma # comma_tokens (map (\<lambda>m. TLit (JStr (fst m)) # TColon # value_tokens (snd m)) ms)) @ TRBrace # ts \<Longrightarrow>
    want_value (InObj pre (fst m) # fs) (value_tokens (snd m) @ us) = have_value fs (JObj (pre @ m # ms)) ts"
  using assms
proof (induction ms arbitrary: pre m us)
  case Nil
  then show ?case by (simp add: have_value.simps)
next
  case (Cons x ms)
  let ?vs = "(if ms = [] then [] else TComma # comma_tokens (map (\<lambda>m. TLit (JStr (fst m)) # TColon # value_tokens (snd m)) ms)) @ TRBrace # ts"
  have us: "us = TComma # TLit (JStr (fst x)) # TColon # value_tokens (snd x) @ ?vs"
    using Cons.prems(2) by (cases ms) simp_all
  have w: "want_value (InObj (pre @ [m]) (fst x) # fs) (value_tokens (snd x) @ ?vs) = have_value (InObj (pre @ [m]) (fst x) # fs) (snd x) ?vs"
    using Cons.prems(3) by simp
  have "have_value (InObj pre (fst m) # fs) (snd m) us = want_value (InObj (pre @ [m]) (fst x) # fs) (value_tokens (snd x) @ ?vs)"
    by (simp add: us have_value.simps)
  also have "\<dots> = have_value fs (JObj ((pre @ [m]) @ x # ms)) ts"
    using Cons.prems(3) by (intro Cons.IH [OF w refl]) simp
  finally show ?case using Cons.prems(1) by simp
qed

lemma tokens_head: "\<exists>t ts. value_tokens v = t # ts \<and> t \<noteq> TRBrack"
  by (cases v) auto

lemma comma_head: "vs \<noteq> [] \<Longrightarrow> \<exists>t ts. comma_tokens (map value_tokens vs) = t # ts \<and> t \<noteq> TRBrack"
proof -
  assume "vs \<noteq> []"
  then obtain v ws where vs: "vs = v # ws" by (cases vs) auto
  obtain t ts where "value_tokens v = t # ts" "t \<noteq> TRBrack" using tokens_head by blast
  with vs show ?thesis by (cases ws) simp_all
qed

lemma want_tokens:
  "json_ok n v \<Longrightarrow> length fs + n \<le> max_nesting \<Longrightarrow> want_value fs (value_tokens v @ ts) = have_value fs v ts"
proof (induction v arbitrary: n fs ts)
  case (JArr vs)
  have n: "length fs < max_nesting" "0 < n" using JArr.prems by auto
  have e: "\<forall>v \<in> set vs. \<forall>gs us. length gs = Suc (length fs) \<longrightarrow> want_value gs (value_tokens v @ us) = have_value gs v us"
    using JArr.IH [where n = "n - 1"] JArr.prems n by auto
  show ?case
  proof (cases "vs = []")
    case True
    then show ?thesis using n by (simp add: want_value.simps)
  next
    case False
    obtain t us where h: "comma_tokens (map value_tokens vs) = t # us" "t \<noteq> TRBrack" using comma_head [OF False] by blast
    have "want_value fs (value_tokens (JArr vs) @ ts) = want_value (InArr [] # fs) (comma_tokens (map value_tokens vs) @ TRBrack # ts)"
      using n h by (cases t) (simp_all add: want_value.simps)
    then show ?thesis using want_elements [OF e False, of "[]" ts] by simp
  qed
next
  case (JObj ms)
  have n: "length fs < max_nesting" "0 < n" using JObj.prems by auto
  have e: "\<forall>m \<in> set ms. \<forall>gs us. length gs = Suc (length fs) \<longrightarrow> want_value gs (value_tokens (snd m) @ us) = have_value gs (snd m) us"
  proof (intro ballI allI impI)
    fix m and gs :: "json_frame list" and us assume "m \<in> set ms" "length gs = Suc (length fs)"
    then show "want_value gs (value_tokens (snd m) @ us) = have_value gs (snd m) us"
      using JObj.prems n by (intro JObj.IH [of m, where n = "n - 1"]) (cases m; auto)+
  qed
  show ?case
  proof (cases ms)
    case Nil
    then show ?thesis using n by (simp add: want_value.simps)
  next
    case (Cons m ms')
    let ?us = "(if ms' = [] then [] else TComma # comma_tokens (map (\<lambda>m. TLit (JStr (fst m)) # TColon # value_tokens (snd m)) ms')) @ TRBrace # ts"
    have "want_value fs (value_tokens (JObj ms) @ ts) = want_value (InObj [] (fst m) # fs) (value_tokens (snd m) @ ?us)"
      using n Cons by (cases ms') (simp_all add: want_value.simps)
    also have "\<dots> = have_value fs (JObj ([] @ m # ms')) ts"
      using e Cons by (intro want_members [OF _ _ refl]) simp_all
    finally show ?thesis using Cons by simp
  qed
qed (simp_all add: want_value.simps)

lemma parse_encode:
  assumes "json_ok max_nesting v"
  shows "json_parse (json_encode v) = Some (json_normal v)"
proof -
  have "json_tokens (json_encode v @ []) = map_option ((@) (value_tokens (json_normal v))) (json_tokens [])"
    using encode_reads [OF assms] unfolding reads_as_def by (metis delimited_intros(1))
  then have "json_tokens (json_encode v) = Some (value_tokens (json_normal v))" by (simp add: json_tokens.simps(1))
  then show ?thesis using want_tokens [OF normal_ok [OF assms], of "[]" "[]"] by (simp add: json_parse_def have_value.simps)
qed

lemma encode_normal: "json_encode (json_normal v) = json_encode v"
proof (induction v)
  case (JObj ms)
  let ?n = "map (\<lambda>m. (fst m, json_normal (snd m))) (last_members ms)"
  have "last_members ?n = ?n" by (simp add: last_members_map last_members_idem)
  moreover have "json_encode (json_normal (snd m)) = json_encode (snd m)" if "m \<in> set (last_members ms)" for m
    using JObj.IH last_members_in [OF that] by (cases m) fastforce
  ultimately show ?case unfolding normal_obj by (simp add: encode_obj comp_def cong: map_cong)
qed (simp_all add: comp_def cong: map_cong)

section \<open>What the parser gives\<close>

fun token_ok :: "json_token \<Rightarrow> bool" where
  "token_ok (TLit v) \<longleftrightarrow> json_ok 0 v"
| "token_ok t \<longleftrightarrow> True"

lemma takeWhile_all: "list_all P (takeWhile P xs)"
  by (induction xs) auto

lemma tokens_ok: "json_tokens s = Some ts \<Longrightarrow> list_all token_ok ts"
proof (induction "length s" arbitrary: s ts rule: less_induct)
  case less
  show ?case
  proof (cases s)
    case Nil
    then show ?thesis using less.prems by (simp add: json_tokens.simps)
  next
    case (Cons c r)
    have shorter: "list_all token_ok us" if "json_tokens q = Some us" "length q \<le> length r" for q us
      using less.hyps [of q us] that Cons by simp
    have l: "length (drop n r) \<le> length r" "length (dropWhile num_char r) \<le> length r" for n
      by (simp_all add: length_dropWhile_le)
    have q: "length rest \<le> length r" if "lex_string r = Some (t, rest)" for t rest
      using lex_string_shorter [OF that] by simp
    have num_ok: "json_ok 0 (JNum (takeWhile num_char (c # r)))" if "valid_number (takeWhile num_char (c # r))"
      using that takeWhile_all [of num_char "c # r"] by simp
    have quoted_ok: "json_ok 0 (JStr (of_runes (runes t)))" for t by (simp add: valid_of_runes)
    have step: "\<exists>q t us. json_tokens q = Some us \<and> length q \<le> length r \<and> (ts = us \<or> ts = t # us \<and> token_ok t)"
    proof -
      note p = less.prems [unfolded Cons json_tokens.simps]
      let ?R = "\<lambda>q t. map_option (Cons t) (json_tokens q) = Some ts"
      have r: ?thesis if "?R q t" "length q \<le> length r" "token_ok t" for q t
        using that by auto
      consider "json_space c" | (plain) t where "token_ok t" "?R r t" | (str) "c = dquote" "\<not> json_space c" "c \<notin> set ''{}[]:,''"
        | (num) "num_char c" "\<not> json_space c" "c \<notin> set ''{}[]:,''" "c \<noteq> dquote"
        | (lit) t n where "token_ok t" "?R (drop n r) t"
        using p by (auto split: if_splits)
      then show ?thesis
      proof cases
        case 1
        then show ?thesis using p by (intro exI [of _ r]) auto
      next
        case str
        then obtain t rest where t: "lex_string r = Some (t, rest)" "?R rest (TLit (JStr (of_runes (runes t))))"
          using p by (auto split: option.splits)
        then show ?thesis using r [OF t(2) q [OF t(1)]] quoted_ok by simp
      next
        case num
        then have "valid_number (takeWhile num_char (c # r))" "?R (dropWhile num_char r) (TLit (JNum (takeWhile num_char (c # r))))"
          using p by (auto split: if_splits)
        then show ?thesis using r [OF _ l(2)] num_ok by simp
      qed (use r l in auto)
    qed
    then show ?thesis using shorter by auto
  qed
qed

fun frame_ok :: "nat \<Rightarrow> json_frame \<Rightarrow> bool" where
  "frame_ok n (InArr vs) \<longleftrightarrow> (\<forall>v \<in> set vs. json_ok n v)"
| "frame_ok n (InObj ms k) \<longleftrightarrow> valid_text k \<and> (\<forall>m \<in> set ms. valid_text (fst m) \<and> json_ok n (snd m))"

fun frames_ok :: "json_frame list \<Rightarrow> bool" where
  "frames_ok [] \<longleftrightarrow> True"
| "frames_ok (f # fs) \<longleftrightarrow> length fs < max_nesting \<and> frame_ok (max_nesting - Suc (length fs)) f \<and> frames_ok fs"

lemma json_ok_atom: "json_ok 0 v \<Longrightarrow> json_ok n v"
  by (cases v) auto

lemma values_ok:
  "want_value fs ts = Some r \<Longrightarrow> frames_ok fs \<Longrightarrow> list_all token_ok ts \<Longrightarrow> json_ok max_nesting r"
  "have_value fs v ts = Some r \<Longrightarrow> frames_ok fs \<Longrightarrow> json_ok (max_nesting - length fs) v \<Longrightarrow> list_all token_ok ts
   \<Longrightarrow> json_ok max_nesting r"
proof (induction fs ts and fs v ts arbitrary: r and r rule: want_value_have_value.induct)
  case (1 fs v ts)
  then show ?case by (simp add: want_value.simps json_ok_atom)
next
  case (2 fs ts)
  then show ?case by (cases ts rule: list.exhaust) (auto simp: want_value.simps split: if_splits json_token.splits)
next
  case (3 fs ts)
  then show ?case by (auto simp: want_value.simps split: if_splits list.splits json_token.splits json.splits)
qed (auto simp: want_value.simps have_value.simps Suc_diff_Suc split: if_splits)

lemma parsed_ok: "json_parse s = Some v \<Longrightarrow> json_ok max_nesting v"
  by (auto simp: json_parse_def split: option.splits intro: values_ok(1) dest: tokens_ok)

section \<open>Property\<close>

text \<open>C17: The canonical text of a call's arguments identifies their value. Two argument texts that decode have
  the same canonical text exactly if they decode to the same value, where the members of an
  object count without their order and a repeated key with its last value; and the canonical
  text decodes to that value again. So the detectors that compare canonical texts never take
  different arguments for a repetition, and are not misled by white space, by escapes or by the
  order of the keys.\<close>

theorem canonical_exact:
  assumes "json_parse a = Some va" "json_parse b = Some vb"
  shows "(canonical_json a = canonical_json b \<longleftrightarrow> json_normal va = json_normal vb)
    \<and> json_parse (canonical_json a) = Some (json_normal va)"
proof -
  have "json_parse (json_encode v) = Some (json_normal v)" if "json_parse s = Some v" for s v
    by (rule parse_encode [OF parsed_ok [OF that]])
  with assms show ?thesis
    unfolding canonical_json_def by (metis encode_normal option.inject option.simps(5))
qed

theorem canonical_exact_witness:
  "canonical_json (''{'' @ go_quote ''p'' @ '':'' @ go_quote ''a'' @ '', '' @ go_quote ''n'' @ '': 1}'')
     = canonical_json (''{'' @ go_quote ''n'' @ '':1,'' @ go_quote ''p'' @ '':'' @ go_quote ''a'' @ ''}'')"
proof -
  have "json_parse (''{'' @ go_quote ''p'' @ '':'' @ go_quote ''a'' @ '', '' @ go_quote ''n'' @ '': 1}'')
      = Some (JObj [(''p'', JStr ''a''), (''n'', JNum ''1'')])"
    "json_parse (''{'' @ go_quote ''n'' @ '':1,'' @ go_quote ''p'' @ '':'' @ go_quote ''a'' @ ''}'')
      = Some (JObj [(''n'', JNum ''1''), (''p'', JStr ''a'')])"
    by code_simp+
  moreover have "json_normal (JObj [(''p'', JStr ''a''), (''n'', JNum ''1'')]) = json_normal (JObj [(''n'', JNum ''1''), (''p'', JStr ''a'')])"
    by code_simp
  ultimately show ?thesis using canonical_exact by blast
qed

end
