(* ===== verification/Spec2Isabelle.thy ===== *)
theory Spec2Isabelle
  imports SessionFacts ToolFacts BestOf ReviewPass SseFilter JsonRound
begin

text \<open>
  Verification library for driver-os, a coding agent whose runs end in a deterministic
  gate. The agent proposes an answer; the harness decides, from executed commands and
  snapshots of the workspace, whether the answer counts. The development models the decision
  core: what a run is allowed to do (profiles, run specification, approval), what is watched
  while it runs (detectors, evidence, fence), and how it may end (the closing gate).

  Layers, from the bottom:

  \<^item> \<open>Prelude\<close>, \<open>Wp\<close>: byte strings with the Go functions on them, and a state
    monad with weakest preconditions. \<open>GoText\<close>, \<open>GoPath\<close>, \<open>Glob\<close>: the parts of
    \<open>strconv\<close>, \<open>strings\<close>, \<open>path\<close> and \<open>path.Match\<close> the code relies on.
  \<^item> \<open>Sandbox\<close> (\<open>sandbox/sandbox.go\<close>, \<open>sandbox/local\<close>, \<open>sandbox/gated\<close>): path confinement and
    the confirmation gate. \<open>RunOutput\<close> (\<open>agent/tools.go\<close>, \<open>agent/verify.go\<close>): the printed result
    of a command, its classification and fingerprint.
  \<^item> \<open>Trust\<close>, \<open>ApprovalPolicy\<close>, \<open>ExecProfile\<close> (\<open>profile/\<close>) and \<open>Runspec\<close> (\<open>runspec/\<close>): the
    floors of the trust profiles, the commands a headless run may execute, the merge of profile
    and flags, the resolved specification of a run.
  \<^item> \<open>FenceScope\<close> (\<open>agent/fence.go\<close>): protected test files and the writable scope.
    \<open>Evidence\<close> (\<open>agent/evidence.go\<close>, \<open>agent/spend.go\<close>, \<open>agent/tracker.go\<close>): the log behind the final
    guarantees. \<open>Detectors\<close> (\<open>agent/tracker.go\<close>): stagnation, repetition, exploration.
  \<^item> \<open>GateState\<close>, \<open>VerifyGate\<close>, \<open>ReviewGate\<close>, \<open>ReproGate\<close>, \<open>Finish\<close> (\<open>agent/gate.go\<close>,
    \<open>agent/verify.go\<close>, \<open>agent/review.go\<close>, \<open>agent/repro.go\<close>, \<open>agent/finish.go\<close>): the closing gate. The
    record \<open>gates\<close> holds what the Go methods of \<open>*gates\<close> assign; \<open>gate_deps\<close> holds what a run
    fixes, including one function per outside call.
  \<^item> \<open>Messages\<close>, \<open>Generate\<close>, \<open>Budget\<close> (\<open>agent/generate.go\<close>, \<open>agent/plan.go\<close>, \<open>llm/\<close>): messages and
    their eviction, one call of the model with its stream, retries and compaction, the dollar
    budget and the plan stage. \<open>GoJson\<close>: the part of \<open>encoding/json\<close> that is relied on.
    \<open>ParseAction\<close>, \<open>TextLoop\<close>, \<open>TextFacts\<close>, \<open>TextTrace\<close> (\<open>agent/loop_text.go\<close>): how a reply is read as
    an action, the loop that runs a task turn by turn, what an answered run has behind it, and
    what conversation and trace have to do with each other.
  \<^item> \<open>FileTools\<close>, \<open>EditTools\<close>, \<open>ToolFacts\<close> (\<open>agent/tools.go\<close>): the built-in tools, from the argument text
    to the observation; file access and commands are functions of the model.
  \<^item> \<open>NativeTools\<close>, \<open>Standing\<close>, \<open>NativeLoop\<close>, \<open>NativeFacts\<close>, \<open>NativeTalk\<close> (\<open>agent/loop_tools.go\<close>,
    \<open>agent/standing.go\<close>, \<open>agent/env.go\<close>): typed tool calls, the standing block, the loop over them, what
    an answered run has behind it, and the pairing of calls and results in its transcript.

  \<^item> \<open>AutoVerify\<close> (\<open>agent/autoverify.go\<close>): the verify command a run derives for itself, with its
    preflight. \<open>Toolset\<close> (\<open>agent/fence.go\<close>, \<open>agent/repro.go\<close>): the tools of a run as they are wrapped.
    \<open>Prompts\<close>, \<open>Environment\<close> (\<open>agent/prompt_family.go\<close>, \<open>agent/loop_text.go\<close>, \<open>agent/env.go\<close>,
    \<open>agent/memory.go\<close>): the system prompts and the first messages.
  \<^item> \<open>Setup\<close>, \<open>RunFacts\<close> (\<open>agent/runtime.go\<close>, \<open>agent/agent.go\<close>, both loops): whole runs, \<open>run_text\<close> and
    \<open>run_native\<close> for \<open>Run\<close> and \<open>RunNative\<close>, from a resolved specification to the result, and what
    a refused and an answered one have behind them.
  \<^item> \<open>Session\<close>, \<open>SessionFacts\<close> (\<open>agent/session.go\<close>, \<open>agent/session_config.go\<close>): a conversation over whole
    runs. Its steps are the inductive relation \<open>session_step\<close>; the background probe is a step that
    may come between any two others. The abstract conversation is \<open>chat_step\<close>.
  \<^item> \<open>ReviewPass\<close> (\<open>agent/review_pass.go\<close>): the review gate over a workspace that was changed elsewhere,
    and the repairs it asks for. \<open>BestOf\<close> (\<open>headless/bestof.go\<close>, \<open>eval/bestof.go\<close>): the choice among
    several attempts at a task, by structure and by a double-blind tournament.
  \<^item> \<open>SseFilter\<close> (\<open>provider/openaicompat/ssefilter.go\<close>): the byte machine in front of the decoder of a
    streamed reply. \<open>JsonRound\<close>: that printing and parsing of JSON are inverse.

  How the parts meet. \<open>Runspec.resolve_spec\<close> calls \<open>ExecProfile.resolve_profile\<close> and
  \<open>Trust.enforce\<close> and yields the \<open>policy_value\<close> that \<open>gate_deps\<close> carries. \<open>Finish.new_gates\<close> builds
  the gate: review baseline, fence and scope snapshots, measured baseline, run tree.
  \<open>Finish.finish\<close> is asked on every claim of the model to be done and runs the ladder safety
  (\<open>VerifyGate.verify_safety\<close>), verification (\<open>verify_completion\<close>), reproduction
  (\<open>ReproGate.repro_finish\<close>), review (\<open>ReviewGate.review_finish\<close>);
  \<open>Finish.upgrade_if_verified\<close> runs it for a stopped run, \<open>Finish.check_gate\<close> without a run.
  \<open>Setup.run_opened\<close> derives the verify command, builds the gates, hands them to a loop and puts
  their records on the result; \<open>Session.send_parts\<close> calls a whole run per turn and takes back what it
  decided about the verify command.

  The world outside (sandbox, git, file system, reviewer, clock) is a type variable \<open>'w\<close> threaded
  through every call: an answer may differ from one call to the next, a snapshot may fail, the
  user may cancel in between. A theorem that speaks of what was executed says that the outside
  call gave that answer in some world of the run. Where a law of an outside call is
  needed (a snapshot reads the workspace, a restoration puts one back) it is a named
  hypothesis, with a concrete instance in the witness (\<open>GateFacts.demo_deps\<close>).

  What the lemmas show. \<open>GateFacts\<close> and this theory: what an accepted answer, a rescue and a
  standalone verdict have behind them; \<open>TextFacts\<close> and \<open>NativeFacts\<close>: that a whole run of
  either loop keeps this; \<open>TextTrace\<close> and \<open>NativeTalk\<close>: that trace and conversation agree;
  \<open>ToolFacts\<close>: that an edit changes one place, that a search stays within its authority.
  \<open>GateFacts\<close> also shows that reproductions leave no trace, that repeated claims are bounded,
  that baselines are exact and their cache faithful, and that an armed gate is never silently
  missing. \<open>FenceScope\<close>: the drift check is exact and the refusals protect the files.
  \<open>Evidence\<close>: a guarantee is never stale. \<open>Detectors\<close>: kills come exactly at their
  thresholds, and exploration ends. \<open>Runspec\<close>, \<open>ExecProfile\<close>, \<open>Trust\<close>, \<open>ApprovalPolicy\<close>:
  floors are kept, precedence is as documented, authorized commands stay in the workspace.

  \<open>RunFacts\<close>: an answered run of either protocol was opened with the gates of its specification and
  accepted by them; a run below the floor does nothing. \<open>SessionFacts\<close>: a session refines the
  abstract conversation, keeps its transcript acceptable and its policy resolved, and keeps a
  decision about the verify gate, but for the late result of a probe.

  \<open>ReviewPass\<close>: no repair leaves the loop unreviewed. \<open>BestOf\<close>: the winner of the tournament does not
  depend on positions, and both copies of the structural choice agree. \<open>SseFilter\<close>: the filter loses no
  event and dispatches no empty block, however the bytes arrive. \<open>JsonRound\<close>: equal canonical arguments
  are equal values.

  Interfaces as locales: \<open>SessionFacts.turn_loop\<close> states what a session relies on in the loop it runs
  and is interpreted for both; \<open>Trust.floor_dim\<close> and \<open>graded_dim\<close> state what every dimension of a
  posture promises and are interpreted for all seven; \<open>Detectors.repeat_counter\<close> states what a
  streak counter promises and is interpreted for the three counters of the turn tracker.

  Bounds. Go's \<open>int\<close> is modelled without overflow: the counters count turns and rounds. There is
  no fuel: every function of the development is total, by structural recursion or a measure.

  Not modelled: the providers (but for the stream filter), processes and containers, file access itself and git itself, the
  command line and the evaluation harness (but for the choice among attempts), observer notes, run identifiers and times, the
  records written for the log, and the memory that an accepted answer may be written to.
\<close>

section \<open>The closing gate as a whole\<close>

text \<open>C4: An answer that the gate accepts is backed. If \<open>finish\<close> says answered, the answer is the
  model's own and not blank; the test fence held and every change was in scope; unless the
  finish tool is trusted, a configured verify command that is not a mere suggestion ended with
  exit code zero in this very finish, or nothing changed since a measured green baseline; in
  repro-first mode the declared reproduction still has its locked digest and passes (or was
  skipped, or timed out on the record); and a configured review let it pass.\<close>

theorem finish_answered:
  assumes "run_state (finish D fi) s = (FinishAnswered ans, t)"
    and "\<forall>rv. g_review s = Some rv \<longrightarrow> review_wf rv"
  shows "ans = fi_answer fi \<and> trim_space ans \<noteq> [] \<and> fence_held D s \<and> scope_held D s
    \<and> (\<not> fi_trusted fi \<longrightarrow> vs_cmd (g_vs s) \<noteq> [] \<longrightarrow> \<not> vs_auto_soft (g_vs s) \<longrightarrow>
         (\<exists>r tree. exec_answered D (vs_cmd (g_vs t)) (vs_timeout (g_vs t)) (Inr r) \<and> exit_code r = 0
            \<and> g_closing t = Some (new_verification_record (vs_cmd (g_vs t)) (format_run r) tree))
         \<or> (tree_answered D (g_run_base t) \<and> g_base_measured t \<and> \<not> g_base_red t))
    \<and> (pv_repro_first (d_pol D) \<longrightarrow> (\<exists>rp. g_repro t = Some rp \<and> repro_held D (vs_timeout (g_vs s)) rp))
    \<and> (\<not> fi_trusted fi \<longrightarrow> review_passed D s t)"
  using wpD [OF wp_finish [OF assms(2)] assms(1)]
  by (auto simp: answer_backed_def verified_def unchanged_green_def)

definition demo_claim :: "string \<Rightarrow> finish_input" where
  "demo_claim ans =
     \<lparr> fi_answer = ans, fi_last_run_failed = False, fi_can_continue = True, fi_trusted = False, fi_phrase = ''p'' \<rparr>"

theorem finish_answered_witness:
  "\<exists>t. run_state (finish demo_deps (demo_claim ''done'')) (demo_gate ''pass'' ''good'') = (FinishAnswered ''done'', t)
     \<and> g_closing t \<noteq> None"
proof -
  let ?s = "demo_gate ''pass'' ''good''"
  obtain d t where r: "run_state (finish demo_deps (demo_claim ''done'')) ?s = (d, t)"
    by (metis prod.exhaust)
  have "fst (run_state (finish demo_deps (demo_claim ''done'')) ?s) = FinishAnswered ''done''"
    by code_simp
  with r have r': "run_state (finish demo_deps (demo_claim ''done'')) ?s = (FinishAnswered ''done'', t)" by simp
  have s: "g_review ?s = None" "vs_cmd (g_vs ?s) = ''pass''" "\<not> vs_auto_soft (g_vs ?s)"
    by (simp_all add: demo_gate_def start_gates_def demo_vs_def new_verify_state_def base_policy_def)
  have m: "\<not> g_base_measured (snd (run_state (finish demo_deps (demo_claim ''done'')) ?s))"
    by code_simp
  from finish_answered [OF r'] s m r' have "g_closing t \<noteq> None"
    by (auto simp: demo_claim_def)
  with r' show ?thesis by blast
qed


definition demo_capped :: run_result where
  "demo_capped =
     \<lparr> rr_outcome = HitCap, rr_reason = ''cap'', rr_answer = [], rr_rescued_from = None, rr_infra = [] \<rparr>"


lemma closing_review:
  assumes "g_review u = g_review s" "snd c = []"
    "\<forall>rv. g_review u = Some rv \<longrightarrow> (\<exists>rv'. g_review v = Some rv' \<and> review_outcome D False rv c rv')"
  shows "\<forall>rv. g_review s = Some rv \<longrightarrow> (\<exists>rv'. review_outcome D False rv ([], []) rv' \<and> g_review v = Some rv')"
proof (intro allI impI)
  fix rv assume "g_review s = Some rv"
  then obtain rv' where "g_review v = Some rv'" "review_outcome D False rv c rv'"
    using assms(1,3) by auto
  moreover from this have "c = ([], [])"
    using assms(2) by (cases c) (auto simp: review_outcome_def)
  ultimately show "\<exists>rv'. review_outcome D False rv ([], []) rv' \<and> g_review v = Some rv'" by blast
qed



text \<open>The standalone gate never looks at the scope it has snapshotted.\<close>

lemma check_gate_scope_blind:
  "\<exists>s. gc_reason (fst (run_state (scope_check demo_deps) s)) \<noteq> []
     \<and> \<not> gp_blocked (fst (run_state (check_gate demo_deps) s))"
proof -
  let ?s = "(demo_gate ''pass'' ''good'')\<lparr>g_scope := Some \<lparr> sc_globs = [''docs/**''], sc_base = Inr ''old'' \<rparr>\<rparr>"
  have "gc_reason (fst (run_state (scope_check demo_deps) ?s)) \<noteq> []" by code_simp
  moreover have "\<not> gp_blocked (fst (run_state (check_gate demo_deps) ?s))" by code_simp
  ultimately show ?thesis by blast
qed

end
